(* ===== verification/Prelude.thy ===== *)
theory Prelude
  imports Main "HOL-Library.Char_ord" "HOL-Library.List_Lexorder"
begin

text \<open>
  What every component shares: the types of identifiers and times, decimal numerals as text,
  the part of a database session that every table access needs (clock, fresh identifiers and the
  tenant context that row level security reads), results of operations that can raise, and the
  named collections the component theories add to.

  An identifier (\<open>uuid\<close>) is a natural number. \<open>str(uuid)\<close> is its decimal numeral: the code uses
  the text of an identifier only as an injective key. A time is an \<open>int\<close> counting microseconds,
  the resolution of Python's \<open>datetime\<close> and of Postgres' \<open>timestamptz\<close>.
\<close>

named_theorems frame_simps \<open>fields an operation leaves alone\<close>
named_theorems rls_simps \<open>visibility under row level security\<close>

type_synonym uuid = nat
type_synonym time = int

abbreviation seconds :: "int \<Rightarrow> time" where
  "seconds n \<equiv> n * 1000000"

abbreviation hours :: "int \<Rightarrow> time" where
  "hours n \<equiv> n * 3600000000"

abbreviation days :: "int \<Rightarrow> time" where
  "days n \<equiv> n * 86400000000"

subsection \<open>Operations that can raise\<close>

text \<open>
  A coroutine that reads and writes the session is a function from the session state to its
  outcome and the new state. A raised exception (\<open>Inl\<close>) keeps the state as it was when it was
  raised; a caller that rolls back does so explicitly.
\<close>

type_synonym ('e, 'a, 's) op = "'s \<Rightarrow> ('e + 'a) \<times> 's"

definition ok :: "('e + 'a) \<times> 's \<Rightarrow> bool" where
  "ok r \<longleftrightarrow> (case fst r of Inl _ \<Rightarrow> False | Inr _ \<Rightarrow> True)"

lemma ok_simps [simp]: "ok (Inl e, s) = False" "ok (Inr x, s) = True"
  by (simp_all add: ok_def)

definition commit_or_rollback :: "('e, 'a, 's) op \<Rightarrow> ('e, 'a, 's) op" where
  "commit_or_rollback f s =
     (case f s of (Inl e, _) \<Rightarrow> (Inl e, s) | (Inr x, s') \<Rightarrow> (Inr x, s'))"

lemma commit_or_rollback_Inl: "f s = (Inl e, s') \<Longrightarrow> commit_or_rollback f s = (Inl e, s)"
  by (simp add: commit_or_rollback_def)

lemma commit_or_rollback_Inr: "f s = (Inr x, s') \<Longrightarrow> commit_or_rollback f s = (Inr x, s')"
  by (simp add: commit_or_rollback_def)

text \<open>Sequencing: an exception skips what follows.\<close>

definition op_bind :: "('e, 'a, 's) op \<Rightarrow> ('a \<Rightarrow> ('e, 'b, 's) op) \<Rightarrow> ('e, 'b, 's) op" where
  "op_bind f g s = (case f s of (Inl e, s1) \<Rightarrow> (Inl e, s1) | (Inr x, s1) \<Rightarrow> g x s1)"

definition op_require :: "bool \<Rightarrow> 'e \<Rightarrow> ('e, unit, 's) op" where
  "op_require b e s = (if b then Inr () else Inl e, s)"

definition op_error :: "('e \<Rightarrow> 'f) \<Rightarrow> ('e, 'a, 's) op \<Rightarrow> ('f, 'a, 's) op" where
  "op_error w f s = (case f s of (Inl e, s1) \<Rightarrow> (Inl (w e), s1) | (Inr x, s1) \<Rightarrow> (Inr x, s1))"

lemma op_bind_Inr: "op_bind f g s = (Inr y, s2) \<longleftrightarrow> (\<exists>x s1. f s = (Inr x, s1) \<and> g x s1 = (Inr y, s2))"
  by (auto simp: op_bind_def split: prod.split sum.split)

lemma op_require_Inr: "op_require b e s = (Inr u, s1) \<longleftrightarrow> b \<and> s1 = s"
  by (auto simp: op_require_def)

lemma op_error_Inr: "op_error w f s = (Inr x, s1) \<longleftrightarrow> f s = (Inr x, s1)"
  by (auto simp: op_error_def split: prod.split sum.split)

lemmas op_Inr = op_bind_Inr op_require_Inr op_error_Inr

text \<open>A property of the state that an operation keeps, whether or not it raises.\<close>

definition op_keeps :: "('s \<Rightarrow> bool) \<Rightarrow> ('e, 'a, 's) op \<Rightarrow> bool" where
  "op_keeps P f \<longleftrightarrow> (\<forall>s. P s \<longrightarrow> P (snd (f s)))"

lemma op_keepsI: "(\<And>s. P s \<Longrightarrow> P (snd (f s))) \<Longrightarrow> op_keeps P f"
  by (simp add: op_keeps_def)

lemma op_keepsD: "op_keeps P f \<Longrightarrow> P s \<Longrightarrow> f s = (r, s1) \<Longrightarrow> P s1"
  by (metis op_keeps_def snd_conv)

lemma op_keeps_bind [intro]: "op_keeps P f \<Longrightarrow> (\<And>x. op_keeps P (g x)) \<Longrightarrow> op_keeps P (op_bind f g)"
  by (force simp: op_keeps_def op_bind_def split: prod.split sum.split)

lemma op_keeps_require [intro, simp]: "op_keeps P (op_require b e)"
  by (simp add: op_keeps_def op_require_def)

lemma op_keeps_error [intro]: "op_keeps P f \<Longrightarrow> op_keeps P (op_error w f)"
  by (force simp: op_keeps_def op_error_def split: prod.split sum.split)

subsection \<open>The session\<close>

record base_db =
  now :: time
  fresh :: uuid
  org_ctx :: "uuid option"

definition set_org_context :: "uuid \<Rightarrow> 'a base_db_scheme \<Rightarrow> 'a base_db_scheme" where
  "set_org_context org s = s\<lparr>org_ctx := Some org\<rparr>"

lemma set_org_context_sel [simp]:
  "org_ctx (set_org_context org s) = Some org"
  "now (set_org_context org s) = now s"
  "fresh (set_org_context org s) = fresh s"
  by (simp_all add: set_org_context_def)

lemma set_org_context_idem [simp]:
  "set_org_context o1 (set_org_context o2 s) = set_org_context o1 s"
  by (simp add: set_org_context_def)

text \<open>
  Row level security (\<open>migrations/lib/rls.py\<close>): a row is visible, and may be inserted, exactly
  when its \<open>org_id\<close> is the session's \<open>app.org_id\<close>; with no context nothing is visible.
\<close>

definition rls_visible :: "'a base_db_scheme \<Rightarrow> uuid \<Rightarrow> bool" where
  "rls_visible s org \<longleftrightarrow> Some org = org_ctx s"

lemma rls_visible_set_org_context [simp, rls_simps]:
  "rls_visible (set_org_context o1 s) o2 \<longleftrightarrow> o2 = o1"
  by (simp add: rls_visible_def)

lemma rls_no_context [rls_simps]: "org_ctx s = None \<Longrightarrow> \<not> rls_visible s org"
  by (simp add: rls_visible_def)

subsection \<open>Numerals as text\<close>

definition digit_char :: "nat \<Rightarrow> char" where
  "digit_char d = char_of (48 + d)"

definition is_digit :: "char \<Rightarrow> bool" where
  "is_digit c \<longleftrightarrow> 48 \<le> (of_char c :: nat) \<and> (of_char c :: nat) \<le> 57"

fun nat_str :: "nat \<Rightarrow> string" where
  "nat_str n = (if n < 10 then [digit_char n] else nat_str (n div 10) @ [digit_char (n mod 10)])"

declare nat_str.simps [simp del]

definition int_str :: "int \<Rightarrow> string" where
  "int_str i = (if i < 0 then CHR ''-'' # nat_str (nat (- i)) else nat_str (nat i))"

definition digit_val :: "char \<Rightarrow> nat" where
  "digit_val c = of_char c - 48"

definition digits_val :: "string \<Rightarrow> nat" where
  "digits_val cs = foldl (\<lambda>acc c. 10 * acc + digit_val c) 0 cs"

lemma of_digit_char: "d < 10 \<Longrightarrow> (of_char (digit_char d) :: nat) = 48 + d"
  by (simp add: digit_char_def)

lemma digit_val_digit_char [simp]: "d < 10 \<Longrightarrow> digit_val (digit_char d) = d"
  by (simp add: digit_val_def of_digit_char)

lemma is_digit_digit_char [simp]: "d < 10 \<Longrightarrow> is_digit (digit_char d)"
  by (simp add: is_digit_def of_digit_char)

lemma digits_val_nat_str [simp]: "digits_val (nat_str n) = n"
proof (induction n rule: nat_str.induct)
  case (1 n)
  show ?case
  proof (cases "n < 10")
    case True
    then show ?thesis by (subst nat_str.simps) (simp add: digits_val_def)
  next
    case False
    with 1 have "foldl (\<lambda>acc c. 10 * acc + digit_val c) 0 (nat_str (n div 10)) = n div 10"
      by (simp add: digits_val_def)
    with False show ?thesis by (subst nat_str.simps) (simp add: digits_val_def)
  qed
qed

lemma nat_str_inject [simp]: "nat_str m = nat_str n \<longleftrightarrow> m = n"
  by (metis digits_val_nat_str)

lemma nat_str_digits: "list_all is_digit (nat_str n)"
proof (induction n rule: nat_str.induct)
  case (1 n)
  then show ?case by (cases "n < 10") (simp_all add: nat_str.simps [of n])
qed

lemma nat_str_nonempty [simp]: "nat_str n \<noteq> []"
  by (subst nat_str.simps) simp

subsection \<open>Association lists as JSON objects and rows\<close>

lemma map_of_filter_fst: "P k \<Longrightarrow> map_of (filter (\<lambda>p. P (fst p)) xs) k = map_of xs k"
  by (induction xs) auto

subsection \<open>Lists\<close>

text \<open>\<open>UPDATE ... WHERE\<close>: rewrite the rows a predicate selects.\<close>

definition update_where :: "('r \<Rightarrow> bool) \<Rightarrow> ('r \<Rightarrow> 'r) \<Rightarrow> 'r list \<Rightarrow> 'r list" where
  "update_where p f rows = map (\<lambda>r. if p r then f r else r) rows"

lemma update_where_Nil [simp]: "update_where p f [] = []"
  by (simp add: update_where_def)

lemma update_where_Cons [simp]:
  "update_where p f (r # rs) = (if p r then f r else r) # update_where p f rs"
  by (simp add: update_where_def)

lemma update_where_append [simp]:
  "update_where p f (xs @ ys) = update_where p f xs @ update_where p f ys"
  by (simp add: update_where_def)

lemma length_update_where [simp]: "length (update_where p f rows) = length rows"
  by (simp add: update_where_def)

lemma update_where_none: "(\<And>r. r \<in> set rows \<Longrightarrow> \<not> p r) \<Longrightarrow> update_where p f rows = rows"
  by (induction rows) auto

lemma filter_update_where_disjoint:
  "(\<And>r. p r \<Longrightarrow> \<not> q r \<and> \<not> q (f r)) \<Longrightarrow> filter q (update_where p f rows) = filter q rows"
  by (induction rows) auto

lemma map_update_where:
  "(\<And>r. p r \<Longrightarrow> g (f r) = g r) \<Longrightarrow> map g (update_where p f rows) = map g rows"
  by (induction rows) auto

lemma set_update_where:
  "set (update_where p f rows) = {r \<in> set rows. \<not> p r} \<union> f ` {r \<in> set rows. p r}"
  by (induction rows) auto

lemma find_Some_set: "find p xs = Some x \<Longrightarrow> x \<in> set xs \<and> p x"
  by (induction xs) (auto split: if_splits)

lemma find_append:
  "find p (xs @ ys) = (case find p xs of None \<Rightarrow> find p ys | Some x \<Rightarrow> Some x)"
  by (induction xs) auto

lemma find_None_iff_ball: "find p xs = None \<longleftrightarrow> (\<forall>x \<in> set xs. \<not> p x)"
  by (induction xs) auto

lemma find_update_where:
  "(\<And>r. q (f r) = q r) \<Longrightarrow>
   find q (update_where p f rows) = map_option (\<lambda>r. if p r then f r else r) (find q rows)"
  by (induction rows) auto

lemma find_unique:
  "distinct (map key rows) \<Longrightarrow> r \<in> set rows \<Longrightarrow> find (\<lambda>x. key x = key r) rows = Some r"
  by (induction rows) force+

subsection \<open>\<open>ORDER BY key LIMIT 1\<close>\<close>

fun order_first :: "('r \<Rightarrow> 'k::linorder) \<Rightarrow> 'r list \<Rightarrow> 'r option" where
  "order_first key [] = None"
| "order_first key (x # xs) = (case order_first key xs of None \<Rightarrow> Some x
     | Some y \<Rightarrow> if key x \<le> key y then Some x else Some y)"

lemma order_first_None [simp]: "order_first key xs = None \<longleftrightarrow> xs = []"
  by (cases xs) (auto split: option.splits)

lemma order_first_Some:
  "order_first key xs = Some x \<Longrightarrow> x \<in> set xs \<and> (\<forall>y \<in> set xs. key x \<le> key y)"
proof (induction xs arbitrary: x)
  case (Cons a xs)
  then show ?case
    by (cases "order_first key xs") (fastforce split: if_splits)+
qed simp

lemma order_first_exists: "xs \<noteq> [] \<Longrightarrow> \<exists>x. order_first key xs = Some x"
  using order_first_None [of key xs] by (cases "order_first key xs") auto

lemma order_first_append_least:
  "(\<And>y. y \<in> set xs \<Longrightarrow> key x < key y) \<Longrightarrow> order_first key (xs @ [x]) = Some x"
proof (induction xs)
  case (Cons a xs)
  from Cons.prems [of a] have "key x < key a" by simp
  moreover have "order_first key (xs @ [x]) = Some x" using Cons by simp
  ultimately show ?case by (simp add: not_le [symmetric])
qed simp

end
