(* ===== verification/Json.thy ===== *)
theory Json
  imports Prelude
begin

text \<open>
  JSON values as the code stores, hashes and passes them, and \<open>canonical_json\<close>
  (\<open>core/audit/writer.py\<close>): the text that every hash and every signature of the program is
  computed over. The result of the theory is that this text determines the value up to the order
  of object keys (\<open>canonical_json_inject\<close>), so a hash of it commits to the value.

  A Python string is a \<open>string\<close> of code points below 256. Floats do not occur: the code keeps
  them out of everything that is hashed or priced.
\<close>

datatype json =
    JNull
  | JBool bool
  | JInt int
  | JStr string
  | JArr "json list"
  | JObj "(string \<times> json) list"

abbreviation JId :: "uuid \<Rightarrow> json" where
  "JId u \<equiv> JStr (nat_str u)"

definition json_of_string_option :: "string option \<Rightarrow> json" where
  "json_of_string_option x = (case x of None \<Rightarrow> JNull | Some s \<Rightarrow> JStr s)"

lemma json_of_string_option_inject [simp]:
  "json_of_string_option x = json_of_string_option y \<longleftrightarrow> x = y"
  by (auto simp: json_of_string_option_def split: option.splits)

text \<open>\<open>d.get(k)\<close> of a dict; anything else has no keys.\<close>

fun jget :: "json \<Rightarrow> string \<Rightarrow> json option" where
  "jget (JObj kvs) k = map_of kvs k"
| "jget _ k = None"

text \<open>\<open>d.get(k)\<close>, with \<open>None\<close> for an absent key.\<close>

definition jget_null :: "json \<Rightarrow> string \<Rightarrow> json" where
  "jget_null j k = (case jget j k of None \<Rightarrow> JNull | Some v \<Rightarrow> v)"

lemma jget_null_Obj [simp]: "jget_null (JObj kvs) k = (case map_of kvs k of None \<Rightarrow> JNull | Some v \<Rightarrow> v)"
  by (simp add: jget_null_def)

text \<open>Python truthiness of a decoded JSON value.\<close>

fun truthy :: "json \<Rightarrow> bool" where
  "truthy JNull = False"
| "truthy (JBool b) = b"
| "truthy (JInt i) = (i \<noteq> 0)"
| "truthy (JStr s) = (s \<noteq> [])"
| "truthy (JArr xs) = (xs \<noteq> [])"
| "truthy (JObj kvs) = (kvs \<noteq> [])"

subsection \<open>\<open>json.dumps(sort_keys=True, separators=(",", ":"), ensure_ascii=False)\<close>\<close>

definition hex_char :: "nat \<Rightarrow> char" where
  "hex_char d = (if d < 10 then char_of (48 + d) else char_of (87 + d))"

definition esc :: "char \<Rightarrow> string" where
  "esc c =
     (if c = CHR 0x22 then [CHR 0x5C, CHR 0x22]
      else if c = CHR 0x5C then [CHR 0x5C, CHR 0x5C]
      else if c = CHR 0x08 then [CHR 0x5C, CHR ''b'']
      else if c = CHR 0x0C then [CHR 0x5C, CHR ''f'']
      else if c = CHR 0x0A then [CHR 0x5C, CHR ''n'']
      else if c = CHR 0x0D then [CHR 0x5C, CHR ''r'']
      else if c = CHR 0x09 then [CHR 0x5C, CHR ''t'']
      else if (of_char c :: nat) < 32
        then [CHR 0x5C, CHR ''u'', CHR ''0'', CHR ''0'',
              hex_char (of_char c div 16), hex_char (of_char c mod 16)]
      else [c])"

definition quote :: "string \<Rightarrow> string" where
  "quote s = CHR 0x22 # concat (map esc s) @ [CHR 0x22]"

fun join :: "string list \<Rightarrow> string" where
  "join [] = []"
| "join [x] = x"
| "join (x # xs) = x @ CHR '','' # join xs"

fun jprint :: "json \<Rightarrow> string" where
  "jprint JNull = ''null''"
| "jprint (JBool b) = (if b then ''true'' else ''false'')"
| "jprint (JInt i) = int_str i"
| "jprint (JStr s) = quote s"
| "jprint (JArr xs) = CHR ''['' # join (map jprint xs) @ '']''"
| "jprint (JObj kvs) =
     CHR ''{'' # join (map (\<lambda>kv. quote (fst kv) @ CHR '':'' # jprint (snd kv)) kvs) @ ''}''"

fun sort_keys :: "json \<Rightarrow> json" where
  "sort_keys (JArr xs) = JArr (map sort_keys xs)"
| "sort_keys (JObj kvs) = JObj (sort_key fst (map (\<lambda>kv. (fst kv, sort_keys (snd kv))) kvs))"
| "sort_keys j = j"

definition canonical_json :: "json \<Rightarrow> string" where
  "canonical_json j = jprint (sort_keys j)"

subsection \<open>The text of a string can be read back\<close>

lemma of_hex_char:
  "a < 16 \<Longrightarrow> (of_char (hex_char a) :: nat) = (if a < 10 then 48 + a else 87 + a)"
  by (simp add: hex_char_def)

lemma hex_char_inject:
  assumes "a < 16" "b < 16"
  shows "hex_char a = hex_char b \<longleftrightarrow> a = b"
proof
  assume "hex_char a = hex_char b"
  then have "(of_char (hex_char a) :: nat) = of_char (hex_char b)" by simp
  with assms show "a = b" by (simp add: of_hex_char split: if_splits)
qed simp

lemma of_char_div_mod_inject:
  "(of_char c :: nat) div 16 = of_char d div 16 \<Longrightarrow> (of_char c :: nat) mod 16 = of_char d mod 16
   \<Longrightarrow> c = d"
  by (metis mult_div_mod_eq of_char_eq_iff)

lemma esc_nonempty [simp]: "esc c \<noteq> []"
  by (simp add: esc_def)

lemma hd_esc: "hd (esc c) \<noteq> CHR 0x22"
  by (simp add: esc_def)

lemma esc_prefix_free: "esc c @ u = esc d @ v \<Longrightarrow> c = d \<and> u = v"
  unfolding esc_def
  by (auto split: if_splits simp: hex_char_inject intro: of_char_div_mod_inject)

lemma esc_append_neq_quote: "esc c @ u \<noteq> CHR 0x22 # v"
  using hd_esc [of c] by (cases "esc c") auto

lemma quote_body_inject:
  "concat (map esc s) @ CHR 0x22 # u = concat (map esc t) @ CHR 0x22 # v \<Longrightarrow> s = t \<and> u = v"
proof (induction s arbitrary: t)
  case outer: Nil
  show ?case
  proof (cases t)
    case Nil
    with outer show ?thesis by simp
  next
    case (Cons d t')
    with outer have "CHR 0x22 # u = esc d @ (concat (map esc t') @ CHR 0x22 # v)"
      by (simp only: list.map concat.simps append_Nil append_assoc)
    then show ?thesis using esc_append_neq_quote by metis
  qed
next
  case (Cons c s)
  show ?case
  proof (cases t)
    case Nil
    with Cons.prems have "esc c @ (concat (map esc s) @ CHR 0x22 # u) = CHR 0x22 # v"
      by (simp only: list.map concat.simps append_Nil append_assoc)
    then show ?thesis using esc_append_neq_quote by metis
  next
    case t: (Cons d t')
    with Cons.prems have eq: "esc c @ (concat (map esc s) @ CHR 0x22 # u)
      = esc d @ (concat (map esc t') @ CHR 0x22 # v)"
      by (simp only: list.map concat.simps append_assoc)
    from esc_prefix_free [OF eq] have cd: "c = d"
      and rest: "concat (map esc s) @ CHR 0x22 # u = concat (map esc t') @ CHR 0x22 # v" by simp_all
    from Cons.IH [OF rest] cd t show ?thesis by simp
  qed
qed

lemma quote_prefix_free: "quote s @ u = quote t @ v \<Longrightarrow> s = t \<and> u = v"
  using quote_body_inject [of s u t v] by (simp add: quote_def)

subsection \<open>The text of a value can be read back\<close>

text \<open>What may follow a value inside a larger text: nothing, a separator or a closing bracket.\<close>

definition delimited :: "string \<Rightarrow> bool" where
  "delimited r \<longleftrightarrow> (case r of [] \<Rightarrow> True | c # _ \<Rightarrow> c \<in> {CHR '','', CHR '']'', CHR ''}''})"

lemma delimited_simps [simp]:
  "delimited []" "delimited (CHR '','' # r)" "delimited (CHR '']'' # r)" "delimited (CHR ''}'' # r)"
  by (simp_all add: delimited_def)

lemma digit_not_delimited: "is_digit c \<Longrightarrow> \<not> delimited (c # r)"
  by (auto simp: delimited_def is_digit_def)

lemma digits_prefix_free:
  "list_all is_digit a \<Longrightarrow> list_all is_digit b \<Longrightarrow> delimited u \<Longrightarrow> delimited v \<Longrightarrow>
   a @ u = b @ v \<Longrightarrow> a = b \<and> u = v"
proof (induction a arbitrary: b)
  case Nil
  then show ?case using digit_not_delimited by (cases b) simp_all
next
  case (Cons x a)
  then show ?case using digit_not_delimited by (cases b) auto
qed

lemma nat_str_prefix_free:
  "delimited u \<Longrightarrow> delimited v \<Longrightarrow> nat_str m @ u = nat_str n @ v \<Longrightarrow> m = n \<and> u = v"
  using digits_prefix_free [of "nat_str m" "nat_str n"] nat_str_digits nat_str_inject by blast

datatype shape = SNull | STrue | SFalse | SNum | SText | SArr | SObj

fun shape_of :: "json \<Rightarrow> shape" where
  "shape_of JNull = SNull"
| "shape_of (JBool b) = (if b then STrue else SFalse)"
| "shape_of (JInt i) = SNum"
| "shape_of (JStr s) = SText"
| "shape_of (JArr xs) = SArr"
| "shape_of (JObj kvs) = SObj"

definition char_shape :: "char \<Rightarrow> shape" where
  "char_shape c =
     (if c = CHR ''n'' then SNull else if c = CHR ''t'' then STrue else if c = CHR ''f'' then SFalse
      else if c = CHR 0x22 then SText else if c = CHR ''['' then SArr else if c = CHR ''{'' then SObj
      else SNum)"

lemma hd_nat_str: "is_digit (hd (nat_str n))"
  using nat_str_digits [of n] by (cases "nat_str n") auto

lemma char_shape_digit: "is_digit c \<Longrightarrow> char_shape c = SNum"
  by (auto simp: char_shape_def is_digit_def)

lemma int_str_nonempty [simp]: "int_str i \<noteq> []"
  by (simp add: int_str_def)

lemma jprint_nonempty [simp]: "jprint j \<noteq> []"
  by (cases j) (simp_all add: quote_def)

lemma char_shape_hd_jprint: "char_shape (hd (jprint j)) = shape_of j"
proof (cases j)
  case (JInt i)
  then show ?thesis
    by (cases "i < 0") (simp_all add: int_str_def char_shape_digit hd_nat_str, simp add: char_shape_def)
qed (simp_all add: char_shape_def quote_def)

lemma jprint_same_shape:
  assumes "jprint a @ u = jprint b @ v"
  shows "shape_of a = shape_of b"
proof -
  have "hd (jprint a) = hd (jprint b)"
    using assms by (metis hd_append2 jprint_nonempty)
  then show ?thesis by (metis char_shape_hd_jprint)
qed

lemma shape_of_eq:
  "shape_of b = SNull \<longleftrightarrow> b = JNull" "shape_of b = STrue \<longleftrightarrow> b = JBool True"
  "shape_of b = SFalse \<longleftrightarrow> b = JBool False" "shape_of b = SNum \<longleftrightarrow> (\<exists>i. b = JInt i)"
  "shape_of b = SText \<longleftrightarrow> (\<exists>s. b = JStr s)" "shape_of b = SArr \<longleftrightarrow> (\<exists>xs. b = JArr xs)"
  "shape_of b = SObj \<longleftrightarrow> (\<exists>kvs. b = JObj kvs)"
  by (cases b; simp)+

lemma int_str_prefix_free:
  assumes d: "delimited u" "delimited v" and eq: "int_str i @ u = int_str k @ v"
  shows "i = k \<and> u = v"
proof -
  have minus: "(i < 0) = (hd (int_str i) = CHR ''-'')" for i
  proof (cases "i < 0")
    case False
    then have "is_digit (hd (int_str i))" by (simp add: int_str_def hd_nat_str)
    with False show ?thesis by (auto simp: is_digit_def)
  qed (simp add: int_str_def)
  have "hd (int_str i) = hd (int_str k)"
    using eq by (metis hd_append2 int_str_nonempty)
  then have s: "(i < 0) = (k < 0)" by (simp add: minus)
  show ?thesis
  proof (cases "i < 0")
    case True
    with s eq have "nat_str (nat (- i)) @ u = nat_str (nat (- k)) @ v" by (simp add: int_str_def)
    from nat_str_prefix_free [OF d this] True s show ?thesis by auto
  next
    case False
    with s eq have "nat_str (nat i) @ u = nat_str (nat k) @ v" by (simp add: int_str_def)
    from nat_str_prefix_free [OF d this] False s show ?thesis by (simp add: eq_nat_nat_iff)
  qed
qed

text \<open>Reading back a comma separated sequence whose items can each be read back.\<close>

lemma join_prefix_free:
  assumes item: "\<And>x y u v. x \<in> set xs \<Longrightarrow> delimited u \<Longrightarrow> delimited v \<Longrightarrow> f x @ u = f y @ v \<Longrightarrow>
      x = y \<and> u = v"
    and close: "c = CHR '']'' \<or> c = CHR ''}''"
    and first: "\<And>x. f x \<noteq> [] \<and> hd (f x) \<noteq> c"
    and eq: "join (map f xs) @ c # u = join (map f ys) @ c # v"
  shows "xs = ys \<and> u = v"
  using item eq
proof (induction xs arbitrary: ys)
  case Nil
  show ?case
  proof (cases ys)
    case Nil
    with Nil.prems show ?thesis by simp
  next
    case (Cons y ys')
    then have "\<exists>r. join (map f ys) = f y @ r" by (cases ys') auto
    with Nil.prems(2) first [of y] show ?thesis by (cases "f y") auto
  qed
next
  case (Cons x xs)
  define tx where "tx = (if xs = [] then c # u else CHR '','' # join (map f xs) @ c # u)"
  have lx: "join (map f (x # xs)) @ c # u = f x @ tx" by (cases xs) (auto simp: tx_def)
  show ?case
  proof (cases ys)
    case Nil
    with Cons.prems(2) lx first [of x] show ?thesis by (cases "f x") auto
  next
    case ys: (Cons y ys')
    define ty where "ty = (if ys' = [] then c # v else CHR '','' # join (map f ys') @ c # v)"
    have ly: "join (map f ys) @ c # v = f y @ ty" by (cases ys') (auto simp: ty_def ys)
    have "x = y \<and> tx = ty"
      by (rule Cons.prems(1)) (use Cons.prems(2) lx ly close in \<open>auto simp: tx_def ty_def\<close>)
    then have xy: "x = y" and t: "tx = ty" by simp_all
    show ?thesis
    proof (cases "xs = []")
      case True
      with t close have "ys' = [] \<and> u = v" by (auto simp: tx_def ty_def split: if_splits)
      with True xy ys show ?thesis by simp
    next
      case False
      with t close have "join (map f xs) @ c # u = join (map f ys') @ c # v"
        by (auto simp: tx_def ty_def split: if_splits)
      then have "xs = ys' \<and> u = v"
        by (rule Cons.IH [rotated]) (use Cons.prems(1) in auto)
      with xy ys show ?thesis by simp
    qed
  qed
qed

lemma hd_jprint_not_close: "jprint x \<noteq> [] \<and> hd (jprint x) \<noteq> CHR '']''"
proof -
  have "hd (jprint x) \<noteq> CHR '']''"
  proof (cases x)
    case (JInt i)
    then show ?thesis
      using hd_nat_str [of "nat i"] by (cases "i < 0") (auto simp: int_str_def is_digit_def)
  qed (simp_all add: quote_def)
  then show ?thesis by simp
qed

lemma jprint_prefix_free:
  "delimited u \<Longrightarrow> delimited v \<Longrightarrow> jprint a @ u = jprint b @ v \<Longrightarrow> a = b \<and> u = v"
proof (induction a arbitrary: b u v)
  case JNull
  with jprint_same_shape [OF JNull.prems(3)] show ?case
    by (metis append_same_eq same_append_eq shape_of.simps(1) shape_of_eq(1))
next
  case (JBool p)
  with jprint_same_shape [OF JBool.prems(3)] have "b = JBool p"
    by (metis shape_of.simps(2) shape_of_eq(2,3))
  with JBool.prems(3) show ?case by simp
next
  case (JInt i)
  from jprint_same_shape [OF JInt.prems(3)] obtain k where b: "b = JInt k"
    by (metis shape_of.simps(3) shape_of_eq(4))
  with JInt.prems show ?case using int_str_prefix_free [of u v i k] by simp
next
  case (JStr s)
  from jprint_same_shape [OF JStr.prems(3)] obtain t where b: "b = JStr t"
    by (metis shape_of.simps(4) shape_of_eq(5))
  with JStr.prems show ?case using quote_prefix_free [of s u t v] by simp
next
  case (JArr xs)
  from jprint_same_shape [OF JArr.prems(3)] obtain ys where b: "b = JArr ys"
    by (metis shape_of.simps(5) shape_of_eq(6))
  have "xs = ys \<and> u = v"
  proof (rule join_prefix_free [where f = jprint and c = "CHR '']''"])
    show "join (map jprint xs) @ CHR '']'' # u = join (map jprint ys) @ CHR '']'' # v"
      using JArr.prems(3) b by simp
  qed (use JArr.IH hd_jprint_not_close in auto)
  with b show ?case by simp
next
  case (JObj kvs)
  from jprint_same_shape [OF JObj.prems(3)] obtain ys where b: "b = JObj ys"
    by (metis shape_of.simps(6) shape_of_eq(7))
  let ?f = "\<lambda>kv. quote (fst kv) @ CHR '':'' # jprint (snd kv)"
  have item: "x = y \<and> u = v"
    if x: "x \<in> set kvs" and d: "delimited u" "delimited v" and eq: "?f x @ u = ?f y @ v" for x y u v
  proof -
    from eq have "quote (fst x) @ (CHR '':'' # jprint (snd x) @ u)
      = quote (fst y) @ (CHR '':'' # jprint (snd y) @ v)" by simp
    from quote_prefix_free [OF this] have k: "fst x = fst y"
      and p: "jprint (snd x) @ u = jprint (snd y) @ v" by simp_all
    have "snd x = snd y \<and> u = v"
      by (rule JObj.IH [OF x _ d p]) (cases x, auto)
    with k show ?thesis by (simp add: prod_eq_iff)
  qed
  have "kvs = ys \<and> u = v"
  proof (rule join_prefix_free [where f = ?f and c = "CHR ''}''"])
    show "join (map ?f kvs) @ CHR ''}'' # u = join (map ?f ys) @ CHR ''}'' # v"
      using JObj.prems(3) b by simp
    show "?f x \<noteq> [] \<and> hd (?f x) \<noteq> CHR ''}''" for x by (simp add: quote_def)
  qed (use item in blast)+
  with b show ?case by simp
qed

corollary jprint_inject [simp]: "jprint a = jprint b \<longleftrightarrow> a = b"
  using jprint_prefix_free [of "[]" "[]" a b] by auto

corollary canonical_json_inject: "canonical_json a = canonical_json b \<longleftrightarrow> sort_keys a = sort_keys b"
  by (simp add: canonical_json_def)

text \<open>A text that starts with \<open>{\<close> tells where a hexadecimal prefix ends.\<close>

lemma hd_canonical_obj: "\<exists>r. canonical_json (JObj kvs) = CHR ''{'' # r"
  by (simp add: canonical_json_def)

subsection \<open>\<open>str(x)\<close> and \<open>int(x)\<close> of JSON values\<close>

text \<open>\<open>str(x)\<close> of a scalar; the text of an array or object is only used as an opaque text.\<close>

definition py_str :: "json \<Rightarrow> string" where
  "py_str j = (case j of JNull \<Rightarrow> ''None'' | JStr s \<Rightarrow> s | JInt i \<Rightarrow> int_str i
     | JBool b \<Rightarrow> (if b then ''True'' else ''False'') | _ \<Rightarrow> jprint j)"

end
