(* ===== verification/AuditLog.thy ===== *)
theory AuditLog
  imports Json
begin

text \<open>
  The per-organisation hash chain (\<open>core/audit/writer.py\<close>) and its external anchor
  (\<open>core/audit/anchor.py\<close>): the \<open>audit_log\<close> table, \<open>write\<close>, \<open>verify_capability\<close>,
  \<open>write_outcome\<close>, \<open>verify_chain\<close>, \<open>build_anchor\<close> and \<open>verify_against_anchor\<close>.
  \<open>hashlib.sha256(...).hexdigest()\<close> is the parameter \<open>h\<close>.

  The lemmas show that every log the writer produces verifies, that two verifying histories with
  the same head are the same history unless the hash function collides, and which columns of a
  row the chain does not commit to.
\<close>

subsection \<open>Taxonomy, rows and entries\<close>

definition "LANDING_PAGE_TRANSITION = ''landing_page.transition''"
definition "ACTOR_USER = ''user''"
definition "ACTOR_AGENT = ''agent''"
definition "OUTCOME_SUCCEEDED = ''succeeded''"
definition "OUTCOME_FAILED = ''failed''"

definition CAPABILITY_TTL :: time where
  "CAPABILITY_TTL = seconds 600"

definition GENESIS_PREV_HASH :: string where
  "GENESIS_PREV_HASH = []"

record AuditEntry =
  ae_org_id :: uuid
  ae_actor_type :: string
  ae_action :: string
  ae_actor_id :: "string option"
  ae_resource :: "string option"
  ae_payload :: json
  ae_trace_id :: "string option"
  ae_permission_manifest_hash :: "string option"

record audit_row =
  al_id :: uuid
  al_org_id :: uuid
  al_seq :: int
  al_actor_type :: string
  al_actor_id :: "string option"
  al_action :: string
  al_resource :: "string option"
  al_payload :: json
  al_prev_hash :: string
  al_entry_hash :: string
  al_trace_id :: "string option"
  al_permission_manifest_hash :: "string option"
  al_created_at :: time

record AuditId =
  aid_id :: uuid
  aid_expires_at :: time

record audit_db = base_db +
  audit_log :: "audit_row list"

datatype audit_error = UnknownAuditId uuid

subsection \<open>Hashing and writing\<close>

definition entry_body ::
  "int \<Rightarrow> string \<Rightarrow> string option \<Rightarrow> string \<Rightarrow> string option \<Rightarrow> json \<Rightarrow> string option \<Rightarrow> json" where
  "entry_body seq actor_type actor_id action resource payload pmh =
     JObj [(''seq'', JInt seq), (''actor_type'', JStr actor_type),
           (''actor_id'', json_of_string_option actor_id), (''action'', JStr action),
           (''resource'', json_of_string_option resource), (''payload'', payload),
           (''permission_manifest_hash'', json_of_string_option pmh)]"

definition entry_hash ::
  "(string \<Rightarrow> string) \<Rightarrow> string \<Rightarrow> int \<Rightarrow> string \<Rightarrow> string option \<Rightarrow> string \<Rightarrow> string option \<Rightarrow> json
   \<Rightarrow> string option \<Rightarrow> string" where
  "entry_hash h prev_hash seq actor_type actor_id action resource payload pmh =
     h (prev_hash @ canonical_json (entry_body seq actor_type actor_id action resource payload pmh))"

definition chain_rows :: "uuid \<Rightarrow> audit_row list \<Rightarrow> audit_row list" where
  "chain_rows org rows = sort_key al_seq (filter (\<lambda>r. al_org_id r = org) rows)"

definition chain_head :: "uuid \<Rightarrow> audit_row list \<Rightarrow> audit_row option" where
  "chain_head org rows = (case chain_rows org rows of [] \<Rightarrow> None | rs \<Rightarrow> Some (last rs))"

text \<open>
  \<open>write\<close>: lock the organisation's chain and set the tenant context, read the head, hash, insert.
  The stored payload is \<open>CAST(canonical_json(payload) AS jsonb)\<close>.
\<close>

definition audit_write ::
  "(string \<Rightarrow> string) \<Rightarrow> AuditEntry \<Rightarrow> 'a audit_db_scheme \<Rightarrow> AuditId \<times> 'a audit_db_scheme" where
  "audit_write h e s0 =
     (let org = ae_org_id e;
          s = set_org_context org s0;
          head = chain_head org (filter (\<lambda>r. rls_visible s (al_org_id r)) (audit_log s));
          seq = (case head of Some r \<Rightarrow> al_seq r + 1 | None \<Rightarrow> 1);
          prev = (case head of Some r \<Rightarrow> al_entry_hash r | None \<Rightarrow> GENESIS_PREV_HASH);
          eh = entry_hash h prev seq (ae_actor_type e) (ae_actor_id e) (ae_action e)
                 (ae_resource e) (ae_payload e) (ae_permission_manifest_hash e);
          row = \<lparr>al_id = fresh s, al_org_id = org, al_seq = seq, al_actor_type = ae_actor_type e,
                 al_actor_id = ae_actor_id e, al_action = ae_action e, al_resource = ae_resource e,
                 al_payload = sort_keys (ae_payload e), al_prev_hash = prev, al_entry_hash = eh,
                 al_trace_id = ae_trace_id e,
                 al_permission_manifest_hash = ae_permission_manifest_hash e,
                 al_created_at = now s\<rparr>
      in (\<lparr>aid_id = fresh s, aid_expires_at = now s + CAPABILITY_TTL\<rparr>,
          s\<lparr>audit_log := audit_log s @ [row], fresh := fresh s + 1\<rparr>))"

definition verify_capability ::
  "uuid \<Rightarrow> string \<Rightarrow> string option \<Rightarrow> 'a audit_db_scheme \<Rightarrow> bool" where
  "verify_capability audit_id action resource s =
     (case find (\<lambda>r. rls_visible s (al_org_id r) \<and> al_id r = audit_id) (audit_log s) of
        None \<Rightarrow> False
      | Some row \<Rightarrow>
          if al_created_at row + CAPABILITY_TTL \<le> now s then False
          else al_action row = action \<and> al_resource row = resource)"

definition write_outcome ::
  "(string \<Rightarrow> string) \<Rightarrow> uuid \<Rightarrow> string \<Rightarrow> string option \<Rightarrow> (audit_error, AuditId, 'a audit_db_scheme) op"
  where
  "write_outcome h audit_id outcome detail s =
     (case find (\<lambda>r. rls_visible s (al_org_id r) \<and> al_id r = audit_id) (audit_log s) of
        None \<Rightarrow> (Inl (UnknownAuditId audit_id), s)
      | Some row \<Rightarrow>
          (let (aid, s') = audit_write h
             \<lparr>ae_org_id = al_org_id row, ae_actor_type = al_actor_type row,
              ae_action = al_action row @ '':'' @ outcome, ae_actor_id = al_actor_id row,
              ae_resource = al_resource row,
              ae_payload = JObj [(''intent_audit_id'', JId audit_id),
                                 (''detail'', json_of_string_option detail)],
              ae_trace_id = None, ae_permission_manifest_hash = None\<rparr> s
           in (Inr aid, s')))"

subsection \<open>Verification\<close>

record ChainRecord =
  cr_seq :: int
  cr_actor_type :: string
  cr_actor_id :: "string option"
  cr_action :: string
  cr_resource :: "string option"
  cr_payload :: json
  cr_prev_hash :: string
  cr_entry_hash :: string
  cr_permission_manifest_hash :: "string option"

definition chain_record :: "audit_row \<Rightarrow> ChainRecord" where
  "chain_record r = \<lparr>cr_seq = al_seq r, cr_actor_type = al_actor_type r,
     cr_actor_id = al_actor_id r, cr_action = al_action r, cr_resource = al_resource r,
     cr_payload = al_payload r, cr_prev_hash = al_prev_hash r, cr_entry_hash = al_entry_hash r,
     cr_permission_manifest_hash = al_permission_manifest_hash r\<rparr>"

definition record_body :: "ChainRecord \<Rightarrow> json" where
  "record_body r = entry_body (cr_seq r) (cr_actor_type r) (cr_actor_id r) (cr_action r)
     (cr_resource r) (cr_payload r) (cr_permission_manifest_hash r)"

definition recomputed :: "(string \<Rightarrow> string) \<Rightarrow> ChainRecord \<Rightarrow> string" where
  "recomputed h r = entry_hash h (cr_prev_hash r) (cr_seq r) (cr_actor_type r) (cr_actor_id r)
     (cr_action r) (cr_resource r) (cr_payload r) (cr_permission_manifest_hash r)"

fun verify_from :: "(string \<Rightarrow> string) \<Rightarrow> string \<Rightarrow> int \<Rightarrow> ChainRecord list \<Rightarrow> int option" where
  "verify_from h expected_prev expected_seq [] = None"
| "verify_from h expected_prev expected_seq (r # rs) =
     (if cr_seq r \<noteq> expected_seq then Some (cr_seq r)
      else if cr_prev_hash r \<noteq> expected_prev then Some (cr_seq r)
      else if recomputed h r \<noteq> cr_entry_hash r then Some (cr_seq r)
      else verify_from h (cr_entry_hash r) (cr_seq r + 1) rs)"

fun verify_chain :: "(string \<Rightarrow> string) \<Rightarrow> ChainRecord list \<Rightarrow> int option" where
  "verify_chain h [] = None"
| "verify_chain h (first # rs) =
     (if cr_seq first = 1 \<and> cr_prev_hash first \<noteq> GENESIS_PREV_HASH then Some 1
      else verify_from h (cr_prev_hash first) (cr_seq first) (first # rs))"

subsection \<open>The external anchor\<close>

record chain_head_record =
  ch_org_id :: uuid
  ch_seq :: int
  ch_entry_hash :: string

record anchor =
  anchored_at :: time
  org_count :: nat
  heads :: "chain_head_record list"

record Discrepancy =
  dp_org_id :: uuid
  dp_seq :: int
  dp_anchored :: string
  dp_current :: "string option"

fun chain_heads :: "uuid list \<Rightarrow> audit_row list \<Rightarrow> chain_head_record list" where
  "chain_heads [] log = []"
| "chain_heads (org # orgs) log =
     (case chain_head org log of
        None \<Rightarrow> chain_heads orgs log
      | Some r \<Rightarrow> \<lparr>ch_org_id = org, ch_seq = al_seq r, ch_entry_hash = al_entry_hash r\<rparr>
                  # chain_heads orgs log)"

definition build_anchor :: "time \<Rightarrow> uuid list \<Rightarrow> audit_row list \<Rightarrow> anchor" where
  "build_anchor t orgs log =
     (let hs = chain_heads orgs log in \<lparr>anchored_at = t, org_count = length hs, heads = hs\<rparr>)"

definition current_hash :: "uuid \<Rightarrow> int \<Rightarrow> audit_row list \<Rightarrow> string option" where
  "current_hash org seq log =
     map_option al_entry_hash (find (\<lambda>r. al_org_id r = org \<and> al_seq r = seq) log)"

fun verify_against_anchor :: "chain_head_record list \<Rightarrow> audit_row list \<Rightarrow> Discrepancy list" where
  "verify_against_anchor [] log = []"
| "verify_against_anchor (hr # hrs) log =
     (let current = current_hash (ch_org_id hr) (ch_seq hr) log;
          rest = verify_against_anchor hrs log
      in if current \<noteq> Some (ch_entry_hash hr)
         then \<lparr>dp_org_id = ch_org_id hr, dp_seq = ch_seq hr, dp_anchored = ch_entry_hash hr,
               dp_current = current\<rparr> # rest
         else rest)"

subsection \<open>Linked chains\<close>

text \<open>What \<open>verify_from\<close> checks, as a predicate on the whole list.\<close>

fun linked :: "(string \<Rightarrow> string) \<Rightarrow> string \<Rightarrow> int \<Rightarrow> ChainRecord list \<Rightarrow> bool" where
  "linked h p n [] = True"
| "linked h p n (r # rs) =
     (cr_seq r = n \<and> cr_prev_hash r = p \<and> cr_entry_hash r = h (p @ canonical_json (record_body r))
      \<and> linked h (cr_entry_hash r) (n + 1) rs)"

lemma recomputed_eq: "recomputed h r = h (cr_prev_hash r @ canonical_json (record_body r))"
  by (simp add: recomputed_def record_body_def entry_hash_def)

lemma verify_from_None_iff: "verify_from h p n rs = None \<longleftrightarrow> linked h p n rs"
  by (induction rs arbitrary: p n) (auto simp: recomputed_eq)

lemma verify_chain_genesis: "linked h GENESIS_PREV_HASH 1 rs \<Longrightarrow> verify_chain h rs = None"
proof (cases rs)
  case (Cons r rs')
  assume l: "linked h GENESIS_PREV_HASH 1 rs"
  with Cons have "verify_from h (cr_prev_hash r) (cr_seq r) rs = None"
    by (simp only: verify_from_None_iff) auto
  with l Cons show ?thesis by (simp del: verify_from.simps)
qed simp

lemma verify_chain_genesis_iff:
  "rs \<noteq> [] \<Longrightarrow> cr_seq (hd rs) = 1 \<Longrightarrow>
   verify_chain h rs = None \<longleftrightarrow> linked h GENESIS_PREV_HASH 1 rs"
  by (cases rs) (auto simp: verify_from_None_iff recomputed_eq)

definition last_hash :: "string \<Rightarrow> ChainRecord list \<Rightarrow> string" where
  "last_hash p rs = (if rs = [] then p else cr_entry_hash (last rs))"

lemma last_hash_simps [simp]:
  "last_hash p [] = p" "last_hash p (rs @ [r]) = cr_entry_hash r"
  "last_hash p (r # rs) = last_hash (cr_entry_hash r) rs"
  by (simp_all add: last_hash_def)

lemma linked_append:
  "linked h p n (xs @ ys) \<longleftrightarrow> linked h p n xs \<and> linked h (last_hash p xs) (n + int (length xs)) ys"
  by (induction xs arbitrary: p n) (auto simp: algebra_simps)

lemma linked_take: "linked h p n rs \<Longrightarrow> linked h p n (take k rs)"
  by (metis append_take_drop_id linked_append)

lemma linked_seq_nth: "linked h p n rs \<Longrightarrow> i < length rs \<Longrightarrow> cr_seq (rs ! i) = n + int i"
  by (induction rs arbitrary: p n i) (auto simp: nth_Cons split: nat.splits)

lemma linked_sorted: "linked h p n rs \<Longrightarrow> sorted (map cr_seq rs)"
  by (auto simp: sorted_iff_nth_mono linked_seq_nth)

lemma sorted_linked_rows:
  "linked h p n (map chain_record rs) \<Longrightarrow> sort_key al_seq rs = rs"
proof -
  assume "linked h p n (map chain_record rs)"
  then have "sorted (map cr_seq (map chain_record rs))" by (rule linked_sorted)
  then have "sorted (map al_seq rs)" by (simp add: comp_def chain_record_def)
  then show ?thesis by (simp add: sort_key_id_if_sorted)
qed

subsection \<open>The writer keeps every chain linked\<close>

lemma insort_key_map_snd:
  "insort_key fst (k, g v) (map (\<lambda>kv. (fst kv, g (snd kv))) xs)
   = map (\<lambda>kv. (fst kv, g (snd kv))) (insort_key fst (k, v) xs)"
  by (induction xs) auto

lemma sort_key_map_snd:
  "sort_key fst (map (\<lambda>kv. (fst kv, g (snd kv))) xs)
   = map (\<lambda>kv. (fst kv, g (snd kv))) (sort_key fst xs)"
proof (induction xs)
  case (Cons x xs)
  then show ?case using insort_key_map_snd [of "fst x" g "snd x"] by simp
qed simp

lemma sort_keys_idem [simp]: "sort_keys (sort_keys j) = sort_keys j"
proof (induction j)
  case (JObj kvs)
  have "map (\<lambda>kv. (fst kv, sort_keys (snd kv))) (map (\<lambda>kv. (fst kv, sort_keys (snd kv))) kvs)
      = map (\<lambda>kv. (fst kv, sort_keys (snd kv))) kvs"
    using JObj by (auto simp: snds.simps)
  moreover have "sort_key fst (sort_key fst xs) = sort_key fst xs" for xs :: "(string \<times> json) list"
    by (simp add: sort_key_id_if_sorted)
  ultimately show ?case
    by (simp only: sort_keys.simps sort_key_map_snd [symmetric])
qed auto

lemma canonical_payload [simp]:
  "canonical_json (entry_body n t i a r (sort_keys p) m) = canonical_json (entry_body n t i a r p m)"
  by (simp add: canonical_json_inject entry_body_def)

definition wf_log :: "(string \<Rightarrow> string) \<Rightarrow> audit_row list \<Rightarrow> bool" where
  "wf_log h log \<longleftrightarrow>
     (\<forall>org. linked h GENESIS_PREV_HASH 1 (map chain_record (filter (\<lambda>r. al_org_id r = org) log)))"

lemma wf_log_Nil [simp]: "wf_log h []"
  by (simp add: wf_log_def)

lemma wf_log_chain_rows:
  "wf_log h log \<Longrightarrow> chain_rows org log = filter (\<lambda>r. al_org_id r = org) log"
  unfolding wf_log_def chain_rows_def using sorted_linked_rows by blast

lemma wf_log_chain_head:
  "wf_log h log \<Longrightarrow> chain_head org log =
     (case filter (\<lambda>r. al_org_id r = org) log of [] \<Rightarrow> None | rs \<Rightarrow> Some (last rs))"
  by (simp add: chain_head_def wf_log_chain_rows)

lemma chain_head_visible [simp]:
  "chain_head org (filter (\<lambda>r. al_org_id r = org) log) = chain_head org log"
proof -
  have "filter (\<lambda>r. al_org_id r = org) (filter (\<lambda>r. al_org_id r = org) log)
      = filter (\<lambda>r. al_org_id r = org) log"
    by (induction log) (auto simp del: filter_filter)
  then show ?thesis by (simp add: chain_head_def chain_rows_def del: filter_filter)
qed

text \<open>The row \<open>write\<close> appends, given the organisation's current chain.\<close>

lemma audit_write_row:
  obtains row where
    "audit_log (snd (audit_write h e s)) = audit_log s @ [row]" and "al_org_id row = ae_org_id e"
    and "al_id row = fresh s" and "al_created_at row = now s" and "al_action row = ae_action e"
    and "al_resource row = ae_resource e"
    and "cr_seq (chain_record row) =
       (case chain_head (ae_org_id e) (audit_log s) of Some r \<Rightarrow> al_seq r + 1 | None \<Rightarrow> 1)"
    and "cr_prev_hash (chain_record row) =
       (case chain_head (ae_org_id e) (audit_log s) of Some r \<Rightarrow> al_entry_hash r
          | None \<Rightarrow> GENESIS_PREV_HASH)"
    and "cr_entry_hash (chain_record row) =
       h (cr_prev_hash (chain_record row) @ canonical_json (record_body (chain_record row)))"
proof -
  let ?row = "last (audit_log (snd (audit_write h e s)))"
  show thesis
    by (rule that [of ?row])
      (simp_all add: audit_write_def Let_def chain_record_def record_body_def entry_hash_def
        set_org_context_def rls_visible_def)
qed

lemma audit_write_wf: "wf_log h (audit_log s) \<Longrightarrow> wf_log h (audit_log (snd (audit_write h e s)))"
proof -
  assume wf: "wf_log h (audit_log s)"
  obtain row where row: "audit_log (snd (audit_write h e s)) = audit_log s @ [row]"
      "al_org_id row = ae_org_id e"
    and seq: "cr_seq (chain_record row) =
       (case chain_head (ae_org_id e) (audit_log s) of Some r \<Rightarrow> al_seq r + 1 | None \<Rightarrow> 1)"
    and prev: "cr_prev_hash (chain_record row) =
       (case chain_head (ae_org_id e) (audit_log s) of Some r \<Rightarrow> al_entry_hash r
          | None \<Rightarrow> GENESIS_PREV_HASH)"
    and eh: "cr_entry_hash (chain_record row) =
       h (cr_prev_hash (chain_record row) @ canonical_json (record_body (chain_record row)))"
    by (rule audit_write_row)
  define rs where "rs = filter (\<lambda>r. al_org_id r = ae_org_id e) (audit_log s)"
  have l: "linked h GENESIS_PREV_HASH 1 (map chain_record rs)"
    using wf by (simp add: wf_log_def rs_def)
  have head: "chain_head (ae_org_id e) (audit_log s) = (if rs = [] then None else Some (last rs))"
    using wf by (simp add: wf_log_chain_head rs_def split: list.split)
  have "cr_prev_hash (chain_record row) = last_hash GENESIS_PREV_HASH (map chain_record rs)"
    using prev head by (simp add: last_hash_def last_map chain_record_def)
  moreover have "cr_seq (chain_record row) = 1 + int (length rs)"
  proof (cases "rs = []")
    case False
    then have "cr_seq (map chain_record rs ! (length rs - 1)) = 1 + int (length rs - 1)"
      using linked_seq_nth [OF l, of "length rs - 1"] by simp
    with False have "al_seq (last rs) = int (length rs)"
      by (simp add: last_conv_nth chain_record_def Suc_le_eq)
    with False seq head show ?thesis by simp
  qed (use seq head in simp)
  ultimately have "linked h GENESIS_PREV_HASH 1 (map chain_record (rs @ [row]))"
    using l eh by (simp add: linked_append)
  moreover have "filter (\<lambda>r. al_org_id r = org) (audit_log s @ [row]) =
      (if org = ae_org_id e then rs @ [row] else filter (\<lambda>r. al_org_id r = org) (audit_log s))" for org
    using row(2) by (simp add: rs_def)
  ultimately show ?thesis using wf row(1) by (simp add: wf_log_def)
qed

lemma audit_write_org_ctx [simp]: "org_ctx (snd (audit_write h e s)) = Some (ae_org_id e)"
  by (simp add: audit_write_def Let_def)

lemma audit_write_frame [frame_simps, simp]:
  "now (snd (audit_write h e s)) = now s"
  "fresh (snd (audit_write h e s)) = fresh s + 1"
  "audit_db.more (snd (audit_write h e s)) = audit_db.more s"
  by (simp_all add: audit_write_def Let_def set_org_context_def)

lemma write_outcome_wf:
  "wf_log h (audit_log s) \<Longrightarrow> wf_log h (audit_log (snd (write_outcome h a oc d s)))"
  by (auto simp: write_outcome_def audit_write_wf case_prod_beta Let_def split: option.split)

lemma wf_log_verifies:
  "wf_log h log \<Longrightarrow> verify_chain h (map chain_record (chain_rows org log)) = None"
  by (simp add: wf_log_chain_rows verify_chain_genesis wf_log_def)

fun audit_writes :: "(string \<Rightarrow> string) \<Rightarrow> AuditEntry list \<Rightarrow> 'a audit_db_scheme \<Rightarrow> 'a audit_db_scheme" where
  "audit_writes h [] s = s"
| "audit_writes h (e # es) s = audit_writes h es (snd (audit_write h e s))"

lemma audit_writes_wf: "wf_log h (audit_log s) \<Longrightarrow> wf_log h (audit_log (audit_writes h es s))"
  by (induction es arbitrary: s) (simp_all add: audit_write_wf)

lemma audit_writes_prefix: "\<exists>rows. audit_log (audit_writes h es s) = audit_log s @ rows"
proof (induction es arbitrary: s)
  case (Cons e es)
  obtain row where "audit_log (snd (audit_write h e s)) = audit_log s @ [row]"
    by (rule audit_write_row)
  with Cons [of "snd (audit_write h e s)"] show ?case by auto
qed simp

subsection \<open>Equal heads mean equal histories\<close>

definition collision :: "(string \<Rightarrow> string) \<Rightarrow> bool" where
  "collision h \<longleftrightarrow> (\<exists>x y. x \<noteq> y \<and> h x = h y)"

lemma body_split:
  assumes "CHR ''{'' \<notin> set p" "CHR ''{'' \<notin> set q"
    and "p @ canonical_json (record_body r) = q @ canonical_json (record_body r')"
  shows "p = q \<and> canonical_json (record_body r) = canonical_json (record_body r')"
proof -
  obtain u where u: "canonical_json (record_body r) = CHR ''{'' # u"
    unfolding record_body_def entry_body_def using hd_canonical_obj by blast
  obtain v where v: "canonical_json (record_body r') = CHR ''{'' # v"
    unfolding record_body_def entry_body_def using hd_canonical_obj by blast
  have "p @ CHR ''{'' # u = q @ CHR ''{'' # v" using assms(3) u v by simp
  then have "p = q \<and> CHR ''{'' # u = CHR ''{'' # v"
    using assms(1,2)
  proof (induction p arbitrary: q)
    case Nil
    then show ?case by (cases q) auto
  next
    case (Cons c p)
    then show ?case by (cases q) auto
  qed
  with u v show ?thesis by simp
qed

lemma linked_prev_no_brace:
  "\<forall>x. CHR ''{'' \<notin> set (h x) \<Longrightarrow> CHR ''{'' \<notin> set p \<Longrightarrow> linked h p n rs \<Longrightarrow>
   CHR ''{'' \<notin> set (last_hash p rs)"
  by (cases rs rule: rev_cases) (auto simp: linked_append)

lemma same_head_same_history:
  assumes hex: "\<forall>x. CHR ''{'' \<notin> set (h x)" and p: "CHR ''{'' \<notin> set p" "CHR ''{'' \<notin> set q"
    and no: "\<not> collision h"
  shows "linked h p n rs \<Longrightarrow> linked h q n rs' \<Longrightarrow> length rs = length rs' \<Longrightarrow>
    last_hash p rs = last_hash q rs' \<Longrightarrow>
    p = q \<and> map (\<lambda>r. canonical_json (record_body r)) rs
          = map (\<lambda>r. canonical_json (record_body r)) rs'
          \<and> map cr_entry_hash rs = map cr_entry_hash rs'"
proof (induction rs arbitrary: rs' rule: rev_induct)
  case (snoc r rs)
  then obtain ss s where rs': "rs' = ss @ [s]" and len: "length rs = length ss"
    by (cases rs' rule: rev_cases) auto
  from snoc.prems rs' have l1: "linked h p n rs" and l2: "linked h q n ss"
    and e1: "cr_entry_hash r = h (last_hash p rs @ canonical_json (record_body r))"
    and e2: "cr_entry_hash s = h (last_hash q ss @ canonical_json (record_body s))"
    and eh: "cr_entry_hash r = cr_entry_hash s"
    by (simp_all add: linked_append)
  from no e1 e2 eh have "last_hash p rs @ canonical_json (record_body r)
      = last_hash q ss @ canonical_json (record_body s)"
    by (metis collision_def)
  then have "last_hash p rs = last_hash q ss"
      "canonical_json (record_body r) = canonical_json (record_body s)"
    using body_split [OF linked_prev_no_brace [OF hex p(1) l1] linked_prev_no_brace [OF hex p(2) l2]]
    by blast+
  with snoc.IH [OF l1 l2 len] eh rs' show ?case by simp
qed simp

text \<open>The columns a row's canonical body fixes.\<close>

lemma sort_entry_body:
  "sort_keys (entry_body n t i a r p m) =
     JObj [(''action'', JStr a), (''actor_id'', json_of_string_option i), (''actor_type'', JStr t),
           (''payload'', sort_keys p), (''permission_manifest_hash'', json_of_string_option m),
           (''resource'', json_of_string_option r), (''seq'', JInt n)]"
  by (simp add: entry_body_def json_of_string_option_def split: option.split)

lemma record_body_fields:
  "canonical_json (record_body r) = canonical_json (record_body r') \<longleftrightarrow>
   cr_seq r = cr_seq r' \<and> cr_actor_type r = cr_actor_type r' \<and> cr_actor_id r = cr_actor_id r'
   \<and> cr_action r = cr_action r' \<and> cr_resource r = cr_resource r'
   \<and> sort_keys (cr_payload r) = sort_keys (cr_payload r')
   \<and> cr_permission_manifest_hash r = cr_permission_manifest_hash r'"
  by (auto simp: canonical_json_inject record_body_def sort_entry_body)

text \<open>What the chain commits to in one row: every hashed column, the payload up to key order.\<close>

definition committed where
  "committed r = (cr_seq r, cr_actor_type r, cr_actor_id r, cr_action r, cr_resource r,
     sort_keys (cr_payload r), cr_permission_manifest_hash r, cr_prev_hash r, cr_entry_hash r)"

lemma linked_prev_hashes:
  "linked h p n rs \<Longrightarrow> rs \<noteq> [] \<Longrightarrow> map cr_prev_hash rs = p # butlast (map cr_entry_hash rs)"
proof (induction rs arbitrary: p n)
  case (Cons r rs)
  then show ?case by (cases rs) auto
qed simp

lemma committed_eqI:
  assumes "linked h p n rs" "linked h p m rs'"
    and b: "map (\<lambda>r. canonical_json (record_body r)) rs
          = map (\<lambda>r. canonical_json (record_body r)) rs'"
    and e: "map cr_entry_hash rs = map cr_entry_hash rs'"
  shows "map committed rs = map committed rs'"
proof (cases "rs = []")
  case True
  with b show ?thesis by simp
next
  case False
  with b have "rs' \<noteq> []" by auto
  then have pv: "map cr_prev_hash rs = map cr_prev_hash rs'"
    using False assms linked_prev_hashes by metis
  have len: "length rs = length rs'" using b by (rule map_eq_imp_length_eq)
  show ?thesis
  proof (rule nth_equalityI)
    fix i assume "i < length (map committed rs)"
    then have i: "i < length rs" "i < length rs'" using len by auto
    have "cr_prev_hash (rs ! i) = cr_prev_hash (rs' ! i)" using arg_cong [OF pv, of "\<lambda>l. l ! i"] i by simp
    moreover have "cr_entry_hash (rs ! i) = cr_entry_hash (rs' ! i)"
      using arg_cong [OF e, of "\<lambda>l. l ! i"] i by simp
    moreover have "canonical_json (record_body (rs ! i)) = canonical_json (record_body (rs' ! i))"
      using arg_cong [OF b, of "\<lambda>l. l ! i"] i by simp
    ultimately show "map committed rs ! i = map committed rs' ! i"
      using i by (simp add: committed_def record_body_fields)
  qed (use len in simp)
qed

lemma genesis_no_brace: "CHR ''{'' \<notin> set GENESIS_PREV_HASH"
  by (simp add: GENESIS_PREV_HASH_def)

lemma linked_same_head:
  assumes hex: "\<forall>x. CHR ''{'' \<notin> set (h x)"
    and l: "linked h GENESIS_PREV_HASH 1 rs" "linked h GENESIS_PREV_HASH 1 rs'"
    and len: "length rs = length rs'"
    and head: "last_hash GENESIS_PREV_HASH rs = last_hash GENESIS_PREV_HASH rs'"
  shows "collision h \<or> map committed rs = map committed rs'"
proof (cases "collision h")
  case False
  from same_head_same_history [OF hex genesis_no_brace genesis_no_brace False l len head] l
  show ?thesis by (auto intro: committed_eqI)
qed simp

lemma verified_linked:
  "verify_chain h rs = None \<Longrightarrow> rs \<noteq> [] \<Longrightarrow> cr_seq (hd rs) = 1 \<Longrightarrow> linked h GENESIS_PREV_HASH 1 rs"
  using verify_chain_genesis_iff by blast

subsection \<open>Properties\<close>

lemma audit_writes_entries:
  "wf_log h (audit_log s) \<Longrightarrow>
   map al_action (filter (\<lambda>r. al_org_id r = org) (audit_log (audit_writes h es s))) =
   map al_action (filter (\<lambda>r. al_org_id r = org) (audit_log s)) @
   map ae_action (filter (\<lambda>e. ae_org_id e = org) es)"
proof (induction es arbitrary: s)
  case (Cons e es)
  obtain row where "audit_log (snd (audit_write h e s)) = audit_log s @ [row]"
      "al_org_id row = ae_org_id e" "al_action row = ae_action e"
    by (rule audit_write_row)
  with Cons.IH [OF audit_write_wf [OF Cons.prems, of e]] show ?case by simp
qed simp

text \<open>
  C1: starting from an empty log, whatever entries are written for whatever organisations in
  whatever order, the chain of every organisation verifies, and it holds exactly the actions
  written for that organisation, in the order they were written.
\<close>

theorem audit_chains_verify:
  defines "log \<equiv> \<lambda>h es s. audit_log (audit_writes h es (s\<lparr>audit_log := []\<rparr>))"
  shows "verify_chain h (map chain_record (chain_rows org (log h es s))) = None
     \<and> map al_action (chain_rows org (log h es s)) =
       map ae_action (filter (\<lambda>e. ae_org_id e = org) es)"
proof -
  have "wf_log h (log h es s)" by (simp add: log_def audit_writes_wf)
  then have "verify_chain h (map chain_record (chain_rows org (log h es s))) = None"
    and "chain_rows org (log h es s) = filter (\<lambda>r. al_org_id r = org) (log h es s)"
    by (rule wf_log_verifies, rule wf_log_chain_rows)
  then show ?thesis
    using audit_writes_entries [of h "s\<lparr>audit_log := []\<rparr>" org es] by (simp add: log_def)
qed

text \<open>
  C2: two complete chains that both verify, have the same length and end in the same entry hash
  agree on every hashed column of every row (payloads up to key order), unless the hash function
  maps two different texts to one digest.
\<close>

theorem audit_tamper_evident:
  assumes "\<forall>x. CHR ''{'' \<notin> set (h x)"
    and "verify_chain h rs = None" "rs \<noteq> []" "cr_seq (hd rs) = 1"
    and "verify_chain h rs' = None" "rs' \<noteq> []" "cr_seq (hd rs') = 1"
    and "length rs = length rs'" "cr_entry_hash (last rs) = cr_entry_hash (last rs')"
  shows "(\<exists>x y. x \<noteq> y \<and> h x = h y) \<or> map committed rs = map committed rs'"
proof -
  have "last_hash GENESIS_PREV_HASH rs = last_hash GENESIS_PREV_HASH rs'"
    using assms by (simp add: last_hash_def)
  with linked_same_head [OF assms(1) verified_linked [OF assms(2-4)] verified_linked [OF assms(5-7)]
      assms(8)]
  show ?thesis by (simp add: collision_def)
qed

definition example_hash :: "string \<Rightarrow> string" where
  "example_hash x = nat_str (length x)"

lemma nat_str_no_brace: "CHR ''{'' \<notin> set (nat_str n)"
  using nat_str_digits [of n] by (auto simp: list_all_iff is_digit_def)

lemma example_hash_no_brace: "\<forall>x. CHR ''{'' \<notin> set (example_hash x)"
  by (simp add: example_hash_def nat_str_no_brace)

definition example_record :: ChainRecord where
  "example_record =
     (let r = \<lparr>cr_seq = 1, cr_actor_type = ''user'', cr_actor_id = None, cr_action = ''msg.send'',
               cr_resource = None, cr_payload = JObj [], cr_prev_hash = [], cr_entry_hash = [],
               cr_permission_manifest_hash = None\<rparr>
      in r\<lparr>cr_entry_hash := recomputed example_hash r\<rparr>)"

lemma example_record_verifies: "verify_chain example_hash [example_record] = None"
  by (simp add: example_record_def Let_def recomputed_def GENESIS_PREV_HASH_def)

theorem audit_tamper_evident_witness:
  "(\<exists>x y. x \<noteq> y \<and> example_hash x = example_hash y)
   \<or> map committed [example_record] = map committed [example_record]"
  by (rule audit_tamper_evident [OF example_hash_no_brace])
    (simp_all only: example_record_verifies, simp_all add: example_record_def Let_def)

lemma verify_against_anchor_empty:
  "verify_against_anchor hrs log = [] \<longleftrightarrow>
   (\<forall>hr \<in> set hrs. current_hash (ch_org_id hr) (ch_seq hr) log = Some (ch_entry_hash hr))"
  by (induction hrs) (auto simp: Let_def)

lemma chain_heads_mem:
  "org \<in> set orgs \<Longrightarrow> chain_head org log = Some r \<Longrightarrow>
   \<lparr>ch_org_id = org, ch_seq = al_seq r, ch_entry_hash = al_entry_hash r\<rparr> \<in> set (chain_heads orgs log)"
  by (induction orgs) (auto split: option.split)

text \<open>
  An anchor taken of a log that the writer produced detects every later rewrite or truncation:
  if the live log still verifies internally and the anchor reports no discrepancy, then the
  anchored history of each organisation is a prefix of its live history, unless the hash function
  collides.
\<close>

theorem anchor_pins_history:
  assumes hex: "\<forall>x. CHR ''{'' \<notin> set (h x)" and org: "org \<in> set orgs"
    and produced: "wf_log h log" and live: "wf_log h log'"
    and clean: "verify_against_anchor (heads (build_anchor t orgs log)) log' = []"
  shows "(\<exists>x y. x \<noteq> y \<and> h x = h y)
     \<or> map (committed \<circ> chain_record) (chain_rows org log)
       = take (length (chain_rows org log)) (map (committed \<circ> chain_record) (chain_rows org log'))"
proof (cases "chain_rows org log = []")
  case False
  define cs cs' where "cs = map chain_record (chain_rows org log)"
    and "cs' = map chain_record (chain_rows org log')"
  have l: "linked h GENESIS_PREV_HASH 1 cs" and l': "linked h GENESIS_PREV_HASH 1 cs'"
    using produced live by (simp_all add: wf_log_def cs_def cs'_def wf_log_chain_rows)
  let ?r = "last (chain_rows org log)" and ?n = "length (chain_rows org log)"
  have "chain_head org log = Some ?r" using False by (simp add: chain_head_def split: list.split)
  from chain_heads_mem [OF org this] clean
  have "current_hash org (al_seq ?r) log' = Some (al_entry_hash ?r)"
    by (fastforce simp: verify_against_anchor_empty build_anchor_def Let_def)
  then obtain q where q: "q \<in> set (chain_rows org log')" "al_seq q = al_seq ?r"
      "al_entry_hash q = al_entry_hash ?r"
    unfolding current_hash_def by (auto dest!: find_Some_set simp: chain_rows_def)
  then obtain i where i: "i < length cs'" "chain_record q = cs' ! i"
    by (auto simp: in_set_conv_nth cs'_def)
  have "al_seq ?r = int ?n"
    using linked_seq_nth [OF l, of "?n - 1"] False
    by (simp add: cs_def last_conv_nth chain_record_def Suc_le_eq)
  with q(2) i linked_seq_nth [OF l' i(1)] have iN: "Suc i = ?n"
    by (metis add.commute chain_record_def ChainRecord.simps(1) of_nat_Suc of_nat_eq_iff)
  have tk: "take ?n cs' = take i cs' @ [chain_record q]"
    using i iN by (metis take_Suc_conv_app_nth)
  have "last_hash GENESIS_PREV_HASH cs = last_hash GENESIS_PREV_HASH (take ?n cs')"
    using q(3) False unfolding tk by (simp add: last_hash_def cs_def last_map chain_record_def)
  moreover have "length cs = length (take ?n cs')" using i iN by (simp add: cs_def)
  ultimately have "collision h \<or> map committed cs = map committed (take ?n cs')"
    using linked_same_head [OF hex l linked_take [OF l']] by blast
  then show ?thesis by (simp add: collision_def cs_def cs'_def take_map)
qed simp

theorem anchor_pins_history_witness:
  "let e = \<lparr>ae_org_id = 7, ae_actor_type = ''user'', ae_action = ''msg.send'', ae_actor_id = None,
            ae_resource = None, ae_payload = JObj [], ae_trace_id = None,
            ae_permission_manifest_hash = None\<rparr>;
       log = audit_log (audit_writes example_hash [e]
               \<lparr>now = 0, fresh = 1, org_ctx = None, audit_log = []\<rparr>)
   in (\<exists>x y. x \<noteq> y \<and> example_hash x = example_hash y)
      \<or> map (committed \<circ> chain_record) (chain_rows 7 log)
       = take (length (chain_rows 7 log)) (map (committed \<circ> chain_record) (chain_rows 7 log))"
  unfolding Let_def
  by (rule anchor_pins_history [where orgs = "[7]" and t = 0, OF example_hash_no_brace])
    (simp_all add: audit_writes_wf del: audit_writes.simps,
     simp add: verify_against_anchor_empty build_anchor_def Let_def audit_write_def current_hash_def
       chain_head_def chain_rows_def set_org_context_def)

text \<open>
  The chain does not commit to \<open>created_at\<close> or \<open>trace_id\<close>: rewriting those columns of any
  rows leaves the verdict of \<open>verify_chain\<close> unchanged, although \<open>verify_capability\<close> decides
  from \<open>created_at\<close> whether a capability has expired.
\<close>

theorem audit_created_at_not_committed:
  "verify_chain h (map chain_record (chain_rows org
     (map (\<lambda>r. r\<lparr>al_created_at := t r, al_trace_id := x r\<rparr>) log)))
   = verify_chain h (map chain_record (chain_rows org log))"
proof -
  let ?f = "\<lambda>r. r\<lparr>al_created_at := t r, al_trace_id := x r\<rparr>"
  have ins: "insort_key al_seq (?f r) (map ?f rs) = map ?f (insort_key al_seq r rs)" for r rs
    by (induction rs) auto
  have srt: "sort_key al_seq (map ?f rs) = map ?f (sort_key al_seq rs)" for rs
    by (induction rs) (simp_all add: ins)
  have "chain_record \<circ> ?f = chain_record" by (auto simp: chain_record_def)
  then show ?thesis
    by (simp add: chain_rows_def filter_map comp_def srt)
qed

text \<open>
  The capability that \<open>write\<close> returns authorises exactly the action and the resource it was
  written for, only inside the organisation it was written for, and only until ten minutes after
  the write.
\<close>

theorem capability_window:
  assumes "\<forall>r \<in> set (audit_log s). al_id r \<noteq> fresh s"
  shows "verify_capability (aid_id (fst (audit_write h e s))) action resource
           ((snd (audit_write h e s))\<lparr>now := t, org_ctx := c\<rparr>)
     \<longleftrightarrow> c = Some (ae_org_id e) \<and> action = ae_action e \<and> resource = ae_resource e
         \<and> t < now s + CAPABILITY_TTL"
proof -
  obtain row where row: "audit_log (snd (audit_write h e s)) = audit_log s @ [row]"
      "al_org_id row = ae_org_id e" "al_id row = fresh s" "al_created_at row = now s"
      "al_action row = ae_action e" "al_resource row = ae_resource e"
    by (rule audit_write_row)
  have id: "aid_id (fst (audit_write h e s)) = fresh s"
    by (simp add: audit_write_def Let_def)
  have "find (\<lambda>r. P r \<and> al_id r = fresh s) (audit_log s) = None" for P
    using assms by (auto simp: find_None_iff_ball)
  then have "find (\<lambda>r. P r \<and> al_id r = fresh s) (audit_log s @ [row]) =
      (if P row then Some row else None)" for P
    using row(3) by (simp add: find_append)
  then show ?thesis
    using row by (simp add: verify_capability_def id rls_visible_def) auto
qed

theorem capability_window_witness:
  "verify_capability 1 ''msg.send'' (Some ''5'')
     ((snd (audit_write example_hash
        \<lparr>ae_org_id = 7, ae_actor_type = ''user'', ae_action = ''msg.send'', ae_actor_id = None,
         ae_resource = Some ''5'', ae_payload = JObj [], ae_trace_id = None,
         ae_permission_manifest_hash = None\<rparr>
        \<lparr>now = 0, fresh = 1, org_ctx = None, audit_log = []\<rparr>))\<lparr>now := 1, org_ctx := Some 7\<rparr>)"
  using capability_window [where s = "\<lparr>now = 0, fresh = 1, org_ctx = None, audit_log = []\<rparr>"
    and h = example_hash and action = "''msg.send''" and resource = "Some ''5''" and t = 1
    and c = "Some 7" and e = "\<lparr>ae_org_id = 7, ae_actor_type = ''user'', ae_action = ''msg.send'', ae_actor_id = None,
      ae_resource = Some ''5'', ae_payload = JObj [], ae_trace_id = None,
      ae_permission_manifest_hash = None\<rparr>"]
  by (simp add: CAPABILITY_TTL_def audit_write_def Let_def)

end
