(* ===== verification/Redis.thy ===== *)
theory Redis
  imports Json
begin

text \<open>
  The part of Redis the program relies on, as the client calls use it: string keys with an expiry
  (\<open>SET NX EX\<close>, \<open>GET\<close>, \<open>DEL\<close>), counters (\<open>INCRBY\<close>, \<open>EXPIRE\<close>), hash counters (\<open>HINCRBY\<close>,
  \<open>HDEL\<close>), lists (\<open>RPUSH\<close>, \<open>LRANGE\<close>), sorted sets of time stamps (\<open>ZADD\<close>, \<open>ZCARD\<close>,
  \<open>ZREMRANGEBYSCORE\<close>), and streams with consumer groups (\<open>XADD\<close>, \<open>XREADGROUP\<close>, \<open>XAUTOCLAIM\<close>,
  \<open>XACK\<close>, \<open>XDEL\<close>, \<open>XRANGE\<close>). Redis is a second store: a Postgres rollback does not undo it.
  A stream entry carries one field \<open>data\<close>, the JSON document the program writes; entry ids are
  natural numbers in the order of insertion.
\<close>

record xgroup =
  xg_last :: nat
  xg_pending :: "(nat \<times> string \<times> time) list"

record redis =
  rd_now :: time
  rd_next :: nat
  rd_streams :: "string \<Rightarrow> (nat \<times> json) list"
  rd_groups :: "string \<Rightarrow> string \<Rightarrow> xgroup option"
  rd_hash :: "string \<Rightarrow> nat \<Rightarrow> int"
  rd_lists :: "string \<Rightarrow> string list"
  rd_keys :: "string \<Rightarrow> (string \<times> time option) option"
  rd_counters :: "string \<Rightarrow> (int \<times> time option) option"
  rd_zsets :: "string \<Rightarrow> time list"

definition redis_empty :: redis where
  "redis_empty = \<lparr>rd_now = 0, rd_next = 1, rd_streams = \<lambda>_. [], rd_groups = \<lambda>_ _. None,
     rd_hash = \<lambda>_ _. 0, rd_lists = \<lambda>_. [], rd_keys = \<lambda>_. None, rd_counters = \<lambda>_. None,
     rd_zsets = \<lambda>_. []\<rparr>"

subsection \<open>Keys and counters\<close>

definition live :: "time \<Rightarrow> ('v \<times> time option) option \<Rightarrow> 'v option" where
  "live t e = (case e of None \<Rightarrow> None
     | Some (v, None) \<Rightarrow> Some v
     | Some (v, Some x) \<Rightarrow> (if t < x then Some v else None))"

definition redis_get :: "string \<Rightarrow> redis \<Rightarrow> string option" where
  "redis_get k r = live (rd_now r) (rd_keys r k)"

definition redis_set_ex :: "string \<Rightarrow> string \<Rightarrow> time \<Rightarrow> redis \<Rightarrow> redis" where
  "redis_set_ex k v ttl r = r\<lparr>rd_keys := (rd_keys r)(k := Some (v, Some (rd_now r + ttl)))\<rparr>"

definition redis_set_nx :: "string \<Rightarrow> string \<Rightarrow> time \<Rightarrow> redis \<Rightarrow> bool \<times> redis" where
  "redis_set_nx k v ttl r =
     (case redis_get k r of Some _ \<Rightarrow> (False, r) | None \<Rightarrow> (True, redis_set_ex k v ttl r))"

definition redis_delete :: "string \<Rightarrow> redis \<Rightarrow> redis" where
  "redis_delete k r = r\<lparr>rd_keys := (rd_keys r)(k := None), rd_counters := (rd_counters r)(k := None),
     rd_lists := (rd_lists r)(k := []), rd_zsets := (rd_zsets r)(k := [])\<rparr>"

definition redis_counter :: "string \<Rightarrow> redis \<Rightarrow> int" where
  "redis_counter k r = (case live (rd_now r) (rd_counters r k) of None \<Rightarrow> 0 | Some n \<Rightarrow> n)"

definition redis_incrby :: "string \<Rightarrow> int \<Rightarrow> redis \<Rightarrow> int \<times> redis" where
  "redis_incrby k n r =
     (let v = redis_counter k r + n;
          x = (case live (rd_now r) (rd_counters r k) of None \<Rightarrow> None
                 | Some _ \<Rightarrow> (case rd_counters r k of Some (_, x) \<Rightarrow> x | None \<Rightarrow> None))
      in (v, r\<lparr>rd_counters := (rd_counters r)(k := Some (v, x))\<rparr>))"

definition redis_expire :: "string \<Rightarrow> time \<Rightarrow> redis \<Rightarrow> redis" where
  "redis_expire k ttl r =
     r\<lparr>rd_counters := (rd_counters r)(k := map_option (\<lambda>(v, _). (v, Some (rd_now r + ttl)))
        (rd_counters r k))\<rparr>"

lemma redis_set_nx_wins: "redis_set_nx k v ttl r = (True, r') \<Longrightarrow> redis_get k r = None"
  by (auto simp: redis_set_nx_def split: option.splits)

lemma redis_set_nx_held:
  "redis_set_nx k v ttl r = (w, r') \<Longrightarrow> 0 < ttl \<Longrightarrow> redis_get k r' \<noteq> None"
  by (auto simp: redis_set_nx_def redis_set_ex_def redis_get_def live_def split: option.splits)

lemma redis_set_nx_other:
  "redis_set_nx k v ttl r = (w, r') \<Longrightarrow> j \<noteq> k \<Longrightarrow> redis_get j r' = redis_get j r"
  by (auto simp: redis_set_nx_def redis_set_ex_def redis_get_def split: option.splits)

lemma redis_set_nx_now: "redis_set_nx k v ttl r = (w, r') \<Longrightarrow> rd_now r' = rd_now r"
  by (auto simp: redis_set_nx_def redis_set_ex_def split: option.splits)

lemma redis_counter_incrby [simp]: "redis_counter k (snd (redis_incrby k n r)) = redis_counter k r + n"
  by (auto simp: redis_incrby_def redis_counter_def live_def Let_def split: option.splits prod.splits)

lemma fst_redis_incrby [simp]: "fst (redis_incrby k n r) = redis_counter k r + n"
  by (simp add: redis_incrby_def Let_def)

lemma redis_counter_expire [simp]:
  "0 < ttl \<Longrightarrow> live (rd_now r) (rd_counters r k) \<noteq> None \<Longrightarrow>
   redis_counter k (redis_expire k ttl r) = redis_counter k r"
  by (auto simp: redis_expire_def redis_counter_def live_def split: option.splits prod.splits)

lemma redis_counter_delete [simp]: "redis_counter k (redis_delete k r) = 0"
  by (simp add: redis_delete_def redis_counter_def live_def)

subsection \<open>Streams\<close>

definition xadd :: "string \<Rightarrow> json \<Rightarrow> redis \<Rightarrow> redis" where
  "xadd st d r = r\<lparr>rd_streams := (rd_streams r)(st := rd_streams r st @ [(rd_next r, d)]),
                   rd_next := rd_next r + 1\<rparr>"

definition xdel :: "string \<Rightarrow> nat \<Rightarrow> redis \<Rightarrow> redis" where
  "xdel st i r = r\<lparr>rd_streams := (rd_streams r)(st := filter (\<lambda>e. fst e \<noteq> i) (rd_streams r st))\<rparr>"

definition xgroup_create :: "string \<Rightarrow> string \<Rightarrow> redis \<Rightarrow> redis" where
  "xgroup_create st g r =
     (case rd_groups r st g of Some _ \<Rightarrow> r
      | None \<Rightarrow> r\<lparr>rd_groups := (rd_groups r)(st := (rd_groups r st)(g :=
                    Some \<lparr>xg_last = 0, xg_pending = []\<rparr>))\<rparr>)"

definition set_group :: "string \<Rightarrow> string \<Rightarrow> xgroup \<Rightarrow> redis \<Rightarrow> redis" where
  "set_group st g x r = r\<lparr>rd_groups := (rd_groups r)(st := (rd_groups r st)(g := Some x))\<rparr>"

definition xack :: "string \<Rightarrow> string \<Rightarrow> nat \<Rightarrow> redis \<Rightarrow> redis" where
  "xack st g i r =
     (case rd_groups r st g of None \<Rightarrow> r
      | Some x \<Rightarrow> set_group st g
          (x\<lparr>xg_pending := filter (\<lambda>p. fst p \<noteq> i) (xg_pending x)\<rparr>) r)"

text \<open>
  \<open>XAUTOCLAIM\<close> hands the caller the pending entries idle for at least \<open>min_idle\<close>; \<open>XREADGROUP >\<close>
  the entries after the group's last delivered one. Both record the caller as the entry's owner.
\<close>

definition xautoclaim ::
  "string \<Rightarrow> string \<Rightarrow> string \<Rightarrow> time \<Rightarrow> nat \<Rightarrow> redis \<Rightarrow> (nat \<times> json) list \<times> redis" where
  "xautoclaim st g c min_idle cnt r =
     (case rd_groups r st g of None \<Rightarrow> ([], r)
      | Some x \<Rightarrow>
          (let idle = take cnt (filter (\<lambda>(i, _, t). min_idle \<le> rd_now r - t) (xg_pending x));
               ids = map fst idle;
               pend = map (\<lambda>(i, o', t). if i \<in> set ids then (i, c, rd_now r) else (i, o', t)) (xg_pending x)
           in (List.map_filter (\<lambda>i. map_option (Pair i) (map_of (rd_streams r st) i)) ids,
               set_group st g (x\<lparr>xg_pending := pend\<rparr>) r)))"

definition xreadgroup ::
  "string \<Rightarrow> string \<Rightarrow> string \<Rightarrow> nat \<Rightarrow> redis \<Rightarrow> (nat \<times> json) list \<times> redis" where
  "xreadgroup st g c cnt r =
     (case rd_groups r st g of None \<Rightarrow> ([], r)
      | Some x \<Rightarrow>
          (let msgs = take cnt (filter (\<lambda>e. xg_last x < fst e) (rd_streams r st));
               lst = (if msgs = [] then xg_last x else fst (last msgs))
           in (msgs, set_group st g
                 (x\<lparr>xg_last := lst,
                    xg_pending := xg_pending x @ map (\<lambda>e. (fst e, c, rd_now r)) msgs\<rparr>) r)))"

definition pending :: "string \<Rightarrow> string \<Rightarrow> redis \<Rightarrow> nat list" where
  "pending st g r = (case rd_groups r st g of None \<Rightarrow> [] | Some x \<Rightarrow> map fst (xg_pending x))"

definition hincrby :: "string \<Rightarrow> nat \<Rightarrow> redis \<Rightarrow> int \<times> redis" where
  "hincrby k f r = (rd_hash r k f + 1,
     r\<lparr>rd_hash := (rd_hash r)(k := (rd_hash r k)(f := rd_hash r k f + 1))\<rparr>)"

definition hdel :: "string \<Rightarrow> nat \<Rightarrow> redis \<Rightarrow> redis" where
  "hdel k f r = r\<lparr>rd_hash := (rd_hash r)(k := (rd_hash r k)(f := 0))\<rparr>"

definition rpush :: "string \<Rightarrow> string \<Rightarrow> redis \<Rightarrow> redis" where
  "rpush k v r = r\<lparr>rd_lists := (rd_lists r)(k := rd_lists r k @ [v])\<rparr>"

lemma xadd_sel [simp]:
  "rd_streams (xadd st d r) = (rd_streams r)(st := rd_streams r st @ [(rd_next r, d)])"
  "rd_groups (xadd st d r) = rd_groups r" "rd_hash (xadd st d r) = rd_hash r"
  "rd_lists (xadd st d r) = rd_lists r" "rd_now (xadd st d r) = rd_now r"
  "rd_next (xadd st d r) = rd_next r + 1" "rd_counters (xadd st d r) = rd_counters r"
  "rd_keys (xadd st d r) = rd_keys r" "rd_zsets (xadd st d r) = rd_zsets r"
  by (simp_all add: xadd_def)

lemma xack_sel [simp]:
  "rd_streams (xack st g i r) = rd_streams r" "rd_hash (xack st g i r) = rd_hash r"
  "rd_lists (xack st g i r) = rd_lists r" "rd_next (xack st g i r) = rd_next r"
  "rd_now (xack st g i r) = rd_now r"
  by (simp_all add: xack_def set_group_def split: option.split)

lemma hdel_sel [simp]:
  "rd_streams (hdel k f r) = rd_streams r" "rd_groups (hdel k f r) = rd_groups r"
  "rd_hash (hdel k f r) = (rd_hash r)(k := (rd_hash r k)(f := 0))"
  "rd_lists (hdel k f r) = rd_lists r" "rd_next (hdel k f r) = rd_next r"
  "rd_now (hdel k f r) = rd_now r"
  by (simp_all add: hdel_def)

lemma redis_delete_sel [simp]:
  "rd_streams (redis_delete k r) = rd_streams r" "rd_groups (redis_delete k r) = rd_groups r"
  "rd_hash (redis_delete k r) = rd_hash r" "rd_next (redis_delete k r) = rd_next r"
  "rd_lists (redis_delete k r) = (rd_lists r)(k := [])" "rd_now (redis_delete k r) = rd_now r"
  by (simp_all add: redis_delete_def)

lemma rpush_sel [simp]:
  "rd_streams (rpush k v r) = rd_streams r" "rd_groups (rpush k v r) = rd_groups r"
  "rd_hash (rpush k v r) = rd_hash r" "rd_next (rpush k v r) = rd_next r"
  "rd_lists (rpush k v r) = (rd_lists r)(k := rd_lists r k @ [v])" "rd_now (rpush k v r) = rd_now r"
  by (simp_all add: rpush_def)

lemma hincrby_sel [simp]:
  "fst (hincrby k f r) = rd_hash r k f + 1"
  "rd_hash (snd (hincrby k f r)) = (rd_hash r)(k := (rd_hash r k)(f := rd_hash r k f + 1))"
  "rd_streams (snd (hincrby k f r)) = rd_streams r" "rd_groups (snd (hincrby k f r)) = rd_groups r"
  "rd_lists (snd (hincrby k f r)) = rd_lists r" "rd_next (snd (hincrby k f r)) = rd_next r"
  "rd_now (snd (hincrby k f r)) = rd_now r"
  by (simp_all add: hincrby_def)

lemma xdel_sel [simp]:
  "rd_streams (xdel st i r) = (rd_streams r)(st := filter (\<lambda>e. fst e \<noteq> i) (rd_streams r st))"
  "rd_groups (xdel st i r) = rd_groups r" "rd_next (xdel st i r) = rd_next r"
  by (simp_all add: xdel_def)

lemma pending_xack: "i \<notin> set (pending st g (xack st g i r))"
  by (auto simp: pending_def xack_def set_group_def split: option.split)

lemma pending_xadd [simp]: "pending st g (xadd st' d r) = pending st g r"
  by (simp add: pending_def)

lemma pending_others [simp]:
  "pending st g (hdel k f r) = pending st g r" "pending st g (rpush k v r) = pending st g r"
  "pending st g (redis_delete k r) = pending st g r"
  "pending st g (snd (hincrby k f r)) = pending st g r"
  by (simp_all add: pending_def)

end
