(* ===== verification/Text.thy ===== *)
theory Text
  imports Json
begin

text \<open>
  The string methods of Python the program uses: \<open>str.split(sep)\<close>, \<open>str.split()\<close>,
  \<open>str.partition\<close>, \<open>startswith\<close>, \<open>endswith\<close>, \<open>strip\<close> and \<open>int(s)\<close> for decimal numerals with an optional
  minus sign (the forms with inner underscores or surrounding blanks are taken as malformed).
\<close>

fun py_split :: "char \<Rightarrow> string \<Rightarrow> string list" where
  "py_split c [] = [[]]"
| "py_split c (x # xs) = (if x = c then [] # py_split c xs
     else case py_split c xs of [] \<Rightarrow> [[x]] | w # ws \<Rightarrow> (x # w) # ws)"

definition py_words :: "string \<Rightarrow> string list" where
  "py_words s = filter (\<lambda>w. w \<noteq> []) (py_split CHR '' '' s)"

definition py_before :: "char \<Rightarrow> string \<Rightarrow> string" where
  "py_before c s = takeWhile (\<lambda>x. x \<noteq> c) s"

definition py_after :: "char \<Rightarrow> string \<Rightarrow> string" where
  "py_after c s = tl (dropWhile (\<lambda>x. x \<noteq> c) s)"

definition starts_with :: "string \<Rightarrow> string \<Rightarrow> bool" where
  "starts_with pre s \<longleftrightarrow> take (length pre) s = pre"

definition ends_with :: "string \<Rightarrow> string \<Rightarrow> bool" where
  "ends_with suf s \<longleftrightarrow> length suf \<le> length s \<and> drop (length s - length suf) s = suf"

definition is_space :: "char \<Rightarrow> bool" where
  "is_space c \<longleftrightarrow> c \<in> {CHR '' '', CHR 0x09, CHR 0x0A, CHR 0x0B, CHR 0x0C, CHR 0x0D}"

definition py_strip :: "string \<Rightarrow> string" where
  "py_strip s = rev (dropWhile is_space (rev (dropWhile is_space s)))"

text \<open>\<open>str.lower()\<close> on ASCII letters; other characters are kept.\<close>

definition lower_char :: "char \<Rightarrow> char" where
  "lower_char c = (if 65 \<le> (of_char c :: nat) \<and> (of_char c :: nat) \<le> 90 then char_of (of_char c + 32 :: nat) else c)"

definition py_lower :: "string \<Rightarrow> string" where
  "py_lower s = map lower_char s"

definition is_upper :: "char \<Rightarrow> bool" where
  "is_upper c \<longleftrightarrow> 65 \<le> (of_char c :: nat) \<and> (of_char c :: nat) \<le> 90"

fun parse_nat :: "string \<Rightarrow> nat option" where
  "parse_nat s = (if s \<noteq> [] \<and> list_all is_digit s then Some (digits_val s) else None)"

definition parse_int :: "string \<Rightarrow> int option" where
  "parse_int s = (case s of
       [] \<Rightarrow> None
     | c # cs \<Rightarrow> if c = CHR ''-'' then map_option (\<lambda>n. - int n) (parse_nat cs)
                else map_option int (parse_nat s))"

declare parse_nat.simps [simp del]

lemma py_split_nonempty [simp]: "py_split c s \<noteq> []"
  by (induction s) (auto split: list.splits)

lemma py_split_none: "c \<notin> set s \<Longrightarrow> py_split c s = [s]"
  by (induction s) auto

lemma py_split_append: "c \<notin> set a \<Longrightarrow> py_split c (a @ c # b) = a # py_split c b"
  by (induction a) auto

lemma py_before_append: "c \<notin> set a \<Longrightarrow> py_before c (a @ c # b) = a"
  by (induction a) (auto simp: py_before_def)

lemma py_after_append: "c \<notin> set a \<Longrightarrow> py_after c (a @ c # b) = b"
  by (induction a) (auto simp: py_after_def)

lemma py_before_none: "c \<notin> set a \<Longrightarrow> py_before c a = a"
  by (induction a) (auto simp: py_before_def)

lemma py_after_none: "c \<notin> set a \<Longrightarrow> py_after c a = []"
  by (induction a) (auto simp: py_after_def)

lemma parse_nat_nat_str [simp]: "parse_nat (nat_str n) = Some n"
  by (simp add: parse_nat.simps nat_str_digits)

lemma nat_str_chars: "c \<in> set (nat_str n) \<Longrightarrow> is_digit c"
  using nat_str_digits [of n] by (auto simp: list_all_iff)

lemma nat_str_no_char [simp]: "\<not> is_digit c \<Longrightarrow> c \<notin> set (nat_str n)"
  using nat_str_chars by blast

lemma not_digit_chars [simp]:
  "\<not> is_digit CHR '','' " "\<not> is_digit CHR ''/''" "\<not> is_digit CHR ''-''" "\<not> is_digit CHR ''*''"
  "\<not> is_digit CHR '':''" "\<not> is_digit CHR ''.''" "\<not> is_digit CHR '' ''"
  by (simp_all add: is_digit_def)

lemma parse_int_nat_str [simp]: "parse_int (nat_str n) = Some (int n)"
proof (cases "nat_str n")
  case Nil
  then show ?thesis using nat_str_nonempty by blast
next
  case (Cons c cs)
  then have "c \<noteq> CHR ''-''" using hd_nat_str [of n] not_digit_chars(3) by auto
  with Cons parse_nat_nat_str [of n] show ?thesis by (auto simp: parse_int_def)
qed

text \<open>\<open>int(x)\<close>; \<open>None\<close> where Python raises \<open>TypeError\<close> or \<open>ValueError\<close>.\<close>

definition py_int :: "json \<Rightarrow> int option" where
  "py_int j = (case j of JInt i \<Rightarrow> Some i | JBool b \<Rightarrow> Some (if b then 1 else 0) | JStr s \<Rightarrow> parse_int s | _ \<Rightarrow> None)"

end
