(* ===== verification/Outbox.thy ===== *)
theory Outbox
  imports AuditLog Redis Text
begin

text \<open>
  The transactional outbox: the topic registry (\<open>core/events/topics.py\<close>), the payload
  specifications (\<open>core/events/types.py\<close>), and \<open>emit\<close>, \<open>cloud_event\<close> and \<open>publish_batch\<close>
  (\<open>core/events/outbox.py\<close>). The table \<open>event_outbox\<close> has no row level security: the publisher
  relays every tenant's rows.

  A publisher that dies between the relay and the commit is \<open>publish_crash\<close>. The lemmas show that a
  row is marked published only once its envelope is on the stream, in every interleaving of emits,
  batches and crashes, and that enough batches drain the outbox.
\<close>

subsection \<open>The registry\<close>

definition ALLOWED_EVENT_TYPES :: "string list" where
  "ALLOWED_EVENT_TYPES =
     [''msg.received.v1'',
      ''msg.sent.v1'',
      ''msg.failed.v1'',
      ''agent.action.v1'',
      ''approval.requested.v1'',
      ''approval.resolved.v1'',
      ''approval.expired.v1'',
      ''lead.stage_changed.v1'',
      ''lead.went_silent.v1'',
      ''lead.reengaged.v1'',
      ''quote.created.v1'',
      ''rate.updated.v1'',
      ''rate.stale.v1'',
      ''rate.recovered.v1'',
      ''pack.installed.v1'',
      ''import.batch_state.v1'',
      ''campaign.approved.v1'',
      ''campaign.executed.v1'',
      ''workflow.run_state.v1'',
      ''calendar.window_opened.v1'',
      ''attribution.confirm_requested.v1'',
      ''attribution.confirmed.v1'',
      ''alert.ops.v1'',
      ''catalog.price_inputs_changed.v1'',
      ''support.ticket.raised.v1'']"

definition stream_name :: "string \<Rightarrow> string" where
  "stream_name event_type = ''gop:events:'' @ event_type"

definition PAYLOAD_SPECS :: "(string \<times> (string \<times> string) list) list" where
  "PAYLOAD_SPECS =
     [(''msg.received.v1'', [(''conversation_id'', ''uuid''), (''contact_id'', ''uuid''), (''body'', ''string''), (''media'', ''array''), (''classified_intent'', ''string|null'')]),
      (''msg.sent.v1'', [(''message_id'', ''uuid''), (''conversation_id'', ''uuid''), (''audit_id'', ''uuid'')]),
      (''msg.failed.v1'', [(''message_id'', ''uuid''), (''error'', ''string''), (''retryable'', ''bool'')]),
      (''agent.action.v1'', [(''run_id'', ''uuid''), (''tool'', ''string''), (''tier'', ''int''), (''outcome'', ''string''), (''latency_ms'', ''int'')]),
      (''approval.requested.v1'', [(''approval_id'', ''uuid''), (''action_type'', ''string''), (''tier'', ''int''), (''preview'', ''object''), (''timeout_at'', ''rfc3339'')]),
      (''approval.resolved.v1'', [(''approval_id'', ''uuid''), (''decision'', ''string''), (''edited'', ''bool'')]),
      (''approval.expired.v1'', []),
      (''lead.stage_changed.v1'', [(''lead_id'', ''uuid''), (''stage'', ''string''), (''last_customer_msg_at'', ''rfc3339|null'')]),
      (''lead.went_silent.v1'', [(''lead_id'', ''uuid''), (''stage'', ''string''), (''silence_hours'', ''int''), (''last_customer_msg_at'', ''rfc3339|null'')]),
      (''lead.reengaged.v1'', []),
      (''quote.created.v1'', [(''quote_id'', ''uuid''), (''total_minor'', ''int''), (''strategy'', ''string'')]),
      (''rate.updated.v1'', []),
      (''rate.stale.v1'', [(''source'', ''string''), (''last_captured_at'', ''rfc3339'')]),
      (''rate.recovered.v1'', []),
      (''pack.installed.v1'', []),
      (''import.batch_state.v1'', [(''batch_id'', ''uuid''), (''state'', ''string''), (''stats'', ''object'')]),
      (''campaign.approved.v1'', []),
      (''campaign.executed.v1'', [(''campaign_id'', ''uuid''), (''sent'', ''int''), (''failed'', ''int'')]),
      (''workflow.run_state.v1'', []),
      (''calendar.window_opened.v1'', [(''pack'', ''string''), (''key'', ''string''), (''campaign_window_days'', ''int'')]),
      (''attribution.confirm_requested.v1'', []),
      (''attribution.confirmed.v1'', []),
      (''alert.ops.v1'', [(''severity'', ''string''), (''kind'', ''string''), (''detail'', ''object'')]),
      (''catalog.price_inputs_changed.v1'', [(''item_id'', ''uuid''), (''changed_keys'', ''array'')]),
      (''support.ticket.raised.v1'', [(''ticket_id'', ''uuid''), (''priority'', ''string''), (''severity'', ''string'')])]"

subsection \<open>Payload validation\<close>

datatype emit_error = UnknownEventType string | MissingField string | BadField string string

text \<open>
  \<open>isinstance\<close> against \<open>_TYPE_MAP\<close>. Python's \<open>bool\<close> is a subclass of \<open>int\<close>, so \<open>True\<close> passes where
  an \<open>int\<close> is declared.
\<close>

definition type_map_accepts :: "string \<Rightarrow> json \<Rightarrow> bool" where
  "type_map_accepts t v =
     (if t \<in> {''uuid'', ''string'', ''rfc3339''} then (case v of JStr _ \<Rightarrow> True | _ \<Rightarrow> False)
      else if t = ''int'' then (case v of JInt _ \<Rightarrow> True | JBool _ \<Rightarrow> True | _ \<Rightarrow> False)
      else if t = ''bool'' then (case v of JBool _ \<Rightarrow> True | _ \<Rightarrow> False)
      else if t = ''array'' then (case v of JArr _ \<Rightarrow> True | _ \<Rightarrow> False)
      else if t = ''object'' then (case v of JObj _ \<Rightarrow> True | _ \<Rightarrow> False)
      else True)"

definition check_field :: "(string \<times> json) list \<Rightarrow> string \<times> string \<Rightarrow> emit_error option" where
  "check_field payload ft =
     (case map_of payload (fst ft) of None \<Rightarrow> Some (MissingField (fst ft))
      | Some v \<Rightarrow>
          if ends_with ''|null'' (snd ft) \<and> v = JNull then None
          else if type_map_accepts (takeWhile (\<lambda>c. c \<noteq> CHR ''|'') (snd ft)) v then None
          else Some (BadField (fst ft) (snd ft)))"

fun first_error :: "('x \<Rightarrow> 'e option) \<Rightarrow> 'x list \<Rightarrow> 'e option" where
  "first_error f [] = None"
| "first_error f (x # xs) = (case f x of Some e \<Rightarrow> Some e | None \<Rightarrow> first_error f xs)"

definition validate_payload :: "string \<Rightarrow> (string \<times> json) list \<Rightarrow> emit_error option" where
  "validate_payload event_type payload =
     first_error (check_field payload)
       (case map_of PAYLOAD_SPECS event_type of None \<Rightarrow> [] | Some fs \<Rightarrow> fs)"

lemma first_error_None: "first_error f xs = None \<longleftrightarrow> (\<forall>x \<in> set xs. f x = None)"
  by (induction xs) (auto split: option.splits)

subsection \<open>Emitting and publishing\<close>

record outbox_row =
  ob_id :: uuid
  ob_org_id :: uuid
  ob_type :: string
  ob_source :: string
  ob_payload :: json
  ob_created_at :: time
  ob_published_at :: "time option"

record outbox_db = audit_db +
  event_outbox :: "outbox_row list"

text \<open>\<open>datetime.isoformat()\<close>, used as an injective text of a time.\<close>

definition isoformat :: "time \<Rightarrow> string" where
  "isoformat t = int_str t"

definition cloud_event :: "uuid \<Rightarrow> string \<Rightarrow> string \<Rightarrow> uuid \<Rightarrow> json \<Rightarrow> time \<Rightarrow> json" where
  "cloud_event event_id event_type source org payload t =
     JObj [(''specversion'', JStr ''1.0''), (''id'', JId event_id), (''type'', JStr event_type),
           (''source'', JStr (''gop/'' @ source)), (''subject'', JId org),
           (''time'', JStr (isoformat t)), (''data'', payload)]"

definition emit ::
  "uuid \<Rightarrow> string \<Rightarrow> (string \<times> json) list \<Rightarrow> string \<Rightarrow> (emit_error, uuid, 'a outbox_db_scheme) op" where
  "emit org event_type payload source s =
     (if event_type \<notin> set ALLOWED_EVENT_TYPES then (Inl (UnknownEventType event_type), s)
      else case validate_payload event_type payload of Some e \<Rightarrow> (Inl e, s)
      | None \<Rightarrow>
          (Inr (fresh s),
           s\<lparr>event_outbox := event_outbox s @
               [\<lparr>ob_id = fresh s, ob_org_id = org, ob_type = event_type, ob_source = source,
                 ob_payload = JObj payload, ob_created_at = now s, ob_published_at = None\<rparr>],
             fresh := fresh s + 1\<rparr>))"

definition outbox_envelope :: "outbox_row \<Rightarrow> json" where
  "outbox_envelope r =
     cloud_event (ob_id r) (ob_type r) (ob_source r) (ob_org_id r) (ob_payload r) (ob_created_at r)"

definition unpublished :: "outbox_row list \<Rightarrow> outbox_row list" where
  "unpublished rows = filter (\<lambda>r. ob_published_at r = None) rows"

text \<open>\<open>FOR UPDATE SKIP LOCKED LIMIT n\<close>: \<open>locked\<close> are the rows other publishers hold.\<close>

definition claim_batch :: "(uuid \<Rightarrow> bool) \<Rightarrow> nat \<Rightarrow> outbox_row list \<Rightarrow> outbox_row list" where
  "claim_batch locked n rows =
     take n (filter (\<lambda>r. \<not> locked (ob_id r)) (sort_key ob_created_at (unpublished rows)))"

definition relay :: "outbox_row list \<Rightarrow> redis \<Rightarrow> redis" where
  "relay rows rd = fold (\<lambda>r. xadd (stream_name (ob_type r)) (outbox_envelope r)) rows rd"

definition publish_batch ::
  "(uuid \<Rightarrow> bool) \<Rightarrow> nat \<Rightarrow> 'a outbox_db_scheme \<times> redis \<Rightarrow> nat \<times> 'a outbox_db_scheme \<times> redis" where
  "publish_batch locked n sr =
     (case sr of (s, rd) \<Rightarrow>
        let rows = claim_batch locked n (event_outbox s) in
        if rows = [] then (0, s, rd)
        else (length rows,
              s\<lparr>event_outbox := update_where (\<lambda>r. ob_id r \<in> ob_id ` set rows)
                  (\<lambda>r. r\<lparr>ob_published_at := Some (now s)\<rparr>) (event_outbox s)\<rparr>,
              relay rows rd))"

text \<open>A crash after \<open>k\<close> of the \<open>XADD\<close>s: the transaction never commits.\<close>

definition publish_crash ::
  "(uuid \<Rightarrow> bool) \<Rightarrow> nat \<Rightarrow> nat \<Rightarrow> 'a outbox_db_scheme \<times> redis \<Rightarrow> 'a outbox_db_scheme \<times> redis" where
  "publish_crash locked n k sr =
     (case sr of (s, rd) \<Rightarrow> (s, relay (take k (claim_batch locked n (event_outbox s))) rd))"

inductive outbox_step ::
  "'a outbox_db_scheme \<times> redis \<Rightarrow> 'a outbox_db_scheme \<times> redis \<Rightarrow> bool" where
  emitted: "emit org ty payload src s = (Inr i, s') \<Longrightarrow> outbox_step (s, rd) (s', rd)"
| refused: "emit org ty payload src s = (Inl e, s') \<Longrightarrow> outbox_step (s, rd) (s', rd)"
| published: "publish_batch locked n (s, rd) = (k, s', rd') \<Longrightarrow> outbox_step (s, rd) (s', rd')"
| crashed: "publish_crash locked n k (s, rd) = (s', rd') \<Longrightarrow> outbox_step (s, rd) (s', rd')"
| other: "event_outbox s' = event_outbox s \<Longrightarrow> fresh s \<le> fresh s' \<Longrightarrow> outbox_step (s, rd) (s', rd)"
| consumed: "\<forall>st. set (rd_streams rd st) \<subseteq> set (rd_streams rd' st) \<Longrightarrow> outbox_step (s, rd) (s, rd')"


subsection \<open>At least once\<close>

definition on_stream :: "redis \<Rightarrow> outbox_row \<Rightarrow> bool" where
  "on_stream rd r \<longleftrightarrow> outbox_envelope r \<in> snd ` set (rd_streams rd (stream_name (ob_type r)))"

definition wf_outbox :: "'a outbox_db_scheme \<Rightarrow> bool" where
  "wf_outbox s \<longleftrightarrow> distinct (map ob_id (event_outbox s)) \<and> (\<forall>r \<in> set (event_outbox s). ob_id r < fresh s)"

definition outbox_inv :: "'a outbox_db_scheme \<times> redis \<Rightarrow> bool" where
  "outbox_inv sr \<longleftrightarrow> wf_outbox (fst sr) \<and>
     (\<forall>r \<in> set (event_outbox (fst sr)). ob_published_at r \<noteq> None \<longrightarrow> on_stream (snd sr) r)"

lemma relay_keeps: "set (rd_streams rd st) \<subseteq> set (rd_streams (relay rows rd) st)"
proof (induction rows arbitrary: rd)
  case Nil
  then show ?case by (simp add: relay_def)
next
  case (Cons r rows)
  let ?rd = "xadd (stream_name (ob_type r)) (outbox_envelope r) rd"
  have "set (rd_streams rd st) \<subseteq> set (rd_streams ?rd st)" by auto
  also have "\<dots> \<subseteq> set (rd_streams (relay rows ?rd) st)" by (rule Cons)
  finally show ?case by (simp add: relay_def)
qed

lemma on_stream_mono:
  "on_stream rd r \<Longrightarrow> (\<And>st. set (rd_streams rd st) \<subseteq> set (rd_streams rd' st)) \<Longrightarrow> on_stream rd' r"
  unfolding on_stream_def by blast

lemma on_stream_relay_old: "on_stream rd r \<Longrightarrow> on_stream (relay rows rd) r"
  by (erule on_stream_mono) (rule relay_keeps)

lemma on_stream_relay: "r \<in> set rows \<Longrightarrow> on_stream (relay rows rd) r"
proof (induction rows arbitrary: rd)
  case (Cons x rows)
  show ?case
  proof (cases "r \<in> set rows")
    case True
    with Cons show ?thesis by (simp add: relay_def)
  next
    case False
    with Cons have "r = x" by simp
    have "on_stream (xadd (stream_name (ob_type x)) (outbox_envelope x) rd) x"
      by (simp add: on_stream_def)
    then have "on_stream (relay rows (xadd (stream_name (ob_type x)) (outbox_envelope x) rd)) x"
      by (rule on_stream_relay_old)
    with \<open>r = x\<close> show ?thesis by (simp add: relay_def)
  qed
qed simp

lemma on_stream_marked [simp]: "on_stream rd (r\<lparr>ob_published_at := x\<rparr>) \<longleftrightarrow> on_stream rd r"
  by (simp add: on_stream_def outbox_envelope_def)

lemma claim_batch_sub: "set (claim_batch locked n rows) \<subseteq> {r \<in> set rows. ob_published_at r = None}"
  by (auto simp: claim_batch_def unpublished_def dest!: in_set_takeD)

lemma emit_cases:
  assumes "emit org ty payload src s = (res, s')"
  obtains (refused) e where "res = Inl e" "s' = s"
  | (appended) row where "res = Inr (fresh s)" "event_outbox s' = event_outbox s @ [row]"
      "ob_id row = fresh s" "fresh s' = fresh s + 1" "ob_published_at row = None"
      "ob_type row = ty" "ob_org_id row = org" "ob_payload row = JObj payload"
      "ty \<in> set ALLOWED_EVENT_TYPES" "validate_payload ty payload = None"
  using assms by (auto simp: emit_def split: if_splits option.splits)

lemma emit_other_fields [frame_simps]:
  "audit_log (snd (emit org ty payload src s)) = audit_log s"
  "org_ctx (snd (emit org ty payload src s)) = org_ctx s"
  "now (snd (emit org ty payload src s)) = now s"
  by (auto simp: emit_def split: option.splits)

lemma emit_more [frame_simps]: "outbox_db.more (snd (emit org ty payload src s)) = outbox_db.more s"
  by (auto simp: emit_def split: option.splits)

lemma wf_outbox_mark:
  "wf_outbox s \<Longrightarrow> wf_outbox (s\<lparr>event_outbox := update_where p (\<lambda>r. r\<lparr>ob_published_at := x\<rparr>) (event_outbox s)\<rparr>)"
  by (auto simp: wf_outbox_def map_update_where set_update_where)

lemma same_id_same_row:
  "wf_outbox s \<Longrightarrow> r \<in> set (event_outbox s) \<Longrightarrow> r' \<in> set (event_outbox s) \<Longrightarrow> ob_id r = ob_id r' \<Longrightarrow> r = r'"
  by (auto simp: wf_outbox_def distinct_map inj_on_def)

lemma publish_batch_inv:
  assumes "outbox_inv (s, rd)" and "publish_batch locked n (s, rd) = (k, s', rd')"
  shows "outbox_inv (s', rd')"
proof (cases "claim_batch locked n (event_outbox s) = []")
  case True
  with assms show ?thesis by (simp add: publish_batch_def)
next
  case False
  let ?rows = "claim_batch locked n (event_outbox s)"
  have s': "s' = s\<lparr>event_outbox := update_where (\<lambda>r. ob_id r \<in> ob_id ` set ?rows)
      (\<lambda>r. r\<lparr>ob_published_at := Some (now s)\<rparr>) (event_outbox s)\<rparr>" and rd': "rd' = relay ?rows rd"
    using False assms(2) by (auto simp: publish_batch_def Let_def)
  have wf: "wf_outbox s" using assms(1) by (simp add: outbox_inv_def)
  have rows: "set ?rows \<subseteq> set (event_outbox s)" using claim_batch_sub by blast
  have "on_stream rd' r" if "r \<in> set (event_outbox s')" "ob_published_at r \<noteq> None" for r
  proof -
    from that(1) obtain q where q: "q \<in> set (event_outbox s)"
      "r = q \<and> ob_id q \<notin> ob_id ` set ?rows \<or> r = q\<lparr>ob_published_at := Some (now s)\<rparr> \<and> ob_id q \<in> ob_id ` set ?rows"
      by (auto simp: s' set_update_where)
    from q(2) show ?thesis
    proof
      assume "r = q \<and> ob_id q \<notin> ob_id ` set ?rows"
      with that(2) q(1) assms(1) have "on_stream rd r" by (auto simp: outbox_inv_def)
      then show ?thesis by (simp add: rd' on_stream_relay_old)
    next
      assume a: "r = q\<lparr>ob_published_at := Some (now s)\<rparr> \<and> ob_id q \<in> ob_id ` set ?rows"
      then obtain q' where "q' \<in> set ?rows" "ob_id q' = ob_id q" by auto
      with rows q(1) wf have "q \<in> set ?rows" using same_id_same_row by blast
      with a show ?thesis by (simp add: rd' on_stream_relay)
    qed
  qed
  moreover have "wf_outbox s'" using wf by (simp add: s' wf_outbox_mark)
  ultimately show ?thesis by (simp add: outbox_inv_def)
qed

lemma outbox_step_inv: "outbox_step sr sr' \<Longrightarrow> outbox_inv sr \<Longrightarrow> outbox_inv sr'"
proof (induction rule: outbox_step.induct)
  case (emitted org ty payload src s i s' rd)
  from emitted(1) show ?case
    by (cases rule: emit_cases) (use emitted(2) in \<open>auto simp: outbox_inv_def wf_outbox_def\<close>)
next
  case (refused org ty payload src s e s' rd)
  from refused(1) show ?case by (cases rule: emit_cases) (use refused(2) in auto)
next
  case (published locked n s rd k s' rd')
  then show ?case using publish_batch_inv by blast
next
  case (crashed locked n k s rd s' rd')
  then show ?case by (auto simp: publish_crash_def outbox_inv_def on_stream_relay_old)
next
  case (other s' s rd)
  then show ?case by (force simp: outbox_inv_def wf_outbox_def)
next
  case (consumed rd rd' s)
  then show ?case using on_stream_mono by (fastforce simp: outbox_inv_def)
qed

lemma outbox_reachable_inv:
  "outbox_step\<^sup>*\<^sup>* sr sr' \<Longrightarrow> outbox_inv sr \<Longrightarrow> outbox_inv sr'"
  by (induction rule: rtranclp_induct) (auto intro: outbox_step_inv)

subsection \<open>Draining\<close>

definition publish_batches ::
  "nat \<Rightarrow> nat \<Rightarrow> 'a outbox_db_scheme \<times> redis \<Rightarrow> 'a outbox_db_scheme \<times> redis" where
  "publish_batches k n = ((\<lambda>sr. snd (publish_batch (\<lambda>_. False) n sr)) ^^ k)"

lemma publish_batches_1: "publish_batches 1 n sr = snd (publish_batch (\<lambda>_. False) n sr)"
  by (simp add: publish_batches_def)

lemma unpublished_after_batch:
  assumes "wf_outbox s"
  shows "length (unpublished (event_outbox (fst (snd (publish_batch (\<lambda>_. False) n (s, rd))))))
           = length (unpublished (event_outbox s)) - n"
proof -
  let ?rows = "claim_batch (\<lambda>_. False) n (event_outbox s)"
  let ?un = "unpublished (event_outbox s)"
  let ?out = "event_outbox (fst (snd (publish_batch (\<lambda>_. False) n (s, rd))))"
  have d: "distinct (event_outbox s)" using assms by (simp add: wf_outbox_def distinct_map)
  have drows: "distinct ?rows" and lrows: "length ?rows = min n (length ?un)"
    using d by (auto simp: claim_batch_def unpublished_def)
  have rows: "set ?rows \<subseteq> set ?un"
    using claim_batch_sub by (fastforce simp: unpublished_def)
  have out: "?out = update_where (\<lambda>r. ob_id r \<in> ob_id ` set ?rows)
      (\<lambda>r. r\<lparr>ob_published_at := Some (now s)\<rparr>) (event_outbox s)"
    by (auto simp: publish_batch_def Let_def update_where_def)
  have "unpublished (update_where (\<lambda>r. ob_id r \<in> I) (\<lambda>r. r\<lparr>ob_published_at := Some t\<rparr>) rs)
      = filter (\<lambda>r. ob_id r \<notin> I) (unpublished rs)" for I t and rs :: "outbox_row list"
    by (induction rs) (auto simp: unpublished_def)
  then have u: "unpublished ?out = filter (\<lambda>r. ob_id r \<notin> ob_id ` set ?rows) ?un" by (simp add: out)
  have "r \<in> set ?rows" if "r \<in> set ?un" "ob_id r \<in> ob_id ` set ?rows" for r
  proof -
    from that(2) obtain q where q: "q \<in> set ?rows" "ob_id r = ob_id q" by blast
    have un: "set ?un \<subseteq> set (event_outbox s)" by (auto simp: unpublished_def)
    have "q \<in> set (event_outbox s)" by (rule subsetD [OF un subsetD [OF rows q(1)]])
    moreover have "r \<in> set (event_outbox s)" by (rule subsetD [OF un that(1)])
    ultimately
    show ?thesis using q same_id_same_row [OF assms, of r q] by simp
  qed
  then have "filter (\<lambda>r. ob_id r \<notin> ob_id ` set ?rows) ?un = filter (\<lambda>r. r \<notin> set ?rows) ?un"
    by (intro filter_cong) auto
  moreover have "length (filter (\<lambda>r. r \<notin> set ?rows) ?un) = card (set ?un - set ?rows)"
  proof -
    have "distinct (filter (\<lambda>r. r \<notin> set ?rows) ?un)" using d by (simp add: unpublished_def)
    then have "length (filter (\<lambda>r. r \<notin> set ?rows) ?un) = card (set (filter (\<lambda>r. r \<notin> set ?rows) ?un))"
      by (simp only: distinct_card)
    also have "set (filter (\<lambda>r. r \<notin> set ?rows) ?un) = set ?un - set ?rows" by auto
    finally show ?thesis .
  qed
  moreover have "\<dots> = length ?un - length ?rows"
  proof -
    have "distinct ?un" using d by (simp add: unpublished_def)
    with rows drows show ?thesis by (simp add: card_Diff_subset distinct_card)
  qed
  ultimately show ?thesis using lrows by (simp add: u)
qed

lemma publish_batches_inv:
  "outbox_inv sr \<Longrightarrow> outbox_inv (publish_batches k n sr) \<and>
     length (unpublished (event_outbox (fst (publish_batches k n sr))))
       = length (unpublished (event_outbox (fst sr))) - k * n"
proof (induction k)
  case 0
  then show ?case by (simp add: publish_batches_def)
next
  case (Suc k)
  let ?m = "publish_batches k n sr"
  have ih: "outbox_inv ?m" "length (unpublished (event_outbox (fst ?m)))
      = length (unpublished (event_outbox (fst sr))) - k * n" using Suc by auto
  have step: "publish_batches (Suc k) n sr = snd (publish_batch (\<lambda>_. False) n ?m)"
    by (simp add: publish_batches_def)
  have wf: "wf_outbox (fst ?m)" using ih by (simp add: outbox_inv_def)
  have "outbox_inv (snd (publish_batch (\<lambda>_. False) n ?m))"
    using publish_batch_inv [of "fst ?m" "snd ?m"] ih(1) by (metis prod.collapse)
  with unpublished_after_batch [OF wf, of n "snd ?m"] ih(2) show ?case by (simp add: step)
qed

subsection \<open>Properties\<close>

text \<open>
  C22: an event is marked published only once its envelope is on its stream. Start from an empty
  outbox; in every interleaving of emits, publisher batches (of any number of publishers), crashes
  between the relay and the commit and consumption, a row with \<open>published_at\<close> set has its
  CloudEvents envelope on \<open>stream_name(type)\<close>: a crash can only relay a row again, never lose it.
\<close>

theorem outbox_published_on_stream:
  assumes "outbox_step\<^sup>*\<^sup>* (s0, rd0) (s, rd)" and "event_outbox s0 = []"
    and "r \<in> set (event_outbox s)" and "ob_published_at r \<noteq> None"
  shows "outbox_envelope r \<in> snd ` set (rd_streams rd (stream_name (ob_type r)))"
proof -
  have "outbox_inv (s0, rd0)" using assms(2) by (simp add: outbox_inv_def wf_outbox_def)
  with assms(1) have "outbox_inv (s, rd)" using outbox_reachable_inv by blast
  with assms(3,4) show ?thesis by (auto simp: outbox_inv_def on_stream_def)
qed

definition example_outbox :: outbox_db where
  "example_outbox = \<lparr>now = 5, fresh = 1, org_ctx = None, audit_log = [], event_outbox = []\<rparr>"

definition example_emitted :: outbox_db where
  "example_emitted = snd (emit 7 ''rate.updated.v1'' [] ''api'' example_outbox)"

lemma example_emit_ok: "emit 7 ''rate.updated.v1'' [] ''api'' example_outbox = (Inr 1, example_emitted)"
  by (simp add: example_emitted_def emit_def ALLOWED_EVENT_TYPES_def validate_payload_def
      PAYLOAD_SPECS_def example_outbox_def)

lemma example_emitted_rows:
  "event_outbox example_emitted =
     [\<lparr>ob_id = 1, ob_org_id = 7, ob_type = ''rate.updated.v1'', ob_source = ''api'', ob_payload = JObj [],
       ob_created_at = 5, ob_published_at = None\<rparr>]" "now example_emitted = 5"
  by (simp_all add: example_emitted_def emit_def ALLOWED_EVENT_TYPES_def validate_payload_def
      PAYLOAD_SPECS_def example_outbox_def)

lemma example_reaches: "outbox_step\<^sup>*\<^sup>* (example_outbox, redis_empty) (example_emitted, redis_empty)"
  using outbox_step.emitted [OF example_emit_ok] by blast

theorem outbox_published_on_stream_witness:
  "\<exists>(rd :: redis) row. row \<in> set (event_outbox (fst (publish_batches 1 10 (example_emitted, redis_empty)))) \<and>
     ob_published_at row = Some 5 \<and>
     outbox_envelope row \<in> snd ` set (rd_streams rd ''gop:events:rate.updated.v1'')"
proof -
  let ?p = "publish_batch (\<lambda>_. False) 10 (example_emitted, redis_empty)"
  have "outbox_step (example_emitted, redis_empty) (fst (snd ?p), snd (snd ?p))"
    by (rule outbox_step.published [where k = "fst ?p"]) simp
  with example_reaches have "outbox_step\<^sup>*\<^sup>* (example_outbox, redis_empty) (fst (snd ?p), snd (snd ?p))"
    by (rule rtranclp.rtrancl_into_rtrancl)
  moreover obtain row where "row \<in> set (event_outbox (fst (snd ?p)))" "ob_published_at row = Some 5"
    "ob_type row = ''rate.updated.v1''"
    by (simp add: publish_batch_def claim_batch_def unpublished_def example_emitted_rows)
  ultimately have "row \<in> set (event_outbox (fst (snd ?p))) \<and> ob_published_at row = Some 5 \<and>
      outbox_envelope row \<in> snd ` set (rd_streams (snd (snd ?p)) ''gop:events:rate.updated.v1'')"
    using outbox_published_on_stream [of example_outbox redis_empty "fst (snd ?p)" "snd (snd ?p)" row]
    by (simp add: example_outbox_def stream_name_def)
  then show ?thesis
    unfolding publish_batches_1 by blast
qed

text \<open>
  The publisher drains the outbox. From any reachable state, \<open>k\<close> batches of \<open>n\<close> rows, with
  \<open>k * n\<close> at least the number of unpublished rows, leave no row unpublished, and every row's envelope
  is on its stream.
\<close>

theorem outbox_drains:
  assumes "outbox_step\<^sup>*\<^sup>* (s0, rd0) (s, rd)" and "event_outbox s0 = []"
    and "length (unpublished (event_outbox s)) \<le> k * n"
    and "publish_batches k n (s, rd) = (s', rd')"
  shows "unpublished (event_outbox s') = [] \<and> (\<forall>r \<in> set (event_outbox s').
           outbox_envelope r \<in> snd ` set (rd_streams rd' (stream_name (ob_type r))))"
proof -
  have "outbox_inv (s0, rd0)" using assms(2) by (simp add: outbox_inv_def wf_outbox_def)
  with assms(1) have "outbox_inv (s, rd)" using outbox_reachable_inv by blast
  from publish_batches_inv [OF this, of k n] assms(3,4)
  have "outbox_inv (s', rd')" and un: "unpublished (event_outbox s') = []" by auto
  moreover have "\<forall>r \<in> set (event_outbox s'). ob_published_at r \<noteq> None"
    using un by (auto simp: unpublished_def filter_empty_conv)
  ultimately show ?thesis by (auto simp: outbox_inv_def on_stream_def)
qed

theorem outbox_drains_witness:
  "unpublished (event_outbox (fst (publish_batches 1 10 (example_emitted, redis_empty)))) = []"
  using outbox_drains [OF example_reaches, of 1 10
      "fst (publish_batches 1 10 (example_emitted, redis_empty))"
      "snd (publish_batches 1 10 (example_emitted, redis_empty))"]
  by (simp add: example_outbox_def example_emitted_rows unpublished_def)

end
