(* ===== verification/Once.thy ===== *)
theory Once
  imports Prelude
begin

text \<open>
  Two contracts that several components of the program share.

  \<^item> \<open>once_claim\<close>: an atomic claim (\<open>INSERT ... ON CONFLICT DO NOTHING\<close>, \<open>UPDATE ... WHERE used_at
    IS NULL RETURNING\<close>, \<open>SET NX\<close>) that succeeds at most once for a key, whatever else runs in
    between. Execution tokens, consumer dedupe, wait subscriptions, trust settlement and outbound
    idempotency keys provide it.
  \<^item> \<open>guarded_machine\<close>: a state machine given by a table of permitted transitions, whose operations
    change the state only along the table. Circuit breakers, leads and landing pages provide it.
\<close>

subsection \<open>Claims that succeed once\<close>

text \<open>
  A history is a list of attempts to claim a key (\<open>Inl\<close>) and of other steps of the system (\<open>Inr\<close>),
  in the order in which the database serialised them. \<open>run_claims\<close> returns the keys claimed.
\<close>

fun run_claims :: "('k \<Rightarrow> 's \<Rightarrow> bool \<times> 's) \<Rightarrow> ('k + ('s \<Rightarrow> 's)) list \<Rightarrow> 's \<Rightarrow> 'k list \<times> 's" where
  "run_claims claim [] s = ([], s)"
| "run_claims claim (Inl k # acts) s =
     (case claim k s of (won, s1) \<Rightarrow>
        case run_claims claim acts s1 of (ks, s2) \<Rightarrow> (if won then k # ks else ks, s2))"
| "run_claims claim (Inr f # acts) s = run_claims claim acts (f s)"

locale once_claim =
  fixes claim :: "'k \<Rightarrow> 's \<Rightarrow> bool \<times> 's"
    and claimed :: "'i \<Rightarrow> 's \<Rightarrow> bool"
    and ident :: "'k \<Rightarrow> 'i"
    and inv :: "'s \<Rightarrow> bool"
    and env :: "('s \<Rightarrow> 's) \<Rightarrow> bool"
  assumes win_unclaimed: "inv s \<Longrightarrow> claim k s = (True, s') \<Longrightarrow> \<not> claimed (ident k) s"
    and win_claims: "inv s \<Longrightarrow> claim k s = (True, s') \<Longrightarrow> claimed (ident k) s'"
    and claim_keeps: "inv s \<Longrightarrow> claim k s = (w, s') \<Longrightarrow> claimed i s \<Longrightarrow> claimed i s'"
    and claim_inv: "inv s \<Longrightarrow> claim k s = (w, s') \<Longrightarrow> inv s'"
    and env_keeps: "env f \<Longrightarrow> inv s \<Longrightarrow> claimed i s \<Longrightarrow> claimed i (f s)"
    and env_inv: "env f \<Longrightarrow> inv s \<Longrightarrow> inv (f s)"
begin

lemma lost_once_claimed: "inv s \<Longrightarrow> claimed (ident k) s \<Longrightarrow> fst (claim k s) = False"
  by (cases "claim k s") (use win_unclaimed in auto)

lemma at_most_once:
  assumes "\<And>f. Inr f \<in> set acts \<Longrightarrow> env f" and "inv s"
  shows "length (filter (\<lambda>k. ident k = i) (fst (run_claims claim acts s)))
           \<le> (if claimed i s then 0 else 1)"
  using assms
proof (induction acts arbitrary: s)
  case Nil
  then show ?case by simp
next
  case (Cons a acts)
  show ?case
  proof (cases a)
    case (Inr f)
    with Cons have "env f" by simp
    with Cons have "length (filter (\<lambda>k. ident k = i) (fst (run_claims claim acts (f s))))
             \<le> (if claimed i (f s) then 0 else 1)"
      using env_inv by simp
    with Inr env_keeps [OF \<open>env f\<close>, of s i] Cons.prems(2) show ?thesis by (auto split: if_splits)
  next
    case (Inl k)
    obtain w s1 where c: "claim k s = (w, s1)" by fastforce
    obtain ks s2 where r: "run_claims claim acts s1 = (ks, s2)" by fastforce
    have "inv s1" using claim_inv [OF Cons.prems(2) c] .
    then have ih: "length (filter (\<lambda>k. ident k = i) ks) \<le> (if claimed i s1 then 0 else 1)"
      using Cons.IH [of s1] Cons.prems r by fastforce
    show ?thesis
    proof (cases "w \<and> ident k = i")
      case True
      then have "\<not> claimed i s" "claimed i s1"
        using c win_unclaimed [OF Cons.prems(2)] win_claims [OF Cons.prems(2)] by auto
      with ih True show ?thesis by (simp add: Inl c r)
    next
      case False
      with ih c claim_keeps [OF Cons.prems(2), of k w s1 i] show ?thesis
        by (auto simp: Inl r split: if_splits)
    qed
  qed
qed

lemma wins_at_most_one:
  "(\<And>f. Inr f \<in> set acts \<Longrightarrow> env f) \<Longrightarrow> inv s \<Longrightarrow>
   length (filter (\<lambda>k. ident k = i) (fst (run_claims claim acts s))) \<le> 1"
  using at_most_once [of acts s i] by (cases "claimed i s") auto

end

subsection \<open>State machines with a transition table\<close>

text \<open>
  \<open>view s k\<close> is the state of the entity \<open>k\<close> (if it exists); an operation either leaves it or moves
  it along the table.
\<close>

locale guarded_machine =
  fixes table :: "'q \<Rightarrow> 'q \<Rightarrow> bool"
    and view :: "'s \<Rightarrow> 'k \<Rightarrow> 'q option"
    and act :: "'op \<Rightarrow> 's \<Rightarrow> 's"
    and inv :: "'s \<Rightarrow> bool"
  assumes act_moves: "inv s \<Longrightarrow> view s k = Some q \<Longrightarrow>
      \<exists>q'. view (act a s) k = Some q' \<and> (q' = q \<or> table q q')"
    and act_inv: "inv s \<Longrightarrow> inv (act a s)"
begin

lemma run_inv: "inv s \<Longrightarrow> inv (fold act acts s)"
  by (induction acts arbitrary: s) (auto intro: act_inv)

lemma run_moves:
  "inv s \<Longrightarrow> view s k = Some q \<Longrightarrow> \<exists>q'. view (fold act acts s) k = Some q' \<and> table\<^sup>*\<^sup>* q q'"
proof (induction acts arbitrary: s q)
  case Nil
  then show ?case by auto
next
  case (Cons a acts)
  then obtain q1 where q1: "view (act a s) k = Some q1" "q1 = q \<or> table q q1"
    using act_moves by blast
  obtain q' where q': "view (fold act acts (act a s)) k = Some q'" "table\<^sup>*\<^sup>* q1 q'"
    using Cons.IH [OF act_inv [OF Cons.prems(1)] q1(1)] by blast
  from q1(2) q'(2) have "table\<^sup>*\<^sup>* q q'" by (auto intro: converse_rtranclp_into_rtranclp)
  with q'(1) show ?case by simp
qed

lemma closed_set:
  assumes "\<And>p p'. p \<in> Q \<Longrightarrow> table p p' \<Longrightarrow> p' \<in> Q" and "inv s" and "view s k = Some q" and "q \<in> Q"
  shows "\<exists>q'. view (fold act acts s) k = Some q' \<and> q' \<in> Q"
proof -
  obtain q' where q': "view (fold act acts s) k = Some q'" "table\<^sup>*\<^sup>* q q'"
    using run_moves [OF assms(2,3)] by blast
  from q'(2) assms(4) have "q' \<in> Q" by (induction rule: rtranclp_induct) (auto intro: assms(1))
  with q'(1) show ?thesis by blast
qed

lemma terminal_stays:
  "(\<And>p. \<not> table q p) \<Longrightarrow> inv s \<Longrightarrow> view s k = Some q \<Longrightarrow> view (fold act acts s) k = Some q"
  using closed_set [of "{q}" s k q acts] by auto

end

end
