(* ===== verification/Consumer.thy ===== *)
theory Consumer
  imports Outbox Once
begin

text \<open>
  The stream consumer (\<open>core/events/consumer.py\<close>): the dedupe transaction, bounded retries, the
  dead-letter queue, its replay, one drain of a consumer group and the retention job.

  A handler opens its own sessions: it acts on the rest of the system (\<open>'w\<close>), its effects are not
  part of the dedupe transaction, and its exception only drops the dedupe row. Concurrent
  deliveries of one event serialise on the primary key of \<open>dedupe_consumer\<close>.

  The lemmas show that a handler completes at most once per (consumer, event), that a message
  that keeps failing is retried five times and dead-lettered with its envelope and error history
  on the sixth failure, and that a replay puts exactly the dead-lettered envelope back.
\<close>

definition IDLE_RECLAIM :: time where "IDLE_RECLAIM = seconds 300"
definition DEDUPE_RETENTION_DAYS :: int where "DEDUPE_RETENTION_DAYS = 30"
definition DLQ_AFTER :: int where "DLQ_AFTER = 5"

type_synonym 'w handler = "json \<Rightarrow> 'w \<Rightarrow> (string + unit) \<times> 'w"

record 'w ConsumerSpec =
  cs_stream :: string
  cs_group :: string
  cs_handler :: "'w handler"
  cs_name :: string

record dedupe_row =
  dd_consumer :: string
  dd_event_id :: string
  dd_created_at :: time

record 'w worker =
  wk_redis :: redis
  wk_dedupe :: "dedupe_row list"
  wk_fresh :: uuid
  wk_world :: 'w

definition event_id_of :: "json \<Rightarrow> string" where
  "event_id_of env = py_str (jget_null env ''id'')"

definition deduped :: "string \<times> string \<Rightarrow> 'w worker \<Rightarrow> bool" where
  "deduped k w \<longleftrightarrow> (\<exists>r \<in> set (wk_dedupe w). dd_consumer r = fst k \<and> dd_event_id r = snd k)"

text \<open>\<open>Inr True\<close>: the handler ran; \<open>Inr False\<close>: a duplicate was skipped.\<close>

definition dedupe_and_handle ::
  "'w ConsumerSpec \<Rightarrow> json \<Rightarrow> 'w worker \<Rightarrow> (string + bool) \<times> 'w worker" where
  "dedupe_and_handle spec env w =
     (if deduped (cs_name spec, event_id_of env) w then (Inr False, w)
      else case cs_handler spec env (wk_world w) of
        (Inl e, x) \<Rightarrow> (Inl e, w\<lparr>wk_world := x\<rparr>)
      | (Inr _, x) \<Rightarrow> (Inr True, w\<lparr>wk_world := x, wk_dedupe := wk_dedupe w @
            [\<lparr>dd_consumer = cs_name spec, dd_event_id = event_id_of env,
              dd_created_at = rd_now (wk_redis w)\<rparr>]\<rparr>))"

definition dlq_stream :: "string \<Rightarrow> string" where
  "dlq_stream event_type = ''gop:dlq:'' @ event_type"

definition ALERT_STREAM :: string where
  "ALERT_STREAM = ''gop:events:alert.ops.v1''"

definition alert_envelope :: "uuid \<Rightarrow> string \<Rightarrow> time \<Rightarrow> string \<Rightarrow> json \<Rightarrow> json" where
  "alert_envelope i source t kind detail =
     JObj [(''specversion'', JStr ''1.0''), (''id'', JId i), (''type'', JStr ''alert.ops.v1''),
           (''source'', JStr source), (''time'', JStr (isoformat t)),
           (''data'', JObj [(''severity'', JStr ''error''), (''kind'', JStr kind), (''detail'', detail)])]"

definition emit_alert :: "string \<Rightarrow> json \<Rightarrow> 'w worker \<Rightarrow> 'w worker" where
  "emit_alert kind detail w =
     w\<lparr>wk_redis := xadd ALERT_STREAM
         (alert_envelope (wk_fresh w) ''gop/consumer'' (rd_now (wk_redis w)) kind detail) (wk_redis w),
       wk_fresh := wk_fresh w + 1\<rparr>"

definition retry_key :: "'w ConsumerSpec \<Rightarrow> string" where
  "retry_key spec = ''gop:retry:'' @ cs_stream spec @ '':'' @ cs_group spec"

definition err_key :: "'w ConsumerSpec \<Rightarrow> nat \<Rightarrow> string" where
  "err_key spec msg = ''gop:errhist:'' @ cs_stream spec @ '':'' @ nat_str msg"

definition clear_retry :: "'w ConsumerSpec \<Rightarrow> nat \<Rightarrow> redis \<Rightarrow> redis" where
  "clear_retry spec msg r =
     redis_delete (err_key spec msg) (hdel (retry_key spec) msg
       (xack (cs_stream spec) (cs_group spec) msg r))"

definition type_or_unknown :: "json \<Rightarrow> string" where
  "type_or_unknown env = (case env of JObj kvs \<Rightarrow>
     (case map_of kvs ''type'' of Some t \<Rightarrow> py_str t | None \<Rightarrow> ''unknown'') | _ \<Rightarrow> ''unknown'')"

definition process :: "'w ConsumerSpec \<Rightarrow> nat \<times> json \<Rightarrow> 'w worker \<Rightarrow> 'w worker" where
  "process spec m w =
     (let msg = fst m; env = snd m in
      case dedupe_and_handle spec env w of
        (Inl e, w1) \<Rightarrow>
          (let (attempts, r1) = hincrby (retry_key spec) msg (wk_redis w1);
               r2 = rpush (err_key spec msg) e r1
           in if attempts > DLQ_AFTER then
                (let errors = rd_lists r2 (err_key spec msg);
                     r3 = xadd (dlq_stream (type_or_unknown env))
                            (JObj [(''envelope'', env), (''errors'', JArr (map JStr errors))]) r2;
                     w2 = emit_alert ''consumer_dlq''
                            (JObj [(''stream'', JStr (cs_stream spec)), (''event_id'', jget_null env ''id''),
                                   (''attempts'', JInt attempts)]) (w1\<lparr>wk_redis := r3\<rparr>)
                 in w2\<lparr>wk_redis := clear_retry spec msg (wk_redis w2)\<rparr>)
              else w1\<lparr>wk_redis := r2\<rparr>)
      | (Inr _, w1) \<Rightarrow> w1\<lparr>wk_redis := clear_retry spec msg (wk_redis w1)\<rparr>)"

definition drain_once :: "'w ConsumerSpec \<Rightarrow> string \<Rightarrow> nat \<Rightarrow> time \<Rightarrow> 'w worker \<Rightarrow> nat \<times> 'w worker" where
  "drain_once spec c cnt idle w =
     (let (claimed, r1) = xautoclaim (cs_stream spec) (cs_group spec) c idle cnt (wk_redis w);
          w1 = fold (process spec) claimed (w\<lparr>wk_redis := r1\<rparr>);
          (msgs, r2) = xreadgroup (cs_stream spec) (cs_group spec) c cnt (wk_redis w1);
          w2 = fold (process spec) msgs (w1\<lparr>wk_redis := r2\<rparr>)
      in (length claimed + length msgs, w2))"

definition replay_one :: "string \<Rightarrow> nat \<times> json \<Rightarrow> redis \<Rightarrow> redis" where
  "replay_one event_type e r =
     xdel (dlq_stream event_type) (fst e) (xadd (stream_name event_type) (jget_null (snd e) ''envelope'') r)"

definition replay_dlq :: "string \<Rightarrow> nat \<Rightarrow> redis \<Rightarrow> nat \<times> redis" where
  "replay_dlq event_type limit r =
     (let entries = take limit (rd_streams r (dlq_stream event_type))
      in (length entries, fold (replay_one event_type) entries r))"

definition prune_dedupe :: "time \<Rightarrow> 'w worker \<Rightarrow> nat \<times> 'w worker" where
  "prune_dedupe t w =
     (let cutoff = t - days DEDUPE_RETENTION_DAYS;
          keep = filter (\<lambda>r. \<not> dd_created_at r < cutoff) (wk_dedupe w)
      in (length (wk_dedupe w) - length keep, w\<lparr>wk_dedupe := keep\<rparr>))"

subsection \<open>Exactly-once completion\<close>

definition complete :: "'w ConsumerSpec \<times> json \<Rightarrow> 'w worker \<Rightarrow> bool \<times> 'w worker" where
  "complete k w = (case dedupe_and_handle (fst k) (snd k) w of
      (Inr True, w') \<Rightarrow> (True, w') | (_, w') \<Rightarrow> (False, w'))"

definition delivery_id :: "'w ConsumerSpec \<times> json \<Rightarrow> string \<times> string" where
  "delivery_id k = (cs_name (fst k), event_id_of (snd k))"

definition keeps_dedupe :: "('w worker \<Rightarrow> 'w worker) \<Rightarrow> bool" where
  "keeps_dedupe f \<longleftrightarrow> (\<forall>w. set (wk_dedupe w) \<subseteq> set (wk_dedupe (f w)))"

lemma deduped_update [simp]:
  "deduped k (w\<lparr>wk_world := x\<rparr>) = deduped k w" "deduped k (w\<lparr>wk_redis := r\<rparr>) = deduped k w"
  by (simp_all add: deduped_def)

lemma deduped_insert [simp]:
  "deduped k (w\<lparr>wk_world := x, wk_dedupe := wk_dedupe w @ [r]\<rparr>) \<longleftrightarrow>
     deduped k w \<or> k = (dd_consumer r, dd_event_id r)"
  by (cases k) (auto simp: deduped_def)

lemma dedupe_and_handle_cases:
  assumes "dedupe_and_handle spec env w = (res, w')"
  obtains (duplicate) "res = Inr False" "w' = w" "deduped (cs_name spec, event_id_of env) w"
  | (raised) e x where "res = Inl e" "w' = w\<lparr>wk_world := x\<rparr>"
      "cs_handler spec env (wk_world w) = (Inl e, x)" "\<not> deduped (cs_name spec, event_id_of env) w"
  | (ran) x where "res = Inr True" "cs_handler spec env (wk_world w) = (Inr (), x)"
      "\<not> deduped (cs_name spec, event_id_of env) w" "wk_redis w' = wk_redis w" "wk_world w' = x"
      "\<And>k. deduped k w' \<longleftrightarrow> deduped k w \<or> k = (cs_name spec, event_id_of env)"
proof (cases "deduped (cs_name spec, event_id_of env) w")
  case True
  with assms show ?thesis by (intro duplicate) (auto simp: dedupe_and_handle_def)
next
  case False
  obtain y x where c: "cs_handler spec env (wk_world w) = (y, x)" by fastforce
  show ?thesis
  proof (cases y)
    case (Inl e)
    with assms c False show ?thesis by (intro raised) (auto simp: dedupe_and_handle_def)
  next
    case (Inr u)
    with assms c False show ?thesis by (intro ran [of x]) (auto simp: dedupe_and_handle_def)
  qed
qed

interpretation consumer_once: once_claim complete deduped delivery_id "\<lambda>_. True" keeps_dedupe
proof unfold_locales
  fix k :: "'a ConsumerSpec \<times> json" and w w' :: "'a worker"
  assume "complete k w = (True, w')"
  then obtain d: "dedupe_and_handle (fst k) (snd k) w = (Inr True, w')"
    by (auto simp: complete_def split: prod.splits sum.splits bool.splits)
  then show "\<not> deduped (delivery_id k) w"
    by (cases rule: dedupe_and_handle_cases) (auto simp: delivery_id_def)
  from d show "deduped (delivery_id k) w'"
    by (cases rule: dedupe_and_handle_cases) (auto simp: delivery_id_def)
next
  fix k :: "'a ConsumerSpec \<times> json" and w w' :: "'a worker" and b i
  assume "complete k w = (b, w')" and i: "deduped i w"
  then obtain res where "dedupe_and_handle (fst k) (snd k) w = (res, w')"
    by (auto simp: complete_def split: prod.splits sum.splits bool.splits)
  then show "deduped i w'" by (cases rule: dedupe_and_handle_cases) (use i in auto)
next
  fix f :: "'a worker \<Rightarrow> 'a worker" and i and w :: "'a worker"
  assume "keeps_dedupe f" "deduped i w"
  then show "deduped i (f w)" by (auto simp: keeps_dedupe_def deduped_def)
qed (rule TrueI)+

subsection \<open>Retries and dead letters\<close>

definition ready :: "'w ConsumerSpec \<Rightarrow> nat \<times> json \<Rightarrow> nat \<Rightarrow> string list \<Rightarrow> 'w worker \<Rightarrow> bool" where
  "ready spec m n errs w \<longleftrightarrow>
     rd_hash (wk_redis w) (retry_key spec) (fst m) = int n \<and>
     rd_lists (wk_redis w) (err_key spec (fst m)) = errs \<and>
     \<not> deduped (cs_name spec, event_id_of (snd m)) w"

definition dead_letter :: "json \<Rightarrow> string list \<Rightarrow> json" where
  "dead_letter env errs = JObj [(''envelope'', env), (''errors'', JArr (map JStr errs))]"

lemma process_retry:
  assumes "ready spec m n errs w" and "cs_handler spec (snd m) (wk_world w) = (Inl e, x)" and "n < 5"
  shows "ready spec m (Suc n) (errs @ [e]) (process spec m w)"
    and "rd_streams (wk_redis (process spec m w)) = rd_streams (wk_redis w)"
    and "pending st g (wk_redis (process spec m w)) = pending st g (wk_redis w)"
    and "wk_world (process spec m w) = x"
proof -
  have d: "dedupe_and_handle spec (snd m) w = (Inl e, w\<lparr>wk_world := x\<rparr>)"
    using assms by (simp add: dedupe_and_handle_def ready_def)
  obtain r1 where r1: "r1 = snd (hincrby (retry_key spec) (fst m) (wk_redis w))" by simp
  have h: "hincrby (retry_key spec) (fst m) (wk_redis w) = (int (Suc n), r1)"
    using assms(1) by (simp add: ready_def hincrby_def r1)
  have p: "process spec m w = w\<lparr>wk_world := x, wk_redis := rpush (err_key spec (fst m)) e r1\<rparr>"
    using assms(3) by (subst process_def) (simp add: d h DLQ_AFTER_def)
  show "ready spec m (Suc n) (errs @ [e]) (process spec m w)"
    using assms(1) by (simp add: p r1 ready_def)
  show "rd_streams (wk_redis (process spec m w)) = rd_streams (wk_redis w)"
    "pending st g (wk_redis (process spec m w)) = pending st g (wk_redis w)"
    "wk_world (process spec m w) = x" by (simp_all add: p r1)
qed

lemma process_dead_letter:
  assumes "ready spec m 5 errs w" and "cs_handler spec (snd m) (wk_world w) = (Inl e, x)"
  shows "dead_letter (snd m) (errs @ [e])
           \<in> snd ` set (rd_streams (wk_redis (process spec m w)) (dlq_stream (type_or_unknown (snd m))))"
    and "fst m \<notin> set (pending (cs_stream spec) (cs_group spec) (wk_redis (process spec m w)))"
    and "ready spec m 0 [] (process spec m w)"
proof -
  have d: "dedupe_and_handle spec (snd m) w = (Inl e, w\<lparr>wk_world := x\<rparr>)"
    using assms by (simp add: dedupe_and_handle_def ready_def)
  obtain r1 where r1: "r1 = snd (hincrby (retry_key spec) (fst m) (wk_redis w))" by simp
  have h: "hincrby (retry_key spec) (fst m) (wk_redis w) = (6, r1)"
    using assms(1) by (simp add: ready_def hincrby_def r1)
  define r2 where "r2 = rpush (err_key spec (fst m)) e r1"
  define r3 where "r3 = xadd (dlq_stream (type_or_unknown (snd m)))
      (JObj [(''envelope'', snd m), (''errors'', JArr (map JStr (rd_lists r2 (err_key spec (fst m)))))]) r2"
  define w2 where "w2 = emit_alert ''consumer_dlq''
      (JObj [(''stream'', JStr (cs_stream spec)), (''event_id'', jget_null (snd m) ''id''), (''attempts'', JInt 6)])
      (w\<lparr>wk_world := x, wk_redis := r3\<rparr>)"
  have p: "process spec m w = w2\<lparr>wk_redis := clear_retry spec (fst m) (wk_redis w2)\<rparr>"
    by (subst process_def) (simp add: d h DLQ_AFTER_def w2_def r3_def r2_def Let_def)
  have errs: "rd_lists r2 (err_key spec (fst m)) = errs @ [e]"
    using assms(1) by (simp add: r2_def r1 ready_def)
  show "dead_letter (snd m) (errs @ [e])
      \<in> snd ` set (rd_streams (wk_redis (process spec m w)) (dlq_stream (type_or_unknown (snd m))))"
    by (simp add: p w2_def emit_alert_def r3_def errs clear_retry_def dead_letter_def)
  show "fst m \<notin> set (pending (cs_stream spec) (cs_group spec) (wk_redis (process spec m w)))"
    by (simp add: p clear_retry_def pending_xack)
  have "wk_dedupe w2 = wk_dedupe w" by (simp add: w2_def emit_alert_def)
  with assms(1) show "ready spec m 0 [] (process spec m w)"
    by (simp add: p ready_def clear_retry_def deduped_def)
qed

text \<open>A handler that raises \<open>e i\<close> on the \<open>i\<close>-th delivery, whatever the state of the world.\<close>

fun fails_with :: "'w ConsumerSpec \<Rightarrow> json \<Rightarrow> (nat \<Rightarrow> string) \<Rightarrow> nat \<Rightarrow> 'w \<Rightarrow> bool" where
  "fails_with spec env e 0 x = True"
| "fails_with spec env e (Suc n) x =
     (case cs_handler spec env x of (Inl err, x') \<Rightarrow> err = e 0 \<and> fails_with spec env (\<lambda>i. e (Suc i)) n x'
      | _ \<Rightarrow> False)"

lemma process_retries:
  assumes "ready spec m n errs w" and "fails_with spec (snd m) e k (wk_world w)" and "n + k \<le> 5"
  shows "let w' = (process spec m ^^ k) w in
     ready spec m (n + k) (errs @ map e [0..<k]) w' \<and> rd_streams (wk_redis w') = rd_streams (wk_redis w) \<and>
     (\<forall>st g. pending st g (wk_redis w') = pending st g (wk_redis w)) \<and>
     (\<forall>j. fails_with spec (snd m) e (k + j) (wk_world w)
        \<longrightarrow> fails_with spec (snd m) (\<lambda>i. e (i + k)) j (wk_world w'))"
  using assms
proof (induction k arbitrary: n errs w e)
  case 0
  then show ?case by simp
next
  case (Suc k)
  then obtain x where x: "cs_handler spec (snd m) (wk_world w) = (Inl (e 0), x)"
    and f: "fails_with spec (snd m) (\<lambda>i. e (Suc i)) k x"
    by (auto split: prod.splits sum.splits)
  let ?w = "process spec m w"
  note r = process_retry [OF Suc.prems(1) x]
  have n: "n < 5" using Suc.prems(3) by simp
  have ih: "let w' = (process spec m ^^ k) ?w in
     ready spec m (Suc n + k) ((errs @ [e 0]) @ map (\<lambda>i. e (Suc i)) [0..<k]) w' \<and>
     rd_streams (wk_redis w') = rd_streams (wk_redis ?w) \<and>
     (\<forall>st g. pending st g (wk_redis w') = pending st g (wk_redis ?w)) \<and>
     (\<forall>j. fails_with spec (snd m) (\<lambda>i. e (Suc i)) (k + j) (wk_world ?w)
        \<longrightarrow> fails_with spec (snd m) (\<lambda>i. e (Suc (i + k))) j (wk_world w'))"
    using Suc.IH [OF r(1) [OF n], of "\<lambda>i. e (Suc i)"] f Suc.prems(3) r(4) [OF n] by simp
  have m: "map e [0..<Suc k] = e 0 # map (\<lambda>i. e (Suc i)) [0..<k]"
    by (simp add: upt_conv_Cons [of 0 "Suc k"] map_Suc_upt [symmetric] comp_def del: upt_Suc)
  from ih r(2-4) [OF n] show ?case
    by (simp add: funpow_swap1 Let_def m x del: upt_Suc)
qed

subsection \<open>Replay\<close>

lemma replay_entries:
  assumes "distinct (map fst (es @ rest))" and "rd_streams r (dlq_stream ty) = es @ rest"
  shows "rd_streams (fold (replay_one ty) es r) (dlq_stream ty) = rest \<and>
         map snd (rd_streams (fold (replay_one ty) es r) (stream_name ty))
           = map snd (rd_streams r (stream_name ty)) @ map (\<lambda>e. jget_null (snd e) ''envelope'') es"
  using assms
proof (induction es arbitrary: r)
  case Nil
  then show ?case by simp
next
  case (Cons e es)
  have ne: "dlq_stream ty \<noteq> stream_name ty" by (simp add: dlq_stream_def stream_name_def)
  have keep: "filter (\<lambda>x. fst x \<noteq> fst e) (es @ rest) = es @ rest"
    using Cons.prems(1) by (subst filter_id_conv) (auto simp: image_iff)
  have s1: "rd_streams (replay_one ty e r) (dlq_stream ty) = es @ rest"
    using Cons.prems(2) keep ne by (simp add: replay_one_def)
  have s2: "map snd (rd_streams (replay_one ty e r) (stream_name ty))
      = map snd (rd_streams r (stream_name ty)) @ [jget_null (snd e) ''envelope'']"
    using ne by (simp add: replay_one_def)
  from Cons.IH [OF _ s1] Cons.prems(1) s2 show ?case by simp
qed

subsection \<open>Properties\<close>


definition example_event :: json where
  "example_event = JObj [(''id'', JStr ''e1''), (''type'', JStr ''rate.updated.v1'')]"

definition counting_spec :: "nat ConsumerSpec" where
  "counting_spec = \<lparr>cs_stream = ''s'', cs_group = ''g'', cs_handler = \<lambda>_ n. (Inr (), n + 1), cs_name = ''c''\<rparr>"

definition example_worker :: "nat worker" where
  "example_worker = \<lparr>wk_redis = redis_empty, wk_dedupe = [], wk_fresh = 1, wk_world = 0\<rparr>"


text \<open>
  A poison message is retried and then dead-lettered. If the handler fails on the first six
  deliveries of a message, with the errors \<open>e 0, ..., e 5\<close>, then during the first five the message
  stays pending and nothing is written to any stream; the sixth puts the envelope with all six
  errors on the dead-letter stream of its type, acknowledges the message, and clears its retry
  counter and error history.
\<close>

theorem poison_message_dead_lettered:
  assumes "ready spec (msg, env) 0 [] w" and "fails_with spec env e 6 (wk_world w)"
    and "msg \<in> set (pending (cs_stream spec) (cs_group spec) (wk_redis w))" and "k \<le> 5"
  shows "msg \<in> set (pending (cs_stream spec) (cs_group spec) (wk_redis ((process spec (msg, env) ^^ k) w))) \<and>
         rd_streams (wk_redis ((process spec (msg, env) ^^ k) w)) = rd_streams (wk_redis w) \<and>
         (let w' = (process spec (msg, env) ^^ 6) w in
            msg \<notin> set (pending (cs_stream spec) (cs_group spec) (wk_redis w')) \<and>
            dead_letter env (map e [0..<6])
              \<in> snd ` set (rd_streams (wk_redis w') (dlq_stream (type_or_unknown env))) \<and>
            ready spec (msg, env) 0 [] w')"
proof -
  have f: "fails_with spec env e (j + (6 - j)) (wk_world w)" if "j \<le> 5" for j using assms(2) that by simp
  have fk: "fails_with spec env e j x" if "fails_with spec env e (j + i) x" for j i e x
    using that by (induction j arbitrary: e x) (auto split: prod.splits sum.splits)
  note r = process_retries [OF assms(1), simplified]
  let ?w5 = "(process spec (msg, env) ^^ 5) w"
  have w5: "ready spec (msg, env) 5 (map e [0..<5]) ?w5"
    and f1: "fails_with spec env (\<lambda>i. e (i + 5)) 1 (wk_world ?w5)"
  proof -
    show "ready spec (msg, env) 5 (map e [0..<5]) ?w5"
      using r [of e 5] fk [OF f [of 5]] by (simp add: Let_def)
    show "fails_with spec env (\<lambda>i. e (i + 5)) 1 (wk_world ?w5)"
    proof -
      have "\<forall>j. fails_with spec env e (5 + j) (wk_world w) \<longrightarrow>
          fails_with spec env (\<lambda>i. e (i + 5)) j (wk_world ?w5)"
        using r [of e 5] fk [OF f [of 5]] by (simp add: Let_def)
      moreover have "fails_with spec env e (5 + 1) (wk_world w)" using assms(2) by simp
      ultimately show ?thesis by blast
    qed
  qed
  from f1 obtain x where "cs_handler spec env (wk_world ?w5) = (Inl (e 5), x)"
    by (auto split: prod.splits sum.splits simp: numeral_eq_Suc)
  note d = process_dead_letter [OF w5, of "e 5" x, simplified, OF this]
  have six: "(process spec (msg, env) ^^ 6) w = process spec (msg, env) ?w5"
    by (simp add: numeral_eq_Suc)
  have es: "map e [0..<5] @ [e 5] = map e [0..<6]" by (simp add: numeral_eq_Suc)
  from r [of e k] fk [OF f [OF assms(4)]] assms(3,4) d show ?thesis
    unfolding six es by (auto simp: Let_def)
qed

definition failing_spec :: "nat ConsumerSpec" where
  "failing_spec = \<lparr>cs_stream = ''s'', cs_group = ''g'', cs_handler = \<lambda>_ n. (Inl (nat_str n), n + 1), cs_name = ''c''\<rparr>"

definition pending_worker :: "nat worker" where
  "pending_worker = \<lparr>wk_redis = set_group ''s'' ''g'' \<lparr>xg_last = 3, xg_pending = [(3, ''w1'', 0)]\<rparr> redis_empty,
     wk_dedupe = [], wk_fresh = 1, wk_world = 0\<rparr>"

theorem poison_message_dead_lettered_witness:
  "dead_letter example_event (map nat_str [0..<6])
     \<in> snd ` set (rd_streams (wk_redis ((process failing_spec (3, example_event) ^^ 6) pending_worker))
          ''gop:dlq:rate.updated.v1'')"
proof -
  have "fails_with failing_spec env (\<lambda>i. nat_str (i + m)) n m" for env n m
  proof (induction n arbitrary: m)
    case (Suc n)
    from Suc [of "Suc m"] show ?case by (simp add: failing_spec_def)
  qed simp
  from this [of example_event 0 6]
  have f: "fails_with failing_spec example_event nat_str 6 (wk_world pending_worker)"
    by (simp add: pending_worker_def)
  have "ready failing_spec (3, example_event) 0 [] pending_worker"
    by (simp add: ready_def pending_worker_def redis_empty_def set_group_def deduped_def)
  from poison_message_dead_lettered [OF this f, of 0] show ?thesis
    by (simp add: pending_def pending_worker_def set_group_def failing_spec_def Let_def
        dlq_stream_def type_or_unknown_def example_event_def py_str_def)
qed

text \<open>
  Replaying the dead-letter queue puts exactly the dead-lettered envelopes, in order, back on
  the stream of their type, and removes those entries and no others from the queue.
\<close>

theorem replay_restores_envelopes:
  assumes "rd_streams r (dlq_stream ty) = map (\<lambda>(i, env, errs). (i, dead_letter env errs)) ls"
    and "distinct (map fst ls)" and "replay_dlq ty limit r = (n, r')"
  shows "map snd (rd_streams r' (stream_name ty))
           = map snd (rd_streams r (stream_name ty)) @ map (\<lambda>(i, env, errs). env) (take limit ls) \<and>
         rd_streams r' (dlq_stream ty) = drop limit (rd_streams r (dlq_stream ty)) \<and>
         n = min limit (length ls)"
proof -
  let ?q = "rd_streams r (dlq_stream ty)"
  have split: "?q = take limit ?q @ drop limit ?q" by simp
  have "map fst ?q = map fst ls" by (auto simp: assms(1))
  with assms(2) have d: "distinct (map fst (take limit ?q @ drop limit ?q))" by simp
  have env: "map (\<lambda>e. jget_null (snd e) ''envelope'') (take limit ?q) = map (\<lambda>(i, env, errs). env) (take limit ls)"
    by (auto simp: assms(1) take_map dead_letter_def)
  from replay_entries [OF d split] env assms(3) show ?thesis
    by (auto simp: replay_dlq_def Let_def assms(1))
qed

theorem replay_restores_envelopes_witness:
  "map snd (rd_streams (snd (replay_dlq ''rate.updated.v1'' 5
      (xadd ''gop:dlq:rate.updated.v1'' (dead_letter example_event [''boom'']) redis_empty)))
      ''gop:events:rate.updated.v1'') = [example_event]"
  using replay_restores_envelopes [of "xadd ''gop:dlq:rate.updated.v1'' (dead_letter example_event [''boom'']) redis_empty"
      "''rate.updated.v1''" "[(1, example_event, [''boom''])]" 5]
  by (simp add: dlq_stream_def stream_name_def redis_empty_def replay_dlq_def)

end
