(* ===== verification/Scheduler.thy ===== *)
theory Scheduler
  imports Text Redis
begin

text \<open>
  The cron scheduler (\<open>core/events/scheduler.py\<close>): the five-field matcher, the per-(job, minute)
  lock, and one tick of a scheduler process (\<open>run_due\<close>). The zone database is the parameter
  \<open>local\<close>, which gives the calendar fields of an instant in a zone; \<open>strftime('%Y%m%d%H%M')\<close> is used
  as an injective text of the UTC minute. A raised \<open>ValueError\<close> or \<open>ZeroDivisionError\<close> of the matcher is
  \<open>None\<close>.

  The lemmas show that the matcher decides the set a field denotes, and that processes ticking in
  the same minute never both run a job.
\<close>

definition LOCK_TTL :: time where "LOCK_TTL = seconds 90"

subsection \<open>Cron matching\<close>

definition part_matches :: "string \<Rightarrow> int \<Rightarrow> bool option" where
  "part_matches part v =
     (let base = py_before CHR ''/'' part; step_s = py_after CHR ''/'' part in
      case (if step_s = [] then Some 1 else parse_int step_s) of None \<Rightarrow> None
      | Some step \<Rightarrow>
          if base = ''*'' then (if step = 0 then None else Some (v mod step = 0))
          else
            let range = (if CHR ''-'' \<in> set base
                         then (case py_split CHR ''-'' base of
                                 [a, b] \<Rightarrow> (case (parse_int a, parse_int b) of
                                     (Some lo, Some hi) \<Rightarrow> Some (lo, hi) | _ \<Rightarrow> None)
                               | _ \<Rightarrow> None)
                         else map_option (\<lambda>i. (i, i)) (parse_int base)) in
            case range of None \<Rightarrow> None
            | Some (lo, hi) \<Rightarrow>
                if lo \<le> v \<and> v \<le> hi then (if step = 0 then None else Some ((v - lo) mod step = 0))
                else Some False)"

fun any_part :: "string list \<Rightarrow> int \<Rightarrow> bool option" where
  "any_part [] v = Some False"
| "any_part (p # ps) v = (case part_matches p v of
     None \<Rightarrow> None | Some True \<Rightarrow> Some True | Some False \<Rightarrow> any_part ps v)"

definition field_matches :: "string \<Rightarrow> int \<Rightarrow> bool option" where
  "field_matches field v = any_part (py_split CHR '','' field) v"

record calendar =
  cal_minute :: int
  cal_hour :: int
  cal_day :: int
  cal_month :: int
  cal_isoweekday :: int

fun all_fields :: "(string \<times> int) list \<Rightarrow> bool option" where
  "all_fields [] = Some True"
| "all_fields ((f, v) # fs) = (case field_matches f v of
     None \<Rightarrow> None | Some False \<Rightarrow> Some False | Some True \<Rightarrow> all_fields fs)"

definition cron_matches :: "string \<Rightarrow> calendar \<Rightarrow> bool option" where
  "cron_matches cron dt =
     (case py_words cron of
        [minute, hour, day, month, dow] \<Rightarrow>
          all_fields [(minute, cal_minute dt), (hour, cal_hour dt), (day, cal_day dt),
                      (month, cal_month dt), (dow, cal_isoweekday dt mod 7)]
      | _ \<Rightarrow> None)"

subsection \<open>The registry and one tick\<close>

record 'w JobSpec =
  js_name :: string
  js_cron :: string
  js_fn :: "'w \<Rightarrow> (string + unit) \<times> 'w"
  js_timezone :: "string option"

definition register_job :: "string \<Rightarrow> string \<Rightarrow> ('w \<Rightarrow> (string + unit) \<times> 'w) \<Rightarrow> string option
    \<Rightarrow> 'w JobSpec list \<Rightarrow> 'w JobSpec list" where
  "register_job name cron fn tz reg =
     reg @ [\<lparr>js_name = name, js_cron = cron, js_fn = fn, js_timezone = tz\<rparr>]"

definition utc_minute :: "time \<Rightarrow> int" where
  "utc_minute t = t div 60000000"

definition lock_key :: "string \<times> int \<Rightarrow> string" where
  "lock_key nm = ''gop:sched:'' @ fst nm @ '':'' @ int_str (snd nm)"

definition acquire :: "string \<times> int \<Rightarrow> redis \<Rightarrow> bool \<times> redis" where
  "acquire nm r = redis_set_nx (lock_key nm) ''1'' LOCK_TTL r"

text \<open>
  \<open>run_due\<close> at \<open>t\<close>: an exception of a job is logged and the loop goes on; an exception of the matcher
  (a malformed cron) leaves the loop, the jobs before it having run.
\<close>

fun run_due :: "(string option \<Rightarrow> time \<Rightarrow> calendar) \<Rightarrow> time \<Rightarrow> 'w JobSpec list \<Rightarrow> redis \<times> 'w
    \<Rightarrow> string list \<times> bool \<times> redis \<times> 'w" where
  "run_due local t [] (r, w) = ([], True, r, w)"
| "run_due local t (spec # specs) (r, w) =
     (case cron_matches (js_cron spec) (local (js_timezone spec) t) of
        None \<Rightarrow> ([], False, r, w)
      | Some False \<Rightarrow> run_due local t specs (r, w)
      | Some True \<Rightarrow>
          (case acquire (js_name spec, utc_minute t) r of
             (False, r1) \<Rightarrow> run_due local t specs (r1, w)
           | (True, r1) \<Rightarrow>
               (case run_due local t specs (r1, snd (js_fn spec w)) of
                  (names, rest) \<Rightarrow> (js_name spec # names, rest))))"

subsection \<open>What a field denotes\<close>

datatype cron_part = Every nat | Value nat | Span nat nat | SpanStep nat nat nat

fun render_part :: "cron_part \<Rightarrow> string" where
  "render_part (Every n) = (if n = 1 then ''*'' else ''*/'' @ nat_str n)"
| "render_part (Value n) = nat_str n"
| "render_part (Span a b) = nat_str a @ ''-'' @ nat_str b"
| "render_part (SpanStep a b n) = nat_str a @ ''-'' @ nat_str b @ ''/'' @ nat_str n"

fun part_denotes :: "cron_part \<Rightarrow> nat \<Rightarrow> bool" where
  "part_denotes (Every n) v \<longleftrightarrow> n dvd v"
| "part_denotes (Value n) v \<longleftrightarrow> v = n"
| "part_denotes (Span a b) v \<longleftrightarrow> a \<le> v \<and> v \<le> b"
| "part_denotes (SpanStep a b n) v \<longleftrightarrow> (\<exists>k. v = a + k * n) \<and> v \<le> b"

fun part_wf :: "cron_part \<Rightarrow> bool" where
  "part_wf (Every n) \<longleftrightarrow> 0 < n"
| "part_wf (SpanStep a b n) \<longleftrightarrow> 0 < n"
| "part_wf _ \<longleftrightarrow> True"

fun render_parts :: "cron_part list \<Rightarrow> string" where
  "render_parts [] = []"
| "render_parts [p] = render_part p"
| "render_parts (p # ps) = render_part p @ '','' @ render_parts ps"

lemma nat_str_neq_star [simp]: "nat_str n \<noteq> ''*''" "nat_str n @ xs \<noteq> ''*''"
  using hd_nat_str [of n] nat_str_nonempty [of n] not_digit_chars(4)
  by (cases "nat_str n"; auto)+

lemma part_matches_render:
  assumes "part_wf p"
  shows "part_matches (render_part p) (int v) = Some (part_denotes p v)"
proof (cases p)
  case (Every n)
  then show ?thesis using assms
    by (auto simp: part_matches_def py_before_def py_after_def Let_def simp flip: of_nat_mod mod_eq_0_iff_dvd)
next
  case (Value n)
  then show ?thesis
    by (auto simp: part_matches_def py_before_none py_after_none)
next
  case (Span a b)
  have "CHR ''/'' \<notin> set (nat_str a @ CHR ''-'' # nat_str b)" by simp
  with Span show ?thesis
    by (auto simp: part_matches_def py_before_none py_after_none py_split_append py_split_none)
next
  case (SpanStep a b n)
  have e: "render_part p = (nat_str a @ ''-'' @ nat_str b) @ CHR ''/'' # nat_str n" using SpanStep by simp
  have b: "py_before CHR ''/'' (render_part p) = nat_str a @ ''-'' @ nat_str b"
    "py_after CHR ''/'' (render_part p) = nat_str n"
    unfolding e by (rule trans [OF py_before_append] trans [OF py_after_append]; simp)+
  have "(int v - int a) mod int n = 0 \<longleftrightarrow> (\<exists>k. v = a + k * n)" if "a \<le> v"
  proof -
    from that have "int v - int a = int (v - a)" by simp
    then have "(int v - int a) mod int n = 0 \<longleftrightarrow> int n dvd int (v - a)"
      by (simp only: mod_eq_0_iff_dvd)
    also have "\<dots> \<longleftrightarrow> n dvd (v - a)" by (rule int_dvd_int_iff)
    also have "\<dots> \<longleftrightarrow> (\<exists>k. v = a + k * n)"
    proof
      assume "n dvd (v - a)"
      then obtain k where "v - a = n * k" by (auto simp: dvd_def)
      with that have "v = a + k * n" by (simp add: mult.commute)
      then show "\<exists>k. v = a + k * n" by blast
    qed auto
    finally show ?thesis .
  qed
  moreover have "part_matches (render_part p) (int v) = (if a \<le> v \<and> v \<le> b
      then Some ((int v - int a) mod int n = 0) else Some False)"
    using assms SpanStep unfolding part_matches_def b Let_def
    by (simp add: py_split_append py_split_none)
  ultimately show ?thesis using SpanStep by auto
qed

lemma render_part_no_comma [simp]: "CHR '','' \<notin> set (render_part p)"
  by (cases p) auto

lemma split_render_parts:
  "ps \<noteq> [] \<Longrightarrow> py_split CHR '','' (render_parts ps) = map render_part ps"
  by (induction ps rule: render_parts.induct) (simp_all add: py_split_none py_split_append)

lemma any_part_render:
  "list_all part_wf ps \<Longrightarrow> any_part (map render_part ps) (int v) = Some (list_ex (\<lambda>p. part_denotes p v) ps)"
  by (induction ps) (auto simp: part_matches_render split: bool.split)

subsection \<open>One run per minute\<close>

lemma run_due_now: "run_due local t specs (r, w) = (names, b, r', w') \<Longrightarrow> rd_now r' = rd_now r"
proof (induction specs arbitrary: r w names)
  case (Cons a specs)
  then show ?case
    by (auto simp: acquire_def split: option.splits bool.splits prod.splits dest!: redis_set_nx_now)
qed simp

definition locked_until :: "time \<Rightarrow> string \<Rightarrow> redis \<Rightarrow> bool" where
  "locked_until x k r \<longleftrightarrow> (\<exists>v e. rd_keys r k = Some (v, Some e) \<and> x \<le> e)"

lemma set_nx_locked:
  assumes "redis_set_nx k v ttl r = (b, r')" and "locked_until x j r" and "rd_now r < x"
  shows "locked_until x j r'"
  using assms
  by (auto simp: redis_set_nx_def redis_set_ex_def redis_get_def live_def locked_until_def
      split: option.splits if_splits prod.splits)

lemma run_due_keeps_locks:
  "run_due local t specs (r, w) = (names, b, r', w') \<Longrightarrow> locked_until x j r \<Longrightarrow> rd_now r < x \<Longrightarrow>
   locked_until x j r'"
proof (induction specs arbitrary: r w names)
  case (Cons a specs)
  show ?case
  proof (cases "cron_matches (js_cron a) (local (js_timezone a) t) = Some True")
    case True
    obtain c r1 where c: "acquire (js_name a, utc_minute t) r = (c, r1)" by fastforce
    then have l: "locked_until x j r1" "rd_now r1 < x"
      using Cons.prems set_nx_locked redis_set_nx_now by (auto simp: acquire_def)
    then show ?thesis using Cons.IH [of r1 _ _] Cons.prems(1) True c
      by (auto split: bool.splits prod.splits)
  qed (use Cons in \<open>auto split: option.splits bool.splits\<close>)
qed simp

lemma run_due_locks:
  "run_due local t specs (r, w) = (names, b, r', w') \<Longrightarrow> n \<in> set names \<Longrightarrow>
   locked_until (rd_now r + LOCK_TTL) (lock_key (n, utc_minute t)) r'"
proof (induction specs arbitrary: r w names)
  case (Cons a specs)
  show ?case
  proof (cases "cron_matches (js_cron a) (local (js_timezone a) t) = Some True")
    case True
    obtain c r1 where c: "acquire (js_name a, utc_minute t) r = (c, r1)" by fastforce
    have now: "rd_now r1 = rd_now r" using c redis_set_nx_now by (auto simp: acquire_def)
    show ?thesis
    proof (cases c)
      case False
      with c True Cons.prems have "run_due local t specs (r1, w) = (names, b, r', w')" by simp
      from Cons.IH [OF this Cons.prems(2)] now show ?thesis by simp
    next
      case won: True
      obtain names1 where rest: "run_due local t specs (r1, snd (js_fn a w)) = (names1, b, r', w')"
        and names: "names = js_name a # names1"
        using Cons.prems(1) c won True by (auto split: prod.splits)
      have l: "locked_until (rd_now r + LOCK_TTL) (lock_key (js_name a, utc_minute t)) r1"
        using c won by (auto simp: acquire_def redis_set_nx_def redis_set_ex_def locked_until_def split: option.splits)
      show ?thesis
      proof (cases "n \<in> set names1")
        case True
        with Cons.IH [OF rest] now show ?thesis by simp
      next
        case False
        with Cons.prems(2) names have "n = js_name a" by simp
        with run_due_keeps_locks [OF rest l] now show ?thesis by (simp add: LOCK_TTL_def)
      qed
    qed
  qed (use Cons in \<open>auto split: option.splits bool.splits\<close>)
qed simp

lemma run_due_skips_locked:
  "run_due local t specs (r, w) = (names, b, r', w') \<Longrightarrow>
   locked_until x (lock_key (n, utc_minute t)) r \<Longrightarrow> rd_now r < x \<Longrightarrow> n \<notin> set names"
proof (induction specs arbitrary: r w names)
  case (Cons a specs)
  show ?case
  proof (cases "cron_matches (js_cron a) (local (js_timezone a) t) = Some True")
    case True
    obtain c r1 where c: "acquire (js_name a, utc_minute t) r = (c, r1)" by fastforce
    then have l: "locked_until x (lock_key (n, utc_minute t)) r1" "rd_now r1 < x"
      using Cons.prems set_nx_locked redis_set_nx_now by (auto simp: acquire_def)
    have "\<not> c" if "js_name a = n"
      using c that Cons.prems(2,3)
      by (auto simp: acquire_def redis_set_nx_def redis_get_def live_def locked_until_def)
    then show ?thesis using Cons.IH [OF _ l] Cons.prems(1) True c
      by (auto split: bool.splits prod.splits)
  qed (use Cons in \<open>auto split: option.splits bool.splits\<close>)
qed simp

subsection \<open>Properties\<close>

text \<open>
  The cron matcher decides the set its field denotes. For a field that is a comma-separated
  list of \<open>*\<close>, \<open>*/n\<close>, values, ranges \<open>a-b\<close> and stepped ranges \<open>a-b/n\<close>, \<open>field_matches\<close> raises
  nothing and holds of a value exactly when some part denotes it.
\<close>

theorem cron_field_denotes:
  assumes "ps \<noteq> []" and "list_all part_wf ps"
  shows "field_matches (render_parts ps) (int v) = Some (list_ex (\<lambda>p. part_denotes p v) ps)"
  using assms by (simp add: field_matches_def split_render_parts any_part_render)

theorem cron_field_denotes_witness:
  "field_matches (render_parts [Every 15, SpanStep 1 9 4]) (int 5) = Some True"
  using cron_field_denotes [of "[Every 15, SpanStep 1 9 4]" 5]
  by (auto intro: exI [of _ 1])

text \<open>
  A job fires once per minute across schedulers. If a process has run its due jobs at \<open>t\<close>, no
  process that ticks in the same UTC minute, with Redis' clock less than the lock's 90 seconds
  later and whatever else happened in its own world, runs any of them again.
\<close>

theorem scheduler_single_fire:
  assumes "run_due local t specs (r, w) = (names, b, r1, w1)"
    and "utc_minute t2 = utc_minute t" and "rd_now r \<le> t'" and "t' < rd_now r + LOCK_TTL"
    and "run_due local2 t2 specs2 (r1\<lparr>rd_now := t'\<rparr>, w2) = (names2, b2, r2, w3)"
  shows "set names \<inter> set names2 = {}"
proof -
  have "n \<notin> set names2" if "n \<in> set names" for n
  proof -
    have "locked_until (rd_now r + LOCK_TTL) (lock_key (n, utc_minute t2)) (r1\<lparr>rd_now := t'\<rparr>)"
      using run_due_locks [OF assms(1) that] assms(2) by (simp add: locked_until_def)
    from run_due_skips_locked [OF assms(5) this] assms(4) show ?thesis by simp
  qed
  then show ?thesis by blast
qed

definition example_jobs :: "nat JobSpec list" where
  "example_jobs = register_job ''beat'' ''* * * * *'' (\<lambda>n. (Inr (), n + 1)) None []"

definition example_calendar :: "string option \<Rightarrow> time \<Rightarrow> calendar" where
  "example_calendar tz t = \<lparr>cal_minute = 0, cal_hour = 0, cal_day = 1, cal_month = 1, cal_isoweekday = 4\<rparr>"

lemma example_first_run:
  "run_due example_calendar 0 example_jobs (redis_empty, 0) =
     ([''beat''], True, redis_set_ex (lock_key (''beat'', 0)) ''1'' LOCK_TTL redis_empty, 1)"
  by (simp add: example_jobs_def register_job_def cron_matches_def py_words_def field_matches_def
      part_matches_def py_before_def py_after_def acquire_def redis_set_nx_def redis_get_def live_def
      redis_empty_def utc_minute_def)

theorem scheduler_single_fire_witness:
  "''beat'' \<notin> set (fst (run_due example_calendar 30 example_jobs
      ((redis_set_ex (lock_key (''beat'', 0)) ''1'' LOCK_TTL redis_empty)\<lparr>rd_now := 30\<rparr>, 1)))"
  using scheduler_single_fire [OF example_first_run, of 30 30 example_calendar example_jobs 1
      "fst (run_due example_calendar 30 example_jobs
        ((redis_set_ex (lock_key (''beat'', 0)) ''1'' LOCK_TTL redis_empty)\<lparr>rd_now := 30\<rparr>, 1))"]
  by (auto simp: utc_minute_def redis_empty_def LOCK_TTL_def)
     (metis fst_conv prod.collapse)

end
