(* ===== verification/RateLimits.thy ===== *)
theory RateLimits
  imports Redis Text
begin

text \<open>
  Blast-radius controls: the Redis-backed sliding window, daily budgets and untrusted flag of the
  mediation layer (\<open>core/mediation/limits.py\<close>) and the in-process sliding window of the public
  landing surface (\<open>core/landing/ratelimit.py\<close>).

  Both limiters meet one contract, \<open>window_limiter\<close>, whose client lemma bounds the calls granted in
  every window of 60 seconds. The expiry of a Redis window key is not modelled: it only ever drops
  time stamps that have left the window.
\<close>

subsection \<open>The contract of a sliding window\<close>

fun run_limiter :: "(time \<Rightarrow> 's \<Rightarrow> bool \<times> 's) \<Rightarrow> time list \<Rightarrow> 's \<Rightarrow> time list \<times> 's" where
  "run_limiter allow [] s = ([], s)"
| "run_limiter allow (t # ts) s =
     (case allow t s of (b, s1) \<Rightarrow> case run_limiter allow ts s1 of (acc, s2) \<Rightarrow> (if b then t # acc else acc, s2))"

text \<open>\<open>inside t x\<close>: a call at \<open>x\<close> still counts at \<open>t\<close>. \<open>inv t s\<close>: \<open>s\<close> is a state reached by time \<open>t\<close>.\<close>

locale window_limiter =
  fixes allow :: "time \<Rightarrow> 's \<Rightarrow> bool \<times> 's"
    and stamps :: "'s \<Rightarrow> time list"
    and inside :: "time \<Rightarrow> time \<Rightarrow> bool"
    and cap :: nat
    and inv :: "time \<Rightarrow> 's \<Rightarrow> bool"
  assumes allow_keeps: "inv v s \<Longrightarrow> v \<le> u \<Longrightarrow> allow u s = (b, s') \<Longrightarrow> u \<le> t \<Longrightarrow>
      filter (inside t) (stamps s') = filter (inside t) (stamps s @ (if b then [u] else []))"
    and allow_room: "inv v s \<Longrightarrow> v \<le> u \<Longrightarrow> allow u s = (True, s') \<Longrightarrow>
      length (filter (inside u) (stamps s)) < cap"
    and allow_inv: "inv v s \<Longrightarrow> v \<le> u \<Longrightarrow> allow u s = (b, s') \<Longrightarrow> inv u s'"
    and inside_antimono: "u \<le> t \<Longrightarrow> inside t x \<Longrightarrow> inside u x"
begin

definition window :: "time \<Rightarrow> time list \<Rightarrow> nat" where
  "window t acc = length (filter (\<lambda>x. inside t x \<and> x \<le> t) acc)"

lemma run_bound:
  assumes "inv v s" and "sorted (v # ts)" and "\<And>t. v \<le> t \<Longrightarrow> filter (inside t) (stamps s) = filter (inside t) acc"
    and "\<And>x. x \<in> set acc \<Longrightarrow> x \<le> v" and "\<And>t. window t acc \<le> cap"
  shows "window t (acc @ fst (run_limiter allow ts s)) \<le> cap"
  using assms
proof (induction ts arbitrary: v s acc)
  case Nil
  then show ?case by simp
next
  case (Cons u ts)
  obtain b s1 where a: "allow u s = (b, s1)" by fastforce
  from Cons.prems(2) have vu: "v \<le> u" by simp
  let ?acc = "acc @ (if b then [u] else [])"
  have keep: "filter (inside t) (stamps s1) = filter (inside t) ?acc" if "u \<le> t" for t
    using allow_keeps [OF Cons.prems(1) vu a that] Cons.prems(3) [of t] vu that by simp
  have wnd: "window t ?acc \<le> cap" for t
  proof (cases "b \<and> u \<le> t")
    case False
    then show ?thesis using Cons.prems(5) [of t] by (auto simp: window_def)
  next
    case True
    have room: "length (filter (inside u) acc) < cap"
      using allow_room [OF Cons.prems(1) vu] a True Cons.prems(3) [OF vu] by simp
    have "length (filter (\<lambda>x. inside t x \<and> x \<le> t) acc) \<le> length (filter (inside u) acc)"
      using inside_antimono True by (induction acc) auto
    with room True show ?thesis by (auto simp: window_def)
  qed
  have le: "x \<le> u" if "x \<in> set ?acc" for x
    using that Cons.prems(4) [of x] vu by (auto split: if_splits)
  have "window t (?acc @ fst (run_limiter allow ts s1)) \<le> cap"
    using Cons.IH [OF allow_inv [OF Cons.prems(1) vu a] _ keep le wnd] Cons.prems(2) by simp
  moreover obtain acc2 s2 where "run_limiter allow ts s1 = (acc2, s2)" by fastforce
  ultimately show ?case by (cases b) (simp_all add: a)
qed

lemma grants_in_window:
  "inv v s \<Longrightarrow> sorted (v # ts) \<Longrightarrow> stamps s = [] \<Longrightarrow>
   length (filter (\<lambda>x. inside t x \<and> x \<le> t) (fst (run_limiter allow ts s))) \<le> cap"
  using run_bound [of v s ts "[]" t] by (simp add: window_def)

end

subsection \<open>Mediation: rate windows\<close>

definition RATE_WINDOW :: time where "RATE_WINDOW = seconds 60"
definition BUDGET_TTL :: time where "BUDGET_TTL = seconds 172800"

definition rate_key :: "uuid \<Rightarrow> string \<Rightarrow> string" where
  "rate_key inst tool = ''gop:rl:'' @ nat_str inst @ '':'' @ tool"

definition zremrangebyscore :: "string \<Rightarrow> time \<Rightarrow> time \<Rightarrow> redis \<Rightarrow> redis" where
  "zremrangebyscore k lo hi r = r\<lparr>rd_zsets := (rd_zsets r)(k := filter (\<lambda>x. \<not> (lo \<le> x \<and> x \<le> hi)) (rd_zsets r k))\<rparr>"

definition check_rate :: "uuid \<Rightarrow> string \<Rightarrow> int option \<Rightarrow> time \<Rightarrow> redis \<Rightarrow> bool \<times> redis" where
  "check_rate inst tool per_min t r =
     (case per_min of None \<Rightarrow> (True, r)
      | Some n \<Rightarrow>
          (let key = rate_key inst tool;
               r1 = zremrangebyscore key 0 (t - RATE_WINDOW) r in
           if n \<le> int (length (rd_zsets r1 key)) then (False, r1)
           else (True, r1\<lparr>rd_zsets := (rd_zsets r1)(key := rd_zsets r1 key @ [t])\<rparr>)))"

subsection \<open>Mediation: budgets and the untrusted flag\<close>

definition UNTRUSTED_CONTENT_TOOLS :: "string list" where
  "UNTRUSTED_CONTENT_TOOLS = [''web_fetch'', ''file_ingest'', ''forwarded_content'', ''web.fetch'']"

text \<open>\<open>strftime('%Y%m%d')\<close> of a UTC day, as an injective text.\<close>

definition day_key :: "time \<Rightarrow> string" where
  "day_key t = int_str (t div days 1)"

definition budget_key :: "uuid \<Rightarrow> string \<Rightarrow> time \<Rightarrow> string" where
  "budget_key inst kind t = ''gop:budget:'' @ nat_str inst @ '':'' @ kind @ '':'' @ day_key t"

definition check_budget :: "uuid \<Rightarrow> string \<Rightarrow> int option \<Rightarrow> time \<Rightarrow> redis \<Rightarrow> bool" where
  "check_budget inst kind cap t r =
     (case cap of None \<Rightarrow> True | Some c \<Rightarrow> redis_counter (budget_key inst kind t) r < c)"

definition record_budget :: "uuid \<Rightarrow> string \<Rightarrow> int \<Rightarrow> time \<Rightarrow> redis \<Rightarrow> int \<times> redis" where
  "record_budget inst kind amount t r =
     (let key = budget_key inst kind t; (total', r1) = redis_incrby key amount r
      in (total', if total' = amount then redis_expire key BUDGET_TTL r1 else r1))"

definition budget_breach :: "json \<Rightarrow> (string \<times> int option) option" where
  "budget_breach budgets = (case jget_null budgets ''sends_day'' of JNull \<Rightarrow> None
     | v \<Rightarrow> Some (''sends'', py_int v))"

definition untrusted_key :: "uuid \<Rightarrow> string" where
  "untrusted_key run = ''gop:run:'' @ nat_str run @ '':untrusted''"

definition result_is_untrusted :: "string \<Rightarrow> json \<Rightarrow> bool" where
  "result_is_untrusted tool result \<longleftrightarrow>
     tool \<in> set UNTRUSTED_CONTENT_TOOLS \<or> jget result ''content_class'' = Some (JStr ''external_untrusted'')"

definition mark_untrusted :: "uuid \<Rightarrow> redis \<Rightarrow> redis" where
  "mark_untrusted run r = redis_set_ex (untrusted_key run) ''1'' BUDGET_TTL r"

definition is_untrusted :: "uuid \<Rightarrow> redis \<Rightarrow> bool" where
  "is_untrusted run r \<longleftrightarrow> (case redis_get (untrusted_key run) r of None \<Rightarrow> False | Some v \<Rightarrow> v \<noteq> [])"

definition clear_untrusted :: "uuid \<Rightarrow> redis \<Rightarrow> redis" where
  "clear_untrusted run r = redis_delete (untrusted_key run) r"

lemma untrusted_lifecycle:
  "is_untrusted run (mark_untrusted run r)" "\<not> is_untrusted run (clear_untrusted run r)"
  by (simp_all add: is_untrusted_def mark_untrusted_def clear_untrusted_def redis_get_def redis_set_ex_def
      redis_delete_def live_def BUDGET_TTL_def)

lemma record_budget_counts:
  "redis_counter (budget_key i k t) (snd (record_budget i k a t r)) = redis_counter (budget_key i k t) r + a"
  by (auto simp: record_budget_def Let_def redis_incrby_def redis_expire_def redis_counter_def live_def BUDGET_TTL_def
      split: option.splits prod.splits)

subsection \<open>Landing: the in-process limiter\<close>

definition WINDOW_S :: time where "WINDOW_S = seconds 60"
definition MAX_KEYS :: nat where "MAX_KEYS = 20000"

type_synonym buckets = "(string \<times> time list) list"

definition stale_bucket :: "time \<Rightarrow> time list \<Rightarrow> bool" where
  "stale_bucket cutoff dq \<longleftrightarrow> dq = [] \<or> last dq < cutoff"

definition sweep :: "time \<Rightarrow> buckets \<Rightarrow> buckets" where
  "sweep t bs = filter (\<lambda>kv. \<not> stale_bucket (t - WINDOW_S) (snd kv)) bs"

definition bucket :: "string \<Rightarrow> buckets \<Rightarrow> time list" where
  "bucket key bs = (case map_of bs key of None \<Rightarrow> [] | Some dq \<Rightarrow> dq)"

definition set_bucket :: "string \<Rightarrow> time list \<Rightarrow> buckets \<Rightarrow> buckets" where
  "set_bucket key dq bs = (if key \<in> fst ` set bs then map (\<lambda>kv. if fst kv = key then (key, dq) else kv) bs
     else bs @ [(key, dq)])"

definition landing_allow :: "string \<Rightarrow> int \<Rightarrow> time \<Rightarrow> buckets \<Rightarrow> bool \<times> buckets" where
  "landing_allow key per_min t bs =
     (if per_min \<le> 0 then (True, bs)
      else
        (let bs1 = (if MAX_KEYS < length bs then sweep t bs else bs);
             dq = dropWhile (\<lambda>x. x < t - WINDOW_S) (bucket key bs1)
         in if per_min \<le> int (length dq) then (False, set_bucket key dq bs1)
            else (True, set_bucket key (dq @ [t]) bs1)))"

subsection \<open>Both limiters meet the contract\<close>

lemma filter_filter_idle: "(\<And>x. p x \<Longrightarrow> q x) \<Longrightarrow> filter p (filter q xs) = filter p xs"
  by (induction xs) auto

interpretation mediation_limiter: window_limiter
  "check_rate inst tool (Some n)" "\<lambda>r. rd_zsets r (rate_key inst tool)" "\<lambda>t x. t - RATE_WINDOW < x"
  "nat n" "\<lambda>_ _. True" for inst tool n
proof unfold_locales
  fix r r' :: redis and u t v :: time and b :: bool
  let ?k = "rate_key inst tool"
  define kept where "kept = filter (\<lambda>x. \<not> (0 \<le> x \<and> x \<le> u - RATE_WINDOW)) (rd_zsets r ?k)"
  have r': "rd_zsets r' ?k = kept @ (if b then [u] else []) \<and> (b \<longrightarrow> int (length kept) < n)"
    if "check_rate inst tool (Some n) u r = (b, r')" for b
    using that by (auto simp: check_rate_def Let_def zremrangebyscore_def kept_def split: if_splits)
  have idle: "filter (\<lambda>x. w - RATE_WINDOW < x) kept = filter (\<lambda>x. w - RATE_WINDOW < x) (rd_zsets r ?k)" if "u \<le> w" for w
    unfolding kept_def by (rule filter_filter_idle) (use that in auto)
  show "filter (\<lambda>x. t - RATE_WINDOW < x) (rd_zsets r' ?k) =
      filter (\<lambda>x. t - RATE_WINDOW < x) (rd_zsets r ?k @ (if b then [u] else []))"
    if "check_rate inst tool (Some n) u r = (b, r')" "u \<le> t"
    using idle [OF that(2)] r' [OF that(1)] by simp
  show "length (filter (\<lambda>x. u - RATE_WINDOW < x) (rd_zsets r ?k)) < nat n"
    if "check_rate inst tool (Some n) u r = (True, r')"
  proof -
    have "length (filter (\<lambda>x. u - RATE_WINDOW < x) kept) \<le> length kept" by simp
    with idle [of u] r' [OF that] have "int (length (filter (\<lambda>x. u - RATE_WINDOW < x) (rd_zsets r ?k))) < n"
      by simp
    then show ?thesis by (simp only: zless_nat_eq_int_zless)
  qed
qed auto

text \<open>The stamps of a bucket are in time order: the clock is monotonic.\<close>

definition buckets_ok :: "time \<Rightarrow> buckets \<Rightarrow> bool" where
  "buckets_ok v bs \<longleftrightarrow> distinct (map fst bs) \<and> (\<forall>(k, dq) \<in> set bs. sorted dq \<and> (\<forall>x \<in> set dq. x \<le> v))"

lemma map_of_set_bucket:
  "key \<in> fst ` set bs \<Longrightarrow> map_of (map (\<lambda>kv. if fst kv = key then (key, dq) else kv) bs) key = Some dq"
  by (induction bs) auto

lemma bucket_set_bucket [simp]: "bucket key (set_bucket key dq bs) = dq"
proof -
  have "map_of (map (\<lambda>kv. if fst kv = key then (key, dq) else kv) bs) key = Some dq" if "key \<in> fst ` set bs"
    using that by (rule map_of_set_bucket)
  moreover have "map_of bs key = None" if "key \<notin> fst ` set bs" using that by (simp add: map_of_eq_None_iff)
  ultimately show ?thesis
    by (cases "key \<in> fst ` set bs") (simp_all add: bucket_def set_bucket_def map_add_def)
qed

lemma bucket_ok: "buckets_ok v bs \<Longrightarrow> sorted (bucket key bs) \<and> (\<forall>x \<in> set (bucket key bs). x \<le> v)"
  by (auto simp: buckets_ok_def bucket_def split: option.splits dest!: map_of_SomeD)

lemma set_bucket_ok:
  assumes "buckets_ok v bs" and "sorted dq" and "\<And>x. x \<in> set dq \<Longrightarrow> x \<le> v"
  shows "buckets_ok v (set_bucket key dq bs)"
proof -
  have "map fst (map (\<lambda>kv. if fst kv = key then (key, dq) else kv) bs) = map fst bs"
    by (induction bs) auto
  then have "distinct (map fst (set_bucket key dq bs))"
    using assms(1) by (cases "key \<in> fst ` set bs") (simp_all add: set_bucket_def buckets_ok_def del: map_map)
  moreover have "sorted (snd kv) \<and> (\<forall>x \<in> set (snd kv). x \<le> v)" if kv: "kv \<in> set (set_bucket key dq bs)" for kv
  proof -
    from kv have "kv \<in> set bs \<or> kv = (key, dq)"
      by (cases "key \<in> fst ` set bs") (auto simp: set_bucket_def)
    then show ?thesis
    proof
      assume "kv \<in> set bs"
      with assms(1) show ?thesis unfolding buckets_ok_def by fastforce
    next
      assume "kv = (key, dq)"
      with assms(2,3) show ?thesis by simp
    qed
  qed
  ultimately show ?thesis unfolding buckets_ok_def by fastforce
qed

lemma map_of_filter_distinct:
  "distinct (map fst bs) \<Longrightarrow> map_of (filter P bs) key =
     (case map_of bs key of None \<Rightarrow> None | Some dq \<Rightarrow> if P (key, dq) then Some dq else None)"
  by (induction bs) (auto split: option.splits simp: image_iff dest: map_of_SomeD)

lemma sorted_le_last: "sorted xs \<Longrightarrow> x \<in> set xs \<Longrightarrow> x \<le> last xs"
  by (induction xs) auto

lemma sweep_keeps_recent:
  assumes "buckets_ok v bs" and "u \<le> t"
  shows "filter (\<lambda>x. t - WINDOW_S \<le> x) (bucket key (sweep u bs)) = filter (\<lambda>x. t - WINDOW_S \<le> x) (bucket key bs)"
proof -
  have "x < t - WINDOW_S" if "stale_bucket (u - WINDOW_S) (bucket key bs)" "x \<in> set (bucket key bs)" for x
    using that bucket_ok [OF assms(1), of key] sorted_le_last [of "bucket key bs" x] assms(2)
    by (auto simp: stale_bucket_def)
  then have "filter (\<lambda>x. t - WINDOW_S \<le> x) (bucket key bs) = []" if "stale_bucket (u - WINDOW_S) (bucket key bs)"
    using that by (auto simp: filter_empty_conv not_le)
  then show ?thesis using assms(1)
    by (auto simp: bucket_def sweep_def buckets_ok_def map_of_filter_distinct split: option.splits)
qed

lemma sweep_ok: "buckets_ok v bs \<Longrightarrow> buckets_ok v (sweep u bs)"
  by (auto simp: buckets_ok_def sweep_def distinct_map_filter)

lemma filter_dropWhile_old:
  "(\<And>x. p x \<Longrightarrow> \<not> q x) \<Longrightarrow> filter p (dropWhile q xs) = filter p xs"
  by (induction xs) auto

lemma landing_allow_effect:
  assumes "buckets_ok v bs" and "v \<le> u" and "landing_allow key n u bs = (b, bs')" and "0 < n"
  obtains dq where "bucket key bs' = dq @ (if b then [u] else [])" "b \<Longrightarrow> int (length dq) < n"
    "\<And>t. u \<le> t \<Longrightarrow> filter (\<lambda>x. t - WINDOW_S \<le> x) dq = filter (\<lambda>x. t - WINDOW_S \<le> x) (bucket key bs)"
    "buckets_ok u bs'"
proof -
  let ?bs1 = "if MAX_KEYS < length bs then sweep u bs else bs"
  define dq where "dq = dropWhile (\<lambda>x. x < u - WINDOW_S) (bucket key ?bs1)"
  have ok: "buckets_ok v ?bs1" using assms(1) sweep_ok by auto
  then have oku: "buckets_ok u ?bs1" using assms(2) by (fastforce simp: buckets_ok_def)
  have dq: "sorted dq" "\<And>x. x \<in> set dq \<Longrightarrow> x \<le> u"
    using bucket_ok [OF oku, of key] unfolding dq_def by (auto simp: sorted_dropWhile dest: set_dropWhileD)
  have eff: "bs' = set_bucket key (dq @ (if b then [u] else [])) ?bs1" "b \<Longrightarrow> int (length dq) < n"
    using assms(3,4) by (auto simp: landing_allow_def Let_def dq_def split: if_splits)
  show thesis
  proof (rule that [of dq])
    show "bucket key bs' = dq @ (if b then [u] else [])" by (simp add: eff(1))
    show "int (length dq) < n" if b using eff(2) that .
    show "filter (\<lambda>x. t - WINDOW_S \<le> x) dq = filter (\<lambda>x. t - WINDOW_S \<le> x) (bucket key bs)" if "u \<le> t" for t
    proof -
      have "filter (\<lambda>x. t - WINDOW_S \<le> x) dq = filter (\<lambda>x. t - WINDOW_S \<le> x) (bucket key ?bs1)"
        unfolding dq_def by (rule filter_dropWhile_old) (use that in auto)
      also have "\<dots> = filter (\<lambda>x. t - WINDOW_S \<le> x) (bucket key bs)"
        using sweep_keeps_recent [OF assms(1) that, of key] by simp
      finally show ?thesis .
    qed
    show "buckets_ok u bs'"
      unfolding eff(1) by (rule set_bucket_ok [OF oku]) (use dq in \<open>auto simp: sorted_append\<close>)
  qed
qed

text \<open>The limiter with a positive cap; a cap of zero or less switches it off.\<close>

definition capped_allow :: "string \<Rightarrow> nat \<Rightarrow> time \<Rightarrow> buckets \<Rightarrow> bool \<times> buckets" where
  "capped_allow key n = landing_allow key (int n + 1)"

interpretation landing_limiter: window_limiter
  "capped_allow key n" "bucket key" "\<lambda>t x. t - WINDOW_S \<le> x" "Suc n" buckets_ok for key n
proof unfold_locales
  fix bs bs' :: buckets and u t v :: time and b :: bool
  assume ok: "buckets_ok v bs" and vu: "v \<le> u"
  have eff: "\<exists>dq. bucket key bs' = dq @ (if b then [u] else []) \<and> (b \<longrightarrow> int (length dq) < int n + 1) \<and>
      (\<forall>t. u \<le> t \<longrightarrow> filter (\<lambda>x. t - WINDOW_S \<le> x) dq = filter (\<lambda>x. t - WINDOW_S \<le> x) (bucket key bs)) \<and>
      buckets_ok u bs'" if "capped_allow key n u bs = (b, bs')" for b
    by (rule landing_allow_effect [OF ok vu that [unfolded capped_allow_def]]) (simp, blast)
  show "filter (\<lambda>x. t - WINDOW_S \<le> x) (bucket key bs') =
      filter (\<lambda>x. t - WINDOW_S \<le> x) (bucket key bs @ (if b then [u] else []))"
    if "capped_allow key n u bs = (b, bs')" "u \<le> t"
    using eff [OF that(1)] that(2) by force
  show "length (filter (\<lambda>x. u - WINDOW_S \<le> x) (bucket key bs)) < Suc n"
    if a: "capped_allow key n u bs = (True, bs')"
  proof -
    obtain dq where "int (length dq) < int n + 1"
      "filter (\<lambda>x. u - WINDOW_S \<le> x) dq = filter (\<lambda>x. u - WINDOW_S \<le> x) (bucket key bs)"
      using eff [OF a] by blast
    moreover have "length (filter (\<lambda>x. u - WINDOW_S \<le> x) dq) \<le> length dq" by simp
    ultimately show ?thesis by simp
  qed
  show "buckets_ok u bs'" if "capped_allow key n u bs = (b, bs')" using eff [OF that] by blast
qed auto

subsection \<open>Properties\<close>

text \<open>
  C39: no burst slips through the mediation rate window. Starting from an empty window, over any
  sequence of calls at non-decreasing times, the calls granted in any window \<open>(t - 60s, t]\<close> number
  at most \<open>per_min\<close>.
\<close>

theorem rate_window_bound:
  assumes "sorted ts" and "rd_zsets r (rate_key inst tool) = []"
  shows "length (filter (\<lambda>x. t - RATE_WINDOW < x \<and> x \<le> t)
           (fst (run_limiter (check_rate inst tool (Some n)) ts r))) \<le> nat n"
proof (cases ts)
  case (Cons u us)
  then show ?thesis
    using mediation_limiter.grants_in_window [where v = u and s = r and ts = ts] assms by simp
qed simp

theorem rate_window_bound_witness:
  "length (filter (\<lambda>x. 30 - RATE_WINDOW < x \<and> x \<le> 30)
     (fst (run_limiter (check_rate 1 ''messages.send'' (Some 2)) [10, 20, 30] redis_empty))) \<le> 2"
  using rate_window_bound [of "[10, 20, 30]" redis_empty 1 "''messages.send''" 30 2] by (simp add: redis_empty_def)

text \<open>
  The public landing limiter bounds a key's accepted hits. From an empty process, over any
  sequence of hits at non-decreasing times, sweeps included, the accepted hits in any closed window
  \<open>[t - 60s, t]\<close> number at most the cap.
\<close>

theorem landing_window_bound:
  assumes "sorted ts"
  shows "length (filter (\<lambda>x. t - WINDOW_S \<le> x \<and> x \<le> t)
           (fst (run_limiter (landing_allow key (int (Suc n))) ts []))) \<le> Suc n"
proof (cases ts)
  case (Cons u us)
  have "landing_allow key (int (Suc n)) = capped_allow key n" by (simp add: capped_allow_def add.commute)
  then show ?thesis
    using landing_limiter.grants_in_window [where v = u and s = "[]" and ts = ts and key = key and n = n] assms Cons
    by (simp add: buckets_ok_def bucket_def)
qed simp

theorem landing_window_bound_witness:
  "length (filter (\<lambda>x. 30 - WINDOW_S \<le> x \<and> x \<le> 30)
     (fst (run_limiter (landing_allow ''ip'' (int (Suc 1))) [10, 20, 30] []))) \<le> Suc 1"
  using landing_window_bound [of "[10, 20, 30]" 30 "''ip''" 1] by simp

end
