(* ===== verification/Capabilities.thy ===== *)
theory Capabilities
  imports Text
begin

text \<open>
  The global capability catalog (\<open>core/tenancy/capabilities.py\<close>) with its invariant checker, and the
  internal-worker grants (\<open>core/runtime/internal_workers.py\<close>). What installed packs contribute (read
  from YAML files) is the parameter \<open>pack_caps\<close>; \<open>catalog\<close> appends it to the platform's entries.

  The lemmas show that the platform catalog passes its own checker and that the grants never cover
  a sellable agent.
\<close>

datatype Kind = Feature | Agent | Channel | ChannelCapability | Addon | Limit
datatype Status = Available | Beta | Partial | Planned
datatype Visibility = Public | PublicBeta | PrivateBeta | Internal | PlannedVisibility

record Capability =
  cp_key :: string
  cp_label :: string
  cp_description :: string
  cp_category :: string
  cp_kind :: Kind
  cp_status :: Status
  cp_visibility :: Visibility
  cp_runtime_grantable :: bool
  cp_enforced_by :: "string option"
  cp_evidence_refs :: "string list"
  cp_depends_on :: "string list"
  cp_vertical :: "string option"

definition capability :: "string \<Rightarrow> string \<Rightarrow> string \<Rightarrow> string \<Rightarrow> Kind \<Rightarrow> Status \<Rightarrow> Visibility \<Rightarrow> bool
    \<Rightarrow> string option \<Rightarrow> string list \<Rightarrow> string list \<Rightarrow> Capability" where
  "capability key label descr category kind st vis grantable enforced refs deps =
     \<lparr>cp_key = key, cp_label = label, cp_description = descr, cp_category = category, cp_kind = kind,
      cp_status = st, cp_visibility = vis, cp_runtime_grantable = grantable, cp_enforced_by = enforced,
      cp_evidence_refs = refs, cp_depends_on = deps, cp_vertical = None\<rparr>"

definition L0_CAPABILITIES :: "Capability list" where
  "L0_CAPABILITIES =
     [capability ''conversations'' ''Conversations''
       ''A shared inbox for customer chats, with drafted replies the owner approves.''
       ''engagement'' Feature Available Public True None
       [''GET /v1/conversations'', ''GET /v1/conversations/{conversation_id}'', ''GET /v1/approvals'', ''POST /v1/approvals/{approval_id}/resolve'']
       [],
      capability ''catalog'' ''Catalog''
       ''Your product catalog with search and availability, used to ground replies.''
       ''operations'' Feature Available Public True None
       [''GET /v1/catalog/items'', ''GET /v1/catalog/search'']
       [],
      capability ''pricing'' ''Pricing & quotes''
       ''Quote calculation with a recorded breakdown for every figure.''
       ''operations'' Feature Available Public False (Some ''rbac:catalog:read'')
       [''POST /v1/pricing/compute'']
       [''catalog''],
      capability ''customers'' ''Customers''
       ''Contacts, lead pipeline and a full activity timeline per customer.''
       ''engagement'' Feature Available Public True None
       [''GET /v1/customers'', ''GET /v1/customers/{contact_id}/timeline'']
       [],
      capability ''ghost_recovery'' ''Ghost lead recovery''
       ''Finds leads that went silent, diagnoses why, and drafts a way back in.''
       ''engagement'' Feature Available Public True None
       [''GET /v1/leads'', ''POST /v1/leads/{lead_id}/recovery'']
       [''customers''],
      capability ''insights.business'' ''Business performance insights''
       ''Week-over-week business outcomes plus spend, revenue and ROI transparency.''
       ''intelligence'' Feature Available Public False (Some ''rbac:insights:read'')
       [''GET /v1/insights/summary'', ''GET /v1/insights/transparency'']
       [],
      capability ''agent.concierge'' ''AI concierge''
       ''Answers customer questions from your catalog and prices, for your approval.''
       ''engagement'' Agent Available Public False (Some ''cp2b_agent_allowlist'')
       [''POST /webhooks/whatsapp'', ''GET /v1/ops/runs/{run_id}'', ''POST /v1/approvals/{approval_id}/resolve'']
       [''conversations'', ''catalog''],
      capability ''channel.whatsapp'' ''WhatsApp''
       ''Your WhatsApp business number connected as a conversation channel.''
       ''channels'' Channel Available Public False (Some ''channel_registry'')
       [''POST /v1/channels/whatsapp/connect'', ''GET /v1/channels/whatsapp/{channel_id}/health'']
       [],
      capability ''campaigns.whatsapp'' ''WhatsApp campaigns''
       ''Consent-based broadcasts to your customers, sent only after approval.''
       ''growth'' ChannelCapability Available Public True None
       [''POST /v1/campaigns'', ''POST /v1/campaigns/{campaign_id}/send'']
       [''channel.whatsapp'', ''customers''],
      capability ''campaigns.analytics'' ''Campaign analytics & attribution''
       ''Funnel, attribution and performance analysis for what you send.''
       ''intelligence'' Feature Available Public True None
       [''GET /v1/campaigns/{campaign_id}/analytics'']
       [''campaigns.whatsapp''],
      capability ''landing_pages'' ''Landing pages''
       ''Generated campaign pages you approve, with lead capture and interest insights.''
       ''growth'' Feature Available Public True None
       [''POST /v1/landing/pages'', ''POST /v1/landing/pages/{page_id}/select'', ''GET /p/{page_id}'', ''POST /p/{page_id}/lead'', ''GET /v1/landing/pages/{page_id}/insights'']
       [''catalog''],
      capability ''catalog.ingestion'' ''Automated catalog ingestion''
       ''Bulk import and update your catalog from files, with review before loading.''
       ''operations'' Feature Available Public True None
       [''POST /v1/imports'', ''POST /v1/imports/{batch_id}/load'', ''POST /v1/imports/{batch_id}/revert'']
       [''catalog''],
      capability ''seats'' ''Staff users''
       ''How many staff accounts the plan includes.''
       ''limits'' Limit Available Public False (Some ''cp3_seat_limit'')
       []
       [],
      capability ''agent.nurture'' ''Nurture agent''
       ''Internal: follow-up sequencing archetype.''
       ''engagement'' Agent Partial Internal False None
       []
       [],
      capability ''agent.campaigner'' ''Campaigner agent''
       ''Internal: campaign-authoring archetype; its execute tool is not wired.''
       ''growth'' Agent Partial Internal False None
       []
       [],
      capability ''agent.ops'' ''Operations agent''
       ''Internal: operations archetype; its tools are not wired.''
       ''operations'' Agent Partial Internal False None
       []
       [],
      capability ''social.instagram_publishing'' ''Instagram publishing''
       ''Internal: publishing adapter with no customer-reachable path.''
       ''growth'' ChannelCapability Partial Internal False None
       []
       [],
      capability ''ads.google'' ''Google Ads''
       ''Internal: ads adapter with no customer-reachable path.''
       ''growth'' ChannelCapability Partial Internal False None
       []
       [],
      capability ''seo'' ''SEO''
       ''Planned: search/answer-engine visibility. Not built.''
       ''growth'' Feature Planned PlannedVisibility False None
       []
       [],
      capability ''agent.marketing'' ''Dedicated marketing agent''
       ''Planned: a marketing agent. No such archetype exists.''
       ''growth'' Agent Planned PlannedVisibility False None
       []
       [],
      capability ''appointments'' ''Appointment booking''
       ''Planned: store-visit booking. The calendar tool is not wired.''
       ''engagement'' Feature Planned PlannedVisibility False None
       []
       [],
      capability ''crm.automation'' ''External CRM sync''
       ''Planned: reading and writing an external CRM. Those tools are not wired.''
       ''operations'' Feature Planned PlannedVisibility False None
       []
       []]"

definition ALIASES :: "(string \<times> string) list" where
  "ALIASES = [(''ads.instagram'', ''social.instagram_publishing'')]"

definition status_rank :: "Status \<Rightarrow> nat" where
  "status_rank s = (case s of Planned \<Rightarrow> 0 | Partial \<Rightarrow> 1 | Beta \<Rightarrow> 2 | Available \<Rightarrow> 3)"

definition INFRA_TOKENS :: "string list" where
  "INFRA_TOKENS = [''rls'', ''outbox'', ''redis'', ''postgres'', ''migration'', ''langgraph'', ''worker'',
     ''scheduler'', ''queue'', ''database'', ''sandbox'']"

definition catalog :: "Capability list \<Rightarrow> Capability list" where
  "catalog pack_caps = L0_CAPABILITIES @ pack_caps"

definition resolve_alias :: "string \<Rightarrow> string" where
  "resolve_alias key = (case map_of ALIASES key of None \<Rightarrow> key | Some k \<Rightarrow> k)"

definition by_key :: "Capability list \<Rightarrow> string \<Rightarrow> Capability option" where
  "by_key pack_caps key = find (\<lambda>c. cp_key c = resolve_alias key) (catalog pack_caps)"

definition public_capabilities :: "Capability list \<Rightarrow> Capability list" where
  "public_capabilities pack_caps =
     filter (\<lambda>c. cp_visibility c = Public \<or> cp_visibility c = PublicBeta) (catalog pack_caps)"

definition grantable_keys :: "Capability list \<Rightarrow> string list" where
  "grantable_keys pack_caps = map cp_key (filter cp_runtime_grantable (catalog pack_caps))"

subsection \<open>Invariants\<close>

fun is_substring :: "string \<Rightarrow> string \<Rightarrow> bool" where
  "is_substring t [] = (t = [])"
| "is_substring t (c # cs) = (starts_with t (c # cs) \<or> is_substring t cs)"

datatype catalog_problem =
    DuplicateKeys
  | PlannedGrantable string | PlannedVisible string | PartialPublic string | PublicImmature string
  | PublicWithoutEvidence string | PublicBetaStatus string | Ungoverned string | BadPackKey string
  | InfrastructureKey string | UnknownDependency string string | LessMature string string
  | SelfDependency string | AliasUnknown string | AliasShadows string

definition require :: "bool \<Rightarrow> catalog_problem \<Rightarrow> catalog_problem list" where
  "require b p = (if b then [] else [p])"

lemma require_True [simp]: "b \<Longrightarrow> require b p = []"
  by (simp add: require_def)

definition check_dependency :: "Capability list \<Rightarrow> Capability \<Rightarrow> string \<Rightarrow> catalog_problem list" where
  "check_dependency caps c dep =
     (case find (\<lambda>d. cp_key d = dep) (rev caps) of
        None \<Rightarrow> [UnknownDependency (cp_key c) dep]
      | Some d \<Rightarrow> require (status_rank (cp_status c) \<le> status_rank (cp_status d)) (LessMature (cp_key c) dep)) @
     require (dep \<noteq> cp_key c) (SelfDependency (cp_key c))"

definition check_capability :: "Capability list \<Rightarrow> Capability \<Rightarrow> catalog_problem list" where
  "check_capability caps c =
     (if cp_status c = Planned then
        require (\<not> cp_runtime_grantable c) (PlannedGrantable (cp_key c)) @
        require (cp_visibility c = PlannedVisibility) (PlannedVisible (cp_key c)) else []) @
     (if cp_status c = Partial then
        require (cp_visibility c = Internal \<or> cp_visibility c = PrivateBeta) (PartialPublic (cp_key c)) else []) @
     (if cp_visibility c = Public \<or> cp_visibility c = PublicBeta then
        require (cp_status c = Available \<or> cp_status c = Beta) (PublicImmature (cp_key c)) @
        require (cp_evidence_refs c \<noteq> [] \<or> cp_kind c = Limit) (PublicWithoutEvidence (cp_key c)) else []) @
     (if cp_visibility c = PublicBeta then require (cp_status c = Beta) (PublicBetaStatus (cp_key c)) else []) @
     (if cp_status c = Available \<and> \<not> cp_runtime_grantable c then
        require (cp_enforced_by c \<noteq> None) (Ungoverned (cp_key c)) else []) @
     (case cp_vertical c of None \<Rightarrow> [] | Some v \<Rightarrow> require (starts_with (v @ ''.'') (cp_key c)) (BadPackKey (cp_key c))) @
     require (\<not> list_ex (\<lambda>t. is_substring t (py_lower (cp_key c))) INFRA_TOKENS) (InfrastructureKey (cp_key c)) @
     concat (map (check_dependency caps c) (cp_depends_on c))"

definition validate_catalog :: "Capability list \<Rightarrow> catalog_problem list" where
  "validate_catalog caps =
     require (distinct (map cp_key caps)) DuplicateKeys @
     concat (map (check_capability caps) caps) @
     concat (map (\<lambda>(legacy, canonical).
        require (canonical \<in> cp_key ` set caps) (AliasUnknown legacy) @
        require (legacy \<notin> cp_key ` set caps) (AliasShadows legacy)) ALIASES)"

subsection \<open>Internal workers\<close>

record InternalWorkerGrant =
  iw_capability :: string
  iw_archetype :: string
  iw_task :: string
  iw_workflow_key :: string

definition GRANTS :: "InternalWorkerGrant list" where
  "GRANTS = [\<lparr>iw_capability = ''ghost_recovery'', iw_archetype = ''nurture'', iw_task = ''ghost_diagnosis'',
     iw_workflow_key = ''silent_lead_reactivation''\<rparr>]"

definition find_grant :: "string option \<Rightarrow> string \<Rightarrow> string \<Rightarrow> InternalWorkerGrant option" where
  "find_grant workflow_key archetype task =
     (case workflow_key of None \<Rightarrow> None
      | Some w \<Rightarrow> if w = [] then None
          else find (\<lambda>g. iw_workflow_key g = w \<and> iw_archetype g = archetype \<and> iw_task g = task) GRANTS)"

definition is_internal_archetype :: "string \<Rightarrow> bool" where
  "is_internal_archetype archetype = list_ex (\<lambda>g. iw_archetype g = archetype) GRANTS"

datatype grant_problem = DuplicateGrant InternalWorkerGrant | NotACapability string | NotGrantable string | NoAgent string
  | SellableAgent string | ImplausibleName string

definition is_alnum :: "char \<Rightarrow> bool" where
  "is_alnum c \<longleftrightarrow> is_digit c \<or> is_upper c \<or> (97 \<le> (of_char c :: nat) \<and> (of_char c :: nat) \<le> 122)"

definition plausible :: "string \<Rightarrow> bool" where
  "plausible s \<longleftrightarrow> (let r = filter (\<lambda>c. c \<noteq> CHR ''_'' \<and> c \<noteq> CHR ''.'') s in r \<noteq> [] \<and> list_all is_alnum r)"

definition check_grant :: "Capability list \<Rightarrow> InternalWorkerGrant \<Rightarrow> grant_problem list" where
  "check_grant pack_caps g =
     (case by_key pack_caps (iw_capability g) of
        None \<Rightarrow> [NotACapability (iw_capability g)]
      | Some c \<Rightarrow> if cp_runtime_grantable c then [] else [NotGrantable (iw_capability g)]) @
     (case by_key pack_caps (''agent.'' @ iw_archetype g) of
        None \<Rightarrow> [NoAgent (iw_archetype g)]
      | Some a \<Rightarrow> if cp_visibility a = Public \<or> cp_visibility a = PublicBeta then [SellableAgent (iw_archetype g)] else []) @
     (if plausible (iw_task g) then [] else [ImplausibleName (iw_task g)]) @
     (if plausible (iw_workflow_key g) then [] else [ImplausibleName (iw_workflow_key g)])"

fun validate_grants :: "Capability list \<Rightarrow> InternalWorkerGrant list \<Rightarrow> InternalWorkerGrant list \<Rightarrow> grant_problem list" where
  "validate_grants pack_caps seen [] = []"
| "validate_grants pack_caps seen (g # gs) =
     (if g \<in> set seen then [DuplicateGrant g] else []) @ check_grant pack_caps g @
     validate_grants pack_caps (g # seen) gs"

definition validate_registry :: "Capability list \<Rightarrow> InternalWorkerGrant list \<Rightarrow> grant_problem list" where
  "validate_registry pack_caps grants = validate_grants pack_caps [] grants"

subsection \<open>Checking the shipped data\<close>

lemma by_key_L0:
  "find (\<lambda>c. cp_key c = resolve_alias key) L0_CAPABILITIES = Some c \<Longrightarrow> by_key pack_caps key = Some c"
  by (simp add: by_key_def catalog_def find_append)

lemma L0_valid: "validate_catalog L0_CAPABILITIES = []"
  by code_simp

lemma ghost_recovery_grantable:
  "map_option cp_runtime_grantable (find (\<lambda>c. cp_key c = resolve_alias ''ghost_recovery'') L0_CAPABILITIES)
     = Some True"
  by code_simp

lemma nurture_not_sellable:
  "map_option (\<lambda>a. cp_visibility a = Public \<or> cp_visibility a = PublicBeta)
     (find (\<lambda>c. cp_key c = resolve_alias ''agent.nurture'') L0_CAPABILITIES) = Some False"
  by code_simp

lemma grant_names_plausible:
  "list_all (\<lambda>g. plausible (iw_task g) \<and> plausible (iw_workflow_key g)) GRANTS"
  by code_simp

subsection \<open>Properties\<close>

text \<open>
  The shipped catalog is well formed. The platform catalog passes every check of its own
  validator (nothing planned or partial is public or grantable, every public entry has evidence,
  dependencies exist and are no less mature, aliases resolve), and the internal-worker grants pass
  theirs whatever packs contribute: each names a grantable capability and no sellable agent.
\<close>

theorem shipped_catalog_valid:
  "validate_catalog L0_CAPABILITIES = [] \<and> validate_registry pack_caps GRANTS = []"
proof -
  obtain c where c: "by_key pack_caps ''ghost_recovery'' = Some c" "cp_runtime_grantable c"
    using ghost_recovery_grantable by (auto dest: by_key_L0)
  obtain a where a: "by_key pack_caps ''agent.nurture'' = Some a"
      "\<not> (cp_visibility a = Public \<or> cp_visibility a = PublicBeta)"
    using nurture_not_sellable by (auto dest: by_key_L0)
  show ?thesis
    using c a grant_names_plausible
    by (simp add: L0_valid validate_registry_def validate_grants.simps check_grant_def GRANTS_def)
qed

end
