(* ===== verification/Tokens.thy ===== *)
theory Tokens
  imports Outbox Once
begin

text \<open>
  Execution tokens (\<open>core/approvals/tokens.py\<close>): \<open>mint\<close>, \<open>verify\<close> and the table
  \<open>execution_token_jti\<close> (tenant row level security). The primitives of the standard library and of
  the cryptography package are a parameter: SHA-256, ed25519 signing and checking under the
  configured seed, URL-safe base64 and the JSON parser. \<open>crypto_ok\<close> states what they document.

  The lemmas show that a token authorises one action once: acceptance implies a mint for the same
  context, tenant and time window, and in any history a token is consumed at most once.
\<close>

definition TOKEN_TTL_S :: int where "TOKEN_TTL_S = 600"

record crypto =
  sha256 :: "string \<Rightarrow> string"
  sign :: "string \<Rightarrow> string"
  check_sig :: "string \<Rightarrow> string \<Rightarrow> bool"
  b64 :: "string \<Rightarrow> string"
  unb64 :: "string \<Rightarrow> string option"
  loads :: "string \<Rightarrow> json option"

definition crypto_ok :: "crypto \<Rightarrow> bool" where
  "crypto_ok C \<longleftrightarrow> (\<forall>x. unb64 C (b64 C x) = Some x) \<and> (\<forall>x. CHR ''.'' \<notin> set (b64 C x)) \<and>
     (\<forall>b. check_sig C (sign C b) b)"

text \<open>The parser reads back what the canonical printer wrote for \<open>j\<close>.\<close>

definition loads_ok :: "crypto \<Rightarrow> json \<Rightarrow> bool" where
  "loads_ok C j \<longleftrightarrow> loads C (canonical_json j) = Some (sort_keys j)"

record TokenClaims =
  tc_jti :: uuid
  tc_ctx_hash :: string
  tc_tier :: int
  tc_exp :: int

record jti_row =
  tj_jti :: uuid
  tj_org_id :: uuid
  tj_action_hash :: string
  tj_decision_tier :: int
  tj_expires_at :: time
  tj_used_at :: "time option"

record token_db = outbox_db +
  execution_token_jti :: "jti_row list"

datatype token_error = TokenInvalid string | TokenMalformedPayload

definition action_hash :: "crypto \<Rightarrow> uuid \<Rightarrow> string \<Rightarrow> string \<Rightarrow> string" where
  "action_hash C org action resource =
     sha256 C (nat_str org @ '':'' @ action @ '':'' @ resource)"

definition token_payload :: "uuid \<Rightarrow> string \<Rightarrow> int \<Rightarrow> int \<Rightarrow> json" where
  "token_payload jti ctx tier ex =
     JObj [(''jti'', JId jti), (''ctx_hash'', JStr ctx), (''tier'', JInt tier), (''exp'', JInt ex)]"

definition timestamp :: "time \<Rightarrow> int" where
  "timestamp t = t div 1000000"

definition mint ::
  "crypto \<Rightarrow> uuid \<Rightarrow> string \<Rightarrow> int \<Rightarrow> int \<Rightarrow> 'a token_db_scheme \<Rightarrow> string \<times> 'a token_db_scheme" where
  "mint C org ctx_hash tier ttl_s s =
     (let jti = fresh s;
          expires_at = now s + seconds ttl_s;
          body = canonical_json (token_payload jti ctx_hash tier (timestamp expires_at));
          signature = sign C body
      in (b64 C body @ ''.'' @ b64 C signature,
          s\<lparr>execution_token_jti := execution_token_jti s @
              [\<lparr>tj_jti = jti, tj_org_id = org, tj_action_hash = ctx_hash, tj_decision_tier = tier,
                tj_expires_at = expires_at, tj_used_at = None\<rparr>],
            fresh := fresh s + 1\<rparr>))"

text \<open>The atomic \<open>UPDATE ... WHERE used_at IS NULL AND expires_at > now() RETURNING jti\<close>.\<close>

definition claimable :: "string \<Rightarrow> uuid \<Rightarrow> 'a token_db_scheme \<Rightarrow> jti_row \<Rightarrow> bool" where
  "claimable jti org s r \<longleftrightarrow> rls_visible s (tj_org_id r) \<and> nat_str (tj_jti r) = jti \<and> tj_org_id r = org \<and>
     tj_used_at r = None \<and> now s < tj_expires_at r"

definition claim_jti :: "string \<Rightarrow> uuid \<Rightarrow> 'a token_db_scheme \<Rightarrow> uuid option \<times> 'a token_db_scheme" where
  "claim_jti jti org s =
     (map_option tj_jti (find (claimable jti org s) (execution_token_jti s)),
      s\<lparr>execution_token_jti := update_where (claimable jti org s)
          (\<lambda>r. r\<lparr>tj_used_at := Some (now s)\<rparr>) (execution_token_jti s)\<rparr>)"

definition verify ::
  "crypto \<Rightarrow> string option \<Rightarrow> uuid \<Rightarrow> string \<Rightarrow> (token_error, TokenClaims, 'a token_db_scheme) op" where
  "verify C token org expected s =
     (case token of None \<Rightarrow> (Inl (TokenInvalid ''missing token''), s)
      | Some t \<Rightarrow>
          if CHR ''.'' \<notin> set t then (Inl (TokenInvalid ''missing token''), s)
          else case (unb64 C (py_before CHR ''.'' t), unb64 C (py_after CHR ''.'' t)) of
            (Some body, Some signature) \<Rightarrow>
              if \<not> check_sig C signature body then (Inl (TokenInvalid ''bad signature''), s)
              else (case loads C body of None \<Rightarrow> (Inl TokenMalformedPayload, s)
                | Some payload \<Rightarrow>
                    if jget_null payload ''ctx_hash'' \<noteq> JStr expected then (Inl (TokenInvalid ''ctx mismatch''), s)
                    else (case (jget_null payload ''exp'', jget_null payload ''jti'', jget_null payload ''tier'') of
                        (JInt ex, JStr jti, JInt tier) \<Rightarrow>
                          if ex < timestamp (now s) then (Inl (TokenInvalid ''expired''), s)
                          else (case claim_jti jti org s of
                              (None, s1) \<Rightarrow> (Inl (TokenInvalid ''replayed or unknown token''), s1)
                            | (Some j, s1) \<Rightarrow>
                                (Inr \<lparr>tc_jti = j, tc_ctx_hash = expected, tc_tier = tier, tc_exp = ex\<rparr>, s1))
                      | _ \<Rightarrow> (Inl TokenMalformedPayload, s)))
          | _ \<Rightarrow> (Inl (TokenInvalid ''malformed token''), s))"

subsection \<open>Lemmas\<close>

definition wf_tokens :: "'a token_db_scheme \<Rightarrow> bool" where
  "wf_tokens s \<longleftrightarrow> distinct (map tj_jti (execution_token_jti s)) \<and>
     (\<forall>r \<in> set (execution_token_jti s). tj_jti r < fresh s)"

definition token_used :: "uuid \<Rightarrow> 'a token_db_scheme \<Rightarrow> bool" where
  "token_used j s \<longleftrightarrow> (\<exists>r \<in> set (execution_token_jti s). tj_jti r = j \<and> tj_used_at r \<noteq> None)"

lemma verify_cases:
  assumes "verify C token org expected s = (Inr c, s')"
  obtains t body signature payload jti r where
    "token = Some t" "CHR ''.'' \<in> set t" "unb64 C (py_before CHR ''.'' t) = Some body"
    "unb64 C (py_after CHR ''.'' t) = Some signature" "check_sig C signature body"
    "loads C body = Some payload" "jget_null payload ''ctx_hash'' = JStr expected"
    "jget_null payload ''jti'' = JStr jti" "jget_null payload ''exp'' = JInt (tc_exp c)"
    "jget_null payload ''tier'' = JInt (tc_tier c)" "timestamp (now s) \<le> tc_exp c"
    "r \<in> set (execution_token_jti s)" "claimable jti org s r" "tj_jti r = tc_jti c" "nat_str (tc_jti c) = jti"
    "s' = s\<lparr>execution_token_jti := update_where (claimable jti org s)
          (\<lambda>r. r\<lparr>tj_used_at := Some (now s)\<rparr>) (execution_token_jti s)\<rparr>"
    "tc_ctx_hash c = expected"
  using assms
  by (force simp: verify_def claim_jti_def claimable_def not_less
      split: option.splits if_splits json.splits prod.splits dest: find_Some_set)

lemma verify_refused:
  "verify C token org expected s = (Inl e, s') \<Longrightarrow> s' = s"
  by (force simp: verify_def claim_jti_def find_None_iff_ball
      split: option.splits if_splits json.splits prod.splits intro!: token_db.equality update_where_none)

lemma wf_tokens_mint: "wf_tokens s \<Longrightarrow> wf_tokens (snd (mint C org ctx tier ttl s))"
  by (auto simp: wf_tokens_def mint_def Let_def less_Suc_eq)

lemma wf_tokens_mark:
  "wf_tokens s \<Longrightarrow> wf_tokens (s\<lparr>execution_token_jti :=
     update_where p (\<lambda>r. r\<lparr>tj_used_at := x\<rparr>) (execution_token_jti s)\<rparr>)"
  by (auto simp: wf_tokens_def map_update_where set_update_where)

lemma wf_tokens_row_unique:
  "wf_tokens s \<Longrightarrow> r \<in> set (execution_token_jti s) \<Longrightarrow> q \<in> set (execution_token_jti s) \<Longrightarrow>
   tj_jti r = tj_jti q \<Longrightarrow> r = q"
  by (auto simp: wf_tokens_def distinct_map inj_on_def)

text \<open>
  Attempts to consume: the key carries everything \<open>verify\<close> gets; \<open>token_jti\<close> is the jti its token
  names.
\<close>

definition consume ::
  "crypto \<Rightarrow> string option \<times> uuid \<times> string \<Rightarrow> 'a token_db_scheme \<Rightarrow> bool \<times> 'a token_db_scheme" where
  "consume C k s = (case verify C (fst k) (fst (snd k)) (snd (snd k)) s of
     (Inr _, s') \<Rightarrow> (True, s') | (Inl _, s') \<Rightarrow> (False, s'))"

definition token_jti :: "crypto \<Rightarrow> string option \<times> uuid \<times> string \<Rightarrow> string option" where
  "token_jti C k = (case fst k of None \<Rightarrow> None
     | Some t \<Rightarrow> (case Option.bind (unb64 C (py_before CHR ''.'' t)) (loads C) of None \<Rightarrow> None
         | Some payload \<Rightarrow> (case jget_null payload ''jti'' of JStr j \<Rightarrow> Some j | _ \<Rightarrow> None)))"

definition jti_used :: "string option \<Rightarrow> 'a token_db_scheme \<Rightarrow> bool" where
  "jti_used j s \<longleftrightarrow> (\<exists>r \<in> set (execution_token_jti s). Some (nat_str (tj_jti r)) = j \<and> tj_used_at r \<noteq> None)"

definition keeps_tokens :: "('a token_db_scheme \<Rightarrow> 'a token_db_scheme) \<Rightarrow> bool" where
  "keeps_tokens f \<longleftrightarrow> (\<forall>s. wf_tokens s \<longrightarrow> wf_tokens (f s) \<and>
     (\<forall>r \<in> set (execution_token_jti s). tj_used_at r \<noteq> None \<longrightarrow>
        (\<exists>q \<in> set (execution_token_jti (f s)). tj_jti q = tj_jti r \<and> tj_used_at q \<noteq> None)))"

lemma mint_keeps_tokens: "keeps_tokens (\<lambda>s. snd (mint C org ctx tier ttl s))"
  by (auto simp: keeps_tokens_def wf_tokens_mint) (auto simp: mint_def Let_def)

lemma jti_used_mark:
  "jti_used j s \<Longrightarrow> jti_used j (s\<lparr>execution_token_jti :=
     update_where p (\<lambda>r. r\<lparr>tj_used_at := Some x\<rparr>) (execution_token_jti s)\<rparr>)"
proof -
  assume "jti_used j s"
  then obtain r where r: "r \<in> set (execution_token_jti s)" "Some (nat_str (tj_jti r)) = j" "tj_used_at r \<noteq> None"
    by (auto simp: jti_used_def)
  let ?q = "if p r then r\<lparr>tj_used_at := Some x\<rparr> else r"
  have "?q \<in> set (update_where p (\<lambda>r. r\<lparr>tj_used_at := Some x\<rparr>) (execution_token_jti s))"
    using r(1) unfolding set_update_where by auto
  moreover have "Some (nat_str (tj_jti ?q)) = j" "tj_used_at ?q \<noteq> None" using r(2,3) by auto
  ultimately show ?thesis unfolding jti_used_def by fastforce
qed

lemma jti_used_marked:
  assumes "r \<in> set (execution_token_jti s)" and "p r"
  shows "jti_used (Some (nat_str (tj_jti r))) (s\<lparr>execution_token_jti :=
     update_where p (\<lambda>r. r\<lparr>tj_used_at := Some x\<rparr>) (execution_token_jti s)\<rparr>)"
proof -
  have "r\<lparr>tj_used_at := Some x\<rparr> \<in> set (update_where p (\<lambda>r. r\<lparr>tj_used_at := Some x\<rparr>) (execution_token_jti s))"
    using assms unfolding set_update_where by blast
  then show ?thesis unfolding jti_used_def
    by (intro bexI [of _ "r\<lparr>tj_used_at := Some x\<rparr>"]) simp_all
qed

lemma consume_win:
  assumes "wf_tokens s" and "consume C k s = (True, s')"
  shows "\<not> jti_used (token_jti C k) s \<and> jti_used (token_jti C k) s' \<and> wf_tokens s' \<and>
    (\<forall>j. jti_used j s \<longrightarrow> jti_used j s')"
proof -
  obtain c where "verify C (fst k) (fst (snd k)) (snd (snd k)) s = (Inr c, s')"
    using assms(2) by (auto simp: consume_def split: prod.splits sum.splits)
  then obtain t body signature payload jti r where
    t: "fst k = Some t" "unb64 C (py_before CHR ''.'' t) = Some body" "loads C body = Some payload"
    "jget_null payload ''jti'' = JStr jti"
    and r: "r \<in> set (execution_token_jti s)" "claimable jti (fst (snd k)) s r"
    and s': "s' = s\<lparr>execution_token_jti := update_where (claimable jti (fst (snd k)) s)
          (\<lambda>r. r\<lparr>tj_used_at := Some (now s)\<rparr>) (execution_token_jti s)\<rparr>"
    by (cases rule: verify_cases) blast
  have j: "token_jti C k = Some jti" using t by (simp add: token_jti_def)
  have rj: "nat_str (tj_jti r) = jti" and rn: "tj_used_at r = None"
    using r(2) by (simp_all only: claimable_def)
  have "q = r" if "q \<in> set (execution_token_jti s)" "nat_str (tj_jti q) = jti" for q
  proof (rule wf_tokens_row_unique [OF assms(1) that(1) r(1)])
    show "tj_jti q = tj_jti r" using that(2) rj nat_str_inject by metis
  qed
  have "\<not> jti_used (Some jti) s"
  proof
    assume "jti_used (Some jti) s"
    then obtain q where "q \<in> set (execution_token_jti s)" "nat_str (tj_jti q) = jti" "tj_used_at q \<noteq> None"
      unfolding jti_used_def by blast
    with \<open>\<And>q. q \<in> set (execution_token_jti s) \<Longrightarrow> nat_str (tj_jti q) = jti \<Longrightarrow> q = r\<close> rn
    show False by metis
  qed
  moreover have "jti_used (Some jti) s'"
  proof -
    from rj jti_used_marked [OF r(1), of "claimable jti (fst (snd k)) s" "now s", OF r(2)] show ?thesis
      unfolding s' by (simp only:)
  qed
  moreover have "wf_tokens s'" unfolding s' by (rule wf_tokens_mark [OF assms(1)])
  moreover have "jti_used i s'" if "jti_used i s" for i unfolding s' by (rule jti_used_mark [OF that])
  ultimately show ?thesis unfolding j by blast
qed

lemma consume_lose: "consume C k s = (False, s') \<Longrightarrow> s' = s"
  by (auto simp: consume_def split: prod.splits sum.splits dest: verify_refused)

interpretation tokens_once: once_claim "consume C" jti_used "token_jti C" wf_tokens keeps_tokens
  for C
proof unfold_locales
  fix k and s s' :: "'a token_db_scheme" and w i
  assume wf: "wf_tokens s"
  show "\<not> jti_used (token_jti C k) s" if "consume C k s = (True, s')"
    using consume_win [OF wf that] by blast
  show "jti_used (token_jti C k) s'" if "consume C k s = (True, s')"
    using consume_win [OF wf that] by blast
  show "jti_used i s'" if "consume C k s = (w, s')" "jti_used i s"
    using consume_win [OF wf, of C k s'] consume_lose [of C k s s'] that by (cases w) auto
  show "wf_tokens s'" if "consume C k s = (w, s')"
    using consume_win [OF wf, of C k s'] consume_lose [of C k s s'] that wf by (cases w) auto
next
  fix f :: "'a token_db_scheme \<Rightarrow> 'a token_db_scheme" and s :: "'a token_db_scheme" and i
  assume "keeps_tokens f" "wf_tokens s"
  then show "jti_used i (f s)" if "jti_used i s" using that
    by (force simp: keeps_tokens_def jti_used_def)
  show "wf_tokens (f s)" using \<open>keeps_tokens f\<close> \<open>wf_tokens s\<close> by (simp add: keeps_tokens_def)
qed

lemma sort_token_payload:
  "sort_keys (token_payload jti ctx tier ex) =
     JObj [(''ctx_hash'', JStr ctx), (''exp'', JInt ex), (''jti'', JId jti), (''tier'', JInt tier)]"
  by (simp add: token_payload_def less_eq_char_def less_char_def)

lemma loads_token_payload:
  "loads_ok C (token_payload jti ctx tier ex) \<Longrightarrow> loads C (canonical_json (token_payload jti ctx tier ex)) =
     Some (JObj [(''ctx_hash'', JStr ctx), (''exp'', JInt ex), (''jti'', JId jti), (''tier'', JInt tier)])"
  using sort_token_payload [of jti ctx tier ex] by (simp add: loads_ok_def)

lemma minted_token_parts:
  assumes "crypto_ok C" and "mint C org ctx tier ttl s = (t, s')"
  shows "CHR ''.'' \<in> set t"
    and "unb64 C (py_before CHR ''.'' t) =
           Some (canonical_json (token_payload (fresh s) ctx tier (timestamp (now s + seconds ttl))))"
    and "\<exists>sg. unb64 C (py_after CHR ''.'' t) = Some sg \<and>
           check_sig C sg (canonical_json (token_payload (fresh s) ctx tier (timestamp (now s + seconds ttl))))"
  using assms by (auto simp: mint_def Let_def crypto_ok_def py_before_append py_after_append)

subsection \<open>Properties\<close>

text \<open>
  C3: a token is consumed at most once. In any history of verification attempts, with whatever
  tenants and contexts, interleaved with mints and any other activity that neither reuses a jti nor
  clears \<open>used_at\<close>, the successful verifications of tokens naming one jti number at most one.
\<close>

theorem token_single_use:
  assumes "\<And>f. Inr f \<in> set acts \<Longrightarrow> keeps_tokens f" and "wf_tokens s"
  shows "length (filter (\<lambda>k. token_jti C k = Some jti) (fst (run_claims (consume C) acts s))) \<le> 1"
  using tokens_once.wins_at_most_one [where acts = acts and s = s and i = "Some jti"] assms by simp

fun dotless :: "string \<Rightarrow> string" where
  "dotless [] = []"
| "dotless (c # cs) = (if c = CHR ''.'' then ''bb'' else [CHR ''a'', c]) @ dotless cs"

fun undotless :: "string \<Rightarrow> string" where
  "undotless (x # y # cs) = (if x = CHR ''a'' then y else CHR ''.'') # undotless cs"
| "undotless _ = []"

lemma undotless_dotless [simp]: "undotless (dotless s) = s"
  by (induction s) auto

lemma dotless_no_dot [simp]: "CHR ''.'' \<notin> set (dotless s)"
  by (induction s) auto

definition toy_crypto :: "json \<Rightarrow> crypto" where
  "toy_crypto payload = \<lparr>sha256 = \<lambda>x. x, sign = \<lambda>b. b @ ''!'', check_sig = \<lambda>sg b. sg = b @ ''!'',
     b64 = dotless, unb64 = \<lambda>x. Some (undotless x), loads = \<lambda>b. if b = canonical_json payload then Some (sort_keys payload) else None\<rparr>"

definition example_tokens :: token_db where
  "example_tokens = \<lparr>now = 0, fresh = 4, org_ctx = Some 7, audit_log = [], event_outbox = [],
     execution_token_jti = [\<lparr>tj_jti = 3, tj_org_id = 7, tj_action_hash = ''a'', tj_decision_tier = 1,
        tj_expires_at = 600000000, tj_used_at = None\<rparr>]\<rparr>"

definition example_crypto :: crypto where
  "example_crypto = toy_crypto (token_payload 3 ''a'' 1 600)"

definition example_token :: string where
  "example_token = dotless (canonical_json (token_payload 3 ''a'' 1 600)) @ ''.'' @
     dotless (canonical_json (token_payload 3 ''a'' 1 600) @ ''!'')"

theorem token_single_use_witness:
  "length (filter (\<lambda>k. token_jti example_crypto k = Some ''3'')
     (fst (run_claims (consume example_crypto)
        [Inl (Some example_token, 7, ''a''), Inr (\<lambda>s. snd (mint example_crypto 7 ''z'' 1 600 s)), Inl (Some example_token, 7, ''a'')]
        example_tokens))) \<le> 1"
proof -
  have "wf_tokens example_tokens" by (simp add: wf_tokens_def example_tokens_def)
  then show ?thesis
    using token_single_use [of "[Inl (Some example_token, 7, ''a''),
        Inr (\<lambda>s. snd (mint example_crypto 7 ''z'' 1 600 s)), Inl (Some example_token, 7, ''a'')]"
        example_tokens example_crypto "''3''"]
    by (auto simp: mint_keeps_tokens)
qed

text \<open>
  C28: a token authorises only what it was minted for. Suppose signatures are not forged: whatever
  body checks is one of the bodies minted, those of \<open>M\<close> (jti, context, tier, expiry). If \<open>verify\<close>
  accepts a token for a tenant and a context, then \<open>M\<close> has a mint for exactly that context with the
  claims returned, not past its expiry, and the tenant's unused, unexpired jti row for it existed
  before and is marked used after.
\<close>

theorem token_authorises_minted_action:
  assumes "\<And>jti ctx tier ex. (jti, ctx, tier, ex) \<in> M \<Longrightarrow> loads_ok C (token_payload jti ctx tier ex)"
    and "\<And>sg b. check_sig C sg b \<Longrightarrow> \<exists>(jti, ctx, tier, ex) \<in> M. b = canonical_json (token_payload jti ctx tier ex)"
    and "verify C token org expected s = (Inr c, s')"
  shows "(tc_jti c, expected, tc_tier c, tc_exp c) \<in> M \<and> timestamp (now s) \<le> tc_exp c \<and>
    (\<exists>r \<in> set (execution_token_jti s). tj_jti r = tc_jti c \<and> tj_org_id r = org \<and> org_ctx s = Some org \<and>
       tj_used_at r = None \<and> now s < tj_expires_at r) \<and>
    jti_used (Some (nat_str (tc_jti c))) s'"
proof -
  from assms(3) obtain t body sg payload jti r where v:
    "check_sig C sg body" "loads C body = Some payload" "jget_null payload ''ctx_hash'' = JStr expected"
    "jget_null payload ''jti'' = JStr jti" "jget_null payload ''exp'' = JInt (tc_exp c)"
    "jget_null payload ''tier'' = JInt (tc_tier c)" "timestamp (now s) \<le> tc_exp c"
    "r \<in> set (execution_token_jti s)" "claimable jti org s r" "tj_jti r = tc_jti c" "nat_str (tc_jti c) = jti"
    "s' = s\<lparr>execution_token_jti := update_where (claimable jti org s)
          (\<lambda>r. r\<lparr>tj_used_at := Some (now s)\<rparr>) (execution_token_jti s)\<rparr>"
    by (cases rule: verify_cases) blast
  from assms(2) [OF v(1)] obtain j ctx tier ex where m: "(j, ctx, tier, ex) \<in> M"
    "body = canonical_json (token_payload j ctx tier ex)" by blast
  have "payload = JObj [(''ctx_hash'', JStr ctx), (''exp'', JInt ex), (''jti'', JId j), (''tier'', JInt tier)]"
    using v(2) loads_token_payload [OF assms(1) [OF m(1)]] unfolding m(2) by simp
  with v(3-6) have "ctx = expected" "ex = tc_exp c" "nat_str j = jti" "tier = tc_tier c" by simp_all
  moreover from this v(11) have "j = tc_jti c" using nat_str_inject by metis
  ultimately
  have "(tc_jti c, expected, tc_tier c, tc_exp c) \<in> M" using m(1) by simp
  moreover have "jti_used (Some (nat_str (tc_jti c))) s'"
    using jti_used_marked [OF v(8), of "claimable jti org s" "now s", OF v(9)] unfolding v(12) v(10) .
  moreover have "tj_org_id r = org" "org_ctx s = Some org" "tj_used_at r = None" "now s < tj_expires_at r"
    using v(9) by (auto simp: claimable_def rls_visible_def)
  ultimately show ?thesis using v(7,8,10) by blast
qed

text \<open>
  A freshly minted token works once for its own action and for nothing else. Within its
  lifetime and under its tenant, \<open>verify\<close> returns the claims it was minted with; for any other
  context hash it raises \<open>ctx mismatch\<close>; once its expiry second has passed it raises \<open>expired\<close>.
\<close>

theorem token_roundtrip:
  assumes "crypto_ok C" and "loads_ok C (token_payload (fresh s) ctx tier (timestamp (now s + seconds ttl)))"
    and "wf_tokens s" and "mint C org ctx tier ttl s = (t, s1)" and "org_ctx s = Some org" and "0 < ttl"
  shows "(n < now s + seconds ttl \<longrightarrow>
           fst (verify C (Some t) org ctx (s1\<lparr>now := n\<rparr>)) =
             Inr \<lparr>tc_jti = fresh s, tc_ctx_hash = ctx, tc_tier = tier, tc_exp = timestamp (now s + seconds ttl)\<rparr>) \<and>
    (ctx' \<noteq> ctx \<longrightarrow> fst (verify C (Some t) org ctx' (s1\<lparr>now := n\<rparr>)) = Inl (TokenInvalid ''ctx mismatch'')) \<and>
    (timestamp (now s + seconds ttl) < timestamp n \<longrightarrow>
       fst (verify C (Some t) org ctx (s1\<lparr>now := n\<rparr>)) = Inl (TokenInvalid ''expired''))"
proof -
  let ?ex = "timestamp (now s + seconds ttl)"
  let ?body = "canonical_json (token_payload (fresh s) ctx tier ?ex)"
  note parts = minted_token_parts [OF assms(1,4)]
  obtain sg where sg: "unb64 C (py_after CHR ''.'' t) = Some sg" "check_sig C sg ?body"
    using parts(3) by blast
  have eval: "verify C (Some t) org x s2 =
      (if JStr ctx \<noteq> JStr x then (Inl (TokenInvalid ''ctx mismatch''), s2)
       else if ?ex < timestamp (now s2) then (Inl (TokenInvalid ''expired''), s2)
       else (case claim_jti (nat_str (fresh s)) org s2 of
          (None, s3) \<Rightarrow> (Inl (TokenInvalid ''replayed or unknown token''), s3)
        | (Some j, s3) \<Rightarrow> (Inr \<lparr>tc_jti = j, tc_ctx_hash = x, tc_tier = tier, tc_exp = ?ex\<rparr>, s3)))" for x s2
    using parts(1,2) sg loads_token_payload [OF assms(2)] by (simp add: verify_def)
  let ?row = "\<lparr>tj_jti = fresh s, tj_org_id = org, tj_action_hash = ctx, tj_decision_tier = tier,
      tj_expires_at = now s + seconds ttl, tj_used_at = None\<rparr>"
  have rows: "execution_token_jti s1 = execution_token_jti s @ [?row]" and ctx1: "org_ctx s1 = Some org"
    using assms(4,5) by (auto simp: mint_def Let_def)
  have "find (claimable (nat_str (fresh s)) org (s1\<lparr>now := n\<rparr>)) (execution_token_jti s) = None"
    using assms(3) by (auto simp: find_None_iff_ball claimable_def wf_tokens_def)
  then have "fst (claim_jti (nat_str (fresh s)) org (s1\<lparr>now := n\<rparr>)) = Some (fresh s)"
    if "n < now s + seconds ttl"
    using that ctx1 by (simp add: claim_jti_def rows find_append claimable_def rls_visible_def)
  moreover have "\<not> ?ex < timestamp n" if "n < now s + seconds ttl"
    using that zdiv_mono1 [of n "now s + seconds ttl" 1000000] by (simp add: timestamp_def)
  ultimately show ?thesis by (auto simp: eval split: prod.splits)
qed

lemma example_crypto_ok: "crypto_ok example_crypto"
  by (simp add: crypto_ok_def example_crypto_def toy_crypto_def)

lemma example_loads_ok: "loads_ok (example_crypto\<lparr>check_sig := c\<rparr>) (token_payload 3 ''a'' 1 600)"
  by (simp add: loads_ok_def example_crypto_def toy_crypto_def)

definition strict_crypto :: crypto where
  "strict_crypto = example_crypto\<lparr>check_sig := \<lambda>sg b.
     sg = b @ ''!'' \<and> b = canonical_json (token_payload 3 ''a'' 1 600)\<rparr>"

lemma nat_str_3: "nat_str 3 = ''3''"
  by code_simp

lemma example_token_accepted:
  "verify strict_crypto (Some example_token) 7 ''a'' example_tokens =
     (Inr \<lparr>tc_jti = 3, tc_ctx_hash = ''a'', tc_tier = 1, tc_exp = 600\<rparr>, snd (claim_jti ''3'' 7 example_tokens))"
proof -
  have "nat_str 3 = ''3''" by (rule nat_str_3)
  then have "fst (claim_jti ''3'' 7 example_tokens) = Some 3"
    by (simp add: claim_jti_def claimable_def example_tokens_def rls_visible_def)
  then obtain s' where c: "claim_jti ''3'' 7 example_tokens = (Some 3, s')" by (metis prod.collapse)
  have l: "loads strict_crypto (canonical_json (token_payload 3 ''a'' 1 600)) =
      Some (JObj [(''ctx_hash'', JStr ''a''), (''exp'', JInt 600), (''jti'', JId 3), (''tier'', JInt 1)])"
    unfolding strict_crypto_def by (rule loads_token_payload [OF example_loads_ok])
  have d: "CHR ''.'' \<in> set example_token"
    "unb64 strict_crypto (py_before CHR ''.'' example_token) = Some (canonical_json (token_payload 3 ''a'' 1 600))"
    "unb64 strict_crypto (py_after CHR ''.'' example_token) = Some (canonical_json (token_payload 3 ''a'' 1 600) @ ''!'')"
    "check_sig strict_crypto (canonical_json (token_payload 3 ''a'' 1 600) @ ''!'') (canonical_json (token_payload 3 ''a'' 1 600))"
    by (simp_all add: example_token_def py_before_append py_after_append strict_crypto_def
        example_crypto_def toy_crypto_def)
  have n: "timestamp (now example_tokens) = 0" by (simp add: timestamp_def example_tokens_def)
  show ?thesis using c \<open>nat_str 3 = ''3''\<close> by (simp add: verify_def d l n)
qed

theorem token_authorises_minted_action_witness:
  "jti_used (Some ''3'') (snd (claim_jti ''3'' 7 example_tokens))"
proof -
  have "loads_ok strict_crypto (token_payload 3 ''a'' 1 600)"
    unfolding strict_crypto_def by (rule example_loads_ok)
  then have "jti_used (Some (nat_str 3)) (snd (claim_jti ''3'' 7 example_tokens))"
    using token_authorises_minted_action [of "{(3, ''a'', 1, 600)}", OF _ _ example_token_accepted]
    by (simp add: strict_crypto_def)
  then show ?thesis by (simp add: nat_str_3)
qed

theorem token_roundtrip_witness:
  "fst (verify example_crypto (Some example_token) 7 ''b''
      (example_tokens\<lparr>execution_token_jti := [\<lparr>tj_jti = 3, tj_org_id = 7, tj_action_hash = ''a'', tj_decision_tier = 1,
        tj_expires_at = 600000000, tj_used_at = None\<rparr>], fresh := 4, now := 5\<rparr>)) =
     Inl (TokenInvalid ''ctx mismatch'')"
proof -
  let ?s = "example_tokens\<lparr>execution_token_jti := [], fresh := 3\<rparr>"
  have m: "mint example_crypto 7 ''a'' 1 600 ?s =
      (example_token, example_tokens\<lparr>execution_token_jti := [\<lparr>tj_jti = 3, tj_org_id = 7, tj_action_hash = ''a'',
        tj_decision_tier = 1, tj_expires_at = 600000000, tj_used_at = None\<rparr>], fresh := 4\<rparr>)"
    by (simp add: mint_def Let_def example_tokens_def example_token_def example_crypto_def toy_crypto_def timestamp_def)
  have "loads_ok example_crypto (token_payload 3 ''a'' 1 600)"
    by (simp add: loads_ok_def example_crypto_def toy_crypto_def)
  then show ?thesis
    using token_roundtrip [OF example_crypto_ok _ _ m, of 5 "''b''"]
    by (simp add: wf_tokens_def example_tokens_def timestamp_def)
qed

end
