(* ===== verification/Figures.thy ===== *)
theory Figures
  imports Tokens
begin

text \<open>
  Money in outbound text: the figure extractor (\<open>core/pricing/extract.py\<close>) and the committed
  figures ledger (\<open>core/pricing/ledger.py\<close>).

  A text is its UTF-8 bytes, so the rupee sign is three characters. \<open>match_at\<close> is the regular
  expression \<open>_AMOUNT_RE\<close> at one position: a number is mandatory and everything around it is
  optional and greedy, so no alternative is ever revisited; digits and blanks are the ASCII ones.
  \<open>finditer\<close> is \<open>scan\<close>, whose fuel is the length of the text: every step consumes a character.
  Amounts are exact (\<open>Decimal\<close> rounds only beyond 28 digits).
\<close>

subsection \<open>The extractor\<close>

definition RUPEE_SIGN :: string where
  "RUPEE_SIGN = [CHR 0xE2, CHR 0x82, CHR 0xB9]"

text \<open>The rest of \<open>s\<close> after a case-insensitive literal, if it is there.\<close>

definition after_lit :: "string \<Rightarrow> string \<Rightarrow> string option" where
  "after_lit lit s = (if py_lower (take (length lit) s) = lit then Some (drop (length lit) s) else None)"

definition match_currency :: "string \<Rightarrow> string option" where
  "match_currency s =
     (case after_lit RUPEE_SIGN s of Some r \<Rightarrow> Some r | None \<Rightarrow>
      case after_lit ''rs'' s of
        Some r \<Rightarrow> (case r of c # cs \<Rightarrow> if c = CHR ''.'' then Some cs else Some r | [] \<Rightarrow> Some r)
      | None \<Rightarrow>
      case after_lit ''inr'' s of Some r \<Rightarrow> Some r | None \<Rightarrow>
      case after_lit ''rupees'' s of Some r \<Rightarrow> Some r | None \<Rightarrow> after_lit ''rupee'' s)"

definition MAGNITUDE :: "(string \<times> nat) list" where
  "MAGNITUDE = [(''thousand'', 1000), (''crores'', 10000000), (''lakhs'', 100000), (''crore'', 10000000),
     (''lakh'', 100000), (''lacs'', 100000), (''lac'', 100000), (''cr'', 10000000), (''k'', 1000)]"

text \<open>The magnitude word as written, its factor and the rest.\<close>

fun first_magnitude :: "(string \<times> nat) list \<Rightarrow> string \<Rightarrow> (string \<times> nat \<times> string) option" where
  "first_magnitude [] s = None"
| "first_magnitude ((w, f) # ms) s =
     (case after_lit w s of Some r \<Rightarrow> Some (take (length w) s, f, r) | None \<Rightarrow> first_magnitude ms s)"

fun match_groups :: "nat \<Rightarrow> string \<Rightarrow> string list \<times> string" where
  "match_groups 0 s = ([], s)"
| "match_groups (Suc n) s =
     (case s of
        c # cs \<Rightarrow>
          (let g = takeWhile is_digit (take 3 cs) in
           if c = CHR '','' \<and> 2 \<le> length g
           then (case match_groups n (drop (length g) cs) of (gs, r) \<Rightarrow> (g # gs, r))
           else ([], s))
      | [] \<Rightarrow> ([], s))"

text \<open>\<open>\d{1,3}(?:,\d{2,3})+|\d+\<close>, as the comma-separated parts.\<close>

definition match_num :: "string \<Rightarrow> (string list \<times> string) option" where
  "match_num s =
     (let ds = takeWhile is_digit s; r = dropWhile is_digit s in
      if ds = [] then None
      else if length ds \<le> 3 then
        (case match_groups (length r) r of (gs, r') \<Rightarrow> Some (ds # gs, r'))
      else Some ([ds], r))"

definition match_frac :: "string \<Rightarrow> string \<times> string" where
  "match_frac s =
     (case s of
        c # cs \<Rightarrow>
          (let g = takeWhile is_digit (take 2 cs) in
           if c = CHR ''.'' \<and> g \<noteq> [] then (g, drop (length g) cs) else ([], s))
      | [] \<Rightarrow> ([], s))"

record amount_match =
  am_num :: "string list"
  am_frac :: string
  am_mag :: "(string \<times> nat) option"
  am_cur :: bool
  am_rest :: string

definition skip_space :: "string \<Rightarrow> string" where
  "skip_space s = dropWhile is_space s"

definition match_at :: "string \<Rightarrow> amount_match option" where
  "match_at s =
     (let (cur1, s1) = (case match_currency s of Some r \<Rightarrow> (True, r) | None \<Rightarrow> (False, s)) in
      case match_num (skip_space s1) of None \<Rightarrow> None
      | Some (num, s2) \<Rightarrow>
          (let (frac, s3) = match_frac s2;
               s4 = skip_space s3;
               (mag, s5) = (case first_magnitude MAGNITUDE s4 of
                   Some (w, f, r) \<Rightarrow> (Some (w, f), skip_space r) | None \<Rightarrow> (None, s4));
               (cur2, s6) = (case match_currency s5 of Some r \<Rightarrow> (True, r) | None \<Rightarrow> (False, s5))
           in Some \<lparr>am_num = num, am_frac = frac, am_mag = mag, am_cur = cur1 \<or> cur2, am_rest = s6\<rparr>))"

definition is_indian_grouped :: "string list \<Rightarrow> bool" where
  "is_indian_grouped parts \<longleftrightarrow>
     3 \<le> length parts \<and> list_ex (\<lambda>p. length p = 2) (butlast (tl parts))"

definition to_minor :: "string list \<Rightarrow> string \<Rightarrow> nat option \<Rightarrow> nat" where
  "to_minor num frac mag =
     (let paise = (if frac = [] then 0 else if length frac = 1 then 10 * digits_val frac else digits_val frac)
      in (100 * digits_val (concat num) + paise) * (case mag of None \<Rightarrow> 1 | Some f \<Rightarrow> f))"

definition figure_of :: "amount_match \<Rightarrow> nat option" where
  "figure_of m =
     (let mag = (case am_mag m of None \<Rightarrow> None
                 | Some (w, f) \<Rightarrow> if py_lower w = ''k'' \<and> list_all is_upper w \<and> \<not> am_cur m then None else Some f)
      in if am_cur m \<or> mag \<noteq> None \<or> is_indian_grouped (am_num m)
         then Some (to_minor (am_num m) (am_frac m) mag) else None)"

record ExtractedFigure =
  xf_minor :: nat
  xf_raw :: string

fun scan :: "nat \<Rightarrow> string \<Rightarrow> ExtractedFigure list" where
  "scan 0 s = []"
| "scan (Suc n) s =
     (case match_at s of
        None \<Rightarrow> (case s of [] \<Rightarrow> [] | _ # cs \<Rightarrow> scan n cs)
      | Some m \<Rightarrow> (case figure_of m of
            Some v \<Rightarrow> \<lparr>xf_minor = v, xf_raw = py_strip (take (length s - length (am_rest m)) s)\<rparr> # scan n (am_rest m)
          | None \<Rightarrow> scan n (am_rest m)))"

definition extract_amounts :: "string \<Rightarrow> ExtractedFigure list" where
  "extract_amounts s = scan (Suc (length s)) s"

subsection \<open>The ledger\<close>

definition DEFAULT_MATCH_WINDOW_HOURS :: int where "DEFAULT_MATCH_WINDOW_HOURS = 48"

record Figure =
  fg_figure_type :: string
  fg_amount_minor :: "int option"
  fg_value_text :: "string option"

record ledger_row =
  lg_org_id :: uuid
  lg_figure :: Figure
  lg_source_ref :: uuid
  lg_expires_at :: "time option"
  lg_created_at :: time

record ledger_db = token_db +
  committed_figures_ledger :: "ledger_row list"

definition ledger_write ::
  "uuid \<Rightarrow> Figure list \<Rightarrow> uuid \<Rightarrow> time option \<Rightarrow> 'a ledger_db_scheme \<Rightarrow> nat \<times> 'a ledger_db_scheme" where
  "ledger_write org figures source_ref expires_at s0 =
     (let s = set_org_context org s0 in
      (length figures,
       s\<lparr>committed_figures_ledger := committed_figures_ledger s @
          map (\<lambda>f. \<lparr>lg_org_id = org, lg_figure = f, lg_source_ref = source_ref, lg_expires_at = expires_at,
                    lg_created_at = now s\<rparr>) figures\<rparr>))"

definition ledger_hit :: "uuid \<Rightarrow> int \<Rightarrow> int \<Rightarrow> 'a ledger_db_scheme \<Rightarrow> ledger_row \<Rightarrow> bool" where
  "ledger_hit org amount window s r \<longleftrightarrow>
     rls_visible s (lg_org_id r) \<and> lg_org_id r = org \<and> fg_amount_minor (lg_figure r) = Some amount \<and>
     (case lg_expires_at r of None \<Rightarrow> True | Some e \<Rightarrow> now s < e) \<and>
     now s - hours window < lg_created_at r"

definition ledger_match ::
  "uuid \<Rightarrow> int \<Rightarrow> int \<Rightarrow> 'a ledger_db_scheme \<Rightarrow> bool \<times> 'a ledger_db_scheme" where
  "ledger_match org amount window s0 =
     (let s = set_org_context org s0 in
      (list_ex (ledger_hit org amount window s) (committed_figures_ledger s), s))"

definition figures_from_breakdown :: "(string \<times> int) list \<Rightarrow> int \<Rightarrow> Figure list" where
  "figures_from_breakdown breakdown tot =
     \<lparr>fg_figure_type = ''total'', fg_amount_minor = Some tot, fg_value_text = None\<rparr> #
     map (\<lambda>l. \<lparr>fg_figure_type = fst l, fg_amount_minor = Some (snd l), fg_value_text = None\<rparr>)
       (filter (\<lambda>l. 0 < snd l \<and> fst l \<noteq> ''total'') breakdown)"

lemma ledger_match_sel [simp]:
  "fst (ledger_match org a w s) = list_ex (ledger_hit org a w (set_org_context org s)) (committed_figures_ledger s)"
  "snd (ledger_match org a w s) = set_org_context org s"
  by (simp_all add: ledger_match_def Let_def set_org_context_def)

lemma ledger_hit_cong:
  "now s = now s' \<Longrightarrow> org_ctx s = org_ctx s' \<Longrightarrow> ledger_hit org a w s r = ledger_hit org a w s' r"
  by (simp add: ledger_hit_def rls_visible_def split: option.split)

lemma ledger_hit_new:
  "org_ctx s = Some org \<Longrightarrow> ledger_hit org a w s \<lparr>lg_org_id = org, lg_figure = f, lg_source_ref = src,
      lg_expires_at = Some e, lg_created_at = t\<rparr> \<longleftrightarrow>
   fg_amount_minor f = Some a \<and> now s < e \<and> now s - hours w < t"
  by (simp add: ledger_hit_def rls_visible_def)

lemma ledger_match_after_write:
  "fst (ledger_match org a w ((snd (ledger_write org fs src (Some e) s))\<lparr>now := n\<rparr>)) \<longleftrightarrow>
     fst (ledger_match org a w (s\<lparr>now := n\<rparr>)) \<or>
     (n < e \<and> n - hours w < now s \<and> Some a \<in> fg_amount_minor ` set fs)"
proof -
  let ?s = "set_org_context org (s\<lparr>now := n\<rparr>)"
  let ?s' = "set_org_context org ((snd (ledger_write org fs src (Some e) s))\<lparr>now := n\<rparr>)"
  have h: "ledger_hit org a w ?s' r = ledger_hit org a w ?s r" for r
    by (rule ledger_hit_cong) simp_all
  have "committed_figures_ledger ((snd (ledger_write org fs src (Some e) s))\<lparr>now := n\<rparr>) =
      committed_figures_ledger s @ map (\<lambda>f. \<lparr>lg_org_id = org, lg_figure = f, lg_source_ref = src,
        lg_expires_at = Some e, lg_created_at = now s\<rparr>) fs"
    by (simp add: ledger_write_def Let_def set_org_context_def)
  then show ?thesis
    by (simp add: h list_ex_iff ledger_hit_new image_iff bex_Un eq_commute [of "Some a"]) blast
qed

subsection \<open>Lemmas\<close>

lemma skip_space_digit: "s \<noteq> [] \<Longrightarrow> is_digit (hd s) \<Longrightarrow> skip_space s = s"
  by (cases s) (auto simp: skip_space_def is_space_def is_digit_def)

lemma takeWhile_digits: "list_all is_digit ds \<Longrightarrow> r = [] \<or> \<not> is_digit (hd r) \<Longrightarrow>
   takeWhile is_digit (ds @ r) = ds \<and> dropWhile is_digit (ds @ r) = r"
  by (induction ds) (cases r, auto)

lemma match_num_digits:
  assumes "list_all is_digit ds" and "ds \<noteq> []" and "r = [] \<or> hd r \<noteq> CHR '','' \<and> \<not> is_digit (hd r)"
  shows "match_num (ds @ r) = Some ([ds], r)"
proof -
  have "match_groups (length r) r = ([], r)"
    using assms(3) by (cases r) (auto simp: Let_def)
  moreover have "takeWhile is_digit (ds @ r) = ds" "dropWhile is_digit (ds @ r) = r"
    using takeWhile_digits [OF assms(1), of r] assms(3) by blast+
  ultimately show ?thesis using assms(2) by (simp add: match_num_def)
qed

text \<open>An amount as the pricing code renders it, with two digits of paise.\<close>

definition two_digits :: "nat \<Rightarrow> string" where
  "two_digits n = [digit_char (n div 10), digit_char (n mod 10)]"

lemma two_digits_val: "n < 100 \<Longrightarrow> digits_val (two_digits n) = n"
  by (simp add: two_digits_def digits_val_def)

lemma two_digits_digits: "n < 100 \<Longrightarrow> list_all is_digit (two_digits n)"
  by (simp add: two_digits_def)

lemma match_currency_none: "c = [] \<Longrightarrow> match_currency c = None"
  by (simp add: match_currency_def after_lit_def py_lower_def RUPEE_SIGN_def)

lemma scan_Nil: "scan n [] = []"
  by (cases n) (simp_all add: match_at_def match_currency_none match_num_def skip_space_def Let_def)

lemma py_lower_Rs: "py_lower ''Rs'' = ''rs''" "py_lower ''Rs '' = ''rs ''"
  by code_simp+

lemma match_priced:
  assumes "p < 100"
  shows "match_at (''Rs '' @ nat_str r @ ''.'' @ two_digits p) =
     Some \<lparr>am_num = [nat_str r], am_frac = two_digits p, am_mag = None, am_cur = True, am_rest = []\<rparr>"
proof -
  have c: "match_currency (''Rs '' @ x) = Some (CHR '' '' # x)" for x
    by (simp add: match_currency_def after_lit_def RUPEE_SIGN_def py_lower_Rs)
  have "skip_space (CHR '' '' # nat_str r @ x) = nat_str r @ x" for x
    using skip_space_digit [of "nat_str r @ x"] hd_nat_str [of r]
    by (simp add: skip_space_def is_space_def)
  moreover have "match_num (nat_str r @ CHR ''.'' # two_digits p) = Some ([nat_str r], CHR ''.'' # two_digits p)"
    by (rule match_num_digits) (simp_all add: nat_str_digits)
  moreover have "match_frac (CHR ''.'' # two_digits p) = (two_digits p, [])"
    using two_digits_digits [OF assms] by (simp add: match_frac_def two_digits_def)
  moreover have "first_magnitude MAGNITUDE [] = None"
    by (simp add: MAGNITUDE_def after_lit_def py_lower_def)
  moreover have "skip_space [] = []" by (simp add: skip_space_def)
  ultimately show ?thesis
    unfolding match_at_def c by (simp add: match_currency_none)
qed

lemma is_digit_not_space: "is_digit c \<Longrightarrow> \<not> is_space c"
  by (auto simp: is_digit_def is_space_def)

lemma py_strip_solid:
  assumes "s \<noteq> []" "\<not> is_space (hd s)" "\<not> is_space (last s)"
  shows "py_strip s = s"
proof -
  have d: "dropWhile is_space t = t" if "t \<noteq> []" "\<not> is_space (hd t)" for t
    using that by (cases t) simp_all
  from assms show ?thesis by (simp add: py_strip_def d hd_rev)
qed

subsection \<open>Properties\<close>

text \<open>
  The extractor reads back a rendered amount. For every number of rupees and of paise below
  100, the text \<open>Rs r.pp\<close> yields exactly one figure, \<open>100 * r + pp\<close> minor units, whose raw text is
  the whole of it.
\<close>

theorem extract_rendered_amount:
  "p < 100 \<Longrightarrow> extract_amounts (''Rs '' @ nat_str r @ ''.'' @ two_digits p) =
     [\<lparr>xf_minor = 100 * r + p, xf_raw = ''Rs '' @ nat_str r @ ''.'' @ two_digits p\<rparr>]"
proof -
  assume p: "p < 100"
  have "figure_of \<lparr>am_num = [nat_str r], am_frac = two_digits p, am_mag = None, am_cur = True, am_rest = []\<rparr>
      = Some (100 * r + p)"
    using two_digits_val [OF p] by (simp add: figure_of_def to_minor_def) (simp add: two_digits_def)
  moreover have "py_strip (''Rs '' @ nat_str r @ ''.'' @ two_digits p) = ''Rs '' @ nat_str r @ ''.'' @ two_digits p"
  proof (rule py_strip_solid)
    show "\<not> is_space (last (''Rs '' @ nat_str r @ ''.'' @ two_digits p))"
      using p by (simp add: two_digits_def is_digit_not_space)
  qed (simp_all add: is_space_def)
  ultimately show ?thesis
    using match_priced [OF p, of r] by (simp add: extract_amounts_def scan_Nil)
qed

theorem extract_rendered_amount_witness:
  "map xf_minor (extract_amounts (''Rs '' @ nat_str 1250 @ ''.'' @ two_digits 5)) = [125005]"
  using extract_rendered_amount [of 5 1250] by simp

end
