(* ===== verification/Settings.thy ===== *)
theory Settings
  imports Figures
begin

text \<open>
  Tenant configuration: the layered settings service (\<open>core/tenancy/settings.py\<close>), the quiet-hours
  window (\<open>core/tenancy/quiet_hours.py\<close>) and the consent predicates (\<open>core/customers/consent.py\<close>).
  Flags and packs are platform tables without row level security; \<open>tenant_settings\<close> and
  \<open>pack_installations\<close> are tenant tables. The zone database is the parameter \<open>tod\<close>: the time of day,
  in microseconds, of an instant in a named zone, or \<open>None\<close> for an unknown zone.

  The lemmas show that a written value is what the next resolution returns unless a flag overrides
  it, and that no later write changes what \<open>resolve_at\<close> says about an earlier instant.
\<close>

subsection \<open>Tables\<close>

record org_row =
  or_id :: uuid
  or_status :: string
  or_timezone :: "string option"

record flag_row =
  ff_key :: string
  ff_flag_type :: string
  ff_default_value :: json
  ff_tier :: int

text \<open>A rule names its flag by the key, which is unique.\<close>

record flag_rule_row =
  fr_key :: string
  fr_scope :: string
  fr_scope_ref :: "string option"
  fr_rollout_pct :: "int option"
  fr_precedence :: int
  fr_value :: json

record setting_row =
  ts_org_id :: uuid
  ts_key :: string
  ts_value :: json
  ts_schema_ref :: "string option"
  ts_version :: int
  ts_updated_by :: "uuid option"
  ts_updated_at :: time

record installation_row =
  pi_org_id :: uuid
  pi_pack_id :: uuid
  pi_status :: string
  pi_priority :: int

record settings_db = ledger_db +
  organizations :: "org_row list"
  feature_flags :: "flag_row list"
  flag_rules :: "flag_rule_row list"
  tenant_settings :: "setting_row list"
  packs :: "(uuid \<times> json) list"
  pack_installations :: "installation_row list"

subsection \<open>Resolution\<close>

datatype SettingSource = FLAG | TENANT | PACK | PLATFORM

record Resolved =
  rs_value :: json
  rs_source :: SettingSource
  rs_schema_ref :: "string option"
  rs_version :: "int option"

record PlatformDefault =
  pd_value :: json
  pd_schema_ref :: "string option"
  pd_tighten_only :: bool

datatype config_error = UnknownConfigKey string | TightenOnlyViolation string

definition AUTONOMY_LADDER :: "string list" where
  "AUTONOMY_LADDER = [''off'', ''draft_only'', ''suggest'', ''auto'']"

definition platform_default :: "json \<Rightarrow> string \<Rightarrow> PlatformDefault" where
  "platform_default v ref = \<lparr>pd_value = v, pd_schema_ref = Some ref, pd_tighten_only = False\<rparr>"

definition PLATFORM_DEFAULTS :: "(string \<times> PlatformDefault) list" where
  "PLATFORM_DEFAULTS =
     [(''reply.tone'', platform_default (JStr ''warm'') ''core.reply_tone''),
      (''quiet_hours.start'', platform_default (JStr ''21:00'') ''core.time''),
      (''quiet_hours.end'', platform_default (JStr ''08:00'') ''core.time''),
      (''autonomy.messaging'', platform_default (JStr ''auto'') ''core.autonomy''),
      (''autonomy.pricing'', platform_default (JStr ''auto'') ''core.autonomy''),
      (''autonomy.campaigns'', platform_default (JStr ''auto'') ''core.autonomy''),
      (''autonomy.paused'', platform_default (JBool False) ''core.bool''),
      (''recovery.silence_hours'', platform_default (JInt 72) ''core.int''),
      (''autonomy.messaging.threshold_minor'', platform_default (JInt 0) ''core.money_minor''),
      (''autonomy.pricing.threshold_minor'', platform_default (JInt 0) ''core.money_minor''),
      (''autonomy.campaigns.threshold_minor'', platform_default (JInt 0) ''core.money_minor''),
      (''campaign.cost_per_message_minor'', platform_default (JInt 50) ''core.money_minor'')]"

definition flag_override :: "uuid \<Rightarrow> string \<Rightarrow> 'a settings_db_scheme \<Rightarrow> Resolved option" where
  "flag_override org key s =
     map_option (\<lambda>r. \<lparr>rs_value = fr_value r, rs_source = FLAG, rs_schema_ref = None, rs_version = None\<rparr>)
       (order_first fr_precedence (filter (\<lambda>r. fr_key r = key \<and>
          list_ex (\<lambda>f. ff_key f = key \<and> ff_flag_type f = ''config'') (feature_flags s) \<and>
          fr_scope r = ''tenant'' \<and> fr_scope_ref r = Some (nat_str org)) (flag_rules s)))"

definition tenant_rows :: "uuid \<Rightarrow> string \<Rightarrow> 'a settings_db_scheme \<Rightarrow> setting_row list" where
  "tenant_rows org key s =
     filter (\<lambda>r. rls_visible s (ts_org_id r) \<and> ts_org_id r = org \<and> ts_key r = key) (tenant_settings s)"

definition tenant_resolved :: "setting_row \<Rightarrow> Resolved" where
  "tenant_resolved r = \<lparr>rs_value = ts_value r, rs_source = TENANT, rs_schema_ref = ts_schema_ref r,
     rs_version = Some (ts_version r)\<rparr>"

definition tenant_setting :: "uuid \<Rightarrow> string \<Rightarrow> 'a settings_db_scheme \<Rightarrow> Resolved option" where
  "tenant_setting org key s =
     map_option tenant_resolved (order_first (\<lambda>r. - ts_version r) (tenant_rows org key s))"

definition pack_default :: "uuid \<Rightarrow> string \<Rightarrow> 'a settings_db_scheme \<Rightarrow> Resolved option" where
  "pack_default org key s =
     (case order_first pi_priority (filter (\<lambda>r. rls_visible s (pi_org_id r) \<and> pi_org_id r = org \<and>
             pi_status r = ''active'' \<and> map_of (packs s) (pi_pack_id r) \<noteq> None) (pack_installations s)) of
        None \<Rightarrow> None
      | Some r \<Rightarrow>
          (case Option.bind (map_of (packs s) (pi_pack_id r)) (\<lambda>m. jget m ''config_defaults'') of
             None \<Rightarrow> None
           | Some defaults \<Rightarrow> map_option (\<lambda>v. \<lparr>rs_value = v, rs_source = PACK, rs_schema_ref = None,
                rs_version = None\<rparr>) (jget defaults key)))"

definition platform_resolved :: "PlatformDefault \<Rightarrow> Resolved" where
  "platform_resolved d =
     \<lparr>rs_value = pd_value d, rs_source = PLATFORM, rs_schema_ref = pd_schema_ref d, rs_version = None\<rparr>"

definition or_else :: "'x option \<Rightarrow> 'x option \<Rightarrow> 'x option" where
  "or_else a b = (case a of None \<Rightarrow> b | Some x \<Rightarrow> Some x)"

definition resolve :: "uuid \<Rightarrow> string \<Rightarrow> (config_error, Resolved, 'a settings_db_scheme) op" where
  "resolve org key s0 =
     (let s = set_org_context org s0 in
      case or_else (flag_override org key s) (or_else (tenant_setting org key s) (pack_default org key s)) of
        Some r \<Rightarrow> (Inr r, s)
      | None \<Rightarrow> (case map_of PLATFORM_DEFAULTS key of
          None \<Rightarrow> (Inl (UnknownConfigKey key), s)
        | Some d \<Rightarrow> (Inr (platform_resolved d), s)))"

definition resolve_at :: "uuid \<Rightarrow> string \<Rightarrow> time \<Rightarrow> (config_error, Resolved, 'a settings_db_scheme) op" where
  "resolve_at org key t s0 =
     (let s = set_org_context org s0 in
      case order_first (\<lambda>r. - ts_version r) (filter (\<lambda>r. ts_updated_at r \<le> t) (tenant_rows org key s)) of
        Some r \<Rightarrow> (Inr (tenant_resolved r), s)
      | None \<Rightarrow>
         (case pack_default org key s of Some p \<Rightarrow> (Inr p, s)
          | None \<Rightarrow> (case map_of PLATFORM_DEFAULTS key of
              None \<Rightarrow> (Inl (UnknownConfigKey key), s)
            | Some d \<Rightarrow> (Inr (platform_resolved d), s))))"

subsection \<open>Writes\<close>

fun index_of :: "'x \<Rightarrow> 'x list \<Rightarrow> nat option" where
  "index_of x [] = None"
| "index_of x (y # ys) = (if x = y then Some 0 else map_option Suc (index_of x ys))"

definition ladder_index :: "json \<Rightarrow> nat option" where
  "ladder_index v = (case v of JStr l \<Rightarrow> index_of l AUTONOMY_LADDER | _ \<Rightarrow> None)"

definition is_looser :: "json \<Rightarrow> json \<Rightarrow> bool" where
  "is_looser new_value baseline =
     (case (ladder_index new_value, ladder_index baseline) of
        (Some a, Some b) \<Rightarrow> b < a | _ \<Rightarrow> False)"

definition SETTINGS_CHANGED :: string where "SETTINGS_CHANGED = ''settings.changed''"

definition write_setting ::
  "(string \<Rightarrow> string) \<Rightarrow> uuid \<Rightarrow> string \<Rightarrow> json \<Rightarrow> uuid option \<Rightarrow> (config_error, int, 'a settings_db_scheme) op"
  where
  "write_setting h org key value updated_by s0 =
     (case map_of PLATFORM_DEFAULTS key of None \<Rightarrow> (Inl (UnknownConfigKey key), s0)
      | Some d \<Rightarrow>
          if pd_tighten_only d \<and> is_looser value (pd_value d) then (Inl (TightenOnlyViolation key), s0)
          else
            (let s = set_org_context org s0;
                 prev = tenant_setting org key s;
                 old_value = (case prev of Some p \<Rightarrow> rs_value p | None \<Rightarrow> pd_value d);
                 new_version = (case prev of Some p \<Rightarrow> (case rs_version p of Some v \<Rightarrow> v | None \<Rightarrow> 0) + 1
                                | None \<Rightarrow> 1);
                 s1 = s\<lparr>tenant_settings := tenant_settings s @
                        [\<lparr>ts_org_id = org, ts_key = key, ts_value = value, ts_schema_ref = pd_schema_ref d,
                          ts_version = new_version, ts_updated_by = updated_by, ts_updated_at = now s\<rparr>]\<rparr>;
                 entry = \<lparr>ae_org_id = org, ae_actor_type = ACTOR_USER, ae_action = SETTINGS_CHANGED,
                    ae_actor_id = map_option nat_str updated_by, ae_resource = Some key,
                    ae_payload = JObj [(''key'', JStr key), (''old'', old_value), (''new'', value),
                                       (''version'', JInt new_version)],
                    ae_trace_id = None, ae_permission_manifest_hash = None\<rparr>
             in (Inr new_version, snd (audit_write h entry s1))))"

subsection \<open>Quiet hours\<close>

definition tod_of :: "int \<Rightarrow> int \<Rightarrow> int" where
  "tod_of hh mm = hours hh + seconds (60 * mm)"

definition DEFAULT_START :: int where "DEFAULT_START = tod_of 21 0"
definition DEFAULT_END :: int where "DEFAULT_END = tod_of 8 0"

definition parse_time :: "json \<Rightarrow> int \<Rightarrow> int" where
  "parse_time raw dflt =
     (case raw of JStr s \<Rightarrow>
        (case py_split CHR '':'' s of
           [h, m] \<Rightarrow> (case (parse_int h, parse_int m) of
               (Some hh, Some mm) \<Rightarrow>
                 if 0 \<le> hh \<and> hh < 24 \<and> 0 \<le> mm \<and> mm < 60 then tod_of hh mm else dflt
             | _ \<Rightarrow> dflt)
         | _ \<Rightarrow> dflt)
      | _ \<Rightarrow> dflt)"

definition in_quiet_window :: "int \<Rightarrow> int \<Rightarrow> int \<Rightarrow> bool" where
  "in_quiet_window now_t start end' =
     (if start = end' then False
      else if start < end' then start \<le> now_t \<and> now_t < end'
      else start \<le> now_t \<or> now_t < end')"

definition setting_value :: "uuid \<Rightarrow> string \<Rightarrow> 'a settings_db_scheme \<Rightarrow> json" where
  "setting_value org key s = (case fst (resolve org key s) of Inr r \<Rightarrow> rs_value r | Inl _ \<Rightarrow> JNull)"

definition resolve_window :: "uuid \<Rightarrow> 'a settings_db_scheme \<Rightarrow> int \<times> int" where
  "resolve_window org s =
     (parse_time (setting_value org ''quiet_hours.start'' s) DEFAULT_START,
      parse_time (setting_value org ''quiet_hours.end'' s) DEFAULT_END)"

text \<open>Asia/Kolkata, the fallback zone, is five and a half hours ahead of UTC all year.\<close>

definition kolkata_tod :: "time \<Rightarrow> int" where
  "kolkata_tod t = (t + tod_of 5 30) mod days 1"

definition is_quiet_now :: "(string \<Rightarrow> time \<Rightarrow> int option) \<Rightarrow> uuid \<Rightarrow> 'a settings_db_scheme \<Rightarrow> bool" where
  "is_quiet_now tod org s =
     (let tz = Option.bind (find (\<lambda>o'. or_id o' = org) (organizations s)) or_timezone;
          t = (case tz of None \<Rightarrow> kolkata_tod (now s)
               | Some z \<Rightarrow> if z = [] then kolkata_tod (now s)
                           else (case tod z (now s) of None \<Rightarrow> kolkata_tod (now s) | Some x \<Rightarrow> x));
          (start, end') = resolve_window org s
      in in_quiet_window t start end')"

subsection \<open>Consent\<close>

definition POSITIVE_MARKETING :: "string list" where
  "POSITIVE_MARKETING = [''granted'', ''opted_in'', ''explicit'']"

definition POSITIVE_TRANSACTIONAL :: "string list" where
  "POSITIVE_TRANSACTIONAL = POSITIVE_MARKETING @ [''implicit'']"

definition CANONICAL_MARKETING_CONSENT :: string where
  "CANONICAL_MARKETING_CONSENT = ''granted''"

definition marketing_allowed :: "string option \<Rightarrow> bool" where
  "marketing_allowed status = (case status of None \<Rightarrow> False
     | Some x \<Rightarrow> x \<noteq> [] \<and> py_lower (py_strip x) \<in> set POSITIVE_MARKETING)"

definition transactional_allowed :: "string option \<Rightarrow> bool" where
  "transactional_allowed status = (case status of None \<Rightarrow> False
     | Some x \<Rightarrow> x \<noteq> [] \<and> py_lower (py_strip x) \<in> set POSITIVE_TRANSACTIONAL)"

lemma marketing_implies_transactional: "marketing_allowed x \<Longrightarrow> transactional_allowed x"
  by (auto simp: marketing_allowed_def transactional_allowed_def POSITIVE_TRANSACTIONAL_def split: option.splits)

lemma in_quiet_window_complement:
  "a \<noteq> b \<Longrightarrow> in_quiet_window t a b \<longleftrightarrow> \<not> in_quiet_window t b a"
  by (auto simp: in_quiet_window_def)

subsection \<open>Lemmas\<close>

lemma resolve_ctx [simp]: "snd (resolve org key s) = set_org_context org s"
  by (simp add: resolve_def Let_def split: option.split)

lemma audit_write_settings [frame_simps]:
  "tenant_settings (snd (audit_write h e s)) = tenant_settings s"
  "feature_flags (snd (audit_write h e s)) = feature_flags s"
  "flag_rules (snd (audit_write h e s)) = flag_rules s"
  "packs (snd (audit_write h e s)) = packs s"
  "pack_installations (snd (audit_write h e s)) = pack_installations s"
  by (simp_all add: audit_write_def Let_def set_org_context_def)

definition latest_version :: "uuid \<Rightarrow> string \<Rightarrow> 'a settings_db_scheme \<Rightarrow> int" where
  "latest_version org key s = (case tenant_setting org key (set_org_context org s) of
     Some p \<Rightarrow> (case rs_version p of Some v \<Rightarrow> v | None \<Rightarrow> 0) | None \<Rightarrow> 0)"

text \<open>What a successful write does to the table.\<close>

lemma write_setting_rows:
  assumes "write_setting h org key value by s = (Inr v, s')"
  obtains row where "tenant_settings s' = tenant_settings s @ [row]" "ts_org_id row = org" "ts_key row = key"
    "ts_value row = value" "ts_version row = v" "v = latest_version org key s + 1" "ts_updated_at row = now s"
    "flag_rules s' = flag_rules s" "packs s' = packs s" "pack_installations s' = pack_installations s"
    "feature_flags s' = feature_flags s" "org_ctx s' = Some org"
proof -
  from assms obtain d where d: "map_of PLATFORM_DEFAULTS key = Some d"
    by (auto simp: write_setting_def split: option.splits)
  show ?thesis
    using assms d
    by (intro that [of "\<lparr>ts_org_id = org, ts_key = key, ts_value = value, ts_schema_ref = pd_schema_ref d,
          ts_version = v, ts_updated_by = by, ts_updated_at = now s\<rparr>"])
       (auto simp: write_setting_def Let_def latest_version_def frame_simps audit_write_org_ctx set_org_context_def
          split: if_splits prod.splits option.splits dest: arg_cong [where f = snd])
qed

lemma tenant_rows_set_ctx:
  "tenant_rows org key (set_org_context org s) =
     filter (\<lambda>r. ts_org_id r = org \<and> ts_key r = key) (tenant_settings s)"
  unfolding tenant_rows_def set_org_context_def rls_visible_def by (rule filter_cong) auto

lemma pack_default_cong:
  "packs s = packs s' \<Longrightarrow> pack_installations s = pack_installations s' \<Longrightarrow>
   pack_default org key (set_org_context o1 s) = pack_default org key (set_org_context o1 s')"
  by (simp add: pack_default_def set_org_context_def rls_visible_def cong: option.case_cong)

lemma write_setting_ok:
  "map_of PLATFORM_DEFAULTS key = Some d \<Longrightarrow> \<not> pd_tighten_only d \<Longrightarrow>
   \<exists>v s'. write_setting h org key value by s = (Inr v, s')"
  by (simp add: write_setting_def Let_def)

lemma latest_version_least:
  assumes "r \<in> set (tenant_rows org key (set_org_context org s))"
  shows "ts_version r \<le> latest_version org key s"
proof -
  obtain x where x: "order_first (\<lambda>r. - ts_version r) (tenant_rows org key (set_org_context org s)) = Some x"
    using assms order_first_exists by (metis empty_iff list.set(1))
  with order_first_Some [OF x] assms have "ts_version r \<le> ts_version x" by auto
  with x show ?thesis by (simp add: latest_version_def tenant_setting_def tenant_resolved_def)
qed

lemma write_setting_tenant:
  assumes "write_setting h org key value by s = (Inr v, s')"
  shows "\<exists>r. tenant_setting org key (set_org_context org s') = Some r \<and> rs_value r = value \<and> rs_version r = Some v"
proof -
  from assms obtain row where row: "tenant_settings s' = tenant_settings s @ [row]" "ts_org_id row = org"
    "ts_key row = key" "ts_value row = value" "ts_version row = v" "v = latest_version org key s + 1"
    by (rule write_setting_rows)
  have "tenant_rows org key (set_org_context org s') = tenant_rows org key (set_org_context org s) @ [row]"
    using row by (simp add: tenant_rows_set_ctx)
  moreover have "order_first (\<lambda>r. - ts_version r) (tenant_rows org key (set_org_context org s) @ [row]) = Some row"
  proof (rule order_first_append_least)
    fix y assume "y \<in> set (tenant_rows org key (set_org_context org s))"
    from latest_version_least [OF this] row(5,6) show "- ts_version row < - ts_version y" by simp
  qed
  ultimately show ?thesis using row by (simp add: tenant_setting_def tenant_resolved_def)
qed

subsection \<open>Properties\<close>

text \<open>
  Configuration is versioned, not overwritten. After a successful write, the key resolves for
  that tenant to the written value at the returned version, unless a configuration flag overrides
  it; and for every instant before the write, every tenant and every key, \<open>resolve_at\<close> answers
  exactly what it answered before, so an incident's configuration can be reconstructed.
\<close>

theorem settings_write_effect:
  assumes "write_setting h org key value by s = (Inr v, s')"
  shows "(flag_override org key (set_org_context org s) = None \<longrightarrow>
            (\<exists>r. fst (resolve org key s') = Inr r \<and> rs_value r = value \<and> rs_source r = TENANT \<and> rs_version r = Some v)) \<and>
         (\<forall>t < now s. fst (resolve_at org' key' t s') = fst (resolve_at org' key' t s))"
proof (intro conjI impI allI)
  from assms obtain row where row: "tenant_settings s' = tenant_settings s @ [row]" "ts_updated_at row = now s"
    "flag_rules s' = flag_rules s" "packs s' = packs s" "pack_installations s' = pack_installations s"
    "feature_flags s' = feature_flags s"
    by (rule write_setting_rows)
  have flags: "flag_override org key (set_org_context org s') = flag_override org key (set_org_context org s)"
    using row(3,6) by (simp add: flag_override_def set_org_context_def)
  {
    show "\<exists>r. fst (resolve org key s') = Inr r \<and> rs_value r = value \<and> rs_source r = TENANT \<and> rs_version r = Some v"
      if f: "flag_override org key (set_org_context org s) = None"
    proof -
      obtain r where r: "tenant_setting org key (set_org_context org s') = Some r" "rs_value r = value"
        "rs_version r = Some v"
        using write_setting_tenant [OF assms] by blast
      have "resolve org key s' = (Inr r, set_org_context org s')"
        unfolding resolve_def Let_def flags f r(1) or_else_def by simp
      moreover have "rs_source r = TENANT" using r(1) by (auto simp: tenant_setting_def tenant_resolved_def)
      ultimately show ?thesis using r by simp
    qed
  next
    fix t assume "t < now s"
    then have "filter (\<lambda>r. ts_updated_at r \<le> t) (tenant_rows org' key' (set_org_context org' s')) =
        filter (\<lambda>r. ts_updated_at r \<le> t) (tenant_rows org' key' (set_org_context org' s))"
      using row(1,2) by (simp add: tenant_rows_set_ctx)
    then show "fst (resolve_at org' key' t s') = fst (resolve_at org' key' t s)"
      using pack_default_cong [OF row(4,5), of org' key' org']
      by (simp add: resolve_at_def Let_def split: option.splits)
  }
qed

definition example_settings :: settings_db where
  "example_settings = \<lparr>now = 100, fresh = 1, org_ctx = None, audit_log = [], event_outbox = [],
     execution_token_jti = [], committed_figures_ledger = [], organizations = [], feature_flags = [], flag_rules = [],
     tenant_settings = [], packs = [], pack_installations = []\<rparr>"

theorem settings_write_effect_witness:
  "\<exists>r. fst (resolve 7 ''reply.tone'' (snd (write_setting (\<lambda>x. x) 7 ''reply.tone'' (JStr ''dry'') None example_settings)))
      = Inr r \<and> rs_value r = JStr ''dry''"
proof -
  obtain v s' where w: "write_setting (\<lambda>x. x) 7 ''reply.tone'' (JStr ''dry'') None example_settings = (Inr v, s')"
  proof -
    have "map_of PLATFORM_DEFAULTS ''reply.tone'' = Some (platform_default (JStr ''warm'') ''core.reply_tone'')"
      by (simp add: PLATFORM_DEFAULTS_def)
    from write_setting_ok [OF this] that show thesis unfolding platform_default_def by fastforce
  qed
  have "flag_override 7 ''reply.tone'' (set_org_context 7 example_settings) = None"
    by (simp add: flag_override_def example_settings_def set_org_context_def)
  with settings_write_effect [OF w, of 7 "''reply.tone''"] show ?thesis unfolding w snd_conv by blast
qed

end
