(* ===== verification/Policy.thy ===== *)
theory Policy
  imports Settings "HOL-Library.Product_Lexorder" "HOL-Library.Multiset"
begin

text \<open>
  The approval policy engine (\<open>core/approvals/engine.py\<close>): contributors of a tier, the autonomy
  overlay, \<open>evaluate\<close>, \<open>evaluate_tool\<close>, \<open>select_decision\<close> and the tighten-only validator. The CEL
  engine is the parameter \<open>cel\<close>: the truth value of an expression over an activation, or \<open>None\<close> when
  it fails to compile or to evaluate. \<open>approval_policies\<close> has its own row policy: global rows
  (no tenant) are readable by every tenant.

  The lemmas show that the decision is the maximum over its contributors in any order, that the
  money floor holds under every configuration, and what adding a rule can and cannot do.
\<close>

subsection \<open>State and constants\<close>

definition CORE_TIER4_ACTIONS :: "string list" where
  "CORE_TIER4_ACTIONS = [''payment.charge'', ''payment.refund'', ''payout.create'',
     ''supplier.order_commit'', ''gbp.update'', ''ads.publish'']"

definition DEFAULT_UNKNOWN_TIER :: int where "DEFAULT_UNKNOWN_TIER = 2"
definition NEVER_AUTONOMOUS_TIER :: int where "NEVER_AUTONOMOUS_TIER = 4"
definition AUTONOMY_REVIEW_TIER :: int where "AUTONOMY_REVIEW_TIER = 2"

record ActionContext =
  ac_org_id :: uuid
  ac_action_type :: string
  ac_actor_instance_id :: "uuid option"
  ac_amount_minor :: "int option"
  ac_currency :: "string option"
  ac_recipients :: "json list"
  ac_attributes :: json
  ac_untrusted_content :: bool

record Decision =
  dc_tier :: int
  dc_matched_rules :: "string list"
  dc_approver_chain :: "json list"
  dc_timeout_s :: "int option"
  dc_on_timeout :: string
  dc_confirm_kind :: "string option"

record Contributor =
  ct_tier :: int
  ct_key :: string
  ct_approver_chain :: "json list"
  ct_timeout_s :: "int option"
  ct_on_timeout :: string
  ct_confirm_kind :: "string option"

record policy_row =
  ap_id :: uuid
  ap_scope :: string
  ap_org_id :: "uuid option"
  ap_pack_id :: "uuid option"
  ap_action_type :: string
  ap_tier :: int
  ap_cel_expr :: "string option"
  ap_approver_chain :: "json list"
  ap_timeout_s :: "int option"
  ap_on_timeout :: string
  ap_confirm_kind :: "string option"

record tightening_row =
  it_org_id :: uuid
  it_action_type :: string
  it_tightened_to_tier :: int
  it_reason :: "string option"
  it_expires_at :: time

record policy_db = settings_db +
  approval_policies :: "policy_row list"
  incident_tightening :: "tightening_row list"

type_synonym cel = "string \<Rightarrow> json \<Rightarrow> bool option"

subsection \<open>Contributors\<close>

definition activation :: "ActionContext \<Rightarrow> json" where
  "activation ctx =
     JObj [(''action_type'', JStr (ac_action_type ctx)),
           (''amount_minor'', JInt (case ac_amount_minor ctx of None \<Rightarrow> 0 | Some a \<Rightarrow> a)),
           (''currency'', JStr (case ac_currency ctx of None \<Rightarrow> [] | Some c \<Rightarrow> c)),
           (''recipients'', JArr (ac_recipients ctx)), (''attributes'', ac_attributes ctx),
           (''untrusted_content'', JBool (ac_untrusted_content ctx))]"

definition cel_matches :: "cel \<Rightarrow> string option \<Rightarrow> json \<Rightarrow> bool" where
  "cel_matches cel expr act =
     (case expr of None \<Rightarrow> True
      | Some e \<Rightarrow> if py_strip e \<in> {[], ''true''} then True
                  else (case cel e act of Some b \<Rightarrow> b | None \<Rightarrow> True))"

definition policy_applies :: "uuid \<Rightarrow> string \<Rightarrow> 'a policy_db_scheme \<Rightarrow> policy_row \<Rightarrow> bool" where
  "policy_applies org action_type s p \<longleftrightarrow>
     (case ap_org_id p of None \<Rightarrow> True | Some o' \<Rightarrow> rls_visible s o') \<and> ap_action_type p = action_type \<and>
     (ap_scope p = ''core''
      \<or> ap_scope p = ''pack'' \<and> list_ex (\<lambda>i. rls_visible s (pi_org_id i) \<and> pi_org_id i = org \<and>
            pi_status i = ''active'' \<and> ap_pack_id p = Some (pi_pack_id i)) (pack_installations s)
      \<or> ap_scope p = ''tenant'' \<and> ap_org_id p = Some org)"

definition core_contributor :: Contributor where
  "core_contributor = \<lparr>ct_tier = NEVER_AUTONOMOUS_TIER, ct_key = ''core:tier4'', ct_approver_chain = [],
     ct_timeout_s = None, ct_on_timeout = ''cancel'', ct_confirm_kind = None\<rparr>"

definition rule_contributor :: "policy_row \<Rightarrow> Contributor" where
  "rule_contributor p = \<lparr>ct_tier = ap_tier p, ct_key = nat_str (ap_id p), ct_approver_chain = ap_approver_chain p,
     ct_timeout_s = ap_timeout_s p, ct_on_timeout = ap_on_timeout p, ct_confirm_kind = ap_confirm_kind p\<rparr>"

definition hold_contributor :: "int \<Rightarrow> string \<Rightarrow> Contributor" where
  "hold_contributor tier key = \<lparr>ct_tier = tier, ct_key = key, ct_approver_chain = [], ct_timeout_s = None,
     ct_on_timeout = ''hold'', ct_confirm_kind = None\<rparr>"

definition active_tightening :: "uuid \<Rightarrow> string \<Rightarrow> 'a policy_db_scheme \<Rightarrow> int option" where
  "active_tightening org action_type s =
     map_option it_tightened_to_tier (order_first (\<lambda>r. - it_tightened_to_tier r)
       (filter (\<lambda>r. rls_visible s (it_org_id r) \<and> it_org_id r = org \<and> it_action_type r = action_type \<and>
          now s < it_expires_at r) (incident_tightening s)))"

text \<open>
  \<open>_contributors\<close>. Every contributor's key is also the id recorded in \<open>matched\<close>, so the second
  component of its result is \<open>map ct_key\<close> of the first.
\<close>

definition contributors :: "cel \<Rightarrow> uuid \<Rightarrow> string \<Rightarrow> json \<Rightarrow> 'a policy_db_scheme \<Rightarrow> Contributor list" where
  "contributors cel org action_type act s =
     (if action_type \<in> set CORE_TIER4_ACTIONS then [core_contributor] else []) @
     map rule_contributor (filter (\<lambda>p. policy_applies org action_type s p \<and> cel_matches cel (ap_cel_expr p) act)
        (approval_policies s)) @
     (case active_tightening org action_type s of None \<Rightarrow> [] | Some t \<Rightarrow> [hold_contributor t ''incident''])"

subsection \<open>The decision\<close>

definition rank :: "Contributor \<Rightarrow> int \<times> string" where
  "rank c = (ct_tier c, ct_key c)"

definition max_contributor :: "Contributor \<Rightarrow> Contributor list \<Rightarrow> Contributor" where
  "max_contributor c cs = foldl (\<lambda>w x. if rank w < rank x then x else w) c cs"

definition select_decision :: "Contributor list \<Rightarrow> string list \<Rightarrow> Decision" where
  "select_decision cs matched =
     (case cs of
        [] \<Rightarrow> \<lparr>dc_tier = DEFAULT_UNKNOWN_TIER, dc_matched_rules = [], dc_approver_chain = [],
               dc_timeout_s = None, dc_on_timeout = ''hold'', dc_confirm_kind = None\<rparr>
      | c # rest \<Rightarrow>
          (let w = max_contributor c rest in
           \<lparr>dc_tier = ct_tier w, dc_matched_rules = sort matched, dc_approver_chain = ct_approver_chain w,
            dc_timeout_s = ct_timeout_s w, dc_on_timeout = ct_on_timeout w, dc_confirm_kind = ct_confirm_kind w\<rparr>))"

definition evaluate :: "cel \<Rightarrow> ActionContext \<Rightarrow> 'a policy_db_scheme \<Rightarrow> Decision \<times> 'a policy_db_scheme" where
  "evaluate cel ctx s0 =
     (let s = set_org_context (ac_org_id ctx) s0;
          cs = contributors cel (ac_org_id ctx) (ac_action_type ctx) (activation ctx) s
      in (select_decision cs (map ct_key cs), s))"

subsection \<open>Tools and abstract actions\<close>

datatype policy_error = BadAmount

definition TOOL_ACTIONS :: "(string \<times> string list) list" where
  "TOOL_ACTIONS = [(''messages.send'', [''action.message.send'']), (''campaigns.execute'', [''action.campaign.execute'']),
     (''catalog.write'', [''action.catalog.write'']), (''landing_page.publish'', [''action.landing_page.publish''])]"

definition checked_int :: "json \<Rightarrow> policy_error + int option" where
  "checked_int j = (case py_int j of None \<Rightarrow> Inl BadAmount | Some i \<Rightarrow> Inr (Some i))"

definition message_body :: "json \<Rightarrow> string" where
  "message_body params =
     (let b = jget_null params ''body''; t = jget_null params ''text''
      in if truthy b then py_str b else if truthy t then py_str t else [])"

definition message_amount_minor :: "json \<Rightarrow> policy_error + int option" where
  "message_amount_minor params =
     (let amount = jget_null params ''amount_minor'' in
      if truthy amount then checked_int amount
      else Inr (case map xf_minor (extract_amounts (message_body params)) of [] \<Rightarrow> None | v # vs \<Rightarrow> Some (int (fold max vs v))))"

definition resolve_actions :: "string \<Rightarrow> json \<Rightarrow> policy_error + string list" where
  "resolve_actions tool params =
     (let actions = (case map_of TOOL_ACTIONS tool of None \<Rightarrow> [] | Some xs \<Rightarrow> xs) in
      if tool = ''messages.send'' then
        (case message_amount_minor params of
           Inl e \<Rightarrow> Inl e
         | Inr None \<Rightarrow> Inr (if actions = [] then [tool] else actions)
         | Inr (Some _) \<Rightarrow> Inr (actions @ [''action.quote.send'']))
      else Inr (if actions = [] then [tool] else actions))"

definition CAPABILITY_BY_ACTION :: "(string \<times> string) list" where
  "CAPABILITY_BY_ACTION = [(''action.message.send'', ''messaging''), (''action.quote.send'', ''pricing''),
     (''action.campaign.execute'', ''campaigns'')]"

definition CUSTOMER_FACING_CAPS :: "string list" where
  "CUSTOMER_FACING_CAPS = [''messaging'', ''campaigns'']"

datatype CommunicationMode = Reactive | Proactive

definition REACTIVE_TRIGGERS :: "string list" where "REACTIVE_TRIGGERS = [''msg.received'']"

definition mode_for_trigger :: "string option \<Rightarrow> CommunicationMode" where
  "mode_for_trigger trigger =
     (case trigger of None \<Rightarrow> Proactive | Some t \<Rightarrow> if t \<in> set REACTIVE_TRIGGERS then Reactive else Proactive)"

definition action_amount_minor :: "string \<Rightarrow> json \<Rightarrow> policy_error + int option" where
  "action_amount_minor tool params =
     (if tool = ''messages.send'' then message_amount_minor params
      else (let a = jget_null params ''amount_minor'' in if a = JNull then Inr None else checked_int a))"

text \<open>The capability loop: the first capability that forces review decides.\<close>

fun capability_floor :: "uuid \<Rightarrow> int option \<Rightarrow> string list \<Rightarrow> 'a policy_db_scheme \<Rightarrow> policy_error + bool" where
  "capability_floor org amount [] s = Inr False"
| "capability_floor org amount (cap # caps) s =
     (if setting_value org (''autonomy.'' @ cap) s \<noteq> JStr ''auto'' then Inr True
      else
        (let threshold = setting_value org (''autonomy.'' @ cap @ ''.threshold_minor'') s in
         case amount of
           None \<Rightarrow> capability_floor org amount caps s
         | Some a \<Rightarrow>
             if truthy threshold then
               (case py_int threshold of None \<Rightarrow> Inl BadAmount
                | Some t \<Rightarrow> if t \<le> a then Inr True else capability_floor org amount caps s)
             else capability_floor org amount caps s))"

definition autonomy_floor ::
  "(string \<Rightarrow> time \<Rightarrow> int option) \<Rightarrow> uuid \<Rightarrow> string \<Rightarrow> json \<Rightarrow> CommunicationMode \<Rightarrow> 'a policy_db_scheme
   \<Rightarrow> policy_error + int" where
  "autonomy_floor tod org tool params mode s =
     (if truthy (setting_value org ''autonomy.paused'' s) then Inr AUTONOMY_REVIEW_TIER
      else case resolve_actions tool params of Inl e \<Rightarrow> Inl e
      | Inr actions \<Rightarrow>
         (let caps = remdups (List.map_filter (map_of CAPABILITY_BY_ACTION) actions) in
          case action_amount_minor tool params of Inl e \<Rightarrow> Inl e
          | Inr amount \<Rightarrow>
              (case capability_floor org amount caps s of
                 Inl e \<Rightarrow> Inl e
               | Inr True \<Rightarrow> Inr AUTONOMY_REVIEW_TIER
               | Inr False \<Rightarrow>
                   if list_ex (\<lambda>c. c \<in> set CUSTOMER_FACING_CAPS) caps \<and> mode \<noteq> Reactive \<and> is_quiet_now tod org s
                   then Inr AUTONOMY_REVIEW_TIER else Inr 0)))"

definition tool_contributors ::
  "cel \<Rightarrow> (string \<Rightarrow> time \<Rightarrow> int option) \<Rightarrow> uuid \<Rightarrow> uuid option \<Rightarrow> bool \<Rightarrow> string \<Rightarrow> json \<Rightarrow> CommunicationMode
   \<Rightarrow> 'a policy_db_scheme \<Rightarrow> policy_error + Contributor list" where
  "tool_contributors cel tod org actor untrusted tool params mode s =
     (case (action_amount_minor tool params, resolve_actions tool params) of
        (Inr amount, Inr actions) \<Rightarrow>
          (let act = activation \<lparr>ac_org_id = org, ac_action_type = tool, ac_actor_instance_id = actor,
                 ac_amount_minor = amount,
                 ac_currency = (case jget_null params ''currency'' of JStr c \<Rightarrow> Some c | _ \<Rightarrow> None),
                 ac_recipients = (case jget_null params ''recipients'' of JArr xs \<Rightarrow> xs | _ \<Rightarrow> []),
                 ac_attributes = params, ac_untrusted_content = untrusted\<rparr>;
               cs = concat (map (\<lambda>a. contributors cel org a act s) actions)
           in case autonomy_floor tod org tool params mode s of
                Inl e \<Rightarrow> Inl e
              | Inr fl \<Rightarrow> Inr (cs @ (if 0 < fl then [hold_contributor fl ''autonomy''] else [])))
      | (Inl e, _) \<Rightarrow> Inl e
      | (_, Inl e) \<Rightarrow> Inl e)"

definition evaluate_tool ::
  "cel \<Rightarrow> (string \<Rightarrow> time \<Rightarrow> int option) \<Rightarrow> uuid \<Rightarrow> uuid option \<Rightarrow> bool \<Rightarrow> string \<Rightarrow> json \<Rightarrow> CommunicationMode
   \<Rightarrow> (policy_error, Decision, 'a policy_db_scheme) op" where
  "evaluate_tool cel tod org actor untrusted tool params mode s0 =
     (let s = set_org_context org s0 in
      case tool_contributors cel tod org actor untrusted tool params mode s of
        Inl e \<Rightarrow> (Inl e, s)
      | Inr cs \<Rightarrow> (Inr (select_decision cs (map ct_key cs)), s))"

subsection \<open>Tighten-only\<close>

datatype rule_error = ConfigSchemaViolation int int

definition baseline_tier :: "string \<Rightarrow> 'a policy_db_scheme \<Rightarrow> int" where
  "baseline_tier action_type s =
     max (if action_type \<in> set CORE_TIER4_ACTIONS then NEVER_AUTONOMOUS_TIER else 0)
         (fold max (map ap_tier (filter (\<lambda>p. (case ap_org_id p of None \<Rightarrow> True | Some o' \<Rightarrow> rls_visible s o') \<and>
            ap_action_type p = action_type \<and> ap_scope p \<in> {''core'', ''pack''}) (approval_policies s))) 0)"

definition validate_tenant_rule :: "string \<Rightarrow> int \<Rightarrow> 'a policy_db_scheme \<Rightarrow> rule_error option" where
  "validate_tenant_rule action_type tier s =
     (if tier < baseline_tier action_type s then Some (ConfigSchemaViolation tier (baseline_tier action_type s))
      else None)"

subsection \<open>Lemmas\<close>

lemma max_contributor_in: "max_contributor c cs \<in> set (c # cs)"
  unfolding max_contributor_def
proof (induction cs arbitrary: c)
  case (Cons a cs)
  from Cons [of "if rank c < rank a then a else c"] show ?case by (auto split: if_splits)
qed simp

lemma max_contributor_ge: "x \<in> set (c # cs) \<Longrightarrow> rank x \<le> rank (max_contributor c cs)"
  unfolding max_contributor_def
proof (induction cs arbitrary: c x)
  case (Cons a cs)
  let ?w = "if rank c < rank a then a else c"
  have w: "rank c \<le> rank ?w" "rank a \<le> rank ?w" by (auto simp: not_less)
  have top: "rank ?w \<le> rank (foldl (\<lambda>w x. if rank w < rank x then x else w) ?w cs)"
    using Cons.IH [of ?w ?w] by (simp only: list.set insertI1)
  show ?case
  proof (cases "x \<in> set cs")
    case True
    then show ?thesis using Cons.IH [of x ?w] by simp
  next
    case False
    with Cons.prems have "rank x \<le> rank ?w" using w by auto
    with top show ?thesis by simp
  qed
qed simp

lemma rank_le_tier: "rank a \<le> rank b \<Longrightarrow> ct_tier a \<le> ct_tier b"
  by (auto simp: rank_def less_eq_prod_def)

lemma select_tier_in: "cs \<noteq> [] \<Longrightarrow> \<exists>c \<in> set cs. dc_tier (select_decision cs m) = ct_tier c"
  using max_contributor_in by (cases cs) (fastforce simp: select_decision_def Let_def)+

lemma select_tier_ge: "c \<in> set cs \<Longrightarrow> ct_tier c \<le> dc_tier (select_decision cs m)"
  using max_contributor_ge rank_le_tier by (cases cs) (fastforce simp: select_decision_def Let_def)+

lemma select_tier_mono:
  "set cs \<subseteq> set ds \<Longrightarrow> cs \<noteq> [] \<Longrightarrow> dc_tier (select_decision cs m) \<le> dc_tier (select_decision ds m')"
  using select_tier_in [of cs m] select_tier_ge [of _ ds m'] by fastforce

lemma core_contributes: "a \<in> set CORE_TIER4_ACTIONS \<Longrightarrow> core_contributor \<in> set (contributors cel org a act s)"
  by (simp add: contributors_def)

lemma resolve_actions_core:
  "tool \<in> set CORE_TIER4_ACTIONS \<Longrightarrow> resolve_actions tool params = Inr [tool]"
  by (auto simp: CORE_TIER4_ACTIONS_def resolve_actions_def TOOL_ACTIONS_def)

lemma setting_value_ctx [simp]:
  "setting_value org key (set_org_context o1 s) = setting_value org key s"
  by (simp add: setting_value_def resolve_def Let_def)

lemma contributors_add_rule:
  assumes "approval_policies s' = approval_policies s @ [p]" and "incident_tightening s' = incident_tightening s"
    and "pack_installations s' = pack_installations s" and "org_ctx s' = org_ctx s" and "now s' = now s"
  shows "set (contributors cel org a act s) \<subseteq> set (contributors cel org a act s')"
proof -
  have "policy_applies org a s' q = policy_applies org a s q" for q
    using assms(3,4) by (simp add: policy_applies_def rls_visible_def cong: option.case_cong)
  moreover have "active_tightening org a s' = active_tightening org a s"
    using assms(2,4,5) by (simp add: active_tightening_def rls_visible_def)
  ultimately show ?thesis by (auto simp: contributors_def assms(1))
qed

lemma sort_mset_eq: "mset xs = mset ys \<Longrightarrow> sort xs = sort ys"
  by (metis properties_for_sort mset_sort sorted_sort)

subsection \<open>Properties\<close>

text \<open>
  The decision does not depend on the order of the rules. If two lists of contributors are
  permutations of each other, and no two different contributors share both tier and key, they give
  the same decision: tier, matched rules, approver chain, timeout and confirmation.
\<close>

theorem policy_order_independent:
  assumes "mset cs = mset ds" and "mset ms = mset ns"
    and "\<And>a b. a \<in> set cs \<Longrightarrow> b \<in> set cs \<Longrightarrow> rank a = rank b \<Longrightarrow> a = b"
  shows "select_decision cs ms = select_decision ds ns"
proof (cases cs)
  case Nil
  with assms(1) show ?thesis by (simp add: select_decision_def)
next
  case (Cons c cs')
  with assms(1) obtain d ds' where ds: "ds = d # ds'" by (cases ds) auto
  have same: "set (c # cs') = set (d # ds')" using assms(1) Cons ds mset_eq_setD by metis
  let ?a = "max_contributor c cs'" and ?b = "max_contributor d ds'"
  have "?a \<in> set (d # ds')" "?b \<in> set (c # cs')"
    using max_contributor_in [of c cs'] max_contributor_in [of d ds'] same by metis+
  then have "rank ?a \<le> rank ?b" "rank ?b \<le> rank ?a" by (auto intro: max_contributor_ge)
  then have "?a = ?b"
    using assms(3) [of ?a ?b] max_contributor_in [of c cs'] \<open>?b \<in> set (c # cs')\<close> Cons by simp
  then show ?thesis using sort_mset_eq [OF assms(2)] by (simp add: select_decision_def Cons ds)
qed

theorem policy_order_independent_witness:
  "select_decision [hold_contributor 1 ''a'', hold_contributor 3 ''b''] [''a'', ''b''] =
   select_decision [hold_contributor 3 ''b'', hold_contributor 1 ''a''] [''b'', ''a'']"
  by (rule policy_order_independent) (auto simp: rank_def hold_contributor_def)

text \<open>
  C21: the floors hold under every configuration. Whatever rules, CEL engine, flags, settings and
  parameters, a tool call that names a core money or publishing action is decided at tier 4; while
  the tenant's autonomy is paused every tool call needs approval (tier 2 at least); and the tier is
  never below that of a rule, tightening or overlay that contributes.
\<close>

theorem policy_floors:
  assumes "evaluate_tool cel tod org actor untrusted tool params mode s = (Inr d, s')"
  shows "(tool \<in> set CORE_TIER4_ACTIONS \<longrightarrow> NEVER_AUTONOMOUS_TIER \<le> dc_tier d) \<and>
         (truthy (setting_value org ''autonomy.paused'' s) \<longrightarrow> AUTONOMY_REVIEW_TIER \<le> dc_tier d) \<and>
         (\<exists>cs. tool_contributors cel tod org actor untrusted tool params mode (set_org_context org s) = Inr cs \<and>
            (\<forall>c \<in> set cs. ct_tier c \<le> dc_tier d))"
proof -
  let ?s = "set_org_context org s"
  from assms obtain cs where cs: "tool_contributors cel tod org actor untrusted tool params mode ?s = Inr cs"
    and d: "d = select_decision cs (map ct_key cs)"
    by (auto simp: evaluate_tool_def Let_def split: sum.splits)
  have ge: "ct_tier c \<le> dc_tier d" if "c \<in> set cs" for c using select_tier_ge [OF that] by (simp add: d)
  from cs obtain actions act fl where parts: "resolve_actions tool params = Inr actions"
    "autonomy_floor tod org tool params mode ?s = Inr fl"
    "cs = concat (map (\<lambda>a. contributors cel org a act ?s) actions) @ (if 0 < fl then [hold_contributor fl ''autonomy''] else [])"
    by (auto simp: tool_contributors_def Let_def split: sum.splits)
  have "core_contributor \<in> set cs" if "tool \<in> set CORE_TIER4_ACTIONS"
    using that parts(1,3) resolve_actions_core [OF that, of params] core_contributes [OF that, of cel org act ?s] by auto
  moreover have "hold_contributor AUTONOMY_REVIEW_TIER ''autonomy'' \<in> set cs"
    if "truthy (setting_value org ''autonomy.paused'' s)"
    using that parts(2,3) by (auto simp: autonomy_floor_def AUTONOMY_REVIEW_TIER_def)
  ultimately show ?thesis
    using cs ge by (fastforce simp: core_contributor_def hold_contributor_def)
qed

definition example_policy :: policy_db where
  "example_policy = \<lparr>now = 100, fresh = 1, org_ctx = None, audit_log = [], event_outbox = [],
     execution_token_jti = [], committed_figures_ledger = [], organizations = [], feature_flags = [], flag_rules = [],
     tenant_settings = [], packs = [], pack_installations = [],
     approval_policies = [\<lparr>ap_id = 9, ap_scope = ''core'', ap_org_id = None, ap_pack_id = None,
        ap_action_type = ''payment.refund'', ap_tier = 1, ap_cel_expr = None, ap_approver_chain = [],
        ap_timeout_s = None, ap_on_timeout = ''hold'', ap_confirm_kind = None\<rparr>],
     incident_tightening = []\<rparr>"

theorem policy_floors_witness:
  "\<exists>d. fst (evaluate_tool (\<lambda>_ _. None) (\<lambda>_ _. None) 7 None False ''payment.refund'' (JObj []) Reactive example_policy)
      = Inr d \<and> 4 \<le> dc_tier d"
proof -
  have act: "resolve_actions ''payment.refund'' (JObj []) = Inr [''payment.refund'']"
    by (rule resolve_actions_core) (simp add: CORE_TIER4_ACTIONS_def)
  have am: "action_amount_minor ''payment.refund'' (JObj []) = Inr None"
    by (simp add: action_amount_minor_def)
  have "\<exists>fl. autonomy_floor (\<lambda>_ _. None) 7 ''payment.refund'' (JObj []) Reactive (set_org_context 7 example_policy) = Inr fl"
    by (simp add: autonomy_floor_def act am List.map_filter_def CAPABILITY_BY_ACTION_def)
  then have "\<exists>cs. tool_contributors (\<lambda>_ _. None) (\<lambda>_ _. None) 7 None False ''payment.refund'' (JObj []) Reactive
      (set_org_context 7 example_policy) = Inr cs"
    by (auto simp: tool_contributors_def act am Let_def)
  then obtain d s' where "evaluate_tool (\<lambda>_ _. None) (\<lambda>_ _. None) 7 None False ''payment.refund'' (JObj []) Reactive
      example_policy = (Inr d, s')"
    by (auto simp: evaluate_tool_def Let_def)
  from policy_floors [OF this] this show ?thesis
    by (simp add: CORE_TIER4_ACTIONS_def NEVER_AUTONOMOUS_TIER_def)
qed

text \<open>
  A rule can tighten, and only the absence of rules can be loosened. Adding any rule row never
  lowers the decision of an action that some contributor already governs.
\<close>

theorem added_rule_never_loosens:
  assumes "contributors cel (ac_org_id ctx) (ac_action_type ctx) (activation ctx) (set_org_context (ac_org_id ctx) s) \<noteq> []"
  shows "dc_tier (fst (evaluate cel ctx s))
     \<le> dc_tier (fst (evaluate cel ctx (s\<lparr>approval_policies := approval_policies s @ [p]\<rparr>)))"
proof -
  let ?s = "set_org_context (ac_org_id ctx) s"
  let ?s' = "set_org_context (ac_org_id ctx) (s\<lparr>approval_policies := approval_policies s @ [p]\<rparr>)"
  have "set (contributors cel (ac_org_id ctx) (ac_action_type ctx) (activation ctx) ?s)
      \<subseteq> set (contributors cel (ac_org_id ctx) (ac_action_type ctx) (activation ctx) ?s')"
    by (rule contributors_add_rule) (simp_all add: set_org_context_def)
  from select_tier_mono [OF this assms] show ?thesis by (simp add: evaluate_def Let_def)
qed

definition example_ctx :: "string \<Rightarrow> ActionContext" where
  "example_ctx a = \<lparr>ac_org_id = 7, ac_action_type = a, ac_actor_instance_id = None, ac_amount_minor = None,
     ac_currency = None, ac_recipients = [], ac_attributes = JObj [], ac_untrusted_content = False\<rparr>"

definition tenant_rule :: "string \<Rightarrow> int \<Rightarrow> policy_row" where
  "tenant_rule a tier = \<lparr>ap_id = 10, ap_scope = ''tenant'', ap_org_id = Some 7, ap_pack_id = None,
     ap_action_type = a, ap_tier = tier, ap_cel_expr = None, ap_approver_chain = [],
     ap_timeout_s = None, ap_on_timeout = ''hold'', ap_confirm_kind = None\<rparr>"

theorem added_rule_never_loosens_witness:
  "dc_tier (fst (evaluate (\<lambda>_ _. None) (example_ctx ''payment.refund'') example_policy))
     \<le> dc_tier (fst (evaluate (\<lambda>_ _. None) (example_ctx ''payment.refund'')
          (example_policy\<lparr>approval_policies := approval_policies example_policy @ [tenant_rule ''payment.refund'' 0]\<rparr>)))"
  by (rule added_rule_never_loosens)
     (simp add: contributors_def example_ctx_def CORE_TIER4_ACTIONS_def)

text \<open>
  The tighten-only check does not protect an action no core or pack rule governs. For such an
  action the engine fails safe to tier 2, yet the validator's baseline is 0: it accepts a tenant
  rule of tier 0, and with that rule in place the action runs at tier 0.
\<close>

theorem tenant_rule_loosens_unknown_action:
  "dc_tier (fst (evaluate (\<lambda>_ _. None) (example_ctx ''stock.adjust'') example_policy)) = 2 \<and>
   validate_tenant_rule ''stock.adjust'' 0 example_policy = None \<and>
   dc_tier (fst (evaluate (\<lambda>_ _. None) (example_ctx ''stock.adjust'')
      (example_policy\<lparr>approval_policies := approval_policies example_policy @ [tenant_rule ''stock.adjust'' 0]\<rparr>))) = 0"
  by (simp add: evaluate_def contributors_def example_ctx_def example_policy_def CORE_TIER4_ACTIONS_def
      policy_applies_def active_tightening_def set_org_context_def select_decision_def DEFAULT_UNKNOWN_TIER_def
      validate_tenant_rule_def baseline_tier_def tenant_rule_def cel_matches_def rule_contributor_def
      max_contributor_def rls_visible_def Let_def)

end
