(* ===== verification/Approvals.thy ===== *)
theory Approvals
  imports Policy Once
begin

text \<open>
  The approval lifecycle (\<open>core/approvals/service.py\<close>), its HTTP transaction
  (\<open>core/approvals/api.py\<close>, \<open>core/tenancy/middleware.py\<close>), the escalation ladder and the reply
  parsing (\<open>core/approvals/notify.py\<close>) and the trust ledger (\<open>core/approvals/trust.py\<close>).

  The ladder's job reads the pending rows and later updates them by id; \<open>ladder_plan\<close> and
  \<open>ladder_apply\<close> are the two halves, and \<open>ladder_for_org\<close> their uninterrupted composition.

  The lemmas show that statuses move along a table whose decided states are final under every
  sequence of whole operations, that an edit cannot be approved above the row's tier, that an
  expired resolve leaves the row pending, and that an approval is settled once.
\<close>

subsection \<open>Tables\<close>

record approval_row =
  ar_id :: uuid
  ar_org_id :: uuid
  ar_run_id :: "uuid option"
  ar_requested_by :: "uuid option"
  ar_action_type :: string
  ar_tier :: int
  ar_payload :: json
  ar_matched_rules :: "string list"
  ar_audit_id :: "uuid option"
  ar_status :: string
  ar_edited_payload :: "json option"
  ar_decision_note :: "string option"
  ar_reason_code :: "string option"
  ar_approver_user_id :: "uuid option"
  ar_decided_at :: "time option"
  ar_expires_at :: time
  ar_created_at :: time
  ar_notified_at :: "time option"
  ar_reminded_at :: "time option"
  ar_escalated_at :: "time option"
  ar_notify_ref :: "string option"
  ar_trust_settled :: bool

record trust_row =
  tl_org_id :: uuid
  tl_action_type :: string
  tl_clean_approvals :: int
  tl_last_incident_at :: "time option"
  tl_updated_at :: time

record approval_db = policy_db +
  approvals :: "approval_row list"
  trust_ledger :: "trust_row list"

datatype approval_error = ApprovalNotFound uuid | ApprovalExpired uuid | EmitRefused emit_error | BadPayload

definition DEFAULT_EXPIRES_S :: int where "DEFAULT_EXPIRES_S = 3600"

record ResolveResult =
  rr_approval_id :: uuid
  rr_status :: string
  rr_tier :: int
  rr_edited :: bool
  rr_idempotent_replay :: bool
  rr_note :: "string option"

subsection \<open>Create\<close>

text \<open>\<open>int(amount or 0)\<close> of the activation raises for a truthy value that is no number.\<close>

definition approval_context :: "uuid \<Rightarrow> string \<Rightarrow> (string \<times> json) list \<Rightarrow> ActionContext option" where
  "approval_context org action_type payload =
     (let p = JObj payload; amount = jget_null p ''amount_minor'' in
      case (if truthy amount then py_int amount else Some 0) of None \<Rightarrow> None
      | Some a \<Rightarrow> Some \<lparr>ac_org_id = org, ac_action_type = action_type, ac_actor_instance_id = None,
          ac_amount_minor = Some a,
          ac_currency = (case jget_null p ''currency'' of JStr c \<Rightarrow> Some c | _ \<Rightarrow> None),
          ac_recipients = (case jget_null p ''recipients'' of JArr xs \<Rightarrow> xs | _ \<Rightarrow> []),
          ac_attributes = p, ac_untrusted_content = False\<rparr>)"

definition create_approval ::
  "uuid \<Rightarrow> string \<Rightarrow> int \<Rightarrow> (string \<times> json) list \<Rightarrow> uuid option \<Rightarrow> uuid option \<Rightarrow> string list \<Rightarrow> uuid option \<Rightarrow> int
   \<Rightarrow> (approval_error, uuid, 'a approval_db_scheme) op" where
  "create_approval org action_type tier payload run_id requested_by matched_rules audit_id expires_in_s s0 =
     (let s = set_org_context org s0;
          expires_at = now s + seconds expires_in_s;
          i = fresh s;
          s1 = s\<lparr>approvals := approvals s @
                 [\<lparr>ar_id = i, ar_org_id = org, ar_run_id = run_id, ar_requested_by = requested_by,
                   ar_action_type = action_type, ar_tier = tier, ar_payload = JObj payload,
                   ar_matched_rules = matched_rules, ar_audit_id = audit_id, ar_status = ''pending'',
                   ar_edited_payload = None, ar_decision_note = None, ar_reason_code = None,
                   ar_approver_user_id = None, ar_decided_at = None, ar_expires_at = expires_at,
                   ar_created_at = now s, ar_notified_at = None, ar_reminded_at = None,
                   ar_escalated_at = None, ar_notify_ref = None, ar_trust_settled = False\<rparr>],
                 fresh := fresh s + 1\<rparr>
      in case emit org ''approval.requested.v1''
                [(''approval_id'', JId i), (''action_type'', JStr action_type), (''tier'', JInt tier),
                 (''preview'', JObj payload), (''timeout_at'', JStr (isoformat expires_at))] ''api'' s1 of
           (Inl e, s2) \<Rightarrow> (Inl (EmitRefused e), s2)
         | (Inr _, s2) \<Rightarrow> (Inr i, s2))"

definition list_approvals :: "uuid \<Rightarrow> string option \<Rightarrow> 'a approval_db_scheme \<Rightarrow> approval_row list" where
  "list_approvals org status s0 =
     (let s = set_org_context org s0 in
      rev (sort_key ar_created_at (filter (\<lambda>r. rls_visible s (ar_org_id r) \<and> ar_org_id r = org \<and>
         (case status of None \<Rightarrow> True | Some st \<Rightarrow> ar_status r = st)) (approvals s))))"

subsection \<open>Resolve\<close>

definition own_approval :: "uuid \<Rightarrow> 'a approval_db_scheme \<Rightarrow> approval_row \<Rightarrow> bool" where
  "own_approval i s r \<longleftrightarrow> rls_visible s (ar_org_id r) \<and> ar_id r = i"

definition set_approval ::
  "uuid \<Rightarrow> (approval_row \<Rightarrow> approval_row) \<Rightarrow> 'a approval_db_scheme \<Rightarrow> 'a approval_db_scheme" where
  "set_approval i f s = s\<lparr>approvals := update_where (own_approval i s) f (approvals s)\<rparr>"

definition ARROW :: string where "ARROW = [CHR 0xE2, CHR 0x86, CHR 0x92]"

definition resolve_approval ::
  "cel \<Rightarrow> uuid \<Rightarrow> uuid \<Rightarrow> uuid \<Rightarrow> string \<Rightarrow> (string \<times> json) list option \<Rightarrow> string option \<Rightarrow> string option
   \<Rightarrow> (approval_error, ResolveResult, 'a approval_db_scheme) op" where
  "resolve_approval cel org i user decision edited reason note s0 =
     (let s = set_org_context org s0 in
      case find (own_approval i s) (approvals s) of
        None \<Rightarrow> (Inl (ApprovalNotFound i), s)
      | Some row \<Rightarrow>
          if ar_status row \<noteq> ''pending'' then
            (Inr \<lparr>rr_approval_id = i, rr_status = ar_status row, rr_tier = ar_tier row,
                  rr_edited = (ar_edited_payload row \<noteq> None), rr_idempotent_replay = True,
                  rr_note = ar_decision_note row\<rparr>, s)
          else if ar_expires_at row \<le> now s then
            (Inl (ApprovalExpired i), set_approval i (\<lambda>r. r\<lparr>ar_status := ''expired''\<rparr>) s)
          else
            (case (if decision = ''approve'' then
                     (case edited of None \<Rightarrow> Some (ar_tier row)
                      | Some p \<Rightarrow> map_option (\<lambda>ctx. dc_tier (fst (evaluate cel ctx s)))
                                   (approval_context org (ar_action_type row) p))
                   else Some (ar_tier row)) of
               None \<Rightarrow> (Inl BadPayload, s)
             | Some new_tier \<Rightarrow>
                 (let escalates = decision = ''approve'' \<and> edited \<noteq> None \<and> ar_tier row < new_tier;
                      final_status = (if escalates then ''rejected''
                                      else if decision = ''approve'' then ''approved'' else ''rejected'');
                      final_tier = (if escalates then new_tier else ar_tier row);
                      reason' = (if escalates \<and> (reason = None \<or> reason = Some []) then Some ''edit_escalates_tier''
                                 else reason);
                      note' = (if escalates then Some (''edit raises tier '' @ int_str (ar_tier row) @ ARROW @
                                  int_str new_tier @ ''; needs re-approval at the higher tier'') else note);
                      s1 = set_approval i (\<lambda>r. r\<lparr>ar_status := final_status, ar_approver_user_id := Some user,
                             ar_decided_at := Some (now s), ar_edited_payload := map_option JObj edited,
                             ar_decision_note := note', ar_reason_code := reason'\<rparr>) s
                  in case emit org ''approval.resolved.v1''
                            [(''approval_id'', JId i), (''decision'', JStr final_status),
                             (''edited'', JBool (edited \<noteq> None))] ''api'' s1 of
                       (Inl e, s2) \<Rightarrow> (Inl (EmitRefused e), s2)
                     | (Inr _, s2) \<Rightarrow>
                         (Inr \<lparr>rr_approval_id = i, rr_status = final_status, rr_tier = final_tier,
                               rr_edited = (edited \<noteq> None), rr_idempotent_replay = False, rr_note = note'\<rparr>, s2))))"

text \<open>
  The route runs in the request's transaction: \<open>get_db\<close> commits when it returns and rolls back
  when it raises (the route turns both approval errors into HTTP exceptions).
\<close>

definition resolve_endpoint ::
  "cel \<Rightarrow> uuid \<Rightarrow> uuid \<Rightarrow> uuid \<Rightarrow> string \<Rightarrow> (string \<times> json) list option \<Rightarrow> string option \<Rightarrow> string option
   \<Rightarrow> (approval_error, ResolveResult, 'a approval_db_scheme) op" where
  "resolve_endpoint cel org i user decision edited reason note =
     commit_or_rollback (\<lambda>s. resolve_approval cel org i user decision edited reason note (set_org_context org s))"

subsection \<open>Notification ladder and replies\<close>

definition notify_approval :: "uuid \<Rightarrow> uuid \<Rightarrow> string \<Rightarrow> 'a approval_db_scheme \<Rightarrow> 'a approval_db_scheme" where
  "notify_approval org i kind s0 =
     (let s = set_org_context org s0; ref = ''sim-'' @ kind @ ''-'' @ nat_str i in
      case find (own_approval i s) (approvals s) of None \<Rightarrow> s
      | Some _ \<Rightarrow>
          set_approval i (\<lambda>r.
            (if kind = ''remind'' then r\<lparr>ar_reminded_at := Some (now s)\<rparr>
             else if kind = ''escalate'' then r\<lparr>ar_escalated_at := Some (now s)\<rparr>
             else r\<lparr>ar_notified_at := Some (now s)\<rparr>)\<lparr>ar_notify_ref := Some ref\<rparr>) s)"

datatype ladder_step = Expire uuid | Notify uuid string

definition ladder_decision :: "time \<Rightarrow> approval_row \<Rightarrow> ladder_step option" where
  "ladder_decision t r =
     (let window = ar_expires_at r - ar_created_at r; elapsed = t - ar_created_at r in
      if ar_expires_at r \<le> t then Some (Expire (ar_id r))
      else if ar_escalated_at r = None \<and> 3 * window \<le> 4 * elapsed then Some (Notify (ar_id r) ''escalate'')
      else if ar_reminded_at r = None \<and> window \<le> 2 * elapsed then Some (Notify (ar_id r) ''remind'')
      else None)"

definition ladder_plan :: "uuid \<Rightarrow> time \<Rightarrow> 'a approval_db_scheme \<Rightarrow> ladder_step list" where
  "ladder_plan org t s0 =
     (let s = set_org_context org s0 in
      List.map_filter (ladder_decision t) (filter (\<lambda>r. rls_visible s (ar_org_id r) \<and> ar_org_id r = org \<and>
         ar_status r = ''pending'') (approvals s)))"

fun ladder_apply :: "uuid \<Rightarrow> ladder_step \<Rightarrow> 'a approval_db_scheme \<Rightarrow> 'a approval_db_scheme" where
  "ladder_apply org (Expire i) s = set_approval i (\<lambda>r. r\<lparr>ar_status := ''expired''\<rparr>) (set_org_context org s)"
| "ladder_apply org (Notify i kind) s = notify_approval org i kind s"

definition ladder_for_org :: "uuid \<Rightarrow> time \<Rightarrow> 'a approval_db_scheme \<Rightarrow> 'a approval_db_scheme" where
  "ladder_for_org org t s = fold (ladder_apply org) (ladder_plan org t s) (set_org_context org s)"

fun tokens :: "string \<Rightarrow> string list" where
  "tokens [] = [[]]"
| "tokens (c # cs) = (if is_space c then [] # tokens cs
     else case tokens cs of [] \<Rightarrow> [[c]] | w # ws \<Rightarrow> (c # w) # ws)"

definition APPROVE_WORDS :: "string list" where
  "APPROVE_WORDS = [''approve'', ''yes'', ''ok'', ''okay'', ''haan'', ''confirm'',
     [CHR 0xE2, CHR 0x9C, CHR 0x85], [CHR 0xF0, CHR 0x9F, CHR 0x91, CHR 0x8D]]"

definition REJECT_WORDS :: "string list" where
  "REJECT_WORDS = [''reject'', ''no'', ''nahi'', ''cancel'', ''stop'', ''decline'',
     [CHR 0xE2, CHR 0x9D, CHR 0x8C], [CHR 0xF0, CHR 0x9F, CHR 0x91, CHR 0x8E]]"

definition parse_text_decision :: "string \<Rightarrow> string option" where
  "parse_text_decision reply =
     (let ws = tokens (py_lower reply);
          approve = list_ex (\<lambda>w. w \<in> set APPROVE_WORDS) ws;
          reject = list_ex (\<lambda>w. w \<in> set REJECT_WORDS) ws
      in if approve = reject then None else if approve then Some ''approve'' else Some ''reject'')"

definition parse_button :: "string \<Rightarrow> (uuid \<times> string) option" where
  "parse_button button =
     (let b = py_strip button; d = py_before CHR '':'' b in
      if CHR '':'' \<in> set b \<and> d \<in> {''approve'', ''reject''}
      then map_option (\<lambda>i. (i, d)) (parse_nat (py_after CHR '':'' b)) else None)"

definition handle_text_reply ::
  "cel \<Rightarrow> uuid \<Rightarrow> uuid \<Rightarrow> string \<Rightarrow> (approval_error, ResolveResult option, 'a approval_db_scheme) op" where
  "handle_text_reply cel org user reply s0 =
     (case parse_text_decision reply of None \<Rightarrow> (Inr None, s0)
      | Some decision \<Rightarrow>
         (let s = set_org_context org s0 in
          case order_first (\<lambda>r. - ar_created_at r) (filter (\<lambda>r. rls_visible s (ar_org_id r) \<and>
                  ar_org_id r = org \<and> ar_status r = ''pending'') (approvals s)) of
            None \<Rightarrow> (Inr None, s)
          | Some r \<Rightarrow> (case resolve_approval cel org (ar_id r) user decision None None None s of
               (Inl e, s1) \<Rightarrow> (Inl e, s1) | (Inr x, s1) \<Rightarrow> (Inr (Some x), s1))))"

definition handle_button_reply ::
  "cel \<Rightarrow> uuid \<Rightarrow> uuid \<Rightarrow> string \<Rightarrow> (approval_error, ResolveResult option, 'a approval_db_scheme) op" where
  "handle_button_reply cel org user button s =
     (case parse_button button of None \<Rightarrow> (Inr None, s)
      | Some (i, decision) \<Rightarrow> (case resolve_approval cel org i user decision None None None s of
           (Inl e, s1) \<Rightarrow> (Inl e, s1) | (Inr x, s1) \<Rightarrow> (Inr (Some x), s1)))"

subsection \<open>Trust ledger\<close>

definition CLEAN_WINDOW_H :: int where "CLEAN_WINDOW_H = 72"
definition TIGHTEN_TIER :: int where "TIGHTEN_TIER = 2"
definition TIGHTEN_DAYS :: int where "TIGHTEN_DAYS = 14"
definition DEMOTION_THRESHOLD :: int where "DEMOTION_THRESHOLD = 20"

text \<open>\<open>INSERT ... ON CONFLICT (org_id, action_type) DO UPDATE\<close>.\<close>

definition upsert_trust :: "uuid \<Rightarrow> string \<Rightarrow> trust_row \<Rightarrow> (trust_row \<Rightarrow> trust_row) \<Rightarrow> trust_row list \<Rightarrow> trust_row list" where
  "upsert_trust org a new upd rows =
     (if list_ex (\<lambda>r. tl_org_id r = org \<and> tl_action_type r = a) rows
      then update_where (\<lambda>r. tl_org_id r = org \<and> tl_action_type r = a) upd rows
      else rows @ [new])"

definition record_incident ::
  "uuid \<Rightarrow> string \<Rightarrow> string option \<Rightarrow> time \<Rightarrow> 'a approval_db_scheme \<Rightarrow> 'a approval_db_scheme" where
  "record_incident org a reason t s0 =
     (let s = set_org_context org s0 in
      s\<lparr>trust_ledger := upsert_trust org a
           \<lparr>tl_org_id = org, tl_action_type = a, tl_clean_approvals = 0, tl_last_incident_at = Some t, tl_updated_at = t\<rparr>
           (\<lambda>r. r\<lparr>tl_clean_approvals := 0, tl_last_incident_at := Some t, tl_updated_at := t\<rparr>) (trust_ledger s),
        incident_tightening := incident_tightening s @
           [\<lparr>it_org_id = org, it_action_type = a, it_tightened_to_tier = TIGHTEN_TIER, it_reason = reason,
             it_expires_at = t + days TIGHTEN_DAYS\<rparr>]\<rparr>)"

definition settle_due :: "uuid \<Rightarrow> time \<Rightarrow> 'a approval_db_scheme \<Rightarrow> approval_row \<Rightarrow> bool" where
  "settle_due org t s r \<longleftrightarrow> rls_visible s (ar_org_id r) \<and> ar_org_id r = org \<and> ar_status r = ''approved'' \<and>
     2 \<le> ar_tier r \<and> \<not> ar_trust_settled r \<and>
     (case ar_decided_at r of None \<Rightarrow> False | Some d \<Rightarrow> d + hours CLEAN_WINDOW_H \<le> t)"

definition last_incident :: "uuid \<Rightarrow> string \<Rightarrow> 'a approval_db_scheme \<Rightarrow> time option" where
  "last_incident org a s =
     Option.bind (find (\<lambda>r. rls_visible s (tl_org_id r) \<and> tl_org_id r = org \<and> tl_action_type r = a) (trust_ledger s))
       tl_last_incident_at"

definition is_clean :: "time option \<Rightarrow> time \<Rightarrow> bool" where
  "is_clean li d = (case li of None \<Rightarrow> True | Some i \<Rightarrow> \<not> (d \<le> i \<and> i \<le> d + hours CLEAN_WINDOW_H))"

definition settle_row ::
  "uuid \<Rightarrow> time \<Rightarrow> approval_row \<times> time option \<Rightarrow> nat \<times> 'a approval_db_scheme \<Rightarrow> nat \<times> 'a approval_db_scheme" where
  "settle_row org t rl ns =
     (let (r, li) = rl; (n, s) = ns;
          clean = (case ar_decided_at r of None \<Rightarrow> False | Some d \<Rightarrow> is_clean li d);
          s1 = (if clean then s\<lparr>trust_ledger := upsert_trust org (ar_action_type r)
                   \<lparr>tl_org_id = org, tl_action_type = ar_action_type r, tl_clean_approvals = 1,
                     tl_last_incident_at = None, tl_updated_at = t\<rparr>
                   (\<lambda>q. q\<lparr>tl_clean_approvals := tl_clean_approvals q + 1, tl_updated_at := t\<rparr>) (trust_ledger s)\<rparr>
                else s)
      in (if clean then n + 1 else n,
          set_approval (ar_id r) (\<lambda>q. q\<lparr>ar_trust_settled := True\<rparr>) s1))"

definition settle :: "uuid \<Rightarrow> time \<Rightarrow> 'a approval_db_scheme \<Rightarrow> nat \<times> 'a approval_db_scheme" where
  "settle org t s0 =
     (let s = set_org_context org s0;
          rows = map (\<lambda>r. (r, last_incident org (ar_action_type r) s)) (filter (settle_due org t s) (approvals s))
      in fold (settle_row org t) rows (0, s))"

definition demotion_offers :: "uuid \<Rightarrow> 'a approval_db_scheme \<Rightarrow> (string \<times> int) list" where
  "demotion_offers org s0 =
     (let s = set_org_context org s0 in
      map (\<lambda>r. (tl_action_type r, tl_clean_approvals r)) (sort_key (\<lambda>r. - tl_clean_approvals r)
        (filter (\<lambda>r. rls_visible s (tl_org_id r) \<and> tl_org_id r = org \<and> DEMOTION_THRESHOLD \<le> tl_clean_approvals r)
           (trust_ledger s))))"

subsection \<open>Statuses\<close>

definition wf_approvals :: "'a approval_db_scheme \<Rightarrow> bool" where
  "wf_approvals s \<longleftrightarrow> distinct (map ar_id (approvals s)) \<and> (\<forall>r \<in> set (approvals s). ar_id r < fresh s)"

definition approval_status :: "'a approval_db_scheme \<Rightarrow> uuid \<Rightarrow> string option" where
  "approval_status s k = map_option ar_status (find (\<lambda>r. ar_id r = k) (approvals s))"

definition approval_moves :: "string \<Rightarrow> string \<Rightarrow> bool" where
  "approval_moves p q \<longleftrightarrow> p = ''pending'' \<and> q \<in> {''approved'', ''rejected'', ''expired''}"

lemma emit_approvals [simp]:
  "approvals (snd (emit org ty payload src s)) = approvals s"
  "trust_ledger (snd (emit org ty payload src s)) = trust_ledger s"
  "fresh s \<le> fresh (snd (emit org ty payload src s))"
  by (auto simp: emit_def split: option.splits)

lemma set_org_context_approvals [simp]:
  "approvals (set_org_context org s) = approvals s" "trust_ledger (set_org_context org s) = trust_ledger s"
  "event_outbox (set_org_context org s) = event_outbox s"
  by (simp_all add: set_org_context_def)

lemma set_approval_sel [simp]:
  "approvals (set_approval i f s) = update_where (own_approval i s) f (approvals s)"
  "fresh (set_approval i f s) = fresh s" "now (set_approval i f s) = now s" "org_ctx (set_approval i f s) = org_ctx s"
  "trust_ledger (set_approval i f s) = trust_ledger s" "event_outbox (set_approval i f s) = event_outbox s"
  by (simp_all add: set_approval_def)

lemma wf_set_approval:
  "wf_approvals s \<Longrightarrow> (\<And>r. ar_id (f r) = ar_id r) \<Longrightarrow> wf_approvals (set_approval i f s)"
  by (auto simp: wf_approvals_def map_update_where set_update_where)

lemma wf_approvals_cong:
  "wf_approvals s \<Longrightarrow> approvals s' = approvals s \<Longrightarrow> fresh s \<le> fresh s' \<Longrightarrow> wf_approvals s'"
  by (force simp: wf_approvals_def)

lemma wf_set_org_context: "wf_approvals s \<Longrightarrow> wf_approvals (set_org_context org s)"
  by (simp add: wf_approvals_def)

lemma own_approval_id: "own_approval i s r \<Longrightarrow> ar_id r = i"
  by (simp add: own_approval_def)

lemma approval_status_cong: "approvals s' = approvals s \<Longrightarrow> approval_status s' = approval_status s"
  by (rule ext) (simp add: approval_status_def)

lemma approval_status_set:
  assumes "\<And>r. ar_id (f r) = ar_id r" and "\<And>r. ar_status (f r) = st r"
  shows "approval_status (set_approval i f s) k = (case find (\<lambda>r. ar_id r = k) (approvals s) of None \<Rightarrow> None
     | Some r \<Rightarrow> Some (if own_approval i s r then st r else ar_status r))"
  using assms by (simp add: approval_status_def find_update_where split: option.split)

lemma own_approval_found:
  assumes "wf_approvals s" and "find (own_approval i s) (approvals s) = Some row"
  shows "approval_status s i = Some (ar_status row)" "own_approval i s r \<Longrightarrow> r \<in> set (approvals s) \<Longrightarrow> r = row"
    "row \<in> set (approvals s)" "ar_id row = i"
proof -
  have r: "row \<in> set (approvals s)" "ar_id row = i"
    using find_Some_set [OF assms(2)] by (auto simp: own_approval_def)
  then have f: "find (\<lambda>x. ar_id x = i) (approvals s) = Some row"
    using find_unique [of ar_id "approvals s" row] assms(1) by (simp add: wf_approvals_def)
  then show "approval_status s i = Some (ar_status row)" by (simp add: approval_status_def)
  show "row \<in> set (approvals s)" "ar_id row = i" by (fact r)+
  show "r = row" if "own_approval i s r" "r \<in> set (approvals s)"
  proof -
    have "ar_id r = i" using that(1) by (simp add: own_approval_def)
    with find_unique [of ar_id "approvals s" r] assms(1) that(2) f show ?thesis by (simp add: wf_approvals_def)
  qed
qed

text \<open>What \<open>resolve\<close> does to the rows, and the single event a decision emits.\<close>

lemma resolve_cases:
  assumes "resolve_approval cel org i user decision edited reason note s = (res, s')"
  obtains (same) "approvals s' = approvals s" "event_outbox s' = event_outbox s" "fresh s' = fresh s"
      "\<And>x. res = Inr x \<Longrightarrow> rr_idempotent_replay x \<and> (\<exists>row. find (own_approval i (set_org_context org s)) (approvals s) = Some row \<and>
          ar_status row \<noteq> ''pending'' \<and> rr_status x = ar_status row)"
      "res \<noteq> Inl (ApprovalExpired i)"
  | (expired) row where "find (own_approval i (set_org_context org s)) (approvals s) = Some row"
      "ar_status row = ''pending''" "ar_expires_at row \<le> now s" "res = Inl (ApprovalExpired i)"
      "s' = set_approval i (\<lambda>r. r\<lparr>ar_status := ''expired''\<rparr>) (set_org_context org s)"
  | (decided) row new_tier f st s1 out where "find (own_approval i (set_org_context org s)) (approvals s) = Some row"
      "ar_status row = ''pending''" "now s < ar_expires_at row"
      "st = (if decision = ''approve'' \<and> (edited = None \<or> new_tier \<le> ar_tier row) then ''approved'' else ''rejected'')"
      "s1 = set_approval i f (set_org_context org s)" "\<And>r. ar_id (f r) = ar_id r" "\<And>r. ar_status (f r) = st"
      "(out, s') = emit org ''approval.resolved.v1'' [(''approval_id'', JId i), (''decision'', JStr st),
          (''edited'', JBool (edited \<noteq> None))] ''api'' s1"
      "\<And>e. out = Inl e \<Longrightarrow> res = Inl (EmitRefused e)"
      "\<And>j. out = Inr j \<Longrightarrow> \<exists>x. res = Inr x \<and> rr_status x = st \<and> \<not> rr_idempotent_replay x"
      "\<And>p ctx. edited = Some p \<Longrightarrow> decision = ''approve'' \<Longrightarrow> approval_context org (ar_action_type row) p = Some ctx \<Longrightarrow>
          new_tier = dc_tier (fst (evaluate cel ctx (set_org_context org s)))"
proof -
  let ?s = "set_org_context org s"
  consider (none) "find (own_approval i ?s) (approvals s) = None"
    | (some) row where "find (own_approval i ?s) (approvals s) = Some row" by (cases "find (own_approval i ?s) (approvals s)") auto
  then show thesis
  proof cases
    case none
    with assms show ?thesis by (intro same) (auto simp: resolve_approval_def Let_def)
  next
    case (some row)
    show ?thesis
    proof (cases "ar_status row = ''pending''")
      case False
      with some assms show ?thesis by (intro same) (auto simp: resolve_approval_def Let_def)
    next
      case pending: True
      show ?thesis
      proof (cases "ar_expires_at row \<le> now s")
        case True
        with some pending assms show ?thesis by (intro expired [of row]) (auto simp: resolve_approval_def Let_def)
      next
        case False
        let ?t = "if decision = ''approve'' then
                     (case edited of None \<Rightarrow> Some (ar_tier row)
                      | Some p \<Rightarrow> map_option (\<lambda>ctx. dc_tier (fst (evaluate cel ctx ?s)))
                                   (approval_context org (ar_action_type row) p))
                   else Some (ar_tier row)"
        show ?thesis
        proof (cases ?t)
          case None
          with some pending False assms show ?thesis
            by (intro same) (auto simp: resolve_approval_def Let_def split: if_splits option.splits)
        next
          case (Some new_tier)
          let ?esc = "decision = ''approve'' \<and> edited \<noteq> None \<and> ar_tier row < new_tier"
          let ?st = "if ?esc then ''rejected'' else if decision = ''approve'' then ''approved'' else ''rejected''"
          define note' where "note' = (if ?esc then Some (''edit raises tier '' @ int_str (ar_tier row) @ ARROW @
                  int_str new_tier @ ''; needs re-approval at the higher tier'') else note)"
          define reason' where "reason' = (if ?esc \<and> (reason = None \<or> reason = Some []) then Some ''edit_escalates_tier''
                                 else reason)"
          define f where "f = (\<lambda>r :: approval_row. r\<lparr>ar_status := ?st, ar_approver_user_id := Some user,
                             ar_decided_at := Some (now s), ar_edited_payload := map_option JObj edited,
                             ar_decision_note := note', ar_reason_code := reason'\<rparr>)"
          obtain out s2 where em: "emit org ''approval.resolved.v1'' [(''approval_id'', JId i), (''decision'', JStr ?st),
              (''edited'', JBool (edited \<noteq> None))] ''api'' (set_approval i f ?s) = (out, s2)" by fastforce
          have r: "(res, s') = (case out of Inl e \<Rightarrow> (Inl (EmitRefused e), s2)
              | Inr _ \<Rightarrow> (Inr \<lparr>rr_approval_id = i, rr_status = ?st, rr_tier = (if ?esc then new_tier else ar_tier row),
                   rr_edited = (edited \<noteq> None), rr_idempotent_replay = False, rr_note = note'\<rparr>, s2))"
            using assms some pending False Some em
            unfolding resolve_approval_def Let_def f_def note'_def reason'_def by (simp del: not_None_eq)
          show ?thesis
          proof (rule decided [of row ?st new_tier "set_approval i f ?s" f out])
            show "ar_id (f r) = ar_id r" "ar_status (f r) = ?st" for r by (simp_all add: f_def)
            show "?st = (if decision = ''approve'' \<and> (edited = None \<or> new_tier \<le> ar_tier row) then ''approved'' else ''rejected'')"
              by auto
            show "(out, s') = emit org ''approval.resolved.v1'' [(''approval_id'', JId i), (''decision'', JStr ?st),
              (''edited'', JBool (edited \<noteq> None))] ''api'' (set_approval i f ?s)"
              using r em by (cases out) auto
            show "res = Inl (EmitRefused e)" if "out = Inl e" for e using r that by simp
            show "\<exists>x. res = Inr x \<and> rr_status x = ?st \<and> \<not> rr_idempotent_replay x" if "out = Inr j" for j
              using r that by simp
            show "new_tier = dc_tier (fst (evaluate cel ctx ?s))"
              if "edited = Some p" "decision = ''approve''" "approval_context org (ar_action_type row) p = Some ctx" for p ctx
              using Some that by simp
          qed (use some pending False in auto)
        qed
      qed
    qed
  qed
qed

lemma create_rows:
  assumes "create_approval org at tier payload run by rules aid ttl s = (res, s')"
  obtains row where "approvals s' = approvals s @ [row]" "ar_id row = fresh s" "ar_status row = ''pending''"
    "fresh s < fresh s'" "ar_org_id row = org" "ar_expires_at row = now s + seconds ttl"
proof -
  let ?em = "\<lambda>s1. emit org ''approval.requested.v1''
                [(''approval_id'', JId (fresh s)), (''action_type'', JStr at), (''tier'', JInt tier),
                 (''preview'', JObj payload), (''timeout_at'', JStr (isoformat (now s + seconds ttl)))] ''api'' s1"
  define row where "row = \<lparr>ar_id = fresh s, ar_org_id = org, ar_run_id = run, ar_requested_by = by,
                   ar_action_type = at, ar_tier = tier, ar_payload = JObj payload,
                   ar_matched_rules = rules, ar_audit_id = aid, ar_status = ''pending'',
                   ar_edited_payload = None, ar_decision_note = None, ar_reason_code = None,
                   ar_approver_user_id = None, ar_decided_at = None, ar_expires_at = now s + seconds ttl,
                   ar_created_at = now s, ar_notified_at = None, ar_reminded_at = None,
                   ar_escalated_at = None, ar_notify_ref = None, ar_trust_settled = False\<rparr>"
  define s1 where "s1 = (set_org_context org s)\<lparr>approvals := approvals s @ [row], fresh := fresh s + 1\<rparr>"
  have "s' = snd (?em s1)"
    using assms unfolding create_approval_def Let_def s1_def row_def
    by (auto split: prod.splits sum.splits)
  moreover have "approvals s1 = approvals s @ [row]" "fresh s1 = fresh s + 1" by (simp_all add: s1_def)
  ultimately have "approvals s' = approvals s @ [row]" "fresh s < fresh s'"
    using emit_approvals(1) emit_approvals(3) [of s1] by (auto intro: less_le_trans [of _ "fresh s1"])
  then show ?thesis by (intro that [of row]) (simp_all add: row_def)
qed

lemma notify_status [simp]:
  "approval_status (notify_approval org i kind s) k = approval_status s k"
  "wf_approvals s \<Longrightarrow> wf_approvals (notify_approval org i kind s)"
proof -
  let ?f = "\<lambda>r. (if kind = ''remind'' then r\<lparr>ar_reminded_at := Some (now s)\<rparr>
             else if kind = ''escalate'' then r\<lparr>ar_escalated_at := Some (now s)\<rparr>
             else r\<lparr>ar_notified_at := Some (now s)\<rparr>)\<lparr>ar_notify_ref := Some (''sim-'' @ kind @ ''-'' @ nat_str i)\<rparr>"
  have n: "notify_approval org i kind s = (case find (own_approval i (set_org_context org s)) (approvals s) of
      None \<Rightarrow> set_org_context org s | Some _ \<Rightarrow> set_approval i ?f (set_org_context org s))"
    by (simp add: notify_approval_def Let_def split: option.split cong: if_cong)
  have "approval_status (set_approval i ?f (set_org_context org s)) k = approval_status s k"
    by (subst approval_status_set [where st = ar_status]) (auto simp: approval_status_def split: option.split)
  moreover have "approval_status (set_org_context org s) k = approval_status s k"
    by (simp add: approval_status_def)
  ultimately show "approval_status (notify_approval org i kind s) k = approval_status s k"
    unfolding n by (simp split: option.split)
  show "wf_approvals (notify_approval org i kind s)" if "wf_approvals s"
  proof -
    have "wf_approvals (set_org_context org s)" using wf_set_org_context [OF that] .
    then show ?thesis unfolding n by (simp split: option.split) (auto intro: wf_set_approval)
  qed
qed

lemma expire_status:
  "approval_status (set_approval i (\<lambda>r. r\<lparr>ar_status := ''expired''\<rparr>) s) k =
     (case find (\<lambda>r. ar_id r = k) (approvals s) of None \<Rightarrow> None
      | Some r \<Rightarrow> Some (if own_approval i s r then ''expired'' else ar_status r))"
  by (rule approval_status_set) simp_all

lemma ladder_apply_wf: "wf_approvals s \<Longrightarrow> wf_approvals (ladder_apply org x s)"
  by (cases x) (auto intro!: wf_set_approval intro: wf_approvals_cong)

lemma ladder_apply_status:
  "approval_status s k = Some q \<Longrightarrow> approval_status (ladder_apply org x s) k = Some q \<or>
     x = Expire k \<and> approval_status (ladder_apply org x s) k = Some ''expired''"
proof (cases x)
  case (Expire i)
  have e: "approval_status (ladder_apply org x s) k = (case find (\<lambda>r. ar_id r = k) (approvals s) of None \<Rightarrow> None
      | Some r \<Rightarrow> Some (if own_approval i (set_org_context org s) r then ''expired'' else ar_status r))"
    unfolding Expire ladder_apply.simps by (subst expire_status) simp
  assume "approval_status s k = Some q"
  then obtain r where r: "find (\<lambda>r. ar_id r = k) (approvals s) = Some r" "ar_status r = q"
    by (auto simp: approval_status_def)
  from find_Some_set [OF r(1)] have "ar_id r = k" by simp
  show ?thesis
  proof (cases "own_approval i (set_org_context org s) r")
    case True
    with \<open>ar_id r = k\<close> own_approval_id [OF True] have "x = Expire k" using Expire by metis
    with True r(1) show ?thesis unfolding e by (simp only: option.case if_True) blast
  next
    case False
    with r show ?thesis unfolding e by (simp only: option.case if_False) blast
  qed
qed simp

lemma ladder_fold_status:
  "approval_status s k = Some q \<Longrightarrow> approval_status (fold (ladder_apply org) xs s) k = Some q \<or>
     Expire k \<in> set xs \<and> approval_status (fold (ladder_apply org) xs s) k = Some ''expired''"
proof (induction xs arbitrary: s q)
  case (Cons x xs)
  from ladder_apply_status [OF Cons.prems, of org x] show ?case
  proof
    assume "approval_status (ladder_apply org x s) k = Some q"
    from Cons.IH [OF this] show ?thesis by auto
  next
    assume x: "x = Expire k \<and> approval_status (ladder_apply org x s) k = Some ''expired''"
    then have "approval_status (ladder_apply org x s) k = Some ''expired''" by blast
    from Cons.IH [OF this] x show ?thesis by auto
  qed
qed simp

lemma ladder_plan_pending:
  assumes "wf_approvals s" and "Expire k \<in> set (ladder_plan org t s)"
  shows "approval_status s k = Some ''pending''"
proof -
  from assms(2) obtain r where r: "r \<in> set (approvals s)" "ar_status r = ''pending''" "ar_id r = k"
    by (auto simp: ladder_plan_def Let_def List.map_filter_def ladder_decision_def split: if_splits)
  with find_unique [of ar_id "approvals s" r] assms(1) show ?thesis
    by (simp add: approval_status_def wf_approvals_def)
qed

lemma settle_row_status:
  "approval_status (snd (settle_row org t rl ns)) k = approval_status (snd ns) k"
  "wf_approvals (snd ns) \<Longrightarrow> wf_approvals (snd (settle_row org t rl ns))"
proof -
  obtain r li n s where p: "rl = (r, li)" "ns = (n, s)" by fastforce
  obtain s1 where s1: "snd (settle_row org t rl ns) = set_approval (ar_id r) (\<lambda>q. q\<lparr>ar_trust_settled := True\<rparr>) s1"
    "approvals s1 = approvals s" "fresh s1 = fresh s"
    by (auto simp: settle_row_def Let_def p)
  have "approval_status (set_approval (ar_id r) (\<lambda>q. q\<lparr>ar_trust_settled := True\<rparr>) s1) k = approval_status s1 k"
    by (subst approval_status_set [where st = ar_status]) (auto simp: approval_status_def split: option.split)
  then show "approval_status (snd (settle_row org t rl ns)) k = approval_status (snd ns) k"
    using s1 approval_status_cong [of s1 s] by (simp add: p)
  show "wf_approvals (snd (settle_row org t rl ns))" if "wf_approvals (snd ns)"
    unfolding s1(1) by (rule wf_set_approval) (use s1 that wf_approvals_cong [of s s1] in \<open>auto simp: p\<close>)
qed

lemma settle_fold_status:
  "approval_status (snd (fold (settle_row org t) rows ns)) k = approval_status (snd ns) k"
  "wf_approvals (snd ns) \<Longrightarrow> wf_approvals (snd (fold (settle_row org t) rows ns))"
  by (induction rows arbitrary: ns) (simp_all add: settle_row_status)

subsection \<open>Every operation moves along the table\<close>

datatype approval_op =
    OpCreate uuid string int "(string \<times> json) list"
  | OpResolve uuid uuid uuid string "(string \<times> json) list option"
  | OpNotify uuid uuid string
  | OpLadder uuid time
  | OpSettle uuid time
  | OpIncident uuid string time
  | OpTick time

fun approval_act :: "cel \<Rightarrow> approval_op \<Rightarrow> 'a approval_db_scheme \<Rightarrow> 'a approval_db_scheme" where
  "approval_act cel (OpCreate org a tier p) s = snd (create_approval org a tier p None None [] None DEFAULT_EXPIRES_S s)"
| "approval_act cel (OpResolve org i user d e) s = snd (resolve_approval cel org i user d e None None s)"
| "approval_act cel (OpNotify org i kind) s = notify_approval org i kind s"
| "approval_act cel (OpLadder org t) s = ladder_for_org org t s"
| "approval_act cel (OpSettle org t) s = snd (settle org t s)"
| "approval_act cel (OpIncident org a t) s = record_incident org a None t s"
| "approval_act cel (OpTick t) s = s\<lparr>now := t\<rparr>"

lemma set_status_moves:
  assumes "wf_approvals s" and "find (own_approval i s) (approvals s) = Some row" and "ar_status row = ''pending''"
    and "\<And>r. ar_id (f r) = ar_id r" and "\<And>r. ar_status (f r) = st"
    and "st \<in> {''approved'', ''rejected'', ''expired''}" and "approval_status s k = Some q"
  shows "\<exists>q'. approval_status (set_approval i f s) k = Some q' \<and> (q' = q \<or> approval_moves q q')"
proof -
  obtain r where r: "find (\<lambda>r. ar_id r = k) (approvals s) = Some r" "ar_status r = q"
    using assms(7) by (auto simp: approval_status_def)
  have st: "approval_status (set_approval i f s) k = Some (if own_approval i s r then st else ar_status r)"
    using approval_status_set [of f "\<lambda>_. st" i s k, OF assms(4,5)] r(1) by simp
  show ?thesis
  proof (cases "own_approval i s r")
    case True
    then have "r = row"
      using own_approval_found(2) [OF assms(1,2) True] find_Some_set [OF r(1)] by blast
    then have "approval_moves q st" using r(2) assms(3,6) by (simp add: approval_moves_def)
    with st True show ?thesis by auto
  next
    case False
    with st r(2) show ?thesis by auto
  qed
qed

lemma resolve_status:
  assumes "wf_approvals s" and "approval_status s k = Some q"
    and "resolve_approval cel org i user d e reason note s = (res, s')"
  shows "wf_approvals s' \<and> (\<exists>q'. approval_status s' k = Some q' \<and> (q' = q \<or> approval_moves q q'))"
  using assms(3)
proof (cases rule: resolve_cases)
  case same
  then show ?thesis using assms(1,2) wf_approvals_cong [of s s'] approval_status_cong [of s' s] by auto
next
  case (expired row)
  have "wf_approvals (set_org_context org s)" using wf_set_org_context [OF assms(1)] .
  from set_status_moves [OF this, of i row "\<lambda>r. r\<lparr>ar_status := ''expired''\<rparr>" "''expired''" k q] expired assms(2)
  have "\<exists>q'. approval_status s' k = Some q' \<and> (q' = q \<or> approval_moves q q')"
    using approval_status_cong [of "set_org_context org s" s] by simp
  moreover have "wf_approvals s'"
    unfolding expired(5) using wf_set_approval [OF \<open>wf_approvals (set_org_context org s)\<close>] by simp
  ultimately show ?thesis by blast
next
  case (decided row new_tier f st s1 out)
  have wf: "wf_approvals (set_org_context org s)" using wf_set_org_context [OF assms(1)] .
  have wf1: "wf_approvals s1" using decided(5,6) wf wf_set_approval by metis
  have s': "s' = snd (emit org ''approval.resolved.v1'' [(''approval_id'', JId i), (''decision'', JStr st),
          (''edited'', JBool (e \<noteq> None))] ''api'' s1)"
    using decided(8) by (metis snd_conv)
  then have rows: "approvals s' = approvals s1" "fresh s1 \<le> fresh s'" by simp_all
  have "st \<in> {''approved'', ''rejected'', ''expired''}" using decided(4) by auto
  then have "\<exists>q'. approval_status s1 k = Some q' \<and> (q' = q \<or> approval_moves q q')"
    unfolding decided(5)
    using set_status_moves [OF wf, of i row f st k q] decided(1,2,6,7) assms(2)
      approval_status_cong [of "set_org_context org s" s] by simp
  moreover have "approval_status s' = approval_status s1" using approval_status_cong [OF rows(1)] .
  ultimately have "\<exists>q'. approval_status s' k = Some q' \<and> (q' = q \<or> approval_moves q q')" by simp
  then show ?thesis using wf_approvals_cong [OF wf1 rows] by blast
qed

interpretation approvals_machine: guarded_machine approval_moves approval_status "approval_act cel" wf_approvals
  for cel
proof unfold_locales
  fix s :: "'a approval_db_scheme" and a k q
  assume wf: "wf_approvals s"
  have wfc: "wf_approvals (set_org_context o' s)" for o' using wf_set_org_context [OF wf] .
  have stc: "approval_status (set_org_context o' s) = approval_status s" for o'
    by (rule approval_status_cong) simp
  have both: "(approval_status s k = Some q \<longrightarrow> (\<exists>q'. approval_status (approval_act cel a s) k = Some q' \<and> (q' = q \<or> approval_moves q q'))) \<and>
      wf_approvals (approval_act cel a s)"
  proof (cases a)
    case (OpCreate org at tier p)
    obtain res s' where c: "create_approval org at tier p None None [] None DEFAULT_EXPIRES_S s = (res, s')" by fastforce
    then obtain row where "approvals s' = approvals s @ [row]" "ar_id row = fresh s" "fresh s < fresh s'"
      by (rule create_rows)
    with wf OpCreate c show ?thesis
      by (auto simp: wf_approvals_def approval_status_def find_append)
  next
    case (OpResolve org i user d e)
    obtain res s' where c: "resolve_approval cel org i user d e None None s = (res, s')" by fastforce
    show ?thesis
    proof (cases "approval_status s k")
      case None
      from c have "wf_approvals s'"
      proof (cases rule: resolve_cases)
        case (decided row new_tier f st s1 out)
        have "wf_approvals s1" using decided(5,6) wfc wf_set_approval by metis
        moreover have "s' = snd (emit org ''approval.resolved.v1'' [(''approval_id'', JId i), (''decision'', JStr st),
          (''edited'', JBool (e \<noteq> None))] ''api'' s1)" using decided(8) by (metis snd_conv)
        ultimately show ?thesis using wf_approvals_cong [of s1 s'] by simp
      qed (use wf wfc wf_approvals_cong [of s s'] in \<open>auto intro: wf_set_approval\<close>)
      with None OpResolve c show ?thesis by simp
    qed (use resolve_status [OF wf _ c] OpResolve c in auto)
  next
    case (OpLadder org t)
    have "wf_approvals (fold (ladder_apply org) xs x)" if "wf_approvals x" for xs and x :: "'a approval_db_scheme"
      using that by (induction xs arbitrary: x) (auto intro: ladder_apply_wf)
    then have "wf_approvals (ladder_for_org org t s)" using wfc by (simp add: ladder_for_org_def)
    moreover have "\<exists>q'. approval_status (ladder_for_org org t s) k = Some q' \<and> (q' = q \<or> approval_moves q q')"
      if "approval_status s k = Some q"
      using ladder_fold_status [of "set_org_context org s" k q org "ladder_plan org t s"] that stc
        ladder_plan_pending [OF wf, of k org t]
      by (auto simp: ladder_for_org_def approval_moves_def)
    ultimately show ?thesis using OpLadder by simp
  next
    case (OpSettle org t)
    then show ?thesis using settle_fold_status [where ns = "(0, set_org_context org s)"] wfc stc
      by (simp add: settle_def Let_def)
  next
    case (OpIncident org at t)
    then show ?thesis using wf by (auto simp: record_incident_def Let_def approval_status_def wf_approvals_def)
  next
    case (OpTick t)
    then show ?thesis using wf by (auto simp: approval_status_def wf_approvals_def)
  qed (use wf in auto)
  show "\<exists>q'. approval_status (approval_act cel a s) k = Some q' \<and> (q' = q \<or> approval_moves q q')"
    if "approval_status s k = Some q"
    using both that by blast
  show "wf_approvals (approval_act cel a s)" using both by blast
qed

subsection \<open>Settling\<close>

lemma settle_row_rows:
  "approvals (snd (settle_row org t rl ns)) = update_where (\<lambda>r. rls_visible (snd ns) (ar_org_id r) \<and> ar_id r = ar_id (fst rl))
     (\<lambda>q. q\<lparr>ar_trust_settled := True\<rparr>) (approvals (snd ns)) \<and>
   org_ctx (snd (settle_row org t rl ns)) = org_ctx (snd ns)"
proof -
  obtain r li n s where p: "rl = (r, li)" "ns = (n, s)" by fastforce
  obtain s1 where "snd (settle_row org t rl ns) = set_approval (ar_id r) (\<lambda>q. q\<lparr>ar_trust_settled := True\<rparr>) s1"
    "approvals s1 = approvals s" "org_ctx s1 = org_ctx s"
    by (auto simp: settle_row_def Let_def p)
  then show ?thesis by (simp add: p own_approval_def [abs_def] rls_visible_def)
qed

lemma settle_fold_rows:
  "approvals (snd (fold (settle_row org t) rows ns)) =
     update_where (\<lambda>r. rls_visible (snd ns) (ar_org_id r) \<and> ar_id r \<in> (ar_id \<circ> fst) ` set rows)
       (\<lambda>q. q\<lparr>ar_trust_settled := True\<rparr>) (approvals (snd ns)) \<and>
   org_ctx (snd (fold (settle_row org t) rows ns)) = org_ctx (snd ns)"
proof (induction rows arbitrary: ns)
  case Nil
  then show ?case by (simp add: update_where_def)
next
  case (Cons rl rows)
  have s: "approvals (snd (settle_row org t rl ns)) = update_where (\<lambda>r. rls_visible (snd ns) (ar_org_id r) \<and> ar_id r = ar_id (fst rl))
     (\<lambda>q. q\<lparr>ar_trust_settled := True\<rparr>) (approvals (snd ns))" "org_ctx (snd (settle_row org t rl ns)) = org_ctx (snd ns)"
    using settle_row_rows by blast+
  have u: "update_where p f (update_where q f rs) = update_where (\<lambda>r. q r \<or> p r) f rs"
    if "\<And>r. f (f r) = f r" "\<And>r. p (f r) = p r" for p q f and rs :: "approval_row list"
    using that by (induction rs) auto
  show ?case
    using Cons.IH [of "settle_row org t rl ns"] s(2) unfolding fold_simps(2) s(1)
    by (subst (asm) u) (auto simp: rls_visible_def intro!: arg_cong2 [where f = "\<lambda>p. update_where p _"])
qed

lemma unmarked_member:
  "r \<in> set (update_where p (\<lambda>q. q\<lparr>ar_trust_settled := True\<rparr>) rows) \<Longrightarrow> \<not> ar_trust_settled r \<Longrightarrow>
   r \<in> set rows \<and> \<not> p r"
  by (induction rows) (auto split: if_splits)

lemma settle_clears_due:
  assumes "settle org t s = (n, s')" and "t' \<le> t" and "r \<in> set (approvals s')"
  shows "\<not> settle_due org t' (set_org_context org s') r"
proof
  assume due: "settle_due org t' (set_org_context org s') r"
  let ?s = "set_org_context org s"
  let ?rows = "map (\<lambda>r. (r, last_incident org (ar_action_type r) ?s)) (filter (settle_due org t ?s) (approvals s))"
  have s': "approvals s' = update_where (\<lambda>r. rls_visible ?s (ar_org_id r) \<and> ar_id r \<in> (ar_id \<circ> fst) ` set ?rows)
       (\<lambda>q. q\<lparr>ar_trust_settled := True\<rparr>) (approvals s)"
    using settle_fold_rows [of org t ?rows "(0, ?s)"] assms(1) by (simp add: settle_def Let_def)
  have unsettled: "\<not> ar_trust_settled r" using due by (simp add: settle_due_def)
  from unmarked_member [OF assms(3) [unfolded s'] unsettled]
  have "r \<in> set (approvals s)"
    and nin: "\<not> (rls_visible ?s (ar_org_id r) \<and> ar_id r \<in> (ar_id \<circ> fst) ` set ?rows)"
    by blast+
  moreover have "settle_due org t ?s r"
    using due assms(2) by (auto simp: settle_due_def rls_visible_def split: option.splits)
  ultimately have "(r, last_incident org (ar_action_type r) ?s) \<in> set ?rows"
    by (simp only: set_map set_filter) blast
  then have "(ar_id \<circ> fst) (r, last_incident org (ar_action_type r) ?s) \<in> (ar_id \<circ> fst) ` set ?rows"
    by (rule imageI)
  then have "ar_id r \<in> (ar_id \<circ> fst) ` set ?rows" by (simp only: comp_apply fst_conv)
  moreover have "rls_visible ?s (ar_org_id r)" using due by (simp add: settle_due_def)
  ultimately show False using nin by blast
qed

subsection \<open>Properties\<close>

text \<open>
  C29: a decision is final. In a store with distinct ids, an approval that is approved, rejected or
  expired keeps that status under every sequence of whole operations: creations, resolutions by
  anyone with any decision or edit, notifications, ladder runs, settlements, incidents and time.
\<close>

theorem approval_decision_final:
  assumes "wf_approvals s" and "approval_status s k = Some q" and "q \<in> {''approved'', ''rejected'', ''expired''}"
  shows "approval_status (fold (approval_act cel) acts s) k = Some q"
proof (rule approvals_machine.terminal_stays)
  show "\<not> approval_moves q p" for p using assms(3) by (auto simp: approval_moves_def)
qed (use assms in auto)

definition example_row :: approval_row where
  "example_row = \<lparr>ar_id = 3, ar_org_id = 7, ar_run_id = None, ar_requested_by = None, ar_action_type = ''stock.adjust'',
     ar_tier = 2, ar_payload = JObj [], ar_matched_rules = [], ar_audit_id = None, ar_status = ''pending'',
     ar_edited_payload = None, ar_decision_note = None, ar_reason_code = None, ar_approver_user_id = None,
     ar_decided_at = None, ar_expires_at = 200, ar_created_at = 0, ar_notified_at = None, ar_reminded_at = None,
     ar_escalated_at = None, ar_notify_ref = None, ar_trust_settled = False\<rparr>"

definition example_approvals :: "approval_row list \<Rightarrow> approval_db" where
  "example_approvals rows = \<lparr>now = 100, fresh = 4, org_ctx = None, audit_log = [], event_outbox = [],
     execution_token_jti = [], committed_figures_ledger = [], organizations = [], feature_flags = [], flag_rules = [],
     tenant_settings = [], packs = [], pack_installations = [], approval_policies = [],
     incident_tightening = [], approvals = rows, trust_ledger = []\<rparr>"

theorem approval_decision_final_witness:
  "approval_status (fold (approval_act (\<lambda>_ _. None)) [OpResolve 7 3 1 ''approve'' None, OpLadder 7 500]
      (example_approvals [example_row\<lparr>ar_status := ''rejected''\<rparr>])) 3 = Some ''rejected''"
  by (rule approval_decision_final)
     (simp_all add: wf_approvals_def approval_status_def example_approvals_def example_row_def)

text \<open>
  One decision, one event, no escalation by edit. A resolution that is no replay appends exactly
  one event, \<open>approval.resolved.v1\<close> for that approval with the decision returned; a replay appends
  none and returns the stored status. And an approval with an edited payload is approved only if the
  policy engine's tier for the edited action does not exceed the tier the row was created with.
\<close>

theorem approval_resolve_effect:
  assumes "wf_approvals s" and "resolve_approval cel org i user decision edited reason note s = (Inr r, s')"
  shows "(rr_idempotent_replay r \<longrightarrow> event_outbox s' = event_outbox s \<and> approval_status s i = Some (rr_status r)) \<and>
    (\<not> rr_idempotent_replay r \<longrightarrow> approval_status s i = Some ''pending'' \<and> (\<exists>ev. event_outbox s' = event_outbox s @ [ev] \<and>
        ob_type ev = ''approval.resolved.v1'' \<and> jget_null (ob_payload ev) ''approval_id'' = JId i \<and>
        jget_null (ob_payload ev) ''decision'' = JStr (rr_status r))) \<and>
    (\<forall>p ctx row. \<not> rr_idempotent_replay r \<and> rr_status r = ''approved'' \<and> edited = Some p \<and>
        find (own_approval i (set_org_context org s)) (approvals s) = Some row \<and>
        approval_context org (ar_action_type row) p = Some ctx \<longrightarrow>
        dc_tier (fst (evaluate cel ctx (set_org_context org s))) \<le> ar_tier row)"
  using assms(2)
proof (cases rule: resolve_cases)
  case same
  then obtain row where row: "find (own_approval i (set_org_context org s)) (approvals s) = Some row"
    "rr_status r = ar_status row" "rr_idempotent_replay r" by auto
  from own_approval_found(1) [OF wf_set_org_context [OF assms(1)], of i org row] row(1)
  have "approval_status s i = Some (ar_status row)"
    using approval_status_cong [of "set_org_context org s" s] by simp
  with same(2) row(2,3) show ?thesis by simp
next
  case (expired row)
  then show ?thesis by simp
next
  case (decided row new_tier f st s1 out)
  from own_approval_found(1) [OF wf_set_org_context [OF assms(1)], of i org row] decided(1,2)
  have pend: "approval_status s i = Some ''pending''"
    using approval_status_cong [of "set_org_context org s" s] by simp
  obtain j where out: "out = Inr j" using decided(9) by (cases out) auto
  from decided(10) [OF out] have r: "rr_status r = st" "\<not> rr_idempotent_replay r" by auto
  from decided(8) out have em: "emit org ''approval.resolved.v1'' [(''approval_id'', JId i), (''decision'', JStr st),
          (''edited'', JBool (edited \<noteq> None))] ''api'' s1 = (Inr j, s')" by simp
  from em obtain ev where ev: "event_outbox s' = event_outbox s1 @ [ev]" "ob_type ev = ''approval.resolved.v1''"
    "ob_payload ev = JObj [(''approval_id'', JId i), (''decision'', JStr st), (''edited'', JBool (edited \<noteq> None))]"
    by (cases rule: emit_cases) auto
  have "event_outbox s1 = event_outbox s" by (simp add: decided(5))
  moreover have "dc_tier (fst (evaluate cel ctx (set_org_context org s))) \<le> ar_tier row"
    if "st = ''approved''" "edited = Some p" "approval_context org (ar_action_type row) p = Some ctx" for p ctx
    using decided(4) that decided(11) [OF that(2) _ that(3)] by (auto split: if_splits)
  ultimately show ?thesis using r ev pend decided(1) by auto
qed

theorem approval_resolve_effect_witness:
  "\<exists>r s'. resolve_approval (\<lambda>_ _. None) 7 3 1 ''approve'' None None None (example_approvals [example_row]) = (Inr r, s') \<and>
     rr_status r = ''approved'' \<and> (\<exists>ev. event_outbox s' = event_outbox (example_approvals [example_row]) @ [ev])"
proof -
  have wf: "wf_approvals (example_approvals [example_row])"
    by (simp add: wf_approvals_def example_approvals_def example_row_def)
  obtain r s' where r: "resolve_approval (\<lambda>_ _. None) 7 3 1 ''approve'' None None None (example_approvals [example_row]) = (Inr r, s')"
    "rr_status r = ''approved''" "\<not> rr_idempotent_replay r"
    by (simp add: resolve_approval_def example_approvals_def example_row_def own_approval_def set_org_context_def
        rls_visible_def set_approval_def emit_def ALLOWED_EVENT_TYPES_def validate_payload_def PAYLOAD_SPECS_def
        check_field_def ends_with_def type_map_accepts_def Let_def)
  from approval_resolve_effect [OF wf r(1)] r show ?thesis by blast
qed

text \<open>
  Resolving an expired approval does not record the expiry. The service marks the row expired
  and raises; the request's transaction rolls back on the exception, so the caller gets the error
  and the store is exactly what it was, the row still pending.
\<close>

theorem expired_resolve_rolls_back:
  assumes "wf_approvals s" and "find (own_approval i (set_org_context org s)) (approvals s) = Some row"
    and "ar_status row = ''pending''" and "ar_expires_at row \<le> now s"
  shows "resolve_endpoint cel org i user decision edited reason note s = (Inl (ApprovalExpired i), s) \<and>
         approval_status (snd (resolve_endpoint cel org i user decision edited reason note s)) i = Some ''pending''"
proof -
  have "resolve_approval cel org i user decision edited reason note (set_org_context org s) =
      (Inl (ApprovalExpired i), set_approval i (\<lambda>r. r\<lparr>ar_status := ''expired''\<rparr>) (set_org_context org s))"
    using assms(2-4) by (simp add: resolve_approval_def Let_def)
  then have "resolve_endpoint cel org i user decision edited reason note s = (Inl (ApprovalExpired i), s)"
    by (simp add: resolve_endpoint_def commit_or_rollback_def)
  moreover have "approval_status s i = Some ''pending''"
    using own_approval_found(1) [OF wf_set_org_context [OF assms(1)], of i org row] assms(2,3)
      approval_status_cong [of "set_org_context org s" s] by simp
  ultimately show ?thesis by simp
qed

theorem expired_resolve_rolls_back_witness:
  "resolve_endpoint (\<lambda>_ _. None) 7 3 1 ''approve'' None None None ((example_approvals [example_row])\<lparr>now := 300\<rparr>)
     = (Inl (ApprovalExpired 3), (example_approvals [example_row])\<lparr>now := 300\<rparr>)"
  using expired_resolve_rolls_back [of "(example_approvals [example_row])\<lparr>now := 300\<rparr>" 3 7 example_row
      "\<lambda>_ _. None" 1 "''approve''" None None None]
  by (simp add: wf_approvals_def example_approvals_def example_row_def own_approval_def set_org_context_def rls_visible_def)

text \<open>
  The ladder can overwrite a decision. The job reads the pending rows and then expires them by
  id with no condition on the status; when an owner's approval commits between the two, the row
  ends expired although the approval was returned and its event emitted.
\<close>

theorem ladder_overwrites_decision:
  "let s = example_approvals [example_row];
       plan = ladder_plan 7 200 s;
       s1 = snd (resolve_approval (\<lambda>_ _. None) 7 3 1 ''approve'' None None None s);
       s2 = fold (ladder_apply 7) plan s1
   in approval_status s1 3 = Some ''approved'' \<and> map ob_type (event_outbox s1) = [''approval.resolved.v1''] \<and>
      approval_status s2 3 = Some ''expired''"
  by (simp add: resolve_approval_def example_approvals_def example_row_def own_approval_def set_org_context_def
        rls_visible_def set_approval_def emit_def ALLOWED_EVENT_TYPES_def validate_payload_def PAYLOAD_SPECS_def
        check_field_def ends_with_def type_map_accepts_def ladder_plan_def ladder_decision_def List.map_filter_def
        approval_status_def Let_def)

text \<open>
  An approval earns trust once. After a settlement run at \<open>t\<close>, a second run at \<open>t\<close> or earlier
  increments nothing and changes neither the trust ledger nor the approvals.
\<close>

theorem settle_idempotent:
  assumes "settle org t s = (n, s')" and "t' \<le> t"
  shows "fst (settle org t' s') = 0 \<and> trust_ledger (snd (settle org t' s')) = trust_ledger s' \<and>
         approvals (snd (settle org t' s')) = approvals s'"
proof -
  have "filter (settle_due org t' (set_org_context org s')) (approvals s') = []"
    using settle_clears_due [OF assms] by (simp add: filter_empty_conv)
  then show ?thesis by (simp add: settle_def Let_def)
qed

theorem settle_idempotent_witness:
  "fst (settle 7 (hours 100) (example_approvals [example_row\<lparr>ar_status := ''approved'', ar_decided_at := Some 5\<rparr>])) = 1 \<and>
   fst (settle 7 (hours 100) (snd (settle 7 (hours 100)
      (example_approvals [example_row\<lparr>ar_status := ''approved'', ar_decided_at := Some 5\<rparr>])))) = 0"
proof -
  let ?s = "example_approvals [example_row\<lparr>ar_status := ''approved'', ar_decided_at := Some 5\<rparr>]"
  obtain n s' where s: "settle 7 (hours 100) ?s = (n, s')" by fastforce
  have "fst (settle 7 (hours 100) ?s) = 1"
    by (simp add: settle_def settle_due_def settle_row_def last_incident_def is_clean_def example_approvals_def
        example_row_def set_org_context_def rls_visible_def CLEAN_WINDOW_H_def Let_def)
  with settle_idempotent [OF s, of "hours 100"] s show ?thesis by simp
qed

end
