(* ===== verification/Entitlements.thy ===== *)
theory Entitlements
  imports Capabilities Approvals
begin

text \<open>
  What a store's plan lets it use: the typed plan configuration (\<open>core/tenancy/plan_config.py\<close>) and
  the effective-access resolver with its enforcement primitives (\<open>core/tenancy/entitlements.py\<close>).
  Validation by pydantic is third-party code: the record \<open>plan_codec\<close> holds \<open>json.loads\<close> and the two
  \<open>model_validate\<close> functions (\<open>None\<close> where they raise). Frozen sets the resolver returns are HOL sets.

  The lemmas show that the resolved capabilities are the largest set of grantable, installed
  candidates closed under dependencies, that nothing is granted without an active subscription, and
  what an agent execution implies.
\<close>

subsection \<open>Plan configuration\<close>

record PromotionDef =
  pm_capability_key :: string
  pm_label :: "string option"
  pm_enabled :: bool
  pm_starts_at :: time
  pm_ends_at :: "time option"

definition active_at :: "PromotionDef \<Rightarrow> time \<Rightarrow> bool" where
  "active_at p t \<longleftrightarrow>
     (if \<not> pm_enabled p then False
      else if t < pm_starts_at p then False
      else (case pm_ends_at p of None \<Rightarrow> True | Some e \<Rightarrow> t < e))"

record PlanConfig =
  pc_schema_version :: "int option"
  pc_entitlements :: "string list option"
  pc_vertical :: "string option"
  pc_agents :: "string list"
  pc_channels :: "string list"
  pc_addons :: "string list"
  pc_promotions :: "json list"

definition CURRENT_SCHEMA_VERSION :: int where "CURRENT_SCHEMA_VERSION = 1"

definition empty_config :: PlanConfig where
  "empty_config = \<lparr>pc_schema_version = None, pc_entitlements = None, pc_vertical = None,
     pc_agents = [], pc_channels = [], pc_addons = [], pc_promotions = []\<rparr>"

definition is_structured :: "PlanConfig \<Rightarrow> bool" where
  "is_structured c \<longleftrightarrow> pc_schema_version c \<noteq> None"

definition is_known_schema :: "PlanConfig \<Rightarrow> bool" where
  "is_known_schema c \<longleftrightarrow> pc_schema_version c = Some CURRENT_SCHEMA_VERSION"

record plan_codec =
  plan_loads :: "string \<Rightarrow> json option"
  validate_plan :: "(string \<times> json) list \<Rightarrow> PlanConfig option"
  validate_promotion :: "json \<Rightarrow> PromotionDef option"

text \<open>In Python a \<open>bool\<close> is an \<open>int\<close>: a version marker \<open>true\<close> is read as 1.\<close>

definition version_marker :: "json option \<Rightarrow> int option" where
  "version_marker v = (case v of Some (JInt i) \<Rightarrow> Some i | Some (JBool b) \<Rightarrow> Some (if b then 1 else 0) | _ \<Rightarrow> None)"

definition parse_plan_config :: "plan_codec \<Rightarrow> json \<Rightarrow> PlanConfig" where
  "parse_plan_config cd raw =
     (case (case raw of JStr t \<Rightarrow> plan_loads cd t | _ \<Rightarrow> Some raw) of
        Some (JObj kvs) \<Rightarrow>
          (case validate_plan cd kvs of
             Some c \<Rightarrow> c
           | None \<Rightarrow> empty_config\<lparr>pc_schema_version := version_marker (map_of kvs ''entitlement_schema_version'')\<rparr>)
      | _ \<Rightarrow> empty_config)"

definition promotion_error :: "nat \<Rightarrow> json \<Rightarrow> string" where
  "promotion_error i item =
     (let key = jget_null item ''capability_key''
      in (if truthy key then py_str key else ''promotion['' @ nat_str i @ '']'') @ '': ValidationError'')"

definition parse_promotions :: "plan_codec \<Rightarrow> json list \<Rightarrow> PromotionDef list \<times> string list" where
  "parse_promotions cd raw =
     (List.map_filter (validate_promotion cd) raw,
      map (\<lambda>(i, item). promotion_error i item)
        (filter (\<lambda>(i, item). validate_promotion cd item = None) (enumerate 0 raw)))"

subsection \<open>The read model\<close>

definition LEGACY_EFFECTIVE_KEYS :: "string list" where
  "LEGACY_EFFECTIVE_KEYS = [''conversations'', ''catalog'', ''customers'', ''ghost_recovery'',
     ''campaigns.whatsapp'', ''landing_pages'']"

definition LEGACY_ENT1A_BASELINE :: "string list" where
  "LEGACY_ENT1A_BASELINE = [''conversations'', ''catalog'', ''customers'', ''ghost_recovery'']"

text \<open>The wired-up channels (\<open>core/channels/registry.py\<close>).\<close>

record ChannelType =
  ct_type :: string
  ct_label :: string
  ct_credential_fields :: "string list"
  ct_external_id_field :: string

definition CHANNEL_TYPES :: "(string \<times> ChannelType) list" where
  "CHANNEL_TYPES =
     [(''whatsapp'', \<lparr>ct_type = ''whatsapp'', ct_label = ''WhatsApp'',
        ct_credential_fields = [''waba_id'', ''phone_number_id'', ''access_token''], ct_external_id_field = ''phone_number_id''\<rparr>),
      (''instagram'', \<lparr>ct_type = ''instagram'', ct_label = ''Instagram'',
        ct_credential_fields = [''ig_user_id'', ''access_token''], ct_external_id_field = ''ig_user_id''\<rparr>),
      (''google_ads'', \<lparr>ct_type = ''google_ads'', ct_label = ''Google Ads'',
        ct_credential_fields = [''customer_id'', ''developer_token'', ''access_token''], ct_external_id_field = ''customer_id''\<rparr>)]"

definition get_channel_type :: "string \<Rightarrow> ChannelType option" where
  "get_channel_type t = map_of CHANNEL_TYPES t"

definition missing_fields :: "ChannelType \<Rightarrow> (string \<times> json) list \<Rightarrow> string list" where
  "missing_fields spec credentials =
     filter (\<lambda>f. py_strip (case map_of credentials f of None \<Rightarrow> [] | Some v \<Rightarrow> py_str v) = [])
       (ct_credential_fields spec)"

datatype grant_source = PlanGrant | PromotionGrant | LegacyCompat

record Grant =
  gr_key :: string
  gr_source :: grant_source
  gr_promotion_label :: "string option"
  gr_ends_at :: "time option"

datatype excluded_component = ExCapability | ExAgent | ExChannel | ExPromotion | ExConfig

record Excluded =
  ex_key :: string
  ex_component :: excluded_component
  ex_reason :: string

datatype subscription_state = SubActive | SubCancelled | SubNone

record EffectiveEntitlements =
  ee_capabilities :: "string set"
  ee_agents :: "string set"
  ee_channels :: "string set"
  ee_limits :: "int \<times> int"
  ee_grants :: "Grant list"
  ee_excluded :: "Excluded list"
  ee_subscription_state :: subscription_state
  ee_plan_id :: "uuid option"
  ee_plan_name :: "string option"
  ee_addons :: "string list"

definition no_entitlements :: EffectiveEntitlements where
  "no_entitlements = \<lparr>ee_capabilities = {}, ee_agents = {}, ee_channels = {}, ee_limits = (0, 0),
     ee_grants = [], ee_excluded = [], ee_subscription_state = SubNone, ee_plan_id = None,
     ee_plan_name = None, ee_addons = []\<rparr>"

record ResolutionContext =
  rc_installed_packs :: "string set"
  rc_bound_agents :: "string set"
  rc_known_archetypes :: "string set"

subsection \<open>Composition\<close>

definition normalize :: "json \<Rightarrow> string list" where
  "normalize raw = (case raw of
       JArr xs \<Rightarrow> remdups (filter (\<lambda>k. k \<in> set LEGACY_EFFECTIVE_KEYS)
         (map resolve_alias (List.map_filter (\<lambda>x. case x of JStr f \<Rightarrow> Some f | _ \<Rightarrow> None) xs)))
     | _ \<Rightarrow> [])"

definition removeprefix :: "string \<Rightarrow> string \<Rightarrow> string" where
  "removeprefix pre s = (if starts_with pre s then drop (length pre) s else s)"

definition implied_legacy_channels :: "Capability list \<Rightarrow> string list \<Rightarrow> string set" where
  "implied_legacy_channels pcaps capabilities =
     set (concat (map (\<lambda>key. case by_key pcaps key of None \<Rightarrow> []
        | Some cap \<Rightarrow> map (removeprefix ''channel.'')
            (filter (\<lambda>dep. case by_key pcaps dep of None \<Rightarrow> False | Some d \<Rightarrow> cp_kind d = Channel) (cp_depends_on cap)))
       capabilities))"

definition dependency_satisfied ::
    "Capability list \<Rightarrow> string \<Rightarrow> string set \<Rightarrow> string set \<Rightarrow> string set \<Rightarrow> bool \<times> string" where
  "dependency_satisfied pcaps dep capabilities channels agents =
     (case by_key pcaps dep of
        None \<Rightarrow> (False, ''unknown_dependency:'' @ dep)
      | Some cap \<Rightarrow>
          if cp_kind cap = Channel then
            (removeprefix ''channel.'' dep \<in> channels, ''missing_channel_selection:'' @ dep)
          else if cp_kind cap = Agent then
            (removeprefix ''agent.'' dep \<in> agents, ''missing_agent_selection:'' @ dep)
          else if cp_kind cap = Limit then (True, [])
          else if cp_runtime_grantable cap then (dep \<in> capabilities, ''missing_dependency:'' @ dep)
          else (case cp_enforced_by cap of
                  None \<Rightarrow> (False, ''governed_elsewhere:unknown'')
                | Some e \<Rightarrow>
                    if e \<noteq> [] \<and> starts_with ''rbac:'' e then (True, [])
                    else (False, ''governed_elsewhere:'' @ (if e = [] then ''unknown'' else e))))"

text \<open>\<open>dict.setdefault\<close> on an insertion-ordered dict.\<close>

definition setdefault :: "string \<Rightarrow> 'v \<Rightarrow> (string \<times> 'v) list \<Rightarrow> (string \<times> 'v) list" where
  "setdefault k v d = (if k \<in> fst ` set d then d else d @ [(k, v)])"

definition plan_grant :: "grant_source \<Rightarrow> string \<Rightarrow> Grant" where
  "plan_grant src key = \<lparr>gr_key = key, gr_source = src, gr_promotion_label = None, gr_ends_at = None\<rparr>"

definition promotion_grant :: "string \<Rightarrow> PromotionDef \<Rightarrow> Grant" where
  "promotion_grant key p = \<lparr>gr_key = key, gr_source = PromotionGrant, gr_promotion_label = pm_label p,
     gr_ends_at = pm_ends_at p\<rparr>"

text \<open>Step 1: the source of capabilities.\<close>

definition legacy_capabilities :: "json \<Rightarrow> string list" where
  "legacy_capabilities features = remdups (LEGACY_ENT1A_BASELINE @ normalize features)"

definition source_candidates :: "PlanConfig \<Rightarrow> json \<Rightarrow> (string \<times> Grant) list" where
  "source_candidates config features =
     (if \<not> is_structured config then
        map (\<lambda>k. (k, plan_grant LegacyCompat k)) (legacy_capabilities features)
      else if \<not> is_known_schema config then []
      else (case pc_entitlements config of None \<Rightarrow> []
        | Some keys \<Rightarrow> foldl (\<lambda>d k. setdefault (resolve_alias k) (plan_grant PlanGrant (resolve_alias k)) d) [] keys))"

definition source_excluded :: "PlanConfig \<Rightarrow> Excluded list" where
  "source_excluded config =
     (case pc_schema_version config of None \<Rightarrow> []
      | Some v \<Rightarrow>
          if v \<noteq> CURRENT_SCHEMA_VERSION then
            [\<lparr>ex_key = ''entitlement_schema_version='' @ int_str v, ex_component = ExConfig,
              ex_reason = ''unknown_entitlement_schema_version''\<rparr>]
          else if pc_entitlements config = None then
            [\<lparr>ex_key = ''entitlements'', ex_component = ExConfig, ex_reason = ''structured_plan_missing_entitlements''\<rparr>]
          else [])"

definition structured_ok :: "PlanConfig \<Rightarrow> bool" where
  "structured_ok config \<longleftrightarrow> \<not> is_structured config \<or> (is_known_schema config \<and> pc_entitlements config \<noteq> None)"

text \<open>Steps 2 and 3: agents and channels.\<close>

definition select_agents :: "PlanConfig \<Rightarrow> ResolutionContext \<Rightarrow> string list \<times> Excluded list" where
  "select_agents config ctx =
     (if structured_ok config then
        (filter (\<lambda>a. a \<in> rc_known_archetypes ctx \<and> a \<in> rc_bound_agents ctx) (pc_agents config),
         map (\<lambda>a. \<lparr>ex_key = a, ex_component = ExAgent,
             ex_reason = if a \<notin> rc_known_archetypes ctx then ''unknown_archetype'' else ''no_tenant_binding''\<rparr>)
           (filter (\<lambda>a. \<not> (a \<in> rc_known_archetypes ctx \<and> a \<in> rc_bound_agents ctx)) (pc_agents config)))
      else ([], []))"

definition select_channels :: "PlanConfig \<Rightarrow> string list \<times> Excluded list" where
  "select_channels config =
     (if structured_ok config then
        (filter (\<lambda>c. c \<in> fst ` set CHANNEL_TYPES) (pc_channels config),
         map (\<lambda>c. \<lparr>ex_key = c, ex_component = ExChannel, ex_reason = ''unknown_channel_type''\<rparr>)
           (filter (\<lambda>c. c \<notin> fst ` set CHANNEL_TYPES) (pc_channels config)))
      else ([], []))"

text \<open>Step 4: promotions add candidates.\<close>

definition promotion_step :: "time \<Rightarrow> (string \<times> Grant) list \<times> Excluded list \<Rightarrow> PromotionDef
    \<Rightarrow> (string \<times> Grant) list \<times> Excluded list" where
  "promotion_step t acc p =
     (let key = resolve_alias (pm_capability_key p) in
      if \<not> active_at p t then
        (fst acc, snd acc @ [\<lparr>ex_key = key, ex_component = ExPromotion, ex_reason = ''promotion_not_active''\<rparr>])
      else (setdefault key (promotion_grant key p) (fst acc), snd acc))"

definition add_promotions :: "plan_codec \<Rightarrow> PlanConfig \<Rightarrow> time \<Rightarrow> (string \<times> Grant) list
    \<Rightarrow> (string \<times> Grant) list \<times> Excluded list" where
  "add_promotions cd config t candidates =
     (if structured_ok config then
        (case parse_promotions cd (pc_promotions config) of (promos, errors) \<Rightarrow>
           foldl (promotion_step t)
             (candidates, map (\<lambda>err. \<lparr>ex_key = err, ex_component = ExPromotion, ex_reason = ''malformed_promotion''\<rparr>) errors)
             promos)
      else (candidates, []))"

text \<open>Steps 5 and 6: the catalog, the governance and the installed packs.\<close>

definition status_text :: "Status \<Rightarrow> string" where
  "status_text s = (case s of Available \<Rightarrow> ''available'' | Beta \<Rightarrow> ''beta'' | Partial \<Rightarrow> ''partial'' | Planned \<Rightarrow> ''planned'')"

definition refusal :: "Capability list \<Rightarrow> string set \<Rightarrow> string \<Rightarrow> string option" where
  "refusal pcaps installed key =
     (case by_key pcaps key of
        None \<Rightarrow> Some ''not_in_catalog''
      | Some cap \<Rightarrow>
          if \<not> cp_runtime_grantable cap then
            Some (case cp_enforced_by cap of
                None \<Rightarrow> ''not_grantable:'' @ status_text (cp_status cap)
              | Some e \<Rightarrow> if e = [] then ''not_grantable:'' @ status_text (cp_status cap) else ''governed_by:'' @ e)
          else (case cp_vertical cap of None \<Rightarrow> None
            | Some v \<Rightarrow> if v \<notin> installed then Some (''pack_not_installed:'' @ v) else None))"

definition filter_candidates :: "Capability list \<Rightarrow> string set \<Rightarrow> (string \<times> Grant) list
    \<Rightarrow> (string \<times> Grant) list \<times> Excluded list" where
  "filter_candidates pcaps installed candidates =
     (filter (\<lambda>(k, _). refusal pcaps installed k = None) candidates,
      List.map_filter (\<lambda>(k, _). map_option (\<lambda>r. \<lparr>ex_key = k, ex_component = ExCapability, ex_reason = r\<rparr>)
        (refusal pcaps installed k)) candidates)"

text \<open>
  Step 7: dependencies. One pass checks every surviving key, in sorted order, against the keys that
  survived the previous pass and drops a key at its first unsatisfied dependency; passes repeat
  until none is dropped.
\<close>

definition first_unsatisfied ::
    "Capability list \<Rightarrow> string set \<Rightarrow> string set \<Rightarrow> string set \<Rightarrow> string \<Rightarrow> string option" where
  "first_unsatisfied pcaps keys channels agents key =
     (case by_key pcaps key of None \<Rightarrow> None
      | Some cap \<Rightarrow>
          (case find (\<lambda>dep. \<not> fst (dependency_satisfied pcaps dep keys channels agents)) (cp_depends_on cap) of
             None \<Rightarrow> None
           | Some dep \<Rightarrow> Some (snd (dependency_satisfied pcaps dep keys channels agents))))"

function drop_unsatisfied :: "Capability list \<Rightarrow> string set \<Rightarrow> string set \<Rightarrow> (string \<times> Grant) list
    \<Rightarrow> Excluded list \<Rightarrow> (string \<times> Grant) list \<times> Excluded list" where
  "drop_unsatisfied pcaps channels agents surviving excluded =
     (let check = first_unsatisfied pcaps (fst ` set surviving) channels agents in
      if list_all (\<lambda>(k, _). check k = None) surviving then (surviving, excluded)
      else drop_unsatisfied pcaps channels agents
        (filter (\<lambda>(k, _). check k = None) surviving)
        (excluded @ List.map_filter (\<lambda>k. map_option (\<lambda>r. \<lparr>ex_key = k, ex_component = ExCapability, ex_reason = r\<rparr>) (check k))
           (sort (map fst surviving))))"
  by pat_completeness auto
termination
  by (relation "measure (\<lambda>(_, _, _, surviving, _). length surviving)")
    (auto simp: list_all_iff intro!: length_filter_less)

declare drop_unsatisfied.simps [simp del]

definition compose :: "plan_codec \<Rightarrow> Capability list \<Rightarrow> PlanConfig \<Rightarrow> json \<Rightarrow> int \<times> int \<Rightarrow> uuid option
    \<Rightarrow> string option \<Rightarrow> ResolutionContext \<Rightarrow> time \<Rightarrow> subscription_state \<Rightarrow> EffectiveEntitlements" where
  "compose cd pcaps config features limits plan_id plan_name ctx t state =
     (let implied = (if is_structured config then {} else implied_legacy_channels pcaps (legacy_capabilities features));
          (agents, ex2) = select_agents config ctx;
          (chosen, ex3) = select_channels config;
          channels = implied \<union> set chosen;
          (candidates, ex4) = add_promotions cd config t (source_candidates config features);
          (valid, ex5) = filter_candidates pcaps (rc_installed_packs ctx) candidates;
          (surviving, excluded) = drop_unsatisfied pcaps channels (set agents) valid
             (source_excluded config @ ex2 @ ex3 @ ex4 @ ex5)
      in \<lparr>ee_capabilities = fst ` set surviving, ee_agents = set agents, ee_channels = channels,
          ee_limits = limits, ee_grants = sort_key gr_key (map snd surviving), ee_excluded = excluded,
          ee_subscription_state = state, ee_plan_id = plan_id, ee_plan_name = plan_name,
          ee_addons = if structured_ok config then pc_addons config else []\<rparr>)"

subsection \<open>A real store\<close>

record instance_row =
  ai_id :: uuid
  ai_org_id :: uuid
  ai_persona_name :: string
  ai_binding_id :: uuid
  ai_status :: string
  ai_permission_manifest :: json
  ai_budget_caps :: "(string \<times> json) list"

record binding_row =
  ab_id :: uuid
  ab_archetype_id :: uuid
  ab_tool_grants :: "json list"

record archetype_row =
  aa_id :: uuid
  aa_slug :: string
  aa_capability_allowlist :: "string list"

record subscription_row =
  su_org_id :: uuid
  su_plan_id :: uuid
  su_status :: string

record plan_row =
  pl_id :: uuid
  pl_name :: string
  pl_features :: json
  pl_config :: json
  pl_max_managers :: "int option"
  pl_max_staff :: "int option"

record entitlement_db = approval_db +
  agent_instances :: "instance_row list"
  agent_bindings :: "binding_row list"
  agent_archetypes :: "archetype_row list"
  billing_subscriptions :: "subscription_row list"
  billing_plans :: "plan_row list"
  pack_slugs :: "(uuid \<times> string) list"

text \<open>
  \<open>agent_instances\<close>, \<open>billing_subscriptions\<close> and \<open>pack_installations\<close> are tenant tables; bindings,
  archetypes, plans and packs are platform tables. \<open>grants_of\<close> is the join of an instance with its
  binding and archetype.
\<close>

definition grants_of :: "'a entitlement_db_scheme \<Rightarrow> instance_row \<Rightarrow> (binding_row \<times> archetype_row) option" where
  "grants_of s ai =
     (case find (\<lambda>b. ab_id b = ai_binding_id ai) (agent_bindings s) of None \<Rightarrow> None
      | Some b \<Rightarrow> map_option (Pair b) (find (\<lambda>a. aa_id a = ab_archetype_id b) (agent_archetypes s)))"

definition archetype_of :: "'a entitlement_db_scheme \<Rightarrow> instance_row \<Rightarrow> string option" where
  "archetype_of s ai = map_option (aa_slug \<circ> snd) (grants_of s ai)"

definition load_context :: "uuid \<Rightarrow> 'a entitlement_db_scheme \<Rightarrow> ResolutionContext" where
  "load_context org s =
     \<lparr>rc_installed_packs = set (List.map_filter (\<lambda>r. map_of (pack_slugs s) (pi_pack_id r))
         (filter (\<lambda>r. rls_visible s (pi_org_id r) \<and> pi_org_id r = org \<and> pi_status r = ''active'') (pack_installations s))),
      rc_bound_agents = set (List.map_filter (archetype_of s)
         (filter (\<lambda>r. rls_visible s (ai_org_id r) \<and> ai_org_id r = org) (agent_instances s))),
      rc_known_archetypes = aa_slug ` set (agent_archetypes s)\<rparr>"

definition own_subscriptions :: "uuid \<Rightarrow> 'a entitlement_db_scheme \<Rightarrow> subscription_row list" where
  "own_subscriptions org s =
     filter (\<lambda>r. rls_visible s (su_org_id r) \<and> su_org_id r = org) (billing_subscriptions s)"

definition int_or_0 :: "int option \<Rightarrow> int" where
  "int_or_0 x = (case x of None \<Rightarrow> 0 | Some i \<Rightarrow> i)"

definition resolve_entitlements :: "plan_codec \<Rightarrow> Capability list \<Rightarrow> uuid \<Rightarrow> 'a entitlement_db_scheme
    \<Rightarrow> EffectiveEntitlements \<times> 'a entitlement_db_scheme" where
  "resolve_entitlements cd pcaps org s0 =
     (let s = set_org_context org s0 in
      case find (\<lambda>r. su_status r = ''active'') (own_subscriptions org s) of
        None \<Rightarrow> (no_entitlements\<lparr>ee_subscription_state :=
                   if own_subscriptions org s \<noteq> [] then SubCancelled else SubNone\<rparr>, s)
      | Some sub \<Rightarrow>
          (let plan = find (\<lambda>p. pl_id p = su_plan_id sub) (billing_plans s)
           in (compose cd pcaps
                 (parse_plan_config cd (case plan of None \<Rightarrow> JNull | Some p \<Rightarrow> pl_config p))
                 (case plan of None \<Rightarrow> JNull | Some p \<Rightarrow> pl_features p)
                 (case plan of None \<Rightarrow> (0, 0) | Some p \<Rightarrow> (int_or_0 (pl_max_managers p), int_or_0 (pl_max_staff p)))
                 (Some (su_plan_id sub)) (map_option pl_name plan)
                 (load_context org s) (now s) SubActive, s)))"

subsection \<open>Enforcement\<close>

datatype feature_error = FeatureNotInPlan string

definition has_feature :: "plan_codec \<Rightarrow> Capability list \<Rightarrow> uuid \<Rightarrow> string \<Rightarrow> 'a entitlement_db_scheme
    \<Rightarrow> bool \<times> 'a entitlement_db_scheme" where
  "has_feature cd pcaps org feature s =
     (case resolve_entitlements cd pcaps org s of (e, s') \<Rightarrow> (feature \<in> ee_capabilities e, s'))"

definition requires_feature :: "plan_codec \<Rightarrow> Capability list \<Rightarrow> string \<Rightarrow> uuid option
    \<Rightarrow> (feature_error, unit, 'a entitlement_db_scheme) op" where
  "requires_feature cd pcaps feature current_org s =
     (case current_org of None \<Rightarrow> (Inl (FeatureNotInPlan feature), s)
      | Some org \<Rightarrow> (case has_feature cd pcaps org feature s of (has, s') \<Rightarrow>
          if \<not> has then (Inl (FeatureNotInPlan feature), s') else (Inr (), s')))"

definition assert_entitled :: "plan_codec \<Rightarrow> Capability list \<Rightarrow> uuid option \<Rightarrow> string
    \<Rightarrow> (feature_error, unit, 'a entitlement_db_scheme) op" where
  "assert_entitled cd pcaps org_id cap s =
     (case org_id of None \<Rightarrow> (Inl (FeatureNotInPlan cap), s)
      | Some org \<Rightarrow> (case resolve_entitlements cd pcaps org s of (e, s') \<Rightarrow>
          if cap \<notin> ee_capabilities e then (Inl (FeatureNotInPlan cap), s') else (Inr (), s')))"

definition is_entitled :: "plan_codec \<Rightarrow> Capability list \<Rightarrow> uuid option \<Rightarrow> string
    \<Rightarrow> 'a entitlement_db_scheme \<Rightarrow> bool \<times> 'a entitlement_db_scheme" where
  "is_entitled cd pcaps org_id cap s =
     (case org_id of None \<Rightarrow> (False, s)
      | Some org \<Rightarrow> (case resolve_entitlements cd pcaps org s of (e, s') \<Rightarrow> (cap \<in> ee_capabilities e, s')))"

datatype agent_refusal =
    ForeignInstance
  | ArchetypeNotInPlan string
  | CapabilityNotInPlan string string
  | OperationalStatus string string

definition EXECUTABLE_AGENT_STATUS :: "string list" where
  "EXECUTABLE_AGENT_STATUS = [''active'', ''shadow'']"

definition assert_agent_executable :: "plan_codec \<Rightarrow> Capability list \<Rightarrow> uuid \<Rightarrow> uuid
    \<Rightarrow> InternalWorkerGrant option \<Rightarrow> (agent_refusal, string, 'a entitlement_db_scheme) op" where
  "assert_agent_executable cd pcaps org instance_id worker s0 =
     (let s = set_org_context org s0 in
      case find (\<lambda>r. rls_visible s (ai_org_id r) \<and> ai_id r = instance_id \<and> archetype_of s r \<noteq> None) (agent_instances s) of
        None \<Rightarrow> (Inl ForeignInstance, s)
      | Some r \<Rightarrow>
          if ai_org_id r \<noteq> org then (Inl ForeignInstance, s)
          else
            (let slug = the (archetype_of s r);
                 status_check = (\<lambda>s'. if ai_status r \<notin> set EXECUTABLE_AGENT_STATUS
                                      then (Inl (OperationalStatus (ai_status r) slug), s') else (Inr slug, s'))
             in case resolve_entitlements cd pcaps org s of (e, s1) \<Rightarrow>
               if slug \<notin> ee_agents e then
                 (case worker of
                    None \<Rightarrow> (Inl (ArchetypeNotInPlan slug), s1)
                  | Some w \<Rightarrow>
                      if iw_archetype w \<noteq> slug then (Inl (ArchetypeNotInPlan slug), s1)
                      else (case is_entitled cd pcaps (Some org) (iw_capability w) s1 of (held, s2) \<Rightarrow>
                        if \<not> held then (Inl (CapabilityNotInPlan (iw_capability w) slug), s2) else status_check s2))
               else status_check s1))"

definition assert_vertical_entitled :: "plan_codec \<Rightarrow> Capability list \<Rightarrow> uuid option \<Rightarrow> string
    \<Rightarrow> (feature_error, unit, 'a entitlement_db_scheme) op" where
  "assert_vertical_entitled cd pcaps org_id suffix s =
     (case org_id of None \<Rightarrow> (Inl (FeatureNotInPlan suffix), s)
      | Some org \<Rightarrow>
          (case resolve_entitlements cd pcaps org s of (e, s') \<Rightarrow>
             (let candidates = map cp_key (filter (\<lambda>c. cp_vertical c \<noteq> None \<and> ends_with (''.'' @ suffix) (cp_key c)
                    \<and> cp_runtime_grantable c) (catalog pcaps))
              in if \<not> list_ex (\<lambda>key. key \<in> ee_capabilities e) candidates
                 then (Inl (FeatureNotInPlan (case candidates of [] \<Rightarrow> suffix | k # _ \<Rightarrow> k)), s')
                 else (Inr (), s'))))"

subsection \<open>What composition computes\<close>

text \<open>The specification: the keys a plan asks for, those a store may hold, and closed sets of them.\<close>

definition asked_for :: "plan_codec \<Rightarrow> PlanConfig \<Rightarrow> json \<Rightarrow> time \<Rightarrow> string set" where
  "asked_for cd config features t =
     (if \<not> is_structured config then set (legacy_capabilities features)
      else if structured_ok config then resolve_alias ` set (the (pc_entitlements config)) else {}) \<union>
     (if structured_ok config then
        {resolve_alias (pm_capability_key p) |p. \<exists>item \<in> set (pc_promotions config).
           validate_promotion cd item = Some p \<and> active_at p t} else {})"

definition self_supporting :: "Capability list \<Rightarrow> string set \<Rightarrow> string set \<Rightarrow> string set \<Rightarrow> bool" where
  "self_supporting pcaps channels agents K \<longleftrightarrow>
     (\<forall>k \<in> K. \<forall>cap. by_key pcaps k = Some cap \<longrightarrow>
        (\<forall>dep \<in> set (cp_depends_on cap). fst (dependency_satisfied pcaps dep K channels agents)))"

lemma dependency_satisfied_mono:
  "K \<subseteq> L \<Longrightarrow> fst (dependency_satisfied pcaps dep K channels agents)
    \<Longrightarrow> fst (dependency_satisfied pcaps dep L channels agents)"
  by (auto simp: dependency_satisfied_def split: option.splits if_splits)

lemma first_unsatisfied_None:
  "first_unsatisfied pcaps keys channels agents k = None \<longleftrightarrow>
     (\<forall>cap. by_key pcaps k = Some cap \<longrightarrow>
        (\<forall>dep \<in> set (cp_depends_on cap). fst (dependency_satisfied pcaps dep keys channels agents)))"
  by (auto simp: first_unsatisfied_def find_None_iff_ball dest!: find_Some_set split: option.splits)

lemma first_unsatisfied_mono:
  "K \<subseteq> L \<Longrightarrow> first_unsatisfied pcaps K channels agents k = None
    \<Longrightarrow> first_unsatisfied pcaps L channels agents k = None"
  by (meson first_unsatisfied_None dependency_satisfied_mono)

lemma self_supporting_iff:
  "self_supporting pcaps channels agents K \<longleftrightarrow> (\<forall>k \<in> K. first_unsatisfied pcaps K channels agents k = None)"
  by (simp add: self_supporting_def first_unsatisfied_None)

lemma drop_unsatisfied_supporting:
  "self_supporting pcaps channels agents (fst ` set (fst (drop_unsatisfied pcaps channels agents surv ex)))"
proof (induction pcaps channels agents surv ex rule: drop_unsatisfied.induct)
  case (1 pcaps channels agents surv ex)
  show ?case
  proof (cases "list_all (\<lambda>(k, _). first_unsatisfied pcaps (fst ` set surv) channels agents k = None) surv")
    case True
    then show ?thesis
      by (subst drop_unsatisfied.simps) (auto simp: self_supporting_iff list_all_iff)
  next
    case False
    with 1 [OF refl] show ?thesis
      by (subst drop_unsatisfied.simps) (simp add: Let_def)
  qed
qed

lemma drop_unsatisfied_subset:
  "set (fst (drop_unsatisfied pcaps channels agents surv ex)) \<subseteq> set surv"
proof (induction pcaps channels agents surv ex rule: drop_unsatisfied.induct)
  case (1 pcaps channels agents surv ex)
  show ?case
  proof (cases "list_all (\<lambda>(k, _). first_unsatisfied pcaps (fst ` set surv) channels agents k = None) surv")
    case True
    then show ?thesis by (subst drop_unsatisfied.simps) simp
  next
    case False
    with 1 [OF refl] show ?thesis
      by (subst drop_unsatisfied.simps) (auto simp: Let_def)
  qed
qed

lemma drop_unsatisfied_greatest:
  "self_supporting pcaps channels agents K \<Longrightarrow> K \<subseteq> fst ` set surv
    \<Longrightarrow> K \<subseteq> fst ` set (fst (drop_unsatisfied pcaps channels agents surv ex))"
proof (induction pcaps channels agents surv ex rule: drop_unsatisfied.induct)
  case (1 pcaps channels agents surv ex)
  let ?check = "first_unsatisfied pcaps (fst ` set surv) channels agents"
  show ?case
  proof (cases "list_all (\<lambda>(k, _). ?check k = None) surv")
    case True
    with 1 show ?thesis by (subst drop_unsatisfied.simps) simp
  next
    case False
    have "?check k = None" if "k \<in> K" for k
      using that 1(2,3) first_unsatisfied_mono by (auto simp: self_supporting_iff)
    with 1(3) have "K \<subseteq> fst ` set (filter (\<lambda>(k, _). ?check k = None) surv)" by force
    with 1(1) [OF refl False 1(2)] show ?thesis
      using False by (subst drop_unsatisfied.simps) (simp add: Let_def)
  qed
qed

lemma fst_setdefault: "fst ` set (setdefault k v d) = insert k (fst ` set d)"
  by (auto simp: setdefault_def)

lemma fst_foldl_setdefault:
  "fst ` set (foldl (\<lambda>d k. setdefault (f k) (g k) d) d ks) = fst ` set d \<union> f ` set ks"
  by (induction ks arbitrary: d) (auto simp: fst_setdefault)

lemma fst_promotion_step:
  "fst ` set (fst (promotion_step t acc p)) = fst ` set (fst acc) \<union>
     (if active_at p t then {resolve_alias (pm_capability_key p)} else {})"
  by (auto simp: promotion_step_def Let_def fst_setdefault)

lemma fst_promotions:
  "fst ` set (fst (foldl (promotion_step t) acc ps)) =
     fst ` set (fst acc) \<union> {resolve_alias (pm_capability_key p) |p. p \<in> set ps \<and> active_at p t}"
  by (induction ps arbitrary: acc) (auto simp: fst_promotion_step)

lemma source_candidates_keys:
  "fst ` set (source_candidates config features) =
     (if \<not> is_structured config then set (legacy_capabilities features)
      else if structured_ok config then resolve_alias ` set (the (pc_entitlements config)) else {})"
  by (cases "pc_entitlements config")
    (simp_all add: source_candidates_def structured_ok_def fst_foldl_setdefault image_image)

lemma set_valid_promotions:
  "set (List.map_filter (validate_promotion cd) raw) = {p. \<exists>item \<in> set raw. validate_promotion cd item = Some p}"
  by (induction raw) (auto simp: List.map_filter_simps split: option.splits)

lemma candidate_keys:
  "fst ` set (fst (add_promotions cd config t (source_candidates config features))) = asked_for cd config features t"
  by (simp add: add_promotions_def parse_promotions_def fst_promotions source_candidates_keys asked_for_def
      set_valid_promotions)

definition composed_channels :: "Capability list \<Rightarrow> PlanConfig \<Rightarrow> json \<Rightarrow> string set" where
  "composed_channels pcaps config features =
     (if is_structured config then {} else implied_legacy_channels pcaps (legacy_capabilities features)) \<union>
     (if structured_ok config then set (pc_channels config) \<inter> fst ` set CHANNEL_TYPES else {})"

definition composed_agents :: "PlanConfig \<Rightarrow> ResolutionContext \<Rightarrow> string set" where
  "composed_agents config ctx =
     (if structured_ok config then set (pc_agents config) \<inter> rc_known_archetypes ctx \<inter> rc_bound_agents ctx else {})"

lemma compose_selections:
  "ee_channels (compose cd pcaps config features limits pid pname ctx t st) = composed_channels pcaps config features"
  "ee_agents (compose cd pcaps config features limits pid pname ctx t st) = composed_agents config ctx"
  by (auto simp: compose_def composed_channels_def composed_agents_def select_agents_def select_channels_def
      Let_def split: prod.splits if_splits)

lemma compose_capabilities:
  "\<exists>valid ex. ee_capabilities (compose cd pcaps config features limits pid pname ctx t st) =
      fst ` set (fst (drop_unsatisfied pcaps (composed_channels pcaps config features) (composed_agents config ctx) valid ex))
    \<and> fst ` set valid = {k \<in> asked_for cd config features t. refusal pcaps (rc_installed_packs ctx) k = None}"
proof -
  let ?c = "add_promotions cd config t (source_candidates config features)"
  let ?valid = "filter (\<lambda>(k, _). refusal pcaps (rc_installed_packs ctx) k = None) (fst ?c)"
  have "fst ` set ?valid = {k \<in> fst ` set (fst ?c). refusal pcaps (rc_installed_packs ctx) k = None}"
    by force
  then have v: "fst ` set ?valid = {k \<in> asked_for cd config features t. refusal pcaps (rc_installed_packs ctx) k = None}"
    by (simp add: candidate_keys)
  have ch: "(if is_structured config then {} else implied_legacy_channels pcaps (legacy_capabilities features))
      \<union> set (fst (select_channels config)) = composed_channels pcaps config features"
    by (auto simp: composed_channels_def select_channels_def)
  have ag: "set (fst (select_agents config ctx)) = composed_agents config ctx"
    by (auto simp: composed_agents_def select_agents_def)
  have "ee_capabilities (compose cd pcaps config features limits pid pname ctx t st) =
      fst ` set (fst (drop_unsatisfied pcaps (composed_channels pcaps config features) (composed_agents config ctx) ?valid
        (source_excluded config @ snd (select_agents config ctx) @ snd (select_channels config) @ snd ?c
           @ snd (filter_candidates pcaps (rc_installed_packs ctx) (fst ?c)))))"
    by (simp add: compose_def Let_def case_prod_beta filter_candidates_def flip: ch ag)
  with v show ?thesis by blast
qed

lemma refusal_None:
  "refusal pcaps installed k = None \<longleftrightarrow> (\<exists>cap. by_key pcaps k = Some cap \<and> cp_runtime_grantable cap
     \<and> (\<forall>v. cp_vertical cap = Some v \<longrightarrow> v \<in> installed))"
  by (auto simp: refusal_def split: option.splits if_splits)

lemma resolve_entitlements_cases:
  obtains (none) st where "fst (resolve_entitlements cd pcaps org s) = no_entitlements\<lparr>ee_subscription_state := st\<rparr>"
      "\<forall>r \<in> set (own_subscriptions org (set_org_context org s)). su_status r \<noteq> ''active''"
  | (active) sub config features limits pname where
      "sub \<in> set (own_subscriptions org (set_org_context org s))" "su_status sub = ''active''"
      "fst (resolve_entitlements cd pcaps org s) = compose cd pcaps config features limits (Some (su_plan_id sub))
         pname (load_context org (set_org_context org s)) (now s) SubActive"
proof (cases "find (\<lambda>r. su_status r = ''active'') (own_subscriptions org (set_org_context org s))")
  case None
  then have none': "resolve_entitlements cd pcaps org s = (no_entitlements\<lparr>ee_subscription_state :=
      if own_subscriptions org (set_org_context org s) \<noteq> [] then SubCancelled else SubNone\<rparr>, set_org_context org s)"
    by (simp add: resolve_entitlements_def Let_def del: find_None_iff)
  from None have "\<forall>r \<in> set (own_subscriptions org (set_org_context org s)). su_status r \<noteq> ''active''"
    by (simp add: find_None_iff_ball)
  with none' show ?thesis by (intro none) simp_all
next
  case (Some sub)
  then show ?thesis
    by (intro active) (auto simp: resolve_entitlements_def Let_def dest: find_Some_set)
qed

lemma resolve_entitlements_state [simp]:
  "snd (resolve_entitlements cd pcaps org s) = set_org_context org s"
  by (simp add: resolve_entitlements_def Let_def split: option.split)

lemma is_entitled_state [simp]:
  "snd (is_entitled cd pcaps (Some org) cap s) = set_org_context org s"
  by (simp add: is_entitled_def case_prod_beta)

lemma assert_agent_state [simp]:
  "snd (assert_agent_executable cd pcaps org i worker s) = set_org_context org s"
  by (simp add: assert_agent_executable_def Let_def case_prod_beta split: option.split)

lemma assert_agent_context [simp]:
  "assert_agent_executable cd pcaps org i worker (set_org_context o2 s) = assert_agent_executable cd pcaps org i worker s"
  by (simp add: assert_agent_executable_def)

lemma is_entitled_fst:
  "fst (is_entitled cd pcaps (Some org) cap s) \<longleftrightarrow> cap \<in> ee_capabilities (fst (resolve_entitlements cd pcaps org s))"
  by (simp add: is_entitled_def case_prod_beta)

lemma resolve_entitlements_context [simp]:
  "fst (resolve_entitlements cd pcaps org (set_org_context o2 s)) = fst (resolve_entitlements cd pcaps org s)"
  by (simp add: resolve_entitlements_def Let_def split: option.split)

definition holdable :: "Capability list \<Rightarrow> string set \<Rightarrow> string \<Rightarrow> bool" where
  "holdable pcaps installed k \<longleftrightarrow> (case by_key pcaps k of None \<Rightarrow> False
     | Some cap \<Rightarrow> cp_runtime_grantable cap \<and> (case cp_vertical cap of None \<Rightarrow> True | Some v \<Rightarrow> v \<in> installed))"

lemma holdable_iff_no_refusal: "refusal pcaps installed k = None \<longleftrightarrow> holdable pcaps installed k"
  by (auto simp: refusal_def holdable_def split: option.splits if_splits)

lemma compose_holdable:
  "k \<in> ee_capabilities (compose cd pcaps config features limits pid pname ctx t st)
    \<Longrightarrow> holdable pcaps (rc_installed_packs ctx) k"
proof -
  obtain valid ex where e: "ee_capabilities (compose cd pcaps config features limits pid pname ctx t st) =
      fst ` set (fst (drop_unsatisfied pcaps (composed_channels pcaps config features) (composed_agents config ctx) valid ex))"
    and v: "fst ` set valid = {k \<in> asked_for cd config features t. refusal pcaps (rc_installed_packs ctx) k = None}"
    using compose_capabilities by blast
  assume "k \<in> ee_capabilities (compose cd pcaps config features limits pid pname ctx t st)"
  with e have "k \<in> fst ` set valid" using drop_unsatisfied_subset by blast
  with v show ?thesis by (simp add: holdable_iff_no_refusal)
qed

lemma resolved_by_subscription:
  assumes "ee_capabilities (fst (resolve_entitlements cd pcaps org s)) \<noteq> {}
    \<or> ee_agents (fst (resolve_entitlements cd pcaps org s)) \<noteq> {}"
  shows "\<exists>sub \<in> set (billing_subscriptions s). su_org_id sub = org \<and> su_status sub = ''active''"
proof (cases rule: resolve_entitlements_cases [of cd pcaps org s])
  case (none st)
  with assms show ?thesis by (simp add: no_entitlements_def)
next
  case (active sub)
  then show ?thesis by (auto simp: own_subscriptions_def set_org_context_def)
qed

lemma resolved_holdable:
  assumes "k \<in> ee_capabilities (fst (resolve_entitlements cd pcaps org s))"
  shows "holdable pcaps (rc_installed_packs (load_context org (set_org_context org s))) k"
proof (cases rule: resolve_entitlements_cases [of cd pcaps org s])
  case (none st)
  with assms show ?thesis by (simp add: no_entitlements_def)
next
  case (active sub config features limits pname)
  with assms show ?thesis by (simp add: compose_holdable)
qed

lemma agent_execution_row:
  assumes "fst (assert_agent_executable cd pcaps org i worker s) = Inr slug"
  shows "(\<exists>r \<in> set (agent_instances s). ai_id r = i \<and> ai_org_id r = org \<and> archetype_of s r = Some slug \<and>
      ai_status r \<in> {''active'', ''shadow''}) \<and>
    (slug \<in> ee_agents (fst (resolve_entitlements cd pcaps org s)) \<or>
     (\<exists>w. worker = Some w \<and> iw_archetype w = slug \<and>
        iw_capability w \<in> ee_capabilities (fst (resolve_entitlements cd pcaps org s))))"
proof -
  let ?s = "set_org_context org s"
  have frame: "agent_instances ?s = agent_instances s" "archetype_of ?s = archetype_of s"
    by (simp_all add: fun_eq_iff set_org_context_def archetype_of_def grants_of_def cong: option.case_cong)
  obtain r where r: "find (\<lambda>r. rls_visible ?s (ai_org_id r) \<and> ai_id r = i \<and> archetype_of s r \<noteq> None) (agent_instances s) = Some r"
    using assms by (auto simp: assert_agent_executable_def Let_def frame split: option.splits)
  from find_Some_set [OF r] have row: "r \<in> set (agent_instances s)" "ai_org_id r = org" "ai_id r = i" "archetype_of s r \<noteq> None"
    by auto
  have auth: "slug = the (archetype_of s r) \<and> ai_status r \<in> set EXECUTABLE_AGENT_STATUS \<and>
    (slug \<in> ee_agents (fst (resolve_entitlements cd pcaps org s)) \<or>
     (\<exists>w. worker = Some w \<and> iw_archetype w = slug \<and>
        iw_capability w \<in> ee_capabilities (fst (resolve_entitlements cd pcaps org s))))"
    using assms r row
    by (auto simp: assert_agent_executable_def Let_def frame case_prod_beta is_entitled_fst split: option.splits if_splits)
  from auth row have "archetype_of s r = Some slug" "ai_status r \<in> {''active'', ''shadow''}"
    by (auto simp: EXECUTABLE_AGENT_STATUS_def)
  with row auth show ?thesis by blast
qed

subsection \<open>Properties\<close>

text \<open>
  C30: the resolver computes the greatest dependency-closed grant. The capabilities a plan yields in a
  store's context are the union of all sets of asked-for, grantable, installed keys in which every
  dependency of every key is satisfied by the set itself, the selected channels and the bound agents:
  nothing unsupported is granted, and nothing supportable is dropped by the order of the passes.
\<close>

theorem entitlements_greatest_closed:
  "ee_capabilities (compose cd pcaps config features limits pid pname ctx t st) =
     \<Union> {K. K \<subseteq> {k \<in> asked_for cd config features t. holdable pcaps (rc_installed_packs ctx) k} \<and>
        self_supporting pcaps (ee_channels (compose cd pcaps config features limits pid pname ctx t st))
          (ee_agents (compose cd pcaps config features limits pid pname ctx t st)) K}"
proof -
  let ?ch = "composed_channels pcaps config features" and ?ag = "composed_agents config ctx"
  obtain valid ex where e: "ee_capabilities (compose cd pcaps config features limits pid pname ctx t st) =
      fst ` set (fst (drop_unsatisfied pcaps ?ch ?ag valid ex))"
    and v: "fst ` set valid = {k \<in> asked_for cd config features t. holdable pcaps (rc_installed_packs ctx) k}"
    using compose_capabilities [of cd pcaps config features limits pid pname ctx t st]
    unfolding holdable_iff_no_refusal by blast
  have "fst ` set (fst (drop_unsatisfied pcaps ?ch ?ag valid ex)) \<subseteq> fst ` set valid"
    using drop_unsatisfied_subset by blast
  moreover have "self_supporting pcaps ?ch ?ag (fst ` set (fst (drop_unsatisfied pcaps ?ch ?ag valid ex)))"
    by (rule drop_unsatisfied_supporting)
  moreover have "K \<subseteq> fst ` set (fst (drop_unsatisfied pcaps ?ch ?ag valid ex))"
    if "K \<subseteq> fst ` set valid" "self_supporting pcaps ?ch ?ag K" for K
    using that by (intro drop_unsatisfied_greatest)
  ultimately show ?thesis
    unfolding e compose_selections v [symmetric] by blast
qed

text \<open>
  No paid access without an active subscription. Whenever the service-level check admits a
  capability for a store, an active subscription row of that very store exists, and the capability is
  a grantable one of the catalog whose pack, if it comes from one, is installed for the store.
\<close>

theorem entitled_only_by_subscription:
  assumes "fst (is_entitled cd pcaps (Some org) cap s)"
  shows "(\<exists>sub \<in> set (billing_subscriptions s). su_org_id sub = org \<and> su_status sub = ''active'') \<and>
    holdable pcaps (rc_installed_packs (load_context org (set_org_context org s))) cap"
  using assms resolved_by_subscription [of cd pcaps org s] resolved_holdable [of cap cd pcaps org s]
  by (auto simp: is_entitled_fst)

definition example_codec :: plan_codec where
  "example_codec = \<lparr>plan_loads = (\<lambda>_. None), validate_plan = (\<lambda>_. None), validate_promotion = (\<lambda>_. None)\<rparr>"

definition example_store :: entitlement_db where
  "example_store = \<lparr>now = 100, fresh = 4, org_ctx = None, audit_log = [], event_outbox = [],
     execution_token_jti = [], committed_figures_ledger = [], organizations = [], feature_flags = [], flag_rules = [],
     tenant_settings = [], packs = [], pack_installations = [], approval_policies = [],
     incident_tightening = [], approvals = [], trust_ledger = [],
     agent_instances = [\<lparr>ai_id = 5, ai_org_id = 7, ai_persona_name = ''Priya'', ai_binding_id = 1, ai_status = ''shadow'',
       ai_permission_manifest = JObj [], ai_budget_caps = []\<rparr>],
     agent_bindings = [\<lparr>ab_id = 1, ab_archetype_id = 2, ab_tool_grants = []\<rparr>],
     agent_archetypes = [\<lparr>aa_id = 2, aa_slug = ''nurture'', aa_capability_allowlist = []\<rparr>],
     billing_subscriptions = [\<lparr>su_org_id = 7, su_plan_id = 9, su_status = ''active''\<rparr>],
     billing_plans = [\<lparr>pl_id = 9, pl_name = ''starter'', pl_features = JArr [], pl_config = JNull,
       pl_max_managers = None, pl_max_staff = Some 2\<rparr>],
     pack_slugs = []\<rparr>"

lemma example_holds_recovery: "fst (is_entitled example_codec [] (Some 7) ''ghost_recovery'' example_store)"
  by code_simp

theorem entitled_only_by_subscription_witness:
  "holdable [] (rc_installed_packs (load_context 7 (set_org_context 7 example_store))) ''ghost_recovery''"
  using entitled_only_by_subscription [OF example_holds_recovery] by blast

text \<open>
  An agent runs only for its own store, within its plan and when its operator allows it. If the
  execution check admits a step, the instance row is the store's own, its archetype is the slug
  returned, its status is active or shadow, the store has an active subscription, and either the plan
  selects the archetype or the internal-worker grant passed names this archetype and a capability the
  store holds.
\<close>

theorem agent_execution_authorised:
  assumes "fst (assert_agent_executable cd pcaps org i worker s) = Inr slug"
  shows "(\<exists>r \<in> set (agent_instances s). ai_id r = i \<and> ai_org_id r = org \<and> archetype_of s r = Some slug \<and>
      ai_status r \<in> {''active'', ''shadow''}) \<and>
    (\<exists>sub \<in> set (billing_subscriptions s). su_org_id sub = org \<and> su_status sub = ''active'') \<and>
    (slug \<in> ee_agents (fst (resolve_entitlements cd pcaps org s)) \<or>
     (\<exists>w. worker = Some w \<and> iw_archetype w = slug \<and>
        iw_capability w \<in> ee_capabilities (fst (resolve_entitlements cd pcaps org s))))"
  using agent_execution_row [OF assms] resolved_by_subscription [of cd pcaps org s] by blast

lemma example_runs_worker:
  "fst (assert_agent_executable example_codec [] 7 5
     (find_grant (Some ''silent_lead_reactivation'') ''nurture'' ''ghost_diagnosis'') example_store) = Inr ''nurture''"
  by code_simp

theorem agent_execution_authorised_witness:
  "\<exists>r \<in> set (agent_instances example_store). ai_id r = 5 \<and> ai_org_id r = 7 \<and> archetype_of example_store r = Some ''nurture''"
  using agent_execution_authorised [OF example_runs_worker] by blast

end
