(* ===== verification/Failure.thy ===== *)
theory Failure
  imports Entitlements Consumer
begin

text \<open>
  The failure contract of agent steps and the circuit breaker (\<open>core/runtime/failure.py\<close>): the count
  of consecutive failures lives in Redis, incidents and the instance status in Postgres. An operation
  works on the pair of the session and Redis.

  The lemmas show that the breaker opens exactly on two consecutive failures and that an open circuit
  stops every execution of the instance.
\<close>

record incident_row =
  in_id :: uuid
  in_org_id :: uuid
  in_run_id :: "uuid option"
  in_instance_id :: "uuid option"
  in_kind :: string
  in_severity :: string
  in_title :: string
  in_action_type :: "string option"
  in_detail :: json
  in_status :: string
  in_closed_at :: "time option"

record failure_db = entitlement_db +
  incidents :: "incident_row list"

definition CIRCUIT_THRESHOLD :: int where "CIRCUIT_THRESHOLD = 2"
definition COUNTER_TTL :: time where "COUNTER_TTL = seconds 3600"

definition counter_key :: "uuid \<Rightarrow> string" where
  "counter_key inst = ''gop:circuit:'' @ nat_str inst @ '':consec''"

definition runtime_alert :: "string \<Rightarrow> json \<Rightarrow> 'a failure_db_scheme \<times> redis \<Rightarrow> 'a failure_db_scheme \<times> redis" where
  "runtime_alert kind detail w =
     (case w of (s, rd) \<Rightarrow>
        (s\<lparr>fresh := fresh s + 1\<rparr>,
         xadd ALERT_STREAM (alert_envelope (fresh s) ''gop/runtime'' (now s) kind detail) rd))"

definition write_incident :: "uuid \<Rightarrow> string \<Rightarrow> string \<Rightarrow> uuid option \<Rightarrow> uuid option \<Rightarrow> string option \<Rightarrow> string
    \<Rightarrow> json \<Rightarrow> 'a failure_db_scheme \<Rightarrow> uuid \<times> 'a failure_db_scheme" where
  "write_incident org kind title run inst action_type severity detail s0 =
     (let s = set_org_context org s0 in
      (fresh s,
       s\<lparr>incidents := incidents s @
           [\<lparr>in_id = fresh s, in_org_id = org, in_run_id = run, in_instance_id = inst, in_kind = kind,
             in_severity = severity, in_title = title, in_action_type = action_type, in_detail = detail,
             in_status = ''open'', in_closed_at = None\<rparr>],
         fresh := fresh s + 1\<rparr>))"

definition note_success :: "uuid \<Rightarrow> redis \<Rightarrow> redis" where
  "note_success inst rd = redis_delete (counter_key inst) rd"

definition open_circuit :: "uuid \<Rightarrow> uuid \<Rightarrow> uuid option \<Rightarrow> string \<Rightarrow> 'a failure_db_scheme \<times> redis
    \<Rightarrow> 'a failure_db_scheme \<times> redis" where
  "open_circuit org inst run action_type w =
     (case w of (s0, rd) \<Rightarrow>
       (let s = set_org_context org s0;
            s1 = s\<lparr>agent_instances := update_where (\<lambda>r. rls_visible s (ai_org_id r) \<and> ai_id r = inst)
                     (\<lambda>r. r\<lparr>ai_status := ''circuit_open''\<rparr>) (agent_instances s)\<rparr>;
            s2 = snd (write_incident org ''circuit_open''
                   (''circuit opened after '' @ int_str CIRCUIT_THRESHOLD @ '' consecutive failures'')
                   run (Some inst) (Some action_type) ''error'' (JObj []) s1)
        in runtime_alert ''circuit_open''
             (JObj [(''instance_id'', JId inst), (''run_id'', case run of None \<Rightarrow> JNull | Some r \<Rightarrow> JId r)]) (s2, rd)))"

definition note_failure :: "uuid \<Rightarrow> uuid \<Rightarrow> uuid option \<Rightarrow> string \<Rightarrow> int \<Rightarrow> json \<Rightarrow> 'a failure_db_scheme \<times> redis
    \<Rightarrow> bool \<times> 'a failure_db_scheme \<times> redis" where
  "note_failure org inst run action_type tier detail w =
     (case w of (s, rd) \<Rightarrow>
       (let s1 = (if 2 \<le> tier then
                    record_incident org action_type (Some ''tier2_step_failure'') (now s)
                      (snd (write_incident org ''tier2_failure''
                         (''tier-'' @ int_str tier @ '' step failed: '' @ action_type)
                         run (Some inst) (Some action_type) ''error'' detail s))
                  else s);
            (consec, rd1) = redis_incrby (counter_key inst) 1 rd;
            rd2 = (if consec = 1 then redis_expire (counter_key inst) COUNTER_TTL rd1 else rd1)
        in if CIRCUIT_THRESHOLD \<le> consec then (True, open_circuit org inst run action_type (s1, rd2))
           else (False, s1, rd2)))"

definition is_circuit_open :: "uuid \<Rightarrow> uuid \<Rightarrow> 'a failure_db_scheme \<Rightarrow> bool \<times> 'a failure_db_scheme" where
  "is_circuit_open org inst s0 =
     (let s = set_org_context org s0 in
      (map_option ai_status (find (\<lambda>r. rls_visible s (ai_org_id r) \<and> ai_id r = inst) (agent_instances s))
         = Some ''circuit_open'', s))"

definition close_circuit :: "uuid \<Rightarrow> uuid \<Rightarrow> 'a failure_db_scheme \<times> redis \<Rightarrow> 'a failure_db_scheme \<times> redis" where
  "close_circuit org inst w =
     (case w of (s0, rd) \<Rightarrow>
       (let s = set_org_context org s0 in
        (s\<lparr>agent_instances := update_where
             (\<lambda>r. rls_visible s (ai_org_id r) \<and> ai_id r = inst \<and> ai_status r = ''circuit_open'')
             (\<lambda>r. r\<lparr>ai_status := ''active''\<rparr>) (agent_instances s),
           incidents := update_where
             (\<lambda>r. rls_visible s (in_org_id r) \<and> in_instance_id r = Some inst \<and> in_kind r = ''circuit_open'' \<and> in_status r = ''open'')
             (\<lambda>r. r\<lparr>in_status := ''resolved'', in_closed_at := Some (now s)\<rparr>) (incidents s)\<rparr>,
         redis_delete (counter_key inst) rd)))"

lemma update_where_all: "(\<And>r. \<not> P (f r)) \<Longrightarrow> r \<in> set (update_where P f rows) \<Longrightarrow> \<not> P r"
  by (induction rows) (auto split: if_splits)

subsection \<open>Histories of step outcomes\<close>

datatype outcome = StepOk | StepFailed string int

definition note_outcome :: "uuid \<Rightarrow> uuid \<Rightarrow> time \<times> outcome \<Rightarrow> 'a failure_db_scheme \<times> redis \<Rightarrow> 'a failure_db_scheme \<times> redis" where
  "note_outcome org inst e w =
     (let s = (fst w)\<lparr>now := now (fst w) + fst e\<rparr>; rd = (snd w)\<lparr>rd_now := rd_now (snd w) + fst e\<rparr> in
      case snd e of
        StepOk \<Rightarrow> (s, note_success inst rd)
      | StepFailed a tier \<Rightarrow> snd (note_failure org inst None a tier (JObj []) (s, rd)))"

fun two_failures :: "outcome list \<Rightarrow> bool" where
  "two_failures (StepFailed _ _ # StepFailed _ _ # os) = True"
| "two_failures (_ # os) = two_failures os"
| "two_failures [] = False"

definition instance_status :: "uuid \<Rightarrow> uuid \<Rightarrow> 'a entitlement_db_scheme \<Rightarrow> string option" where
  "instance_status org inst s =
     map_option ai_status (find (\<lambda>r. ai_org_id r = org \<and> ai_id r = inst) (agent_instances s))"

lemma instances_frame [simp]:
  "agent_instances (snd (write_incident org k title r i at sev d s)) = agent_instances s"
  "agent_instances (record_incident org a reason t s') = agent_instances s'"
  "agent_instances (fst (runtime_alert kind d w)) = agent_instances (fst w)"
  by (simp_all add: write_incident_def record_incident_def set_org_context_def Let_def runtime_alert_def split: prod.split)

lemma instances_set_context [simp]: "agent_instances (set_org_context org s) = agent_instances s"
  by (simp add: set_org_context_def)

lemma open_circuit_instances:
  "agent_instances (fst (open_circuit org i run a (s, rd))) =
     update_where (\<lambda>r. ai_org_id r = org \<and> ai_id r = i) (\<lambda>r. r\<lparr>ai_status := ''circuit_open''\<rparr>) (agent_instances s)"
  by (simp add: open_circuit_def Let_def)

lemma open_circuit_redis:
  "rd_counters (snd (open_circuit org i run a (s, rd))) = rd_counters rd"
  "rd_now (snd (open_circuit org i run a (s, rd))) = rd_now rd"
  by (simp_all add: open_circuit_def runtime_alert_def Let_def)

lemma instance_found:
  assumes "instance_status org i s \<noteq> None"
  obtains r where "find (\<lambda>r. ai_org_id r = org \<and> ai_id r = i) (agent_instances s) = Some r"
    "ai_org_id r = org" "ai_id r = i" "instance_status org i s = Some (ai_status r)"
  using assms that by (auto simp: instance_status_def dest: find_Some_set)

lemma status_after_open:
  assumes "instance_status org i s \<noteq> None"
  shows "instance_status org i (fst (open_circuit org i run a (s, rd))) = Some ''circuit_open''"
proof -
  from assms obtain r where r: "find (\<lambda>r. ai_org_id r = org \<and> ai_id r = i) (agent_instances s) = Some r"
    "ai_org_id r = org" "ai_id r = i" by (rule instance_found)
  then show ?thesis by (simp add: instance_status_def open_circuit_instances find_update_where)
qed

definition failure_streak :: "uuid \<Rightarrow> time \<Rightarrow> int \<Rightarrow> redis \<Rightarrow> bool" where
  "failure_streak i t0 c rd \<longleftrightarrow>
     (if c = 0 then rd_counters rd (counter_key i) = None
      else 0 < c \<and> (\<exists>x. rd_counters rd (counter_key i) = Some (c, Some x) \<and> t0 + COUNTER_TTL \<le> x))"

lemma failure_streak_incr:
  assumes "failure_streak i t0 c rd" and "t0 \<le> rd_now rd" and "rd_now rd < t0 + COUNTER_TTL"
    and "redis_incrby (counter_key i) 1 rd = (n, rd1)"
  shows "n = c + 1"
    "failure_streak i t0 (c + 1) (if n = 1 then redis_expire (counter_key i) COUNTER_TTL rd1 else rd1)"
    "rd_now rd1 = rd_now rd"
  using assms
  by (auto simp: failure_streak_def redis_incrby_def redis_counter_def live_def redis_expire_def Let_def COUNTER_TTL_def
      split: if_splits)

lemma note_failure_effect:
  assumes "failure_streak i t0 c rd" and "t0 \<le> rd_now rd" and "rd_now rd < t0 + COUNTER_TTL" and "0 \<le> c"
    and "instance_status org i s \<noteq> None"
  shows "fst (note_failure org i run a tier d (s, rd)) \<longleftrightarrow> 1 \<le> c"
    "instance_status org i (fst (snd (note_failure org i run a tier d (s, rd)))) =
       (if 1 \<le> c then Some ''circuit_open'' else instance_status org i s)"
    "failure_streak i t0 (c + 1) (snd (snd (note_failure org i run a tier d (s, rd))))"
    "rd_now (snd (snd (note_failure org i run a tier d (s, rd)))) = rd_now rd"
proof -
  obtain n rd1 where n: "redis_incrby (counter_key i) 1 rd = (n, rd1)" by fastforce
  let ?rd = "if n = 1 then redis_expire (counter_key i) COUNTER_TTL rd1 else rd1"
  let ?s = "if 2 \<le> tier then record_incident org a (Some ''tier2_step_failure'') (now s)
      (snd (write_incident org ''tier2_failure'' (''tier-'' @ int_str tier @ '' step failed: '' @ a)
         run (Some i) (Some a) ''error'' d s)) else s"
  note streak = failure_streak_incr [OF assms(1-3) n]
  have st: "instance_status org i ?s = instance_status org i s" by (simp add: instance_status_def)
  have e: "note_failure org i run a tier d (s, rd) =
      (if 1 \<le> c then (True, open_circuit org i run a (?s, ?rd)) else (False, ?s, ?rd))"
    using streak(1) by (simp add: note_failure_def n CIRCUIT_THRESHOLD_def Let_def cong: if_cong)
  show "fst (note_failure org i run a tier d (s, rd)) \<longleftrightarrow> 1 \<le> c" by (simp add: e)
  show "instance_status org i (fst (snd (note_failure org i run a tier d (s, rd)))) =
       (if 1 \<le> c then Some ''circuit_open'' else instance_status org i s)"
    using assms(5) st unfolding e by (simp add: status_after_open)
  have now_rd: "rd_now ?rd = rd_now rd" using streak(3) by (simp add: redis_expire_def)
  then show "rd_now (snd (snd (note_failure org i run a tier d (s, rd)))) = rd_now rd"
    unfolding e by (simp add: open_circuit_redis)
  show "failure_streak i t0 (c + 1) (snd (snd (note_failure org i run a tier d (s, rd))))"
    using streak(2) assms(4) unfolding e by (auto simp: failure_streak_def open_circuit_redis)
qed

text \<open>A streak of at least one failure is one more failure in front of what follows.\<close>

definition after_streak :: "int \<Rightarrow> outcome list \<Rightarrow> outcome list" where
  "after_streak c os = (if 1 \<le> c then StepFailed [] 0 # os else os)"

lemma two_failures_after_failure:
  "0 \<le> c \<Longrightarrow> two_failures (after_streak c (StepFailed a t # os)) \<longleftrightarrow> 1 \<le> c \<or> two_failures (after_streak (c + 1) os)"
  by (cases os) (auto simp: after_streak_def split: outcome.splits elim: two_failures.elims)

lemma two_failures_after_ok: "two_failures (after_streak c (StepOk # os)) \<longleftrightarrow> two_failures os"
  by (simp add: after_streak_def)

lemma history_status:
  assumes "failure_streak i t0 c (snd w)" "0 \<le> c" "t0 \<le> rd_now (snd w)"
    and "\<forall>e \<in> set evs. 0 \<le> fst e" "rd_now (snd w) + sum_list (map fst evs) < t0 + COUNTER_TTL"
    and "instance_status org i (fst w) \<noteq> None"
  shows "instance_status org i (fst (fold (note_outcome org i) evs w)) =
     (if two_failures (after_streak c (map snd evs)) then Some ''circuit_open'' else instance_status org i (fst w))"
  using assms
proof (induction evs arbitrary: c w)
  case Nil
  then show ?case by (simp add: after_streak_def)
next
  case (Cons e evs)
  obtain dt out where e: "e = (dt, out)" by (cases e)
  let ?s = "(fst w)\<lparr>now := now (fst w) + dt\<rparr>" and ?rd = "(snd w)\<lparr>rd_now := rd_now (snd w) + dt\<rparr>"
  have dt: "0 \<le> dt" "0 \<le> sum_list (map fst evs)"
    using Cons.prems(4) e by (auto intro!: sum_list_nonneg)
  have rd: "failure_streak i t0 c ?rd" "t0 \<le> rd_now ?rd" "rd_now ?rd < t0 + COUNTER_TTL"
    using Cons.prems dt e by (simp_all add: failure_streak_def)
  have st: "instance_status org i ?s = instance_status org i (fst w)" by (simp add: instance_status_def)
  show ?case
  proof (cases out)
    case StepOk
    let ?w = "(?s, note_success i ?rd)"
    have "note_outcome org i e w = ?w" by (simp add: note_outcome_def e StepOk Let_def)
    moreover have "failure_streak i t0 0 (snd ?w)"
      by (simp add: failure_streak_def note_success_def redis_delete_def)
    ultimately show ?thesis
      using Cons.IH [of 0 ?w] Cons.prems dt st e StepOk
      by (simp add: two_failures_after_ok note_success_def redis_delete_def after_streak_def)
  next
    case (StepFailed a tier)
    let ?w = "snd (note_failure org i None a tier (JObj []) (?s, ?rd))"
    have w: "note_outcome org i e w = ?w" by (simp add: note_outcome_def e StepFailed Let_def)
    have s_some: "instance_status org i ?s \<noteq> None" using Cons.prems(6) st by simp
    note eff = note_failure_effect [OF rd Cons.prems(2) s_some, of None a tier "JObj []"]
    have "instance_status org i (fst (fold (note_outcome org i) evs ?w)) =
        (if two_failures (after_streak (c + 1) (map snd evs)) then Some ''circuit_open'' else instance_status org i (fst ?w))"
      using Cons.prems dt e eff s_some by (intro Cons.IH) auto
    with eff(2) st Cons.prems(2) show ?thesis
      using w by (simp add: e StepFailed two_failures_after_failure)
  qed
qed

lemma open_circuit_refuses:
  assumes "instance_status org i s = Some ''circuit_open''" and "distinct (map ai_id (agent_instances s))"
  shows "\<exists>e. fst (assert_agent_executable cd pcaps org i worker s) = Inl e"
proof (cases "fst (assert_agent_executable cd pcaps org i worker s)")
  case (Inr slug)
  from agent_execution_row [OF this] obtain r where
    r: "r \<in> set (agent_instances s)" "ai_id r = i" "ai_status r \<in> {''active'', ''shadow''}" by blast
  from assms(1) obtain q where "q \<in> set (agent_instances s)" "ai_id q = i" "ai_status q = ''circuit_open''"
    by (auto simp: instance_status_def dest: find_Some_set)
  with r assms(2) show ?thesis by (auto dest: inj_onD simp: distinct_map)
qed simp

lemma instance_ids_kept:
  "map ai_id (agent_instances (fst (note_outcome org i e w))) = map ai_id (agent_instances (fst w))"
  by (cases "snd e")
    (auto simp: note_outcome_def note_failure_def Let_def case_prod_beta open_circuit_instances map_update_where
      split: if_splits)

lemma history_ids_kept:
  "map ai_id (agent_instances (fst (fold (note_outcome org i) evs w))) = map ai_id (agent_instances (fst w))"
  by (induction evs arbitrary: w) (simp_all add: instance_ids_kept)

subsection \<open>Properties\<close>

text \<open>
  C35: the circuit opens exactly on two consecutive failures, and an open circuit stops the agent.
  For an instance that is not open and has no running count, after any history of step outcomes with
  any delays shorter in total than the counter's hour, its status is \<open>circuit_open\<close> if and only if two
  adjacent outcomes failed; and then the execution check refuses it whatever the plan grants.
\<close>

theorem circuit_opens_on_two_failures:
  assumes "instance_status org i s = Some st" "st \<noteq> ''circuit_open''"
    and "distinct (map ai_id (agent_instances s))" "rd_counters rd (counter_key i) = None"
    and "\<forall>e \<in> set evs. 0 \<le> fst e" "sum_list (map fst evs) < COUNTER_TTL"
  shows "let s' = fst (fold (note_outcome org i) evs (s, rd)) in
    (instance_status org i s' = Some ''circuit_open'' \<longleftrightarrow> two_failures (map snd evs)) \<and>
    (two_failures (map snd evs) \<longrightarrow> (\<exists>e. fst (assert_agent_executable cd pcaps org i worker s') = Inl e))"
proof -
  let ?s' = "fst (fold (note_outcome org i) evs (s, rd))"
  have st: "instance_status org i ?s' =
      (if two_failures (map snd evs) then Some ''circuit_open'' else instance_status org i s)"
    using history_status [of i "rd_now rd" 0 "(s, rd)" evs org] assms
    by (simp add: failure_streak_def after_streak_def)
  moreover have "distinct (map ai_id (agent_instances ?s'))"
    using assms(3) by (simp add: history_ids_kept)
  ultimately show ?thesis
    using assms(1,2) open_circuit_refuses [of org i ?s'] by (simp add: Let_def)
qed

definition example_failures :: failure_db where
  "example_failures = entitlement_db.extend example_store \<lparr>incidents = []\<rparr>"

lemma example_failures_instances:
  "agent_instances example_failures = agent_instances example_store"
  by (simp add: example_failures_def entitlement_db.extend_def)

theorem circuit_opens_on_two_failures_witness:
  "instance_status 7 5 (fst (fold (note_outcome 7 5)
     [(seconds 1, StepFailed ''send'' 2), (seconds 1, StepFailed ''send'' 1)] (example_failures, redis_empty)))
     = Some ''circuit_open''"
  using circuit_opens_on_two_failures [of 7 5 example_failures "''shadow''" redis_empty
      "[(seconds 1, StepFailed ''send'' 2), (seconds 1, StepFailed ''send'' 1)]"]
  by (simp add: Let_def instance_status_def example_failures_instances example_store_def redis_empty_def COUNTER_TTL_def)

text \<open>Closing the circuit reactivates the instance, forgets the count and leaves no open circuit incident.\<close>

lemma close_circuit_resumes:
  assumes "instance_status org i s = Some ''circuit_open''"
  shows "instance_status org i (fst (close_circuit org i (s, rd))) = Some ''active''"
    "redis_counter (counter_key i) (snd (close_circuit org i (s, rd))) = 0"
    "\<forall>r \<in> set (incidents (fst (close_circuit org i (s, rd)))).
       in_org_id r = org \<and> in_instance_id r = Some i \<and> in_kind r = ''circuit_open'' \<longrightarrow> in_status r \<noteq> ''open''"
proof -
  obtain r where r: "find (\<lambda>r. ai_org_id r = org \<and> ai_id r = i) (agent_instances s) = Some r"
    "ai_org_id r = org" "ai_id r = i" "ai_status r = ''circuit_open''"
  proof (rule instance_found [of org i s])
    show "instance_status org i s \<noteq> None" using assms by simp
  next
    fix r assume r: "find (\<lambda>r. ai_org_id r = org \<and> ai_id r = i) (agent_instances s) = Some r" "ai_org_id r = org"
      "ai_id r = i" "instance_status org i s = Some (ai_status r)"
    from r(4) assms have "ai_status r = ''circuit_open''" by (metis option.inject)
    with r(1-3) show thesis by (rule that)
  qed
  have "agent_instances (fst (close_circuit org i (s, rd))) =
      update_where (\<lambda>r. ai_org_id r = org \<and> ai_id r = i \<and> ai_status r = ''circuit_open'')
        (\<lambda>r. r\<lparr>ai_status := ''active''\<rparr>) (agent_instances s)"
    by (simp add: close_circuit_def Let_def)
  with r show "instance_status org i (fst (close_circuit org i (s, rd))) = Some ''active''"
    by (simp add: instance_status_def find_update_where)
  show "redis_counter (counter_key i) (snd (close_circuit org i (s, rd))) = 0"
    by (simp add: close_circuit_def Let_def)
  let ?P = "\<lambda>r. in_org_id r = org \<and> in_instance_id r = Some i \<and> in_kind r = ''circuit_open'' \<and> in_status r = ''open''"
  have inc: "incidents (fst (close_circuit org i (s, rd))) = update_where ?P
      (\<lambda>r. r\<lparr>in_status := ''resolved'', in_closed_at := Some (now s)\<rparr>) (incidents (set_org_context org s))"
    by (simp add: close_circuit_def Let_def)
  have "\<not> ?P r" if "r \<in> set (incidents (fst (close_circuit org i (s, rd))))" for r
    by (rule update_where_all [of ?P, OF _ that [unfolded inc]]) simp
  then show "\<forall>r \<in> set (incidents (fst (close_circuit org i (s, rd)))).
       in_org_id r = org \<and> in_instance_id r = Some i \<and> in_kind r = ''circuit_open'' \<longrightarrow> in_status r \<noteq> ''open''"
    by blast
qed

end
