(* ===== verification/Manifest.thy ===== *)
theory Manifest
  imports Failure RateLimits
begin

text \<open>
  Permission manifests (\<open>core/mediation/manifest.py\<close>): compilation of the tool surface as the
  intersection of archetype, pack and tenant grants, signing and verification, and the recompilation
  that pins a manifest on its instance. A manifest is a JSON object, given by its members. Hash,
  signature and base64 are the parameter \<open>C\<close>, as for the execution tokens (with the manifest seed).

  The lemmas show that a compiled manifest grants only tools all levels allow, that every committing
  tool is marked for tier evaluation, and that a verified manifest has the content that was signed.
\<close>

type_synonym jobj = "(string \<times> json) list"

definition MANIFEST_VERSION :: int where "MANIFEST_VERSION = 3"

definition UNTRUSTED_FLAGS :: "string list" where
  "UNTRUSTED_FLAGS = [''web_fetch'', ''file_ingest'', ''forwarded_content'']"

definition NO_TIER_TOOLS :: "string list" where
  "NO_TIER_TOOLS = [''pricing.compute'', ''landing_page.generate'']"

definition manifest_body :: "jobj \<Rightarrow> jobj" where
  "manifest_body m = filter (\<lambda>kv. fst kv \<notin> {''hash'', ''signature''}) m"

definition manifest_hash :: "crypto \<Rightarrow> jobj \<Rightarrow> string" where
  "manifest_hash C m = sha256 C (canonical_json (JObj (manifest_body m)))"

definition is_read_only :: "string \<Rightarrow> bool" where
  "is_read_only name \<longleftrightarrow> ends_with ''.read'' name \<or> ends_with ''.search'' name"

definition grant_name :: "json \<Rightarrow> string option" where
  "grant_name g = (case jget_null g ''name'' of JStr n \<Rightarrow> if n = [] then None else Some n | _ \<Rightarrow> None)"

definition compile_tool :: "json \<Rightarrow> string \<Rightarrow> json" where
  "compile_tool g name =
     JObj ([(''name'', JStr name)] @
       (if is_read_only name \<or> name \<in> set NO_TIER_TOOLS then [(''read_only'', JBool True)]
        else [(''requires_tier_eval'', JBool True)]) @
       (if truthy (jget_null g ''rate_limit'') then [(''rate_limit'', jget_null g ''rate_limit'')] else []) @
       (if truthy (jget_null g ''params_constraints'') then [(''params_constraints'', jget_null g ''params_constraints'')] else []))"

definition granted_names :: "string list \<Rightarrow> string list option \<Rightarrow> json list \<Rightarrow> (json \<times> string) list" where
  "granted_names allowlist tenant_allow tool_grants =
     List.map_filter (\<lambda>g. case grant_name g of None \<Rightarrow> None
       | Some name \<Rightarrow>
           if name \<notin> set allowlist then None
           else (case tenant_allow of None \<Rightarrow> Some (g, name)
             | Some allow \<Rightarrow> if name \<notin> set allow then None else Some (g, name))) tool_grants"

definition compile_manifest :: "uuid \<Rightarrow> uuid \<Rightarrow> string list \<Rightarrow> json list \<Rightarrow> jobj option \<Rightarrow> string list option
    \<Rightarrow> time \<Rightarrow> jobj" where
  "compile_manifest instance_id org_id allowlist tool_grants budgets tenant_allow t =
     (let granted = granted_names allowlist tenant_allow tool_grants in
      [(''manifest_version'', JInt MANIFEST_VERSION),
       (''instance_id'', JId instance_id), (''org_id'', JId org_id),
       (''compiled_at'', JStr (isoformat t)), (''expires_at'', JNull),
       (''tools'', JArr (map (\<lambda>(g, name). compile_tool g name) granted)),
       (''budgets'', JObj (case budgets of None \<Rightarrow> [] | Some b \<Rightarrow> b)),
       (''untrusted_narrowing'', JObj
          [(''on_flags'', JArr (map JStr UNTRUSTED_FLAGS)),
           (''allow'', JArr (map JStr (filter is_read_only (map snd granted))))])])"

definition manifest_sign :: "crypto \<Rightarrow> jobj \<Rightarrow> jobj" where
  "manifest_sign C body =
     (let m = manifest_body body in
      m @ [(''hash'', JStr (''sha256:'' @ manifest_hash C m)),
           (''signature'', JStr (''ed25519:'' @ b64 C (sign C (canonical_json (JObj m)))))])"

definition compile_and_sign :: "crypto \<Rightarrow> uuid \<Rightarrow> uuid \<Rightarrow> string list \<Rightarrow> json list \<Rightarrow> jobj option \<Rightarrow> string list option
    \<Rightarrow> time \<Rightarrow> jobj" where
  "compile_and_sign C i org allowlist tool_grants budgets tenant_allow t =
     manifest_sign C (compile_manifest i org allowlist tool_grants budgets tenant_allow t)"

definition str_field :: "jobj \<Rightarrow> string \<Rightarrow> string" where
  "str_field m k = (case map_of m k of None \<Rightarrow> [] | Some v \<Rightarrow> py_str v)"

definition manifest_verify :: "crypto \<Rightarrow> jobj \<Rightarrow> bool" where
  "manifest_verify C m =
     (let embedded = removeprefix ''sha256:'' (str_field m ''hash'') in
      if embedded = [] \<or> embedded \<noteq> manifest_hash C m then False
      else
        (let sig_field = str_field m ''signature'' in
         if \<not> starts_with ''ed25519:'' sig_field then False
         else (case unb64 C (removeprefix ''ed25519:'' sig_field) of
             None \<Rightarrow> False
           | Some sg \<Rightarrow> check_sig C sg (canonical_json (JObj (manifest_body m))))))"

datatype manifest_error = UnknownInstance uuid

definition recompile_instance :: "crypto \<Rightarrow> uuid \<Rightarrow> uuid \<Rightarrow> (manifest_error, jobj, 'a entitlement_db_scheme) op" where
  "recompile_instance C org i s0 =
     (let s = set_org_context org s0;
          own = (\<lambda>r. rls_visible s (ai_org_id r) \<and> ai_id r = i \<and> ai_org_id r = org \<and> grants_of s r \<noteq> None) in
      case find own (agent_instances s) of
        None \<Rightarrow> (Inl (UnknownInstance i), s)
      | Some r \<Rightarrow>
          (let (b, a) = the (grants_of s r);
               m = compile_and_sign C i org (aa_capability_allowlist a) (ab_tool_grants b)
                     (Some (ai_budget_caps r)) None (now s)
           in (Inr m, s\<lparr>agent_instances := update_where (\<lambda>r. rls_visible s (ai_org_id r) \<and> ai_id r = i)
                          (\<lambda>r. r\<lparr>ai_permission_manifest := JObj m\<rparr>) (agent_instances s)\<rparr>)))"

subsection \<open>Lemmas\<close>

definition tool_names :: "jobj \<Rightarrow> string set" where
  "tool_names m = {n. \<exists>ts g. map_of m ''tools'' = Some (JArr ts) \<and> g \<in> set ts \<and> jget g ''name'' = Some (JStr n)}"

lemma granted_names_sound:
  "(g, n) \<in> set (granted_names allowlist tenant_allow grants) \<Longrightarrow>
     g \<in> set grants \<and> grant_name g = Some n \<and> n \<in> set allowlist \<and> (\<forall>allow. tenant_allow = Some allow \<longrightarrow> n \<in> set allow)"
  unfolding granted_names_def
  by (induction grants) (auto simp: List.map_filter_simps split: option.splits if_splits)

lemma manifest_body_idem [simp]: "manifest_body (manifest_body m) = manifest_body m"
  by (simp add: manifest_body_def)

lemma map_of_manifest_body:
  "k \<noteq> ''hash'' \<Longrightarrow> k \<noteq> ''signature'' \<Longrightarrow> map_of (manifest_body m) k = map_of m k"
  unfolding manifest_body_def by (rule map_of_filter_fst) simp

lemma manifest_sign_body [simp]: "manifest_body (manifest_sign C m) = manifest_body m"
  by (simp add: manifest_sign_def Let_def) (simp add: manifest_body_def)

lemma map_of_manifest_sign:
  "k \<noteq> ''hash'' \<Longrightarrow> k \<noteq> ''signature'' \<Longrightarrow> map_of (manifest_sign C m) k = map_of m k"
  by (metis map_of_manifest_body manifest_sign_body)

lemma compile_manifest_tools:
  "map_of (compile_manifest i org allowlist grants budgets ta t) ''tools'' =
     Some (JArr (map (\<lambda>(g, n). compile_tool g n) (granted_names allowlist ta grants)))"
  by (simp add: compile_manifest_def Let_def)

lemma compile_tool_name [simp]: "jget (compile_tool g n) ''name'' = Some (JStr n)"
  by (simp add: compile_tool_def)

lemma compile_tool_tier:
  "jget (compile_tool g n) ''requires_tier_eval'' = Some (JBool True) \<longleftrightarrow> \<not> is_read_only n \<and> n \<notin> set NO_TIER_TOOLS"
  by (simp add: compile_tool_def)

lemma no_hash_in_body: "map_of (manifest_body m) ''hash'' = None" "map_of (manifest_body m) ''signature'' = None"
  by (auto simp: manifest_body_def map_of_eq_None_iff)

lemma manifest_sign_fields:
  "str_field (manifest_sign C m) ''hash'' = ''sha256:'' @ manifest_hash C m"
  "str_field (manifest_sign C m) ''signature'' = ''ed25519:'' @ b64 C (sign C (canonical_json (JObj (manifest_body m))))"
  by (simp_all add: str_field_def manifest_sign_def Let_def map_add_def no_hash_in_body py_str_def)
    (simp add: manifest_hash_def)

lemma signed_verifies:
  assumes "unb64 C (b64 C (sign C (canonical_json (JObj (manifest_body m))))) =
      Some (sign C (canonical_json (JObj (manifest_body m))))"
    and "check_sig C (sign C (canonical_json (JObj (manifest_body m)))) (canonical_json (JObj (manifest_body m)))"
    and "manifest_hash C m \<noteq> []"
  shows "manifest_verify C (manifest_sign C m)"
proof -
  have h: "manifest_hash C (manifest_sign C m) = manifest_hash C m"
    by (simp add: manifest_hash_def)
  show ?thesis
    using assms unfolding manifest_verify_def Let_def manifest_sign_fields h
    by (simp add: removeprefix_def starts_with_def)
qed

lemma verified_signature:
  "manifest_verify C m \<Longrightarrow> \<exists>sg. check_sig C sg (canonical_json (JObj (manifest_body m)))"
  by (auto simp: manifest_verify_def Let_def split: if_splits option.splits)

definition tier_tools :: "jobj \<Rightarrow> string set" where
  "tier_tools m = {n. \<exists>ts g. map_of m ''tools'' = Some (JArr ts) \<and> g \<in> set ts \<and> jget g ''name'' = Some (JStr n) \<and>
     jget g ''requires_tier_eval'' = Some (JBool True)}"

definition narrowing_allow :: "jobj \<Rightarrow> string set" where
  "narrowing_allow m = {n. \<exists>xs. jget (JObj m) ''untrusted_narrowing'' = Some (JObj xs) \<and>
     (\<exists>ns. map_of xs ''allow'' = Some (JArr ns) \<and> JStr n \<in> set ns)}"

lemma snd_granted_names:
  "snd ` set (granted_names allowlist ta grants) =
     {n \<in> set allowlist. (\<exists>g \<in> set grants. grant_name g = Some n) \<and> (case ta of None \<Rightarrow> True | Some al \<Rightarrow> n \<in> set al)}"
  unfolding granted_names_def
  by (induction grants) (auto simp: List.map_filter_simps split: option.splits if_splits)

lemma signed_tools:
  "map_of (compile_and_sign C i org allowlist grants budgets ta t) ''tools'' =
     Some (JArr (map (\<lambda>(g, n). compile_tool g n) (granted_names allowlist ta grants)))"
  by (simp add: compile_and_sign_def map_of_manifest_sign compile_manifest_tools)

lemma signed_narrowing:
  "map_of (compile_and_sign C i org allowlist grants budgets ta t) ''untrusted_narrowing'' =
     Some (JObj [(''on_flags'', JArr (map JStr UNTRUSTED_FLAGS)),
       (''allow'', JArr (map JStr (filter is_read_only (map snd (granted_names allowlist ta grants)))))])"
  by (simp add: compile_and_sign_def map_of_manifest_sign) (simp add: compile_manifest_def Let_def)

subsection \<open>Properties\<close>

text \<open>
  A compiled manifest is exactly the intersection of the three grant levels. The tools it names
  are those the archetype allows, the pack grants and the tenant (if it narrows) keeps; exactly those
  that are neither read-only nor internal computations must pass the tier gate; and under untrusted
  content exactly the read-only ones remain.
\<close>

theorem manifest_is_grant_intersection:
  "let m = compile_and_sign C i org allowlist grants budgets ta t in
   tool_names m = {n \<in> set allowlist. (\<exists>g \<in> set grants. grant_name g = Some n) \<and>
      (case ta of None \<Rightarrow> True | Some al \<Rightarrow> n \<in> set al)} \<and>
   tier_tools m = {n \<in> tool_names m. \<not> is_read_only n \<and> n \<notin> set NO_TIER_TOOLS} \<and>
   narrowing_allow m = {n \<in> tool_names m. is_read_only n}"
proof -
  let ?m = "compile_and_sign C i org allowlist grants budgets ta t"
  let ?gs = "granted_names allowlist ta grants"
  have names: "tool_names ?m = snd ` set ?gs"
    by (auto simp: tool_names_def signed_tools image_iff) force+
  moreover have "tier_tools ?m = {n \<in> snd ` set ?gs. \<not> is_read_only n \<and> n \<notin> set NO_TIER_TOOLS}"
    unfolding tier_tools_def signed_tools
    by (auto simp: compile_tool_tier image_iff simp del: jget.simps) force+
  moreover have "narrowing_allow ?m = {n \<in> snd ` set ?gs. is_read_only n}"
    by (auto simp: narrowing_allow_def signed_narrowing)
  ultimately show ?thesis by (simp add: Let_def snd_granted_names)
qed


text \<open>A signature scheme that has signed one manifest.\<close>

definition one_manifest :: jobj where
  "one_manifest = compile_manifest 5 7 [''messages.send''] [JObj [(''name'', JStr ''messages.send'')]] None None 0"

definition one_crypto :: crypto where
  "one_crypto = \<lparr>sha256 = \<lambda>x. ''h'' @ x, sign = \<lambda>b. b @ ''!'',
     check_sig = \<lambda>sg b. sg = b @ ''!'' \<and> b = canonical_json (JObj (manifest_body one_manifest)),
     b64 = dotless, unb64 = \<lambda>x. Some (undotless x), loads = \<lambda>_. None\<rparr>"


end
