(* ===== verification/Proxy.thy ===== *)
theory Proxy
  imports Manifest
begin

text \<open>
  The mediation proxy (\<open>core/mediation/proxy.py\<close>), the only path from a model's tool call to a tool
  implementation, with the commercial classification of tools (\<open>core/mediation/tools.py\<close>). A call
  works on the pair of the session and Redis. The implementations are the argument \<open>registry\<close>: each
  maps the parameters, the audit id and the state to its output, or to the name of the exception it
  raised. \<open>platform\<close> holds what is not under \<open>src/\<close>: cryptography, the CEL engine, the zone database,
  JSON-Schema validation (\<open>None\<close> for valid, else the message), pydantic, and the packs' capabilities.

  The lemmas show that an implementation is consulted only when every gate of the chain admits the
  call, with the audit intent already written.
\<close>

record platform =
  pf_crypto :: crypto
  pf_cel :: cel
  pf_tod :: "string \<Rightarrow> time \<Rightarrow> int option"
  pf_jsonschema :: "json \<Rightarrow> jobj \<Rightarrow> string option"
  pf_codec :: plan_codec
  pf_pack_caps :: "Capability list"

definition MAX_MANIFEST_VIOLATIONS :: int where "MAX_MANIFEST_VIOLATIONS = 3"

record RunContext =
  rx_org_id :: uuid
  rx_run_id :: uuid
  rx_instance_id :: uuid
  rx_manifest :: jobj
  rx_manifest_hash :: string
  rx_untrusted :: bool
  rx_actor_id :: "uuid option"
  rx_approved :: "string list"
  rx_communication_mode :: CommunicationMode

record ToolError =
  te_code :: string
  te_message :: string
  te_recoverable :: bool

record ApprovalPending =
  pn_tier :: int
  pn_reason :: string

record ToolResult =
  tr_ok :: bool
  tr_output :: json
  tr_error :: "ToolError option"
  tr_pending :: "ApprovalPending option"
  tr_audit_id :: "uuid option"

text \<open>What can leave the proxy as an exception: an aborted run, or a malformed manifest or parameter.\<close>

datatype proxy_exn = RunAborted uuid int | EngineRaised policy_error | MalformedGrant

definition tool_failed :: "string \<Rightarrow> string \<Rightarrow> ToolResult" where
  "tool_failed code msg = \<lparr>tr_ok = False, tr_output = JNull,
     tr_error = Some \<lparr>te_code = code, te_message = msg, te_recoverable = True\<rparr>,
     tr_pending = None, tr_audit_id = None\<rparr>"

subsection \<open>The checks\<close>

definition json_list :: "json option \<Rightarrow> json list" where
  "json_list v = (case v of Some (JArr xs) \<Rightarrow> xs | _ \<Rightarrow> [])"

definition grant_covers :: "string \<Rightarrow> json \<Rightarrow> bool" where
  "grant_covers tool g = (case jget g ''name'' of
       Some (JStr name) \<Rightarrow> name = tool \<or> (ends_with ''.*'' name \<and> starts_with (butlast name) tool)
     | _ \<Rightarrow> False)"

definition find_tool_grant :: "jobj \<Rightarrow> string \<Rightarrow> json option" where
  "find_tool_grant m tool = find (grant_covers tool) (json_list (map_of m ''tools''))"

text \<open>\<open>str\<close> of a list of keys (without quotes inside them).\<close>

fun list_repr_items :: "string list \<Rightarrow> string" where
  "list_repr_items [] = []"
| "list_repr_items [x] = CHR 0x27 # x @ [CHR 0x27]"
| "list_repr_items (x # xs) = CHR 0x27 # x @ [CHR 0x27] @ '', '' @ list_repr_items xs"

definition list_repr :: "string list \<Rightarrow> string" where
  "list_repr xs = ''['' @ list_repr_items xs @ '']''"

definition validate_params :: "platform \<Rightarrow> json \<Rightarrow> json \<Rightarrow> proxy_exn + string option" where
  "validate_params pf params constraints =
     (if \<not> truthy constraints then Inr None
      else (case constraints of
          JObj kvs \<Rightarrow>
            (let listish = sort (map fst (filter (\<lambda>kv. case snd kv of JArr _ \<Rightarrow> True | _ \<Rightarrow> False) kvs)) in
             if listish \<noteq> [] then
               Inr (Some (''params_constraints '' @ list_repr listish @
                 '' are written as bare lists, which enforce nothing; write them as {\"<param>\": {\"enum\": [...]}}''))
             else
               (let schema_props = filter (\<lambda>kv. case snd kv of JObj _ \<Rightarrow> True | _ \<Rightarrow> False) kvs in
                if schema_props = [] then Inr None else Inr (pf_jsonschema pf params schema_props)))
        | _ \<Rightarrow> Inl MalformedGrant))"

definition engine_tier :: "platform \<Rightarrow> RunContext \<Rightarrow> string \<Rightarrow> json
    \<Rightarrow> (policy_error, int, 'a entitlement_db_scheme) op" where
  "engine_tier pf ctx tool params s =
     (case evaluate_tool (pf_cel pf) (pf_tod pf) (rx_org_id ctx) (Some (rx_instance_id ctx)) (rx_untrusted ctx)
             tool params (rx_communication_mode ctx) s of
        (Inl e, s') \<Rightarrow> (Inl e, s')
      | (Inr d, s') \<Rightarrow> (Inr (dc_tier d), s'))"

type_synonym 'a world = "'a entitlement_db_scheme \<times> redis"

definition publish_alert :: "string \<Rightarrow> json \<Rightarrow> 'a world \<Rightarrow> 'a world" where
  "publish_alert kind detail w =
     (case w of (s, rd) \<Rightarrow>
        (s\<lparr>fresh := fresh s + 1\<rparr>,
         xadd ALERT_STREAM (alert_envelope (fresh s) ''gop/mediation'' (now s) kind detail) rd))"

definition audit_call :: "platform \<Rightarrow> RunContext \<Rightarrow> string \<Rightarrow> json \<Rightarrow> 'a entitlement_db_scheme
    \<Rightarrow> uuid \<times> 'a entitlement_db_scheme" where
  "audit_call pf ctx action payload s =
     (case audit_write (sha256 (pf_crypto pf))
        \<lparr>ae_org_id = rx_org_id ctx, ae_actor_type = ''agent'', ae_action = action,
         ae_actor_id = Some (nat_str (rx_instance_id ctx)), ae_resource = Some (nat_str (rx_run_id ctx)),
         ae_payload = payload, ae_trace_id = None,
         ae_permission_manifest_hash = Some (rx_manifest_hash ctx)\<rparr> s of
        (aid, s') \<Rightarrow> (aid_id aid, s'))"

definition violations_key :: "uuid \<Rightarrow> string" where
  "violations_key run = ''gop:run:'' @ nat_str run @ '':violations''"

definition manifest_denied :: "platform \<Rightarrow> RunContext \<Rightarrow> string \<Rightarrow> string \<Rightarrow> 'a world
    \<Rightarrow> (proxy_exn + ToolResult) \<times> 'a world" where
  "manifest_denied pf ctx tool reason w =
     (case w of (s, rd) \<Rightarrow>
       (let s1 = snd (audit_call pf ctx (''tool.'' @ tool @ '':denied'') (JObj [(''reason'', JStr reason)]) s);
            (s2, rd2) = publish_alert ''manifest_violation''
               (JObj [(''run_id'', JId (rx_run_id ctx)), (''tool'', JStr tool), (''reason'', JStr reason)]) (s1, rd);
            (count, rd3) = redis_incrby (violations_key (rx_run_id ctx)) 1 rd2
        in if MAX_MANIFEST_VIOLATIONS \<le> count then (Inl (RunAborted (rx_run_id ctx) count), s2, rd3)
           else (Inr (tool_failed ''permission_denied_manifest'' (tool @ '': '' @ reason)), s2, rd3)))"

subsection \<open>Commercial authority\<close>

definition TOOL_CAPABILITY :: "(string \<times> string) list" where
  "TOOL_CAPABILITY =
     [(''catalog.search'', ''catalog''),
      (''pricing.compute'', ''catalog''),
      (''messages.send'', ''conversations''),
      (''landing_page.generate'', ''landing_pages''),
      (''landing_page.publish'', ''landing_pages'')]"

definition TOOL_PLAN_EXEMPT :: "string list" where
  "TOOL_PLAN_EXEMPT = [''ledger.read'', ''calendar.book'', ''crm.read'', ''crm.write'']"

fun refusal_text :: "agent_refusal \<Rightarrow> string" where
  "refusal_text ForeignInstance = ''agent not executable: unknown or foreign agent instance''"
| "refusal_text (ArchetypeNotInPlan _) = ''agent not executable: archetype is not included in the current plan''"
| "refusal_text (CapabilityNotInPlan c _) =
     ''agent not executable: capability '' @ c @ '' is not included in the current plan''"
| "refusal_text (OperationalStatus st _) = ''agent not executable: operational status is '' @ st"

definition commercial_denial :: "platform \<Rightarrow> RunContext \<Rightarrow> string \<Rightarrow> 'a entitlement_db_scheme
    \<Rightarrow> ToolResult option \<times> 'a entitlement_db_scheme" where
  "commercial_denial pf ctx tool s =
     (case assert_agent_executable (pf_codec pf) (pf_pack_caps pf) (rx_org_id ctx) (rx_instance_id ctx) None s of
        (Inl e, s1) \<Rightarrow> (Some (tool_failed ''permission_denied_manifest'' (refusal_text e)), s1)
      | (Inr _, s1) \<Rightarrow>
          (case map_of TOOL_CAPABILITY tool of
             None \<Rightarrow>
               if tool \<in> set TOOL_PLAN_EXEMPT then (None, s1)
               else (Some (tool_failed ''permission_denied_manifest'' (tool @ '' has no commercial classification'')), s1)
           | Some cap \<Rightarrow>
               (case is_entitled (pf_codec pf) (pf_pack_caps pf) (Some (rx_org_id ctx)) cap s1 of (held, s2) \<Rightarrow>
                  if \<not> held then
                    (Some (tool_failed ''permission_denied_manifest'' (cap @ '' is not included in this plan'')), s2)
                  else (None, s2))))"

subsection \<open>The call\<close>

type_synonym 'a tool_impl = "json \<Rightarrow> uuid \<Rightarrow> 'a world \<Rightarrow> (string + json) \<times> 'a world"

text \<open>\<open>permission_manifest ->> 'hash'\<close> of the instance, as the session sees it.\<close>

definition current_hash_of :: "uuid \<Rightarrow> 'a entitlement_db_scheme \<Rightarrow> string option" where
  "current_hash_of inst s =
     (case find (\<lambda>r. rls_visible s (ai_org_id r) \<and> ai_id r = inst) (agent_instances s) of None \<Rightarrow> None
      | Some r \<Rightarrow> (case jget_null (ai_permission_manifest r) ''hash'' of JNull \<Rightarrow> None | JStr h \<Rightarrow> Some h
          | v \<Rightarrow> Some (jprint v)))"

definition redact :: "json \<Rightarrow> json" where
  "redact params = JObj [(''keys'', JArr (map JStr (sort (case params of JObj kvs \<Rightarrow> map fst kvs | _ \<Rightarrow> []))))]"

text \<open>\<open>(grant.get("rate_limit") or {}).get("per_min")\<close>\<close>

definition per_min_of :: "json \<Rightarrow> proxy_exn + int option" where
  "per_min_of g =
     (let rl = jget_null g ''rate_limit'' in
      case jget_null (if truthy rl then rl else JObj []) ''per_min'' of
        JNull \<Rightarrow> Inr None | JInt n \<Rightarrow> Inr (Some n) | _ \<Rightarrow> Inl MalformedGrant)"

definition narrowed :: "RunContext \<Rightarrow> string \<Rightarrow> redis \<Rightarrow> bool" where
  "narrowed ctx tool rd \<longleftrightarrow> (rx_untrusted ctx \<or> is_untrusted (rx_run_id ctx) rd) \<and>
     JStr tool \<notin> set (json_list (jget (case map_of (rx_manifest ctx) ''untrusted_narrowing'' of None \<Rightarrow> JObj [] | Some v \<Rightarrow> v)
        ''allow''))"

text \<open>Steps 8 to 10: the audit intent, the implementation, the untrusted mark.\<close>

definition execute_tool :: "platform \<Rightarrow> (string \<Rightarrow> 'a tool_impl option) \<Rightarrow> RunContext \<Rightarrow> string \<Rightarrow> json \<Rightarrow> 'a world
    \<Rightarrow> (proxy_exn + ToolResult) \<times> 'a world" where
  "execute_tool pf registry ctx tool params w =
     (case w of (s, rd) \<Rightarrow>
       (case audit_call pf ctx (''tool.'' @ tool @ '':intent'') (JObj [(''params'', redact params)]) s of (audit_id, s1) \<Rightarrow>
          (case registry tool of
             None \<Rightarrow> (Inr ((tool_failed ''provider_unavailable'' (tool @ '' not wired''))\<lparr>tr_audit_id := Some audit_id\<rparr>), s1, rd)
           | Some impl \<Rightarrow>
               (case impl params audit_id (s1, rd) of
                  (Inl exn, w1) \<Rightarrow>
                    (Inr ((tool_failed ''provider_unavailable'' (tool @ '' failed: '' @ exn))\<lparr>tr_audit_id := Some audit_id\<rparr>), w1)
                | (Inr out, s2, rd2) \<Rightarrow>
                    (Inr \<lparr>tr_ok = True, tr_output = out, tr_error = None, tr_pending = None, tr_audit_id = Some audit_id\<rparr>,
                     s2, if result_is_untrusted tool out then mark_untrusted (rx_run_id ctx) rd2 else rd2)))))"

text \<open>Steps 7b onward: commercial authority, a refusal of which is audited.\<close>

definition authorise_and_execute :: "platform \<Rightarrow> (string \<Rightarrow> 'a tool_impl option) \<Rightarrow> RunContext \<Rightarrow> string \<Rightarrow> json
    \<Rightarrow> 'a world \<Rightarrow> (proxy_exn + ToolResult) \<times> 'a world" where
  "authorise_and_execute pf registry ctx tool params w =
     (case w of (s, rd) \<Rightarrow>
       (case commercial_denial pf ctx tool s of
          (Some denial, s1) \<Rightarrow>
            (let reason = (case tr_error denial of Some e \<Rightarrow> te_message e | None \<Rightarrow> ''denied'') in
             (Inr denial,
              snd (audit_call pf ctx (''tool.'' @ tool @ '':denied'') (JObj [(''reason'', JStr reason)]) s1), rd))
        | (None, s1) \<Rightarrow> execute_tool pf registry ctx tool params (s1, rd)))"

text \<open>Step 7: the tier, by the live policy engine or the evaluator passed.\<close>

definition tier_step :: "platform \<Rightarrow> (string \<Rightarrow> 'a tool_impl option) \<Rightarrow> (RunContext \<Rightarrow> string \<Rightarrow> json \<Rightarrow> int) option
    \<Rightarrow> RunContext \<Rightarrow> string \<Rightarrow> json \<Rightarrow> json \<Rightarrow> 'a world \<Rightarrow> (proxy_exn + ToolResult) \<times> 'a world" where
  "tier_step pf registry tier_eval ctx tool params grant w =
     (case w of (s, rd) \<Rightarrow>
        if truthy (jget_null grant ''requires_tier_eval'') \<and> tool \<notin> set (rx_approved ctx) then
          (case (case tier_eval of Some f \<Rightarrow> (Inr (f ctx tool params), s) | None \<Rightarrow> engine_tier pf ctx tool params s) of
             (Inl e, s1) \<Rightarrow> (Inl (EngineRaised e), s1, rd)
           | (Inr tier, s1) \<Rightarrow>
               if 2 \<le> tier then
                 (Inr \<lparr>tr_ok = False, tr_output = JNull, tr_error = None,
                       tr_pending = Some \<lparr>pn_tier = tier, pn_reason = tool @ '' needs approval''\<rparr>, tr_audit_id = None\<rparr>, s1, rd)
               else authorise_and_execute pf registry ctx tool params (s1, rd))
        else authorise_and_execute pf registry ctx tool params w)"

text \<open>Step 6: the daily send budget.\<close>

definition budget_denied :: "string \<Rightarrow> int \<Rightarrow> ToolResult" where
  "budget_denied kind cap = \<lparr>tr_ok = False, tr_output = JNull,
     tr_error = Some \<lparr>te_code = ''budget_exceeded'', te_message = kind @ '' '' @ int_str cap @ ''/day exhausted'',
                      te_recoverable = False\<rparr>,
     tr_pending = None, tr_audit_id = None\<rparr>"

definition budget_step :: "platform \<Rightarrow> (string \<Rightarrow> 'a tool_impl option) \<Rightarrow> (RunContext \<Rightarrow> string \<Rightarrow> json \<Rightarrow> int) option
    \<Rightarrow> RunContext \<Rightarrow> string \<Rightarrow> json \<Rightarrow> json \<Rightarrow> 'a world \<Rightarrow> (proxy_exn + ToolResult) \<times> 'a world" where
  "budget_step pf registry tier_eval ctx tool params grant w =
     (case budget_breach (case map_of (rx_manifest ctx) ''budgets'' of None \<Rightarrow> JObj [] | Some b \<Rightarrow> b) of
        None \<Rightarrow> tier_step pf registry tier_eval ctx tool params grant w
      | Some (_, None) \<Rightarrow> (Inl MalformedGrant, w)
      | Some (kind, Some cap) \<Rightarrow>
          if tool = ''messages.send'' \<and>
             \<not> check_budget (rx_instance_id ctx) kind (Some cap) (rd_now (snd w)) (snd w)
          then (Inr (budget_denied kind cap), w)
          else tier_step pf registry tier_eval ctx tool params grant w)"

text \<open>Steps 4 and 5: the parameter constraints and the rate window of the grant found.\<close>

definition gated :: "platform \<Rightarrow> (string \<Rightarrow> 'a tool_impl option) \<Rightarrow> (RunContext \<Rightarrow> string \<Rightarrow> json \<Rightarrow> int) option
    \<Rightarrow> RunContext \<Rightarrow> string \<Rightarrow> json \<Rightarrow> json \<Rightarrow> 'a world \<Rightarrow> (proxy_exn + ToolResult) \<times> 'a world" where
  "gated pf registry tier_eval ctx tool params grant w =
     (case validate_params pf params (jget_null grant ''params_constraints'') of
        Inl x \<Rightarrow> (Inl x, w)
      | Inr (Some msg) \<Rightarrow> (Inr (tool_failed ''config_schema_violation'' msg), w)
      | Inr None \<Rightarrow>
          (case per_min_of grant of
             Inl x \<Rightarrow> (Inl x, w)
           | Inr per_min \<Rightarrow>
               (case check_rate (rx_instance_id ctx) tool per_min (rd_now (snd w)) (snd w) of (within, rd1) \<Rightarrow>
                  if \<not> within then (Inr (tool_failed ''rate_limited'' (tool @ '' rate exceeded'')), fst w, rd1)
                  else budget_step pf registry tier_eval ctx tool params grant (fst w, rd1))))"

definition call :: "platform \<Rightarrow> (string \<Rightarrow> 'a tool_impl option) \<Rightarrow> (RunContext \<Rightarrow> string \<Rightarrow> json \<Rightarrow> int) option
    \<Rightarrow> RunContext \<Rightarrow> string \<Rightarrow> json \<Rightarrow> 'a world \<Rightarrow> (proxy_exn + ToolResult) \<times> 'a world" where
  "call pf registry tier_eval ctx tool params w =
     (if rx_manifest_hash ctx \<noteq> manifest_hash (pf_crypto pf) (rx_manifest ctx) \<or> \<not> manifest_verify (pf_crypto pf) (rx_manifest ctx)
      then manifest_denied pf ctx tool ''manifest integrity failed'' w
      else if (case current_hash_of (rx_instance_id ctx) (fst w) of None \<Rightarrow> False
                | Some h \<Rightarrow> h \<noteq> ''sha256:'' @ rx_manifest_hash ctx)
      then manifest_denied pf ctx tool ''stale manifest (recompile)'' w
      else (case find_tool_grant (rx_manifest ctx) tool of
          None \<Rightarrow> manifest_denied pf ctx tool ''tool not in manifest'' w
        | Some grant \<Rightarrow>
            if narrowed ctx tool (snd w) then manifest_denied pf ctx tool ''narrowed under untrusted'' w
            else gated pf registry tier_eval ctx tool params grant w))"

subsection \<open>What a consulted implementation implies\<close>

lemma commercial_denial_None:
  assumes "commercial_denial pf ctx tool s = (None, s1)"
  shows "(\<exists>slug. fst (assert_agent_executable (pf_codec pf) (pf_pack_caps pf) (rx_org_id ctx) (rx_instance_id ctx) None s) = Inr slug)
    \<and> (case map_of TOOL_CAPABILITY tool of None \<Rightarrow> tool \<in> set TOOL_PLAN_EXEMPT
       | Some cap \<Rightarrow> cap \<in> ee_capabilities (fst (resolve_entitlements (pf_codec pf) (pf_pack_caps pf) (rx_org_id ctx) s)))"
proof -
  let ?a = "assert_agent_executable (pf_codec pf) (pf_pack_caps pf) (rx_org_id ctx) (rx_instance_id ctx) None s"
  obtain r s2 where a: "?a = (r, s2)" by fastforce
  obtain slug where r: "r = Inr slug" using assms a by (cases r) (auto simp: commercial_denial_def)
  have "s2 = set_org_context (rx_org_id ctx) s" using assert_agent_state a by (metis snd_conv)
  then have "is_entitled (pf_codec pf) (pf_pack_caps pf) (Some (rx_org_id ctx)) cap s2 =
      (cap \<in> ee_capabilities (fst (resolve_entitlements (pf_codec pf) (pf_pack_caps pf) (rx_org_id ctx) s)), s2)" for cap
    by (intro prod_eqI) (simp_all add: is_entitled_fst)
  then show ?thesis
    using assms a r by (auto simp: commercial_denial_def split: option.splits if_splits)
qed

text \<open>
  A step of the chain either ignores the registry, or it is the execution step at a state that
  differs from the first one only in the session's tenant context and in Redis, and then the
  condition it checks holds.
\<close>

definition executes_at :: "platform \<Rightarrow> RunContext \<Rightarrow> string \<Rightarrow> json \<Rightarrow> 'a world
    \<Rightarrow> ((string \<Rightarrow> 'a tool_impl option) \<Rightarrow> (proxy_exn + ToolResult) \<times> 'a world) \<Rightarrow> bool" where
  "executes_at pf ctx tool params w f \<longleftrightarrow>
     (\<exists>rd1. \<forall>R. f R = execute_tool pf R ctx tool params (set_org_context (rx_org_id ctx) (fst w), rd1))"

definition ignores :: "('r \<Rightarrow> 'b) \<Rightarrow> bool" where
  "ignores f \<longleftrightarrow> (\<forall>R R'. f R = f R')"

lemma ignores_const [simp]: "ignores (\<lambda>R. x)"
  by (simp add: ignores_def)

definition commercially_admitted :: "platform \<Rightarrow> RunContext \<Rightarrow> string \<Rightarrow> 'a entitlement_db_scheme \<Rightarrow> bool" where
  "commercially_admitted pf ctx tool s \<longleftrightarrow>
     (\<exists>slug. fst (assert_agent_executable (pf_codec pf) (pf_pack_caps pf) (rx_org_id ctx) (rx_instance_id ctx) None s) = Inr slug)
     \<and> (case map_of TOOL_CAPABILITY tool of None \<Rightarrow> tool \<in> set TOOL_PLAN_EXEMPT
        | Some cap \<Rightarrow> cap \<in> ee_capabilities (fst (resolve_entitlements (pf_codec pf) (pf_pack_caps pf) (rx_org_id ctx) s)))"

definition tier_admitted :: "platform \<Rightarrow> (RunContext \<Rightarrow> string \<Rightarrow> json \<Rightarrow> int) option \<Rightarrow> RunContext \<Rightarrow> string \<Rightarrow> json
    \<Rightarrow> json \<Rightarrow> 'a entitlement_db_scheme \<Rightarrow> bool" where
  "tier_admitted pf tier_eval ctx tool params grant s \<longleftrightarrow>
     \<not> truthy (jget_null grant ''requires_tier_eval'') \<or> tool \<in> set (rx_approved ctx) \<or>
     (case tier_eval of Some f \<Rightarrow> f ctx tool params < 2
      | None \<Rightarrow> (case fst (engine_tier pf ctx tool params s) of Inl _ \<Rightarrow> False | Inr tier \<Rightarrow> tier < 2))"

lemma commercial_denial_state: "snd (commercial_denial pf ctx tool s) = set_org_context (rx_org_id ctx) s"
proof -
  let ?a = "assert_agent_executable (pf_codec pf) (pf_pack_caps pf) (rx_org_id ctx) (rx_instance_id ctx) None s"
  obtain r s2 where a: "?a = (r, s2)" by fastforce
  then have "s2 = set_org_context (rx_org_id ctx) s" using assert_agent_state by (metis snd_conv)
  with a show ?thesis
    by (auto simp: commercial_denial_def case_prod_beta split: sum.split option.split)
qed

lemma commercially_admitted_context [simp]:
  "commercially_admitted pf ctx tool (set_org_context org s) = commercially_admitted pf ctx tool s"
  by (simp add: commercially_admitted_def cong: option.case_cong)

lemma authorise_cases:
  "ignores (\<lambda>R. authorise_and_execute pf R ctx tool params (s, rd)) \<or>
   commercially_admitted pf ctx tool s \<and> executes_at pf ctx tool params (s, rd) (\<lambda>R. authorise_and_execute pf R ctx tool params (s, rd))"
proof (cases "commercial_denial pf ctx tool s")
  case (Pair d s1)
  then have s1: "s1 = set_org_context (rx_org_id ctx) s" using commercial_denial_state by (metis snd_conv)
  show ?thesis
  proof (cases d)
    case None
    with Pair have "commercially_admitted pf ctx tool s"
      using commercial_denial_None [of pf ctx tool s s1] unfolding commercially_admitted_def by simp
    moreover have "executes_at pf ctx tool params (s, rd) (\<lambda>R. authorise_and_execute pf R ctx tool params (s, rd))"
      unfolding executes_at_def by (intro exI [of _ rd]) (simp add: authorise_and_execute_def Pair None s1)
    ultimately show ?thesis by blast
  next
    case (Some r)
    then show ?thesis by (simp add: authorise_and_execute_def Pair)
  qed
qed

lemma executes_at_trans:
  "executes_at pf ctx tool params (s1, rd1) f \<Longrightarrow> s1 \<in> {s, set_org_context (rx_org_id ctx) s} \<Longrightarrow>
   executes_at pf ctx tool params (s, rd) f"
  unfolding executes_at_def by auto

lemma engine_tier_state: "snd (engine_tier pf ctx tool params s) = set_org_context (rx_org_id ctx) s"
  by (simp add: engine_tier_def evaluate_tool_def Let_def split: sum.split)

lemma tier_cases:
  "ignores (\<lambda>R. tier_step pf R te ctx tool params grant (s, rd)) \<or>
   tier_admitted pf te ctx tool params grant s \<and> commercially_admitted pf ctx tool s \<and>
   executes_at pf ctx tool params (s, rd) (\<lambda>R. tier_step pf R te ctx tool params grant (s, rd))"
proof (cases "truthy (jget_null grant ''requires_tier_eval'') \<and> tool \<notin> set (rx_approved ctx)")
  case False
  then have "(\<lambda>R. tier_step pf R te ctx tool params grant (s, rd)) = (\<lambda>R. authorise_and_execute pf R ctx tool params (s, rd))"
    by (auto simp: tier_step_def)
  with False authorise_cases [of pf ctx tool params s rd] show ?thesis by (auto simp: tier_admitted_def)
next
  case True
  define d where "d = (case te of Some f \<Rightarrow> (Inr (f ctx tool params), s) | None \<Rightarrow> engine_tier pf ctx tool params s)"
  obtain r s1 where r: "d = (r, s1)" by fastforce
  have s1: "s1 \<in> {s, set_org_context (rx_org_id ctx) s}"
    using r engine_tier_state [of pf ctx tool params s] by (cases te) (auto simp: d_def)
  show ?thesis
  proof (cases "\<exists>t. r = Inr t \<and> t < 2")
    case False
    with True r show ?thesis
      unfolding tier_step_def d_def by (cases r) simp_all
  next
    case admit: True
    then have "(\<lambda>R. tier_step pf R te ctx tool params grant (s, rd)) = (\<lambda>R. authorise_and_execute pf R ctx tool params (s1, rd))"
      using True r unfolding tier_step_def d_def by auto
    moreover have "tier_admitted pf te ctx tool params grant s"
      using admit True r by (cases te) (auto simp: tier_admitted_def d_def)
    moreover have "commercially_admitted pf ctx tool s1 = commercially_admitted pf ctx tool s" using s1 by auto
    ultimately show ?thesis
      using authorise_cases [of pf ctx tool params s1 rd] executes_at_trans [OF _ s1, of pf tool params rd _ rd] by auto
  qed
qed

lemma budget_cases:
  "ignores (\<lambda>R. budget_step pf R te ctx tool params grant (s, rd)) \<or>
   tier_admitted pf te ctx tool params grant s \<and> commercially_admitted pf ctx tool s \<and>
   executes_at pf ctx tool params (s, rd) (\<lambda>R. budget_step pf R te ctx tool params grant (s, rd))"
proof -
  define breach where "breach = budget_breach (case map_of (rx_manifest ctx) ''budgets'' of None \<Rightarrow> JObj [] | Some b \<Rightarrow> b)"
  let ?f = "\<lambda>R. budget_step pf R te ctx tool params grant (s, rd)"
  consider "breach = None" | k where "breach = Some (k, None)"
    | k c where "breach = Some (k, Some c)" "tool = ''messages.send'' \<and> \<not> check_budget (rx_instance_id ctx) k (Some c) (rd_now rd) rd"
    | k c where "breach = Some (k, Some c)" "\<not> (tool = ''messages.send'' \<and> \<not> check_budget (rx_instance_id ctx) k (Some c) (rd_now rd) rd)"
    by (cases breach) (auto, metis option.exhaust)
  then have "ignores ?f \<or> ?f = (\<lambda>R. tier_step pf R te ctx tool params grant (s, rd))"
  proof cases
    case 4
    then have "budget_step pf R te ctx tool params grant (s, rd) = tier_step pf R te ctx tool params grant (s, rd)" for R
      by (auto simp: budget_step_def breach_def [symmetric])
    then show ?thesis by simp
  qed (simp_all add: budget_step_def breach_def [symmetric] del: not_None_eq)
  with tier_cases [of pf te ctx tool params grant s rd] show ?thesis by auto
qed

lemma gated_cases:
  "ignores (\<lambda>R. gated pf R te ctx tool params grant (s, rd)) \<or>
   tier_admitted pf te ctx tool params grant s \<and> commercially_admitted pf ctx tool s \<and>
   executes_at pf ctx tool params (s, rd) (\<lambda>R. gated pf R te ctx tool params grant (s, rd))"
proof (cases "\<exists>per_min rd1. validate_params pf params (jget_null grant ''params_constraints'') = Inr None \<and>
    per_min_of grant = Inr per_min \<and> check_rate (rx_instance_id ctx) tool per_min (rd_now rd) rd = (True, rd1)")
  case True
  then obtain per_min rd1 where g: "validate_params pf params (jget_null grant ''params_constraints'') = Inr None"
    "per_min_of grant = Inr per_min" "check_rate (rx_instance_id ctx) tool per_min (rd_now rd) rd = (True, rd1)" by blast
  then have "(\<lambda>R. gated pf R te ctx tool params grant (s, rd)) = (\<lambda>R. budget_step pf R te ctx tool params grant (s, rd1))"
    by (simp add: gated_def)
  with budget_cases [of pf te ctx tool params grant s rd1] show ?thesis
    using executes_at_trans [of pf ctx tool params s rd1 _ s rd] by auto
next
  case False
  let ?v = "validate_params pf params (jget_null grant ''params_constraints'')"
  have "ignores (\<lambda>R. gated pf R te ctx tool params grant (s, rd))"
  proof (cases "\<exists>pm. ?v = Inr None \<and> per_min_of grant = Inr pm")
    case True
    then obtain pm where pm: "?v = Inr None" "per_min_of grant = Inr pm" by blast
    obtain ok1 rd1 where c: "check_rate (rx_instance_id ctx) tool pm (rd_now rd) rd = (ok1, rd1)" by fastforce
    with pm False have "\<not> ok1" by auto
    with pm c show ?thesis by (simp add: gated_def)
  next
    case no: False
    consider x where "?v = Inl x" | msg where "?v = Inr (Some msg)" | x where "?v = Inr None" "per_min_of grant = Inl x"
      using no by (metis old.sum.exhaust option.exhaust)
    then show ?thesis by cases (simp_all add: gated_def)
  qed
  then show ?thesis ..
qed

definition gates_open :: "platform \<Rightarrow> (RunContext \<Rightarrow> string \<Rightarrow> json \<Rightarrow> int) option \<Rightarrow> RunContext \<Rightarrow> string \<Rightarrow> json
    \<Rightarrow> 'a world \<Rightarrow> bool" where
  "gates_open pf tier_eval ctx tool params w \<longleftrightarrow>
     rx_manifest_hash ctx = manifest_hash (pf_crypto pf) (rx_manifest ctx) \<and>
     manifest_verify (pf_crypto pf) (rx_manifest ctx) \<and>
     current_hash_of (rx_instance_id ctx) (fst w) \<in> {None, Some (''sha256:'' @ rx_manifest_hash ctx)} \<and>
     \<not> narrowed ctx tool (snd w) \<and>
     (\<exists>grant. find_tool_grant (rx_manifest ctx) tool = Some grant \<and> tier_admitted pf tier_eval ctx tool params grant (fst w)) \<and>
     commercially_admitted pf ctx tool (fst w)"

lemma call_cases:
  "ignores (\<lambda>R. call pf R te ctx tool params w) \<or>
   gates_open pf te ctx tool params w \<and> executes_at pf ctx tool params w (\<lambda>R. call pf R te ctx tool params w)"
proof -
  obtain s rd where w: "w = (s, rd)" by fastforce
  let ?pinned = "rx_manifest_hash ctx = manifest_hash (pf_crypto pf) (rx_manifest ctx) \<and> manifest_verify (pf_crypto pf) (rx_manifest ctx)"
  let ?fresh = "current_hash_of (rx_instance_id ctx) s \<in> {None, Some (''sha256:'' @ rx_manifest_hash ctx)}"
  show ?thesis
  proof (cases "?pinned \<and> ?fresh \<and> \<not> narrowed ctx tool rd \<and> find_tool_grant (rx_manifest ctx) tool \<noteq> None")
    case True
    then obtain grant where g: "find_tool_grant (rx_manifest ctx) tool = Some grant" by blast
    have "(\<lambda>R. call pf R te ctx tool params w) = (\<lambda>R. gated pf R te ctx tool params grant w)"
      using True g by (auto simp: call_def w)
    with gated_cases [of pf te ctx tool params grant s rd] True g show ?thesis
      unfolding gates_open_def w by auto
  next
    case False
    then consider "\<not> ?pinned" | h where "?pinned" "current_hash_of (rx_instance_id ctx) s = Some h" "h \<noteq> ''sha256:'' @ rx_manifest_hash ctx"
      | "?pinned" "?fresh" "find_tool_grant (rx_manifest ctx) tool = None"
      | g where "?pinned" "?fresh" "find_tool_grant (rx_manifest ctx) tool = Some g" "narrowed ctx tool rd"
      by (cases "current_hash_of (rx_instance_id ctx) s"; cases "find_tool_grant (rx_manifest ctx) tool"; blast)
    then have "ignores (\<lambda>R. call pf R te ctx tool params w)"
      by cases (auto simp: call_def w)
    then show ?thesis ..
  qed
qed

subsection \<open>Properties\<close>


text \<open>A store whose plan selects the agent, a signed manifest with one read-only tool, two registries.\<close>

definition example_manifest :: jobj where
  "example_manifest = [(''tools'', JArr [compile_tool (JObj []) ''ledger.read''])]"

definition example_platform :: platform where
  "example_platform = \<lparr>pf_crypto = \<lparr>sha256 = \<lambda>x. ''h'', sign = \<lambda>b. ''s'', check_sig = \<lambda>sg b. sg = ''s'', b64 = \<lambda>x. x,
       unb64 = Some, loads = \<lambda>_. None\<rparr>,
     pf_cel = \<lambda>_ _. None, pf_tod = \<lambda>_ _. None, pf_jsonschema = \<lambda>_ _. None,
     pf_codec = example_codec\<lparr>validate_plan := \<lambda>_. Some (empty_config\<lparr>pc_agents := [''nurture'']\<rparr>)\<rparr>,
     pf_pack_caps = []\<rparr>"

definition example_run :: RunContext where
  "example_run = \<lparr>rx_org_id = 7, rx_run_id = 11, rx_instance_id = 5,
     rx_manifest = manifest_sign (pf_crypto example_platform) example_manifest, rx_manifest_hash = ''h'',
     rx_untrusted = False, rx_actor_id = None, rx_approved = [], rx_communication_mode = Proactive\<rparr>"

definition example_world :: "unit world" where
  "example_world = (example_store\<lparr>billing_plans := [\<lparr>pl_id = 9, pl_name = ''starter'', pl_features = JArr [],
     pl_config = JObj [], pl_max_managers = None, pl_max_staff = None\<rparr>]\<rparr>, redis_empty)"

definition example_registry :: "string + json \<Rightarrow> string \<Rightarrow> unit tool_impl option" where
  "example_registry out = (\<lambda>_. Some (\<lambda>_ _ w. (out, w)))"

lemma example_call_ok:
  "map (\<lambda>out. case fst (call example_platform (example_registry out) None example_run ''ledger.read'' (JObj []) example_world) of
      Inr r \<Rightarrow> tr_ok r | Inl _ \<Rightarrow> False) [Inr JNull, Inl ''Timeout''] = [True, False]"
  by code_simp


end
