(* ===== verification/Leads.thy ===== *)
theory Leads
  imports Failure
begin

text \<open>
  Leads: the lifecycle transition on a delivered quote (\<open>core/customers/lifecycle.py\<close>), and silent
  lead recovery (\<open>core/customers/recovery.py\<close>): classification, the daily sweep and the owner's
  overrides. The theory also declares the customer tables the send path uses. All of them are tenant
  tables under row level security.

  The lemmas show which leads the classifier calls ghosts, and that the sweep emits one event for
  each of those and for nothing else.
\<close>

subsection \<open>Tables\<close>

record lead_row =
  le_id :: uuid
  le_org_id :: uuid
  le_contact_id :: uuid
  le_stage :: string
  le_last_touch_at :: "time option"
  le_last_customer_msg_at :: "time option"
  le_last_outbound_msg_at :: "time option"
  le_last_message_direction :: "string option"
  le_recovery_state :: string
  le_recovery_snooze_until :: "time option"
  le_recovery_note :: "string option"
  le_recovery_set_by :: "uuid option"
  le_recovery_set_at :: "time option"
  le_created_at :: time
  le_updated_at :: time

record contact_row =
  ct_id :: uuid
  ct_org_id :: uuid
  ct_phone :: string
  ct_consent_status :: string

record conversation_row =
  cv_id :: uuid
  cv_org_id :: uuid
  cv_contact_id :: uuid
  cv_channel_id :: uuid

record message_row =
  ms_id :: uuid
  ms_org_id :: uuid
  ms_conversation_id :: uuid
  ms_direction :: string
  ms_sender :: string
  ms_body :: string
  ms_audit_id :: "uuid option"
  ms_status :: string
  ms_provider_message_id :: "string option"
  ms_idempotency_key :: "string option"
  ms_recovery_attempt_id :: "uuid option"

record suppression_row =
  sp_org_id :: uuid
  sp_contact_id :: uuid
  sp_scope :: string

record crm_db = failure_db +
  leads :: "lead_row list"
  contacts :: "contact_row list"
  conversations :: "conversation_row list"
  messages :: "message_row list"
  suppressions :: "suppression_row list"

definition set_leads :: "(lead_row \<Rightarrow> bool) \<Rightarrow> (lead_row \<Rightarrow> lead_row) \<Rightarrow> 'a crm_db_scheme \<Rightarrow> 'a crm_db_scheme" where
  "set_leads p f s = s\<lparr>leads := update_where (\<lambda>r. rls_visible s (le_org_id r) \<and> p r) f (leads s)\<rparr>"

definition json_of_time_option :: "time option \<Rightarrow> json" where
  "json_of_time_option t = (case t of None \<Rightarrow> JNull | Some x \<Rightarrow> JStr (isoformat x))"

subsection \<open>Lifecycle\<close>

definition open_lead :: "uuid \<Rightarrow> uuid \<Rightarrow> 'a crm_db_scheme \<Rightarrow> lead_row option" where
  "open_lead org contact s =
     order_first (\<lambda>r. - le_created_at r)
       (filter (\<lambda>r. rls_visible s (le_org_id r) \<and> le_org_id r = org \<and> le_contact_id r = contact \<and>
          le_stage r \<notin> {''won'', ''lost''}) (leads s))"

definition STAGE_CHANGED_EVENT :: string where "STAGE_CHANGED_EVENT = ''lead.stage_changed.v1''"

definition mark_quoted :: "uuid \<Rightarrow> uuid \<Rightarrow> uuid option \<Rightarrow> (emit_error, uuid option, 'a crm_db_scheme) op" where
  "mark_quoted org contact message_id s =
     (case open_lead org contact s of
        None \<Rightarrow> (Inr None, s)
      | Some lead \<Rightarrow>
          (let i = le_id lead;
               s1 = set_leads (\<lambda>r. le_id r = i)
                 (\<lambda>r. r\<lparr>le_stage := ''quoted'', le_last_outbound_msg_at := Some (now s),
                        le_last_message_direction := Some ''outbound'', le_last_touch_at := Some (now s),
                        le_updated_at := now s\<rparr>) s
           in if le_stage lead = ''quoted'' then (Inr (Some i), s1)
              else
                (let last_customer = Option.bind (find (\<lambda>r. rls_visible s1 (le_org_id r) \<and> le_id r = i) (leads s1))
                       le_last_customer_msg_at
                 in case emit org STAGE_CHANGED_EVENT
                      [(''lead_id'', JId i), (''stage'', JStr ''quoted''),
                       (''last_customer_msg_at'', json_of_time_option last_customer),
                       (''contact_id'', JId contact),
                       (''message_id'', case message_id of None \<Rightarrow> JNull | Some m \<Rightarrow> JId m),
                       (''previous_stage'', JStr (le_stage lead))] ''crm'' s1 of
                      (Inl e, s2) \<Rightarrow> (Inl e, s2)
                    | (Inr _, s2) \<Rightarrow> (Inr (Some i), s2))))"

subsection \<open>Classification\<close>

datatype recovery_state = Active | Ghost | ShopStoppedReplying | ExcludedLead

definition DEFAULT_SILENCE_HOURS :: int where "DEFAULT_SILENCE_HOURS = 72"
definition ENGAGED_STAGES :: "string list" where "ENGAGED_STAGES = [''quoted'']"
definition TERMINAL_STAGES :: "string list" where "TERMINAL_STAGES = [''won'', ''lost'']"

definition classify :: "lead_row \<Rightarrow> time \<Rightarrow> int \<Rightarrow> recovery_state" where
  "classify lead t threshold_hours =
     (let state = (if le_recovery_state lead = [] then ''auto'' else le_recovery_state lead) in
      if state = ''excluded'' then ExcludedLead
      else if state = ''snoozed'' \<and> (case le_recovery_snooze_until lead of None \<Rightarrow> False | Some u \<Rightarrow> t < u) then ExcludedLead
      else if le_stage lead \<in> set TERMINAL_STAGES then ExcludedLead
      else if le_stage lead \<notin> set ENGAGED_STAGES then Active
      else
        (let cutoff = t - hours (max 1 threshold_hours);
             direction = le_last_message_direction lead;
             last_customer = le_last_customer_msg_at lead;
             last_outbound = le_last_outbound_msg_at lead
         in if direction = Some ''inbound'' then
              (case last_customer of None \<Rightarrow> Active | Some x \<Rightarrow> if x \<le> cutoff then ShopStoppedReplying else Active)
            else if direction \<noteq> Some ''outbound'' then Active
            else
              (case (case last_customer of None \<Rightarrow> last_outbound | Some x \<Rightarrow> Some x) of
                 None \<Rightarrow> Active
               | Some reference \<Rightarrow> if cutoff < reference then Active else Ghost)))"

text \<open>
  \<open>resolve\<close> never raises for this key (it has a platform default); \<open>int(value)\<close> of what it returns
  may, and then the default applies.
\<close>

definition silence_threshold_hours :: "uuid \<Rightarrow> 'a settings_db_scheme \<Rightarrow> int \<times> 'a settings_db_scheme" where
  "silence_threshold_hours org s =
     (case resolve org ''recovery.silence_hours'' s of
        (Inl _, s') \<Rightarrow> (DEFAULT_SILENCE_HOURS, s')
      | (Inr r, s') \<Rightarrow>
          ((case py_int (rs_value r) of None \<Rightarrow> DEFAULT_SILENCE_HOURS
            | Some h \<Rightarrow> if 0 < h then h else DEFAULT_SILENCE_HOURS), s'))"

definition candidates :: "uuid \<Rightarrow> 'a crm_db_scheme \<Rightarrow> lead_row list" where
  "candidates org s = filter (\<lambda>r. rls_visible s (le_org_id r) \<and> le_org_id r = org \<and> le_stage r \<in> set ENGAGED_STAGES) (leads s)"

definition waiting_on_store :: "uuid \<Rightarrow> 'a crm_db_scheme \<Rightarrow> lead_row list \<times> 'a crm_db_scheme" where
  "waiting_on_store org s =
     (case silence_threshold_hours org s of (h, s1) \<Rightarrow>
        (filter (\<lambda>l. classify l (now s) h = ShopStoppedReplying) (candidates org s1), s1))"

subsection \<open>The sweep\<close>

definition WENT_SILENT_EVENT :: string where "WENT_SILENT_EVENT = ''lead.went_silent.v1''"

definition went_silent_payload :: "int \<Rightarrow> lead_row \<Rightarrow> (string \<times> json) list" where
  "went_silent_payload h l =
     [(''lead_id'', JId (le_id l)), (''contact_id'', JId (le_contact_id l)), (''stage'', JStr (le_stage l)),
      (''silence_hours'', JInt h), (''last_customer_msg_at'', json_of_time_option (le_last_customer_msg_at l))]"

type_synonym counts = "recovery_state \<Rightarrow> nat"

fun sweep_leads :: "uuid \<Rightarrow> time \<Rightarrow> int \<Rightarrow> lead_row list \<Rightarrow> counts \<Rightarrow> (emit_error, counts, 'a crm_db_scheme) op" where
  "sweep_leads org t h [] counts s = (Inr counts, s)"
| "sweep_leads org t h (l # ls) counts s =
     (let st = classify l t h; counts' = counts(st := counts st + 1) in
      if st \<noteq> Ghost then sweep_leads org t h ls counts' s
      else (case emit org WENT_SILENT_EVENT (went_silent_payload h l) ''crm'' s of
          (Inl e, s') \<Rightarrow> (Inl e, s')
        | (Inr _, s') \<Rightarrow> sweep_leads org t h ls counts' s'))"

definition sweep_org :: "uuid \<Rightarrow> (emit_error, counts, 'a crm_db_scheme) op" where
  "sweep_org org s =
     (case silence_threshold_hours org s of (h, s1) \<Rightarrow>
        sweep_leads org (now s) h (candidates org s1) (\<lambda>_. 0) s1)"

text \<open>One organisation's transaction of the daily job: a failure rolls it back and is logged.\<close>

definition sweep_one :: "plan_codec \<Rightarrow> Capability list \<Rightarrow> uuid \<Rightarrow> 'a crm_db_scheme \<Rightarrow> 'a crm_db_scheme" where
  "sweep_one cd pcaps org s0 =
     (let s = set_org_context org s0 in
      case is_entitled cd pcaps (Some org) ''ghost_recovery'' s of (held, s1) \<Rightarrow>
        if \<not> held then s0
        else snd (commit_or_rollback (sweep_org org) s1))"

definition run_recovery_sweep :: "plan_codec \<Rightarrow> Capability list \<Rightarrow> 'a crm_db_scheme \<Rightarrow> 'a crm_db_scheme" where
  "run_recovery_sweep cd pcaps s = fold (sweep_one cd pcaps) (map or_id (organizations s)) s"

subsection \<open>The owner's overrides\<close>

datatype recovery_error = UnknownRecoveryAction string | SnoozeNeedsFuture

definition clipped :: "string option \<Rightarrow> string option" where
  "clipped note = (case note of None \<Rightarrow> None | Some n \<Rightarrow> if n = [] then None else Some (take 500 n))"

definition set_recovery :: "uuid \<Rightarrow> uuid \<Rightarrow> string \<Rightarrow> time option \<Rightarrow> string option \<Rightarrow> uuid option
    \<Rightarrow> (recovery_error, (string \<times> time option \<times> string option) option, 'a crm_db_scheme) op" where
  "set_recovery org i action until note actor s =
     (if action \<notin> {''exclude'', ''snooze'', ''contacted'', ''resume''} then (Inl (UnknownRecoveryAction action), s)
      else if action = ''snooze'' \<and> (case until of None \<Rightarrow> True | Some u \<Rightarrow> u \<le> now s) then (Inl SnoozeNeedsFuture, s)
      else if find (\<lambda>r. rls_visible s (le_org_id r) \<and> le_id r = i \<and> le_org_id r = org) (leads s) = None then (Inr None, s)
      else
        (let stamp = (\<lambda>r. r\<lparr>le_recovery_note := clipped note, le_recovery_set_by := actor,
                            le_recovery_set_at := Some (now s), le_updated_at := now s\<rparr>);
             f = (if action = ''contacted'' then
                    (\<lambda>r. (stamp r)\<lparr>le_last_customer_msg_at := Some (now s), le_last_message_direction := Some ''inbound'',
                       le_last_touch_at := Some (now s), le_recovery_state := ''auto'', le_recovery_snooze_until := None\<rparr>)
                  else
                    (\<lambda>r. (stamp r)\<lparr>le_recovery_state := (if action = ''exclude'' then ''excluded''
                           else if action = ''snooze'' then ''snoozed'' else ''auto''),
                       le_recovery_snooze_until := (if action = ''snooze'' then until else None)\<rparr>));
             s1 = set_leads (\<lambda>r. le_id r = i) f s
         in (Inr (map_option (\<lambda>r. (le_recovery_state r, le_recovery_snooze_until r, le_recovery_note r))
               (find (\<lambda>r. rls_visible s1 (le_org_id r) \<and> le_id r = i) (leads s1))), s1)))"

subsection \<open>Lemmas\<close>

text \<open>The specification of a ghost: we spoke last to a quoted lead, and it has been silent long enough.\<close>

definition silent_since :: "lead_row \<Rightarrow> time option" where
  "silent_since l = (case le_last_customer_msg_at l of None \<Rightarrow> le_last_outbound_msg_at l | Some t \<Rightarrow> Some t)"

definition ghost_lead :: "lead_row \<Rightarrow> time \<Rightarrow> int \<Rightarrow> bool" where
  "ghost_lead l t h \<longleftrightarrow> le_stage l = ''quoted'' \<and> le_last_message_direction l = Some ''outbound'' \<and>
     le_recovery_state l \<noteq> ''excluded'' \<and>
     \<not> (le_recovery_state l = ''snoozed'' \<and> (case le_recovery_snooze_until l of None \<Rightarrow> False | Some u \<Rightarrow> t < u)) \<and>
     (case silent_since l of None \<Rightarrow> False | Some x \<Rightarrow> x + hours (max 1 h) \<le> t)"

lemma classify_Ghost_iff: "classify l t h = Ghost \<longleftrightarrow> ghost_lead l t h"
  by (auto simp: classify_def ghost_lead_def silent_since_def ENGAGED_STAGES_def TERMINAL_STAGES_def Let_def
      split: option.splits if_splits)

lemma went_silent_spec:
  "map_of PAYLOAD_SPECS WENT_SILENT_EVENT = Some [(''lead_id'', ''uuid''), (''stage'', ''string''),
     (''silence_hours'', ''int''), (''last_customer_msg_at'', ''rfc3339|null'')]"
  "WENT_SILENT_EVENT \<in> set ALLOWED_EVENT_TYPES"
  by code_simp+

lemma went_silent_valid: "validate_payload WENT_SILENT_EVENT (went_silent_payload h l) = None"
  by (simp add: validate_payload_def went_silent_spec(1) went_silent_payload_def check_field_def type_map_accepts_def
      ends_with_def json_of_time_option_def split: option.split)

lemma emit_went_silent:
  "emit org WENT_SILENT_EVENT (went_silent_payload h l) ''crm'' s =
     (Inr (fresh s), s\<lparr>event_outbox := event_outbox s @
        [\<lparr>ob_id = fresh s, ob_org_id = org, ob_type = WENT_SILENT_EVENT, ob_source = ''crm'',
          ob_payload = JObj (went_silent_payload h l), ob_created_at = now s, ob_published_at = None\<rparr>],
        fresh := fresh s + 1\<rparr>)"
  by (simp add: emit_def went_silent_valid went_silent_spec(2))

text \<open>What an event says, without its identifier and time.\<close>

definition announced :: "outbox_row \<Rightarrow> uuid \<times> string \<times> json" where
  "announced e = (ob_org_id e, ob_type e, ob_payload e)"

lemma sweep_leads_effect:
  "\<exists>counts' new s'. sweep_leads org t h ls counts s = (Inr counts', s') \<and>
     event_outbox s' = event_outbox s @ new \<and>
     map announced new = map (\<lambda>l. (org, WENT_SILENT_EVENT, JObj (went_silent_payload h l))) (filter (\<lambda>l. ghost_lead l t h) ls) \<and>
     counts' Ghost = counts Ghost + length (filter (\<lambda>l. ghost_lead l t h) ls) \<and> leads s' = leads s"
proof (induction ls arbitrary: counts s)
  case (Cons l ls)
  let ?c = "counts(classify l t h := counts (classify l t h) + 1)"
  show ?case
  proof (cases "ghost_lead l t h")
    case False
    then have "classify l t h \<noteq> Ghost" by (simp add: classify_Ghost_iff)
    then have "sweep_leads org t h (l # ls) counts s = sweep_leads org t h ls ?c s" "?c Ghost = counts Ghost"
      by (simp_all add: Let_def)
    with Cons [of ?c s] False show ?thesis by (simp del: sweep_leads.simps fun_upd_apply)
  next
    case True
    then have g: "classify l t h = Ghost" by (simp add: classify_Ghost_iff)
    let ?e = "\<lparr>ob_id = fresh s, ob_org_id = org, ob_type = WENT_SILENT_EVENT, ob_source = ''crm'',
          ob_payload = JObj (went_silent_payload h l), ob_created_at = now s, ob_published_at = None\<rparr>"
    let ?s = "s\<lparr>event_outbox := event_outbox s @ [?e], fresh := fresh s + 1\<rparr>"
    obtain counts' new s' where ih: "sweep_leads org t h ls ?c ?s = (Inr counts', s')"
      "event_outbox s' = event_outbox ?s @ new"
      "map announced new = map (\<lambda>l. (org, WENT_SILENT_EVENT, JObj (went_silent_payload h l))) (filter (\<lambda>l. ghost_lead l t h) ls)"
      "counts' Ghost = ?c Ghost + length (filter (\<lambda>l. ghost_lead l t h) ls)" "leads s' = leads ?s"
      using Cons [of ?c ?s] by blast
    have "sweep_leads org t h (l # ls) counts s = (Inr counts', s')"
      using ih(1) g by (simp add: Let_def emit_went_silent)
    moreover have "event_outbox s' = event_outbox s @ (?e # new)" using ih(2) by simp
    moreover have "map announced (?e # new) =
        map (\<lambda>l. (org, WENT_SILENT_EVENT, JObj (went_silent_payload h l))) (filter (\<lambda>l. ghost_lead l t h) (l # ls))"
      using ih(3) True by (simp add: announced_def)
    ultimately show ?thesis using ih(4,5) True g by (intro exI [of _ counts'] exI [of _ "?e # new"] exI [of _ s']) simp
  qed
qed simp

definition own_leads :: "uuid \<Rightarrow> 'a crm_db_scheme \<Rightarrow> lead_row list" where
  "own_leads org s = filter (\<lambda>l. le_org_id l = org) (leads s)"

definition threshold_of :: "uuid \<Rightarrow> 'a crm_db_scheme \<Rightarrow> int" where
  "threshold_of org s = fst (silence_threshold_hours org s)"

lemma silence_threshold_state: "silence_threshold_hours org s = (threshold_of org s, set_org_context org s)"
proof -
  obtain r s' where r: "resolve org ''recovery.silence_hours'' s = (r, s')" by (cases "resolve org ''recovery.silence_hours'' s")
  have "snd (resolve org ''recovery.silence_hours'' s) = set_org_context org s"
    by (simp add: resolve_def Let_def split: option.split)
  with r show ?thesis by (simp add: threshold_of_def silence_threshold_hours_def split: sum.split)
qed

lemma ghosts_are_candidates:
  "filter (\<lambda>l. ghost_lead l t h) (candidates org (set_org_context org s)) = filter (\<lambda>l. ghost_lead l t h) (own_leads org s)"
proof -
  have "leads (set_org_context org s) = leads s" by (simp add: set_org_context_def)
  then show ?thesis
    by (simp add: candidates_def own_leads_def ENGAGED_STAGES_def) (rule filter_cong, auto simp: ghost_lead_def)
qed

subsection \<open>Properties\<close>


end
