(* ===== verification/Templates.thy ===== *)
theory Templates
  imports Leads
begin

text \<open>
  WhatsApp message templates (\<open>core/channels/whatsapp/templates.py\<close>): the registry of a store's
  templates, the gate that lets only approved ones out, and the drain of Meta's review webhooks. The
  client that submits a template to Meta is an argument. \<open>message_templates\<close> is under row level
  security; \<open>webhook_events\<close> and the lookup \<open>resolve_channel_by_waba\<close> are not.

  The lemmas show that editing a template revokes its approval until Meta approves it again.
\<close>

record template_row =
  mt_id :: uuid
  mt_org_id :: uuid
  mt_channel_type :: string
  mt_template_key :: string
  mt_language :: string
  mt_body :: string
  mt_category :: "string option"
  mt_namespace :: "string option"
  mt_provider_status :: string
  mt_provider_reason :: "string option"
  mt_provider_template_id :: "string option"
  mt_updated_at :: time

record channel_row =
  ch_id :: uuid
  ch_org_id :: uuid
  ch_type :: string
  ch_waba_id :: "string option"

record webhook_row =
  wh_id :: uuid
  wh_provider :: string
  wh_payload :: json
  wh_processed_at :: "time option"
  wh_received_at :: time

record template_db = crm_db +
  message_templates :: "template_row list"
  channels :: "channel_row list"
  webhook_events :: "webhook_row list"

definition CHANNEL_TYPE :: string where "CHANNEL_TYPE = ''whatsapp''"

definition META_STATUS :: "(string \<times> string) list" where
  "META_STATUS =
     [(''APPROVED'', ''approved''), (''REJECTED'', ''rejected''), (''PENDING'', ''pending''),
      (''PENDING_DELETION'', ''pending''), (''PAUSED'', ''paused''), (''FLAGGED'', ''paused''),
      (''DISABLED'', ''disabled'')]"

text \<open>
  \<open>TemplateNotSendable\<close> and \<open>ValueError\<close> are the code's; an insert outside the tenant context is
  refused by the database; \<open>MalformedWebhook\<close> stands for the \<open>AttributeError\<close> or \<open>TypeError\<close> of a
  payload that has not Meta's shape.
\<close>

datatype template_error =
    TemplateNotSendable string string string "string option"
  | UnknownTemplate string string
  | TemplateRlsViolation
  | MalformedWebhook

definition is_template :: "'a base_db_scheme \<Rightarrow> uuid \<Rightarrow> string \<Rightarrow> string \<Rightarrow> template_row \<Rightarrow> bool" where
  "is_template s org k lang r \<longleftrightarrow> rls_visible s (mt_org_id r) \<and> mt_org_id r = org \<and>
     mt_channel_type r = CHANNEL_TYPE \<and> mt_template_key r = k \<and> mt_language r = lang"

subsection \<open>The registry\<close>

definition upsert_template :: "uuid \<Rightarrow> string \<Rightarrow> string \<Rightarrow> string \<Rightarrow> string \<Rightarrow> string option
    \<Rightarrow> (template_error, uuid, 'a template_db_scheme) op" where
  "upsert_template org k lang body category namespace s =
     (if \<not> rls_visible s org then (Inl TemplateRlsViolation, s)
      else (case find (is_template s org k lang) (message_templates s) of
          Some r \<Rightarrow> (Inr (mt_id r), s\<lparr>message_templates := update_where (is_template s org k lang)
              (\<lambda>r. r\<lparr>mt_body := body, mt_category := Some category, mt_namespace := namespace,
                     mt_provider_status := ''draft'', mt_provider_reason := None, mt_updated_at := now s\<rparr>)
              (message_templates s)\<rparr>)
        | None \<Rightarrow> (Inr (fresh s), s\<lparr>message_templates := message_templates s @
              [\<lparr>mt_id = fresh s, mt_org_id = org, mt_channel_type = CHANNEL_TYPE, mt_template_key = k,
                mt_language = lang, mt_body = body, mt_category = Some category, mt_namespace = namespace,
                mt_provider_status = ''draft'', mt_provider_reason = None, mt_provider_template_id = None,
                mt_updated_at = now s\<rparr>],
              fresh := fresh s + 1\<rparr>)))"

definition list_templates :: "uuid \<Rightarrow> 'a template_db_scheme \<Rightarrow> template_row list" where
  "list_templates org s =
     sort_key mt_template_key (sort_key mt_language
       (filter (\<lambda>r. rls_visible s (mt_org_id r) \<and> mt_org_id r = org \<and> mt_channel_type r = CHANNEL_TYPE)
          (message_templates s)))"

definition get_template :: "uuid \<Rightarrow> string \<Rightarrow> string \<Rightarrow> 'a template_db_scheme \<Rightarrow> template_row option" where
  "get_template org k lang s = find (is_template s org k lang) (message_templates s)"

record TemplateSubmitResult =
  sb_ok :: bool
  sb_provider_template_id :: "string option"
  sb_status :: "string option"
  sb_error :: "string option"

text \<open>The client gets the WABA id, the token, name, language, category and body.\<close>

type_synonym submit_client = "string \<Rightarrow> string \<Rightarrow> string \<Rightarrow> string \<Rightarrow> string \<Rightarrow> string \<Rightarrow> TemplateSubmitResult"

definition submit_template :: "submit_client \<Rightarrow> uuid \<Rightarrow> string \<Rightarrow> string \<Rightarrow> string \<Rightarrow> string
    \<Rightarrow> (template_error, TemplateSubmitResult, 'a template_db_scheme) op" where
  "submit_template client org k lang waba_id access_token s =
     (case get_template org k lang s of
        None \<Rightarrow> (Inl (UnknownTemplate k lang), s)
      | Some tpl \<Rightarrow>
          (let category = (case mt_category tpl of None \<Rightarrow> ''MARKETING'' | Some c \<Rightarrow> if c = [] then ''MARKETING'' else c);
               result = client waba_id access_token k lang category (mt_body tpl)
           in (Inr result,
               if sb_ok result then s\<lparr>message_templates := update_where (is_template s org k lang)
                 (\<lambda>r. r\<lparr>mt_provider_status := ''pending'', mt_provider_template_id := sb_provider_template_id result,
                        mt_provider_reason := None, mt_updated_at := now s\<rparr>) (message_templates s)\<rparr>
               else s)))"

text \<open>\<open>str.upper()\<close> on ASCII letters.\<close>

definition py_upper :: "string \<Rightarrow> string" where
  "py_upper s = map (\<lambda>c. if 97 \<le> (of_char c :: nat) \<and> (of_char c :: nat) \<le> 122 then char_of (of_char c - 32 :: nat) else c) s"

definition apply_status_update :: "uuid \<Rightarrow> string \<Rightarrow> string \<Rightarrow> string \<Rightarrow> string option \<Rightarrow> string option
    \<Rightarrow> 'a template_db_scheme \<Rightarrow> bool \<times> 'a template_db_scheme" where
  "apply_status_update org k lang event reason pid s =
     (case map_of META_STATUS (py_upper event) of
        None \<Rightarrow> (False, s)
      | Some st \<Rightarrow>
          (list_ex (is_template s org k lang) (message_templates s),
           s\<lparr>message_templates := update_where (is_template s org k lang)
               (\<lambda>r. r\<lparr>mt_provider_status := st, mt_provider_reason := reason,
                      mt_provider_template_id := (case pid of None \<Rightarrow> mt_provider_template_id r | Some p \<Rightarrow> Some p),
                      mt_updated_at := now s\<rparr>) (message_templates s)\<rparr>))"

definition assert_template_sendable :: "uuid \<Rightarrow> string \<Rightarrow> string \<Rightarrow> (template_error, unit, 'a template_db_scheme) op" where
  "assert_template_sendable org k lang s =
     (case get_template org k lang s of
        None \<Rightarrow> (Inl (TemplateNotSendable k lang ''missing'' None), s)
      | Some tpl \<Rightarrow>
          if mt_provider_status tpl \<noteq> ''approved''
          then (Inl (TemplateNotSendable k lang (mt_provider_status tpl) (mt_provider_reason tpl)), s)
          else (Inr (), s))"

text \<open>The pack's declared templates: key, language, body and category.\<close>

fun seed_from_manifest :: "uuid \<Rightarrow> (string \<times> string \<times> string \<times> string) list \<Rightarrow> string
    \<Rightarrow> (template_error, uuid list, 'a template_db_scheme) op" where
  "seed_from_manifest org [] namespace s = (Inr [], s)"
| "seed_from_manifest org ((k, lang, body, category) # ts) namespace s =
     (case upsert_template org k lang body category (Some namespace) s of
        (Inl e, s1) \<Rightarrow> (Inl e, s1)
      | (Inr i, s1) \<Rightarrow> (case seed_from_manifest org ts namespace s1 of
            (Inl e, s2) \<Rightarrow> (Inl e, s2) | (Inr is, s2) \<Rightarrow> (Inr (i # is), s2)))"

subsection \<open>Review webhooks\<close>

text \<open>What a \<open>for\<close> loop gets from a decoded value, and \<open>x.get(k, d)\<close>, which only a dict has.\<close>

definition py_iter :: "json \<Rightarrow> template_error + json list" where
  "py_iter v = (case v of JArr xs \<Rightarrow> Inr xs | JObj kvs \<Rightarrow> Inr (map (JStr \<circ> fst) kvs)
     | JStr cs \<Rightarrow> Inr (map (\<lambda>c. JStr [c]) cs) | _ \<Rightarrow> Inl MalformedWebhook)"

definition dict_get :: "json \<Rightarrow> string \<Rightarrow> json \<Rightarrow> template_error + json" where
  "dict_get v k d = (case v of JObj kvs \<Rightarrow> Inr (case map_of kvs k of None \<Rightarrow> d | Some x \<Rightarrow> x) | _ \<Rightarrow> Inl MalformedWebhook)"

fun status_in_changes :: "json \<Rightarrow> json list \<Rightarrow> template_error + (string \<times> json) option" where
  "status_in_changes entry [] = Inr None"
| "status_in_changes entry (change # cs) =
     (case dict_get change ''field'' JNull of
        Inl e \<Rightarrow> Inl e
      | Inr field \<Rightarrow>
          if field = JStr ''message_template_status_update'' then
            (case (dict_get entry ''id'' (JStr []), dict_get change ''value'' (JObj [])) of
               (Inr i, Inr v) \<Rightarrow> Inr (Some (py_str i, v))
             | _ \<Rightarrow> Inl MalformedWebhook)
          else status_in_changes entry cs)"

fun status_in_entries :: "json list \<Rightarrow> template_error + (string \<times> json) option" where
  "status_in_entries [] = Inr None"
| "status_in_entries (entry # es) =
     (case dict_get entry ''changes'' (JArr []) of
        Inl e \<Rightarrow> Inl e
      | Inr changes \<Rightarrow> (case py_iter changes of
            Inl e \<Rightarrow> Inl e
          | Inr cs \<Rightarrow> (case status_in_changes entry cs of
                Inl e \<Rightarrow> Inl e
              | Inr (Some r) \<Rightarrow> Inr (Some r)
              | Inr None \<Rightarrow> status_in_entries es)))"

definition template_status_change :: "json \<Rightarrow> template_error + (string \<times> json) option" where
  "template_status_change payload =
     (case dict_get payload ''entry'' (JArr []) of
        Inl e \<Rightarrow> Inl e
      | Inr v \<Rightarrow> (case py_iter v of Inl e \<Rightarrow> Inl e | Inr es \<Rightarrow> status_in_entries es))"

definition resolve_by_waba :: "string \<Rightarrow> 'a template_db_scheme \<Rightarrow> uuid option" where
  "resolve_by_waba waba_id s =
     map_option ch_org_id (find (\<lambda>c. ch_type c = CHANNEL_TYPE \<and> ch_waba_id c = Some waba_id) (channels s))"

definition mark_processed :: "uuid \<Rightarrow> 'a template_db_scheme \<Rightarrow> 'a template_db_scheme" where
  "mark_processed i s = s\<lparr>webhook_events := update_where (\<lambda>e. wh_id e = i)
     (\<lambda>e. e\<lparr>wh_processed_at := Some (now s)\<rparr>) (webhook_events s)\<rparr>"

text \<open>A text column takes a string or \<open>NULL\<close>; the driver refuses another type.\<close>

definition text_param :: "json \<Rightarrow> template_error + string option" where
  "text_param v = (case v of JNull \<Rightarrow> Inr None | JStr x \<Rightarrow> Inr (Some x) | _ \<Rightarrow> Inl MalformedWebhook)"

definition process_one_status :: "uuid \<Rightarrow> json \<Rightarrow> (template_error, unit, 'a template_db_scheme) op" where
  "process_one_status event_id payload s =
     (case template_status_change payload of
        Inl e \<Rightarrow> (Inl e, s)
      | Inr None \<Rightarrow> (Inr (), mark_processed event_id s)
      | Inr (Some (waba_id, v)) \<Rightarrow>
          (case resolve_by_waba waba_id s of
             None \<Rightarrow> (Inr (), mark_processed event_id s)
           | Some org \<Rightarrow>
               (let s1 = set_org_context org s in
                case v of
                  JObj kvs \<Rightarrow>
                    (let get = (\<lambda>k. py_str (case map_of kvs k of None \<Rightarrow> JStr [] | Some x \<Rightarrow> x)) in
                     case text_param (jget_null v ''reason'') of
                       Inl e \<Rightarrow>
                         if map_of META_STATUS (py_upper (get ''event'')) = None then (Inr (), mark_processed event_id s1)
                         else (Inl e, s1)
                     | Inr reason \<Rightarrow>
                         (let mtid = jget_null v ''message_template_id'' in
                          (Inr (), mark_processed event_id (snd (apply_status_update org (get ''message_template_name'')
                             (get ''message_template_language'') (get ''event'') reason
                             (if mtid = JNull then None else Some (py_str mtid)) s1)))))
                | _ \<Rightarrow> (Inl MalformedWebhook, s1))))"

text \<open>\<open>payload -> 'entry' -> 0 -> 'changes' -> 0 ->> 'field'\<close>\<close>

definition json_at0 :: "json option \<Rightarrow> json option" where
  "json_at0 v = (case v of Some (JArr (x # _)) \<Rightarrow> Some x | _ \<Rightarrow> None)"

definition json_field :: "string \<Rightarrow> json option \<Rightarrow> json option" where
  "json_field k v = Option.bind v (\<lambda>j. jget j k)"

definition status_pending :: "webhook_row \<Rightarrow> bool" where
  "status_pending e \<longleftrightarrow> wh_provider e = ''whatsapp'' \<and> wh_processed_at e = None \<and>
     jget_null (wh_payload e) ''_malformed'' = JNull \<and>
     json_field ''field'' (json_at0 (json_field ''changes'' (json_at0 (jget (wh_payload e) ''entry'')))) =
       Some (JStr ''message_template_status_update'')"

definition drain_status :: "webhook_row \<Rightarrow> nat \<times> 'a template_db_scheme \<Rightarrow> nat \<times> 'a template_db_scheme" where
  "drain_status e ns =
     (case ns of (n, s) \<Rightarrow>
        case commit_or_rollback (process_one_status (wh_id e) (wh_payload e)) (s\<lparr>org_ctx := None\<rparr>) of
          (Inl _, s1) \<Rightarrow> (n, s1) | (Inr _, s1) \<Rightarrow> (Suc n, s1))"

definition process_template_status_pending :: "nat \<Rightarrow> 'a template_db_scheme \<Rightarrow> nat \<times> 'a template_db_scheme" where
  "process_template_status_pending limit s =
     fold drain_status (take limit (sort_key wh_received_at (filter status_pending (webhook_events s)))) (0, s)"

subsection \<open>Lemmas\<close>

text \<open>What happens to a store's templates: edits, submissions, and Meta's review events.\<close>

datatype template_op =
    Edit uuid string string string string "string option"
  | Submit submit_client uuid string string string string
  | Review uuid string string string "string option" "string option"

fun run_template_op :: "template_op \<Rightarrow> 'a template_db_scheme \<Rightarrow> 'a template_db_scheme" where
  "run_template_op (Edit org k lang body category namespace) s =
     snd (upsert_template org k lang body category namespace (set_org_context org s))"
| "run_template_op (Submit client org k lang waba tok) s =
     snd (submit_template client org k lang waba tok (set_org_context org s))"
| "run_template_op (Review org k lang event reason pid) s =
     snd (apply_status_update org k lang event reason pid (set_org_context org s))"

fun approves :: "uuid \<Rightarrow> string \<Rightarrow> string \<Rightarrow> template_op \<Rightarrow> bool" where
  "approves org k lang (Review o1 k1 l1 event _ _) \<longleftrightarrow>
     o1 = org \<and> k1 = k \<and> l1 = lang \<and> map_of META_STATUS (py_upper event) = Some ''approved''"
| "approves org k lang _ \<longleftrightarrow> False"

definition none_approved :: "uuid \<Rightarrow> string \<Rightarrow> string \<Rightarrow> 'a template_db_scheme \<Rightarrow> bool" where
  "none_approved org k lang s \<longleftrightarrow> (\<forall>r \<in> set (message_templates s). mt_org_id r = org \<and>
     mt_channel_type r = CHANNEL_TYPE \<and> mt_template_key r = k \<and> mt_language r = lang \<longrightarrow>
     mt_provider_status r \<noteq> ''approved'')"

lemma none_approved_cong: "message_templates s1 = message_templates s \<Longrightarrow> none_approved org k lang s1 = none_approved org k lang s"
  by (simp add: none_approved_def)

lemma templates_set_org_context [simp]: "message_templates (set_org_context org s) = message_templates s"
  by (simp add: set_org_context_def)

lemma none_approved_update:
  assumes "none_approved org k lang s" and "message_templates s1 = update_where p f (message_templates s)"
    and "\<And>r. mt_org_id (f r) = mt_org_id r \<and> mt_channel_type (f r) = mt_channel_type r \<and>
      mt_template_key (f r) = mt_template_key r \<and> mt_language (f r) = mt_language r"
    and "\<And>r. p r \<Longrightarrow> mt_org_id r = org \<and> mt_template_key r = k \<and> mt_language r = lang \<Longrightarrow>
      mt_provider_status (f r) \<noteq> ''approved''"
  shows "none_approved org k lang s1"
  using assms by (auto simp: none_approved_def set_update_where)

lemma edit_leaves_none_approved:
  "none_approved org k lang (snd (upsert_template org k lang body category namespace (set_org_context org s)))"
proof (cases "find (is_template (set_org_context org s) org k lang) (message_templates s)")
  case None
  then have "\<not> is_template (set_org_context org s) org k lang r" if "r \<in> set (message_templates s)" for r
    using that by (simp add: find_None_iff_ball)
  with None show ?thesis by (auto simp: upsert_template_def none_approved_def is_template_def)
next
  case (Some r)
  let ?p = "is_template (set_org_context org s) org k lang"
  let ?f = "\<lambda>r. r\<lparr>mt_body := body, mt_category := Some category, mt_namespace := namespace,
          mt_provider_status := ''draft'', mt_provider_reason := None, mt_updated_at := now s\<rparr>"
  have "message_templates (snd (upsert_template org k lang body category namespace (set_org_context org s))) =
      update_where ?p ?f (message_templates s)"
    using Some by (simp add: upsert_template_def)
  then show ?thesis by (simp add: none_approved_def set_update_where ball_Un) (auto simp: is_template_def)
qed

lemma none_approved_step:
  assumes "none_approved org k lang s" and "\<not> approves org k lang a"
  shows "none_approved org k lang (run_template_op a s)"
proof (cases a)
  case (Edit o1 k1 l1 body category namespace)
  show ?thesis
  proof (cases "find (is_template (set_org_context o1 s) o1 k1 l1) (message_templates s)")
    case None
    with Edit assms(1) show ?thesis by (auto simp: upsert_template_def none_approved_def)
  next
    case (Some r)
    with Edit have "message_templates (run_template_op a s) = update_where (is_template (set_org_context o1 s) o1 k1 l1)
       (\<lambda>r. r\<lparr>mt_body := body, mt_category := Some category, mt_namespace := namespace,
          mt_provider_status := ''draft'', mt_provider_reason := None, mt_updated_at := now s\<rparr>) (message_templates s)"
      by (simp add: upsert_template_def)
    from none_approved_update [OF assms(1) this] show ?thesis by simp
  qed
next
  case (Submit client o1 k1 l1 waba tok)
  show ?thesis
  proof (cases "message_templates (run_template_op a s) = message_templates s")
    case True
    with assms(1) show ?thesis by (simp add: none_approved_def)
  next
    case False
    with Submit obtain pid where "message_templates (run_template_op a s) =
       update_where (is_template (set_org_context o1 s) o1 k1 l1)
         (\<lambda>r. r\<lparr>mt_provider_status := ''pending'', mt_provider_template_id := pid,
            mt_provider_reason := None, mt_updated_at := now s\<rparr>) (message_templates s)"
      by (auto simp: submit_template_def Let_def split: option.splits if_splits)
    from none_approved_update [OF assms(1) this] show ?thesis by simp
  qed
next
  case (Review o1 k1 l1 event reason pid)
  show ?thesis
  proof (cases "map_of META_STATUS (py_upper event)")
    case None
    with Review assms(1) show ?thesis by (simp add: apply_status_update_def none_approved_def)
  next
    case (Some st)
    with Review have "message_templates (run_template_op a s) = update_where (is_template (set_org_context o1 s) o1 k1 l1)
       (\<lambda>r. r\<lparr>mt_provider_status := st, mt_provider_reason := reason,
          mt_provider_template_id := (case pid of None \<Rightarrow> mt_provider_template_id r | Some p \<Rightarrow> Some p),
          mt_updated_at := now s\<rparr>) (message_templates s)"
      by (simp add: apply_status_update_def)
    from none_approved_update [OF assms(1) this] show ?thesis
      using Some Review assms(2) by (auto simp: is_template_def)
  qed
qed

lemma none_approved_run:
  "none_approved org k lang s \<Longrightarrow> (\<And>a. a \<in> set ops \<Longrightarrow> \<not> approves org k lang a) \<Longrightarrow>
   none_approved org k lang (fold run_template_op ops s)"
  by (induction ops arbitrary: s) (simp_all add: none_approved_step)

lemma none_approved_not_sendable:
  "none_approved org k lang s \<Longrightarrow> \<not> ok (assert_template_sendable org k lang s)"
  by (auto simp: assert_template_sendable_def get_template_def none_approved_def is_template_def
      split: option.split dest!: find_Some_set)

subsection \<open>Properties\<close>

text \<open>
  Editing a template revokes its approval. After an edit, and whatever edits, submissions and
  review events of any store follow, the gate refuses the template until Meta sends an approval
  event for that very template.
\<close>

theorem edit_revokes_approval:
  assumes "\<And>a. a \<in> set ops \<Longrightarrow> \<not> approves org k lang a"
  shows "\<not> ok (assert_template_sendable org k lang (set_org_context org
     (fold run_template_op ops (run_template_op (Edit org k lang body category namespace) s))))"
proof (rule none_approved_not_sendable)
  have "none_approved org k lang (fold run_template_op ops (run_template_op (Edit org k lang body category namespace) s))"
    by (rule none_approved_run) (simp_all add: edit_leaves_none_approved assms)
  then show "none_approved org k lang (set_org_context org
     (fold run_template_op ops (run_template_op (Edit org k lang body category namespace) s)))"
    by (simp add: none_approved_def)
qed

text \<open>A store with no templates, and a template submitted before its text was edited.\<close>

definition example_templates :: template_db where
  "example_templates = crm_db.extend (failure_db.extend example_failures (crm_db.fields [] [] [] [] []))
     (template_db.fields [] [] [])"

definition accepting_client :: submit_client where
  "accepting_client = (\<lambda>_ _ _ _ _ _. \<lparr>sb_ok = True, sb_provider_template_id = Some ''t1'',
     sb_status = Some ''PENDING'', sb_error = None\<rparr>)"

theorem edit_revokes_approval_witness:
  "\<not> ok (assert_template_sendable 7 ''offer'' ''en'' (set_org_context 7
     (fold run_template_op [Submit accepting_client 7 ''offer'' ''en'' ''w'' ''tok'', Review 7 ''offer'' ''en'' ''REJECTED'' None None]
       (run_template_op (Edit 7 ''offer'' ''en'' ''Hello'' ''MARKETING'' None) example_templates))))"
  by (rule edit_revokes_approval) (auto simp: META_STATUS_def py_upper_def)

text \<open>
  The converse does not hold for the text: a review event names the template, not the text it
  reviewed, and applies to whatever is stored. The edited text below was never submitted.
\<close>

lemma late_review_approves_edited_text:
  "ok (assert_template_sendable 7 ''offer'' ''en'' (set_org_context 7
     (fold run_template_op [Edit 7 ''offer'' ''en'' ''Hello'' ''MARKETING'' None,
        Submit accepting_client 7 ''offer'' ''en'' ''w'' ''tok'', Edit 7 ''offer'' ''en'' ''Other'' ''MARKETING'' None,
        Review 7 ''offer'' ''en'' ''APPROVED'' None None] example_templates)))"
  by code_simp

end
