(* ===== verification/Attempts.thy ===== *)
theory Attempts
  imports Templates
begin

text \<open>
  Recovery attempts (\<open>core/customers/recovery_attempts.py\<close>): one row per attempt on one silence of a
  lead, with every transition the code makes. The table carries the partial unique index
  \<open>uq_recovery_attempts_episode_sent\<close> on organisation, lead and anchor where \<open>sent_at\<close> is set: an
  update that breaks it raises and changes nothing. Time is the database's clock.

  The lemmas show that an episode is touched at most once, and which attempt a reply is credited to.
\<close>

record attempt_row =
  ra_id :: uuid
  ra_org_id :: uuid
  ra_lead_id :: uuid
  ra_contact_id :: "uuid option"
  ra_conversation_id :: uuid
  ra_anchor :: time
  ra_workflow_run_id :: "uuid option"
  ra_selected_option_id :: "string option"
  ra_selected_reason :: "string option"
  ra_selected_action_id :: "string option"
  ra_owner_handled :: bool
  ra_status :: string
  ra_failure_reason :: "string option"
  ra_template_key :: "string option"
  ra_template_language :: "string option"
  ra_outbound_message_id :: "uuid option"
  ra_inbound_reply_message_id :: "uuid option"
  ra_approved_at :: "time option"
  ra_sent_at :: "time option"
  ra_delivered_at :: "time option"
  ra_replied_at :: "time option"

record attempt_db = template_db +
  recovery_attempts :: "attempt_row list"

definition TOUCH_STATUSES :: "string list" where
  "TOUCH_STATUSES = [''sent'', ''delivered'', ''replied'', ''delivery_unknown'']"

definition TOUCH_CAP :: nat where "TOUCH_CAP = 3"
definition TOUCH_WINDOW_DAYS :: int where "TOUCH_WINDOW_DAYS = 30"

datatype attempt_error = AttemptUniqueViolation | AttemptRlsViolation | MultipleResultsFound

definition episode :: "attempt_row \<Rightarrow> uuid \<times> uuid \<times> time" where
  "episode r = (ra_org_id r, ra_lead_id r, ra_anchor r)"

text \<open>The rows the partial unique index covers, and what it demands.\<close>

definition touched_episodes :: "attempt_row list \<Rightarrow> (uuid \<times> uuid \<times> time) list" where
  "touched_episodes rows = map episode (filter (\<lambda>r. ra_sent_at r \<noteq> None) rows)"

definition set_attempts :: "(attempt_row \<Rightarrow> bool) \<Rightarrow> (attempt_row \<Rightarrow> attempt_row)
    \<Rightarrow> (attempt_error, unit, 'a attempt_db_scheme) op" where
  "set_attempts p f s =
     (let rows = update_where (\<lambda>r. rls_visible s (ra_org_id r) \<and> p r) f (recovery_attempts s) in
      if distinct (touched_episodes rows) then (Inr (), s\<lparr>recovery_attempts := rows\<rparr>)
      else (Inl AttemptUniqueViolation, s))"

definition open_attempt :: "uuid \<Rightarrow> uuid \<Rightarrow> uuid \<Rightarrow> uuid option \<Rightarrow> time option \<Rightarrow> uuid option
    \<Rightarrow> (attempt_error, uuid, 'a attempt_db_scheme) op" where
  "open_attempt org lead conversation contact anchor run s =
     (if \<not> rls_visible s org then (Inl AttemptRlsViolation, s)
      else (Inr (fresh s), s\<lparr>recovery_attempts := recovery_attempts s @
        [\<lparr>ra_id = fresh s, ra_org_id = org, ra_lead_id = lead, ra_contact_id = contact,
          ra_conversation_id = conversation, ra_anchor = (case anchor of None \<Rightarrow> now s | Some a \<Rightarrow> a),
          ra_workflow_run_id = run, ra_selected_option_id = None, ra_selected_reason = None,
          ra_selected_action_id = None, ra_owner_handled = False, ra_status = ''proposed'',
          ra_failure_reason = None, ra_template_key = None, ra_template_language = None,
          ra_outbound_message_id = None, ra_inbound_reply_message_id = None, ra_approved_at = None,
          ra_sent_at = None, ra_delivered_at = None, ra_replied_at = None\<rparr>],
        fresh := fresh s + 1\<rparr>))"

definition record_owner_decision :: "uuid \<Rightarrow> uuid \<Rightarrow> string option \<Rightarrow> string option \<Rightarrow> string option \<Rightarrow> bool
    \<Rightarrow> (attempt_error, unit, 'a attempt_db_scheme) op" where
  "record_owner_decision org i opt reason action_id handled s =
     set_attempts (\<lambda>r. ra_id r = i \<and> ra_org_id r = org)
       (\<lambda>r. r\<lparr>ra_selected_option_id := opt, ra_selected_reason := reason, ra_selected_action_id := action_id,
              ra_owner_handled := handled, ra_approved_at := Some (now s),
              ra_status := (if handled then ''declined'' else ''awaiting_approval'')\<rparr>) s"

definition touches_in_window :: "uuid \<Rightarrow> uuid \<Rightarrow> time option \<Rightarrow> 'a attempt_db_scheme \<Rightarrow> nat" where
  "touches_in_window org lead at s =
     (let since = (case at of None \<Rightarrow> now s | Some t \<Rightarrow> t) - days TOUCH_WINDOW_DAYS in
      length (filter (\<lambda>r. rls_visible s (ra_org_id r) \<and> ra_org_id r = org \<and> ra_lead_id r = lead \<and>
        (case ra_sent_at r of None \<Rightarrow> False | Some t \<Rightarrow> since \<le> t) \<and> ra_status r \<in> set TOUCH_STATUSES)
        (recovery_attempts s)))"

definition mark_sent :: "uuid \<Rightarrow> uuid \<Rightarrow> uuid option \<Rightarrow> string option \<Rightarrow> string option
    \<Rightarrow> (attempt_error, unit, 'a attempt_db_scheme) op" where
  "mark_sent org i message_id tkey tlang s =
     set_attempts (\<lambda>r. ra_id r = i \<and> ra_org_id r = org)
       (\<lambda>r. r\<lparr>ra_status := ''sent'', ra_sent_at := Some (now s), ra_outbound_message_id := message_id,
              ra_template_key := tkey, ra_template_language := tlang\<rparr>) s"

definition mark_failed :: "uuid \<Rightarrow> uuid \<Rightarrow> string \<Rightarrow> bool \<Rightarrow> (attempt_error, unit, 'a attempt_db_scheme) op" where
  "mark_failed org i reason unknown s =
     set_attempts (\<lambda>r. ra_id r = i \<and> ra_org_id r = org)
       (\<lambda>r. r\<lparr>ra_status := (if unknown then ''delivery_unknown'' else ''failed''),
              ra_failure_reason := Some (take 500 reason),
              ra_sent_at := (if unknown then Some (now s) else ra_sent_at r)\<rparr>) s"

definition mark_blocked :: "uuid \<Rightarrow> uuid \<Rightarrow> string \<Rightarrow> (attempt_error, unit, 'a attempt_db_scheme) op" where
  "mark_blocked org i reason s =
     set_attempts (\<lambda>r. ra_id r = i \<and> ra_org_id r = org)
       (\<lambda>r. r\<lparr>ra_status := ''blocked'', ra_failure_reason := Some (take 500 reason)\<rparr>) s"

text \<open>\<open>UPDATE ... FROM messages ... RETURNING\<close>; \<open>scalar_one_or_none\<close> raises on two rows.\<close>

definition deliverable :: "uuid \<Rightarrow> string \<Rightarrow> 'a attempt_db_scheme \<Rightarrow> attempt_row \<Rightarrow> bool" where
  "deliverable org pm s r \<longleftrightarrow> ra_org_id r = org \<and> ra_delivered_at r = None \<and>
     ra_status r \<in> {''sent'', ''delivery_unknown''} \<and>
     list_ex (\<lambda>m. rls_visible s (ms_org_id m) \<and> Some (ms_id m) = ra_outbound_message_id r \<and>
       ms_provider_message_id m = Some pm) (messages s)"

definition mark_delivered :: "uuid \<Rightarrow> string \<Rightarrow> (attempt_error, bool, 'a attempt_db_scheme) op" where
  "mark_delivered org pm s =
     (case filter (\<lambda>r. rls_visible s (ra_org_id r) \<and> deliverable org pm s r) (recovery_attempts s) of
        [] \<Rightarrow> (Inr False, s)
      | [x] \<Rightarrow> op_bind (set_attempts (deliverable org pm s)
            (\<lambda>r. r\<lparr>ra_status := ''delivered'', ra_delivered_at := Some (now s)\<rparr>)) (\<lambda>_ s1. (Inr True, s1)) s
      | _ \<Rightarrow> (Inl MultipleResultsFound, s))"

text \<open>The attempt a reply is credited to: the latest unreplied one of the conversation sent before it.\<close>

definition creditable :: "uuid \<Rightarrow> uuid \<Rightarrow> time \<Rightarrow> attempt_row \<Rightarrow> bool" where
  "creditable org conversation t r \<longleftrightarrow> ra_org_id r = org \<and> ra_conversation_id r = conversation \<and>
     ra_replied_at r = None \<and> (case ra_sent_at r of None \<Rightarrow> False | Some x \<Rightarrow> x < t)"

definition credited_attempt :: "uuid \<Rightarrow> uuid \<Rightarrow> time \<Rightarrow> 'a attempt_db_scheme \<Rightarrow> attempt_row option" where
  "credited_attempt org conversation t s =
     order_first (\<lambda>r. case ra_sent_at r of None \<Rightarrow> 0 | Some x \<Rightarrow> - x)
       (filter (\<lambda>r. rls_visible s (ra_org_id r) \<and> creditable org conversation t r) (recovery_attempts s))"

definition mark_replied :: "uuid \<Rightarrow> uuid \<Rightarrow> uuid \<Rightarrow> time option
    \<Rightarrow> (attempt_error, uuid option, 'a attempt_db_scheme) op" where
  "mark_replied org conversation message_id at s =
     (let t = (case at of None \<Rightarrow> now s | Some x \<Rightarrow> x) in
      case credited_attempt org conversation t s of
        None \<Rightarrow> (Inr None, s)
      | Some a \<Rightarrow>
          op_bind (set_attempts (\<lambda>r. ra_id r = ra_id a \<and> ra_org_id r = org)
             (\<lambda>r. r\<lparr>ra_status := ''replied'', ra_replied_at := Some t, ra_inbound_reply_message_id := Some message_id\<rparr>))
            (\<lambda>_ s1. (Inr (Some (ra_id a)), s1)) s)"

record attempt_summary =
  su_sent :: nat
  su_delivered :: nat
  su_replied :: nat
  su_blocked :: nat
  su_failed :: nat
  su_delivery_unknown :: nat
  su_owner_handled :: nat

definition attempt_counts :: "uuid \<Rightarrow> 'a attempt_db_scheme \<Rightarrow> attempt_summary" where
  "attempt_counts org s =
     (let rows = filter (\<lambda>r. rls_visible s (ra_org_id r) \<and> ra_org_id r = org) (recovery_attempts s);
          count = (\<lambda>p. length (filter p rows))
      in \<lparr>su_sent = count (\<lambda>r. ra_sent_at r \<noteq> None), su_delivered = count (\<lambda>r. ra_delivered_at r \<noteq> None),
          su_replied = count (\<lambda>r. ra_replied_at r \<noteq> None), su_blocked = count (\<lambda>r. ra_status r = ''blocked''),
          su_failed = count (\<lambda>r. ra_status r = ''failed''),
          su_delivery_unknown = count (\<lambda>r. ra_status r = ''delivery_unknown''),
          su_owner_handled = count ra_owner_handled\<rparr>)"

subsection \<open>Lemmas\<close>

definition wf_attempts :: "'a attempt_db_scheme \<Rightarrow> bool" where
  "wf_attempts s \<longleftrightarrow> distinct (touched_episodes (recovery_attempts s)) \<and>
     distinct (map ra_id (recovery_attempts s)) \<and> (\<forall>r \<in> set (recovery_attempts s). ra_id r < fresh s)"

lemma set_attempts_wf:
  assumes "wf_attempts s" and "\<And>r. ra_id (f r) = ra_id r"
  shows "wf_attempts (snd (set_attempts p f s))"
  using assms by (auto simp: wf_attempts_def set_attempts_def Let_def map_update_where set_update_where)

lemma open_attempt_wf: "wf_attempts s \<Longrightarrow> wf_attempts (snd (open_attempt org lead conv contact anchor run s))"
  by (auto simp: wf_attempts_def open_attempt_def touched_episodes_def less_Suc_eq)

datatype attempt_op =
    Propose uuid uuid uuid "uuid option" "time option" "uuid option"
  | Decide uuid uuid "string option" "string option" "string option" bool
  | Sent uuid uuid "uuid option" "string option" "string option"
  | FailedSend uuid uuid string bool
  | Blocked uuid uuid string
  | Delivered uuid string
  | Replied uuid uuid uuid "time option"

fun run_attempt_op :: "attempt_op \<Rightarrow> 'a attempt_db_scheme \<Rightarrow> 'a attempt_db_scheme" where
  "run_attempt_op (Propose org l c ct a r) s = snd (open_attempt org l c ct a r s)"
| "run_attempt_op (Decide org i opt rs ac h) s = snd (record_owner_decision org i opt rs ac h s)"
| "run_attempt_op (Sent org i m k l) s = snd (mark_sent org i m k l s)"
| "run_attempt_op (FailedSend org i rs u) s = snd (mark_failed org i rs u s)"
| "run_attempt_op (Blocked org i rs) s = snd (mark_blocked org i rs s)"
| "run_attempt_op (Delivered org pm) s = snd (mark_delivered org pm s)"
| "run_attempt_op (Replied org c m at) s = snd (mark_replied org c m at s)"

lemma snd_op_bind_ret: "snd (op_bind f (\<lambda>_ s1. (Inr x, s1)) s) = snd (f s)"
  by (simp add: op_bind_def split: prod.split sum.split)

lemma run_attempt_op_wf: "wf_attempts s \<Longrightarrow> wf_attempts (run_attempt_op a s)"
  by (cases a) (auto simp: open_attempt_wf record_owner_decision_def mark_sent_def mark_failed_def mark_blocked_def
      mark_delivered_def mark_replied_def Let_def snd_op_bind_ret set_attempts_wf split: list.split option.split)

lemma run_attempt_ops_wf: "wf_attempts s \<Longrightarrow> wf_attempts (fold run_attempt_op ops s)"
  by (induction ops arbitrary: s) (simp_all add: run_attempt_op_wf)

lemma distinct_map_filter_eq:
  "distinct (map g (filter P xs)) \<Longrightarrow> x \<in> set xs \<Longrightarrow> y \<in> set xs \<Longrightarrow> P x \<Longrightarrow> P y \<Longrightarrow> g x = g y \<Longrightarrow> x = y"
  by (simp add: distinct_map inj_on_def)

lemma wf_attempts_sent_unique:
  "wf_attempts s \<Longrightarrow> r \<in> set (recovery_attempts s) \<Longrightarrow> q \<in> set (recovery_attempts s) \<Longrightarrow>
   ra_sent_at r \<noteq> None \<Longrightarrow> ra_sent_at q \<noteq> None \<Longrightarrow> episode r = episode q \<Longrightarrow> r = q"
  using distinct_map_filter_eq [of episode "\<lambda>r. ra_sent_at r \<noteq> None" "recovery_attempts s" r q]
  by (simp add: wf_attempts_def touched_episodes_def)

lemma wf_attempts_id_unique:
  "wf_attempts s \<Longrightarrow> r \<in> set (recovery_attempts s) \<Longrightarrow> q \<in> set (recovery_attempts s) \<Longrightarrow>
   ra_id r = ra_id q \<Longrightarrow> r = q"
  by (auto simp: wf_attempts_def distinct_map inj_on_def)

text \<open>Recording a send for a second attempt of an episode already touched is refused by the index.\<close>

lemma mark_sent_second:
  assumes "wf_attempts s" and r: "r \<in> set (recovery_attempts s)" "ra_sent_at r \<noteq> None"
    and q: "q \<in> set (recovery_attempts s)" "ra_id q \<noteq> ra_id r" "episode q = episode r"
    and "org_ctx s = Some (ra_org_id q)"
  shows "mark_sent (ra_org_id q) (ra_id q) m k l s = (Inl AttemptUniqueViolation, s)"
proof -
  let ?p = "\<lambda>x. rls_visible s (ra_org_id x) \<and> ra_id x = ra_id q \<and> ra_org_id x = ra_org_id q"
  let ?f = "\<lambda>x. x\<lparr>ra_status := ''sent'', ra_sent_at := Some (now s), ra_outbound_message_id := m,
              ra_template_key := k, ra_template_language := l\<rparr>"
  let ?rows = "update_where ?p ?f (recovery_attempts s)"
  have "?p q" using assms(7) by (simp add: rls_visible_def)
  then have "?f q \<in> set ?rows" using q(1) unfolding set_update_where by blast
  moreover have "r \<in> set ?rows" using r(1) q(2) unfolding set_update_where by auto
  moreover have "episode (?f q) = episode r" using q(3) by (simp add: episode_def)
  moreover have "?f q \<noteq> r" using q(2) by (auto dest: arg_cong [where f = ra_id])
  moreover have "ra_sent_at (?f q) \<noteq> None" by simp
  ultimately have "\<not> distinct (touched_episodes ?rows)"
    using distinct_map_filter_eq [of episode "\<lambda>r. ra_sent_at r \<noteq> None" ?rows "?f q" r] r(2)
    unfolding touched_episodes_def by blast
  then show ?thesis by (simp add: mark_sent_def set_attempts_def Let_def)
qed

subsection \<open>Properties\<close>

text \<open>
  C38: one silence, one touch. After any history of proposals, decisions, sends, failures, receipts
  and replies, from a consistent table, two rows of the same episode that both count as sent are the
  same row; and recording a send for another attempt of an episode already touched is refused and
  changes nothing.
\<close>

theorem episode_touched_once:
  assumes "wf_attempts s" and "s' = fold run_attempt_op ops s"
    and "r \<in> set (recovery_attempts s')" and "ra_sent_at r \<noteq> None"
    and "q \<in> set (recovery_attempts s')" and "episode q = episode r"
  shows "(ra_sent_at q \<noteq> None \<longrightarrow> q = r) \<and>
     (q \<noteq> r \<longrightarrow> org_ctx s' = Some (ra_org_id q) \<longrightarrow>
        mark_sent (ra_org_id q) (ra_id q) m k l s' = (Inl AttemptUniqueViolation, s'))"
proof -
  have wf: "wf_attempts s'" unfolding assms(2) by (rule run_attempt_ops_wf [OF assms(1)])
  have "ra_id q \<noteq> ra_id r" if "q \<noteq> r" using that wf_attempts_id_unique [OF wf assms(5,3)] by blast
  with wf_attempts_sent_unique [OF wf assms(5,3) _ assms(4) assms(6)] mark_sent_second [OF wf assms(3,4,5) _ assms(6)]
  show ?thesis by blast
qed

text \<open>
  A reply is credited to the attempt that can have caused it. The credited attempt is of that
  conversation and organisation, was sent strictly before the reply and had not been credited; among
  such attempts it is the one sent last; its row is the only one that changes, so a second reply is
  credited to another attempt or to none.
\<close>

theorem reply_credit:
  assumes "wf_attempts s" and "mark_replied org conversation m at s = (Inr (Some i), s')"
  shows "\<exists>a \<in> set (recovery_attempts s). ra_id a = i \<and>
     creditable org conversation (case at of None \<Rightarrow> now s | Some t \<Rightarrow> t) a \<and>
     (\<forall>q \<in> set (recovery_attempts s). creditable org conversation (case at of None \<Rightarrow> now s | Some t \<Rightarrow> t) q \<longrightarrow>
        rls_visible s org \<longrightarrow> the (ra_sent_at q) \<le> the (ra_sent_at a)) \<and>
     recovery_attempts s' = update_where (\<lambda>r. r = a)
       (\<lambda>r. r\<lparr>ra_status := ''replied'', ra_replied_at := Some (case at of None \<Rightarrow> now s | Some t \<Rightarrow> t),
              ra_inbound_reply_message_id := Some m\<rparr>) (recovery_attempts s)"
proof -
  let ?t = "case at of None \<Rightarrow> now s | Some t \<Rightarrow> t"
  let ?f = "\<lambda>r. r\<lparr>ra_status := ''replied'', ra_replied_at := Some ?t, ra_inbound_reply_message_id := Some m\<rparr>"
  let ?key = "\<lambda>r. case ra_sent_at r of None \<Rightarrow> 0 | Some x \<Rightarrow> - x"
  let ?rows = "filter (\<lambda>r. rls_visible s (ra_org_id r) \<and> creditable org conversation ?t r) (recovery_attempts s)"
  obtain a where a: "credited_attempt org conversation ?t s = Some a"
    and set: "op_bind (set_attempts (\<lambda>r. ra_id r = ra_id a \<and> ra_org_id r = org) ?f)
            (\<lambda>_ s1. (Inr (Some (ra_id a)), s1)) s = (Inr (Some i), s')"
    using assms(2) by (auto simp: mark_replied_def Let_def split: option.splits)
  have first: "a \<in> set ?rows" "\<forall>q \<in> set ?rows. ?key a \<le> ?key q"
    using order_first_Some [of ?key ?rows a] a by (simp_all add: credited_attempt_def)
  have i: "i = ra_id a" and rows: "recovery_attempts s' =
      update_where (\<lambda>r. rls_visible s (ra_org_id r) \<and> ra_id r = ra_id a \<and> ra_org_id r = org) ?f (recovery_attempts s)"
    using set by (auto simp: op_bind_Inr set_attempts_def Let_def split: if_splits)
  have "(rls_visible s (ra_org_id r) \<and> ra_id r = ra_id a \<and> ra_org_id r = org) \<longleftrightarrow> r = a"
    if "r \<in> set (recovery_attempts s)" for r
    using first(1) wf_attempts_id_unique [OF assms(1) that, of a] by (auto simp: creditable_def)
  then have "recovery_attempts s' = update_where (\<lambda>r. r = a) ?f (recovery_attempts s)"
    unfolding rows update_where_def by (intro map_cong) auto
  moreover have "the (ra_sent_at q) \<le> the (ra_sent_at a)"
    if "q \<in> set (recovery_attempts s)" "creditable org conversation ?t q" "rls_visible s org" for q
  proof -
    have "?key a \<le> ?key q" using first(2) that by (auto simp: creditable_def)
    then show ?thesis using that(2) first(1) by (auto simp: creditable_def split: option.splits)
  qed
  ultimately show ?thesis using first(1) i by (intro bexI [of _ a]) auto
qed

text \<open>Two attempts on the same silence of lead 4: the first was sent at time 10.\<close>

definition example_attempts :: attempt_db where
  "example_attempts = fold run_attempt_op
     [Propose 7 4 6 None (Some 3) None, Propose 7 4 6 None (Some 3) None, Sent 7 20 None None None]
     (template_db.extend (example_templates\<lparr>org_ctx := Some 7, fresh := 20, now := 10\<rparr>) (attempt_db.fields []))"

lemma example_attempts_rows:
  "map (\<lambda>r. (ra_id r, episode r, ra_sent_at r, ra_org_id r)) (recovery_attempts example_attempts) =
     [(20, (7, 4, 3), Some 10, 7), (21, (7, 4, 3), None, 7)]"
  "org_ctx example_attempts = Some 7" "fresh example_attempts = 22" "now example_attempts = 10"
  by code_simp+

lemma example_attempts_wf: "wf_attempts example_attempts"
proof -
  have "touched_episodes (recovery_attempts example_attempts) = [(7, 4, 3)]" by code_simp
  moreover have "map ra_id (recovery_attempts example_attempts) = [20, 21]" by code_simp
  then have "set (map ra_id (recovery_attempts example_attempts)) = {20, 21}" by simp
  then have "ra_id r \<in> {20, 21}" if "r \<in> set (recovery_attempts example_attempts)" for r
    using that imageI [OF that, of ra_id] by simp
  then have "\<forall>r \<in> set (recovery_attempts example_attempts). ra_id r < 22" by fastforce
  ultimately show ?thesis
    using \<open>map ra_id (recovery_attempts example_attempts) = [20, 21]\<close> by (simp add: wf_attempts_def example_attempts_rows)
qed

theorem episode_touched_once_witness:
  "mark_sent 7 21 (Some 9) None None example_attempts = (Inl AttemptUniqueViolation, example_attempts)"
proof -
  obtain r q where rows: "recovery_attempts example_attempts = [r, q]"
    and r: "ra_id r = 20" "episode r = (7, 4, 3)" "ra_sent_at r = Some 10"
    and q: "ra_id q = 21" "episode q = (7, 4, 3)" "ra_org_id q = 7"
    using example_attempts_rows(1) by (auto simp: map_eq_Cons_conv)
  then have "q \<noteq> r" by auto
  with episode_touched_once [of example_attempts example_attempts "[]" r q "Some 9" None None] example_attempts_wf rows r q
    example_attempts_rows(2)
  show ?thesis by simp
qed

theorem reply_credit_witness:
  "\<exists>s' m. mark_replied 7 6 9 (Some 11) example_attempts = (Inr (Some 20), s') \<and>
     m \<in> set (recovery_attempts s') \<and> ra_id m = 20 \<and> ra_replied_at m = Some 11"
proof -
  have "fst (mark_replied 7 6 9 (Some 11) example_attempts) = Inr (Some 20)" by code_simp
  then obtain s' where s': "mark_replied 7 6 9 (Some 11) example_attempts = (Inr (Some 20), s')"
    by (cases "mark_replied 7 6 9 (Some 11) example_attempts") auto
  from reply_credit [OF example_attempts_wf s'] obtain a where a: "a \<in> set (recovery_attempts example_attempts)" "ra_id a = 20"
    "recovery_attempts s' = update_where (\<lambda>r. r = a)
       (\<lambda>r. r\<lparr>ra_status := ''replied'', ra_replied_at := Some 11, ra_inbound_reply_message_id := Some 9\<rparr>)
       (recovery_attempts example_attempts)" by auto
  then have "a\<lparr>ra_status := ''replied'', ra_replied_at := Some 11, ra_inbound_reply_message_id := Some 9\<rparr> \<in> set (recovery_attempts s')"
    unfolding a(3) set_update_where by blast
  with a(2) s' show ?thesis by (intro exI conjI) (assumption, assumption, simp_all)
qed

end
