(* ===== verification/Send.thy ===== *)
theory Send
  imports Attempts Complex_Main
begin

text \<open>
  The send path to customers (\<open>core/channels/whatsapp/send.py\<close>): the gates, the durable claim of an
  idempotency key, the dispatch with bounded retries, and the record of the outcome; with the
  \<open>messages.send\<close> tool (\<open>core/mediation/tools.py\<close>) that mints the authorisation and calls it, and
  \<open>load_credentials\<close>. Meta's API is the argument \<open>client\<close>: what it answers may depend on every request it
  has received, and it may raise (\<open>None\<close>). \<open>decrypt\<close> is \<open>decrypt_json\<close>. The state records what left
  the process (\<open>provider\<close>) and the claims committed in transactions of their own
  (\<open>dispatch_claims\<close>): neither is undone by a rollback of the caller. A failing suppression query is
  not modelled.

  The lemmas show that nothing reaches Meta past a closed gate, that one send makes at most four
  identical requests, and that an idempotency key dispatches at most once.
\<close>

definition SEND_ACTION :: string where "SEND_ACTION = ''msg.send''"
definition FIGURE_OVERRIDE_ACTION :: string where "FIGURE_OVERRIDE_ACTION = ''msg.send.figure_override''"
definition MAX_RETRIES :: nat where "MAX_RETRIES = 3"
definition MAX_BACKOFF_S :: rat where "MAX_BACKOFF_S = 30"

subsection \<open>The provider\<close>

datatype provider_request =
    SendText json json string string
  | SendTemplate json json string string string "string list"

record SendResult =
  sr_ok :: bool
  sr_provider_message_id :: "string option"
  sr_status_code :: "int option"
  sr_retry_after_s :: "rat option"
  sr_error :: "string option"

type_synonym meta_client = "provider_request list \<Rightarrow> provider_request \<Rightarrow> SendResult option"

record provider_log =
  pv_calls :: "provider_request list"
  pv_sleeps :: "rat list"

text \<open>The Cloud API body of a template send (\<open>meta_client.py\<close>).\<close>

definition build_template_payload :: "string \<Rightarrow> string \<Rightarrow> string \<Rightarrow> string list \<Rightarrow> json" where
  "build_template_payload to name language parameters =
     JObj [(''messaging_product'', JStr ''whatsapp''), (''to'', JStr to), (''type'', JStr ''template''),
       (''template'', JObj ([(''name'', JStr name), (''language'', JObj [(''code'', JStr language)])] @
          (if parameters = [] then []
           else [(''components'', JArr [JObj [(''type'', JStr ''body''),
             (''parameters'', JArr (map (\<lambda>p. JObj [(''type'', JStr ''text''), (''text'', JStr p)]) parameters))]])])))]"

record credential_row =
  cc_channel_id :: uuid
  cc_org_id :: uuid
  cc_ciphertext :: string

record send_db = attempt_db +
  channel_credentials :: "credential_row list"
  dispatch_claims :: "message_row list"
  provider :: provider_log

datatype send_error =
    SendRefused string string
  | TemplateRefused template_error
  | SendTokenMalformed
  | CredentialsUnreadable
  | SendRlsViolation
  | SendUniqueViolation
  | ProviderRaised
  | SendEmit emit_error
  | SendAudit audit_error

record send_args =
  sa_org_id :: uuid
  sa_conversation_id :: uuid
  sa_body :: string
  sa_audit_id :: "uuid option"
  sa_execution_token :: "string option"
  sa_figure_refs :: "string list"
  sa_figure_check :: string
  sa_figure_override_by :: "uuid option"
  sa_message_class :: string
  sa_template :: "(string \<times> string) option"
  sa_template_parameters :: "string list"
  sa_idempotency_key :: "string option"
  sa_recovery_attempt_id :: "uuid option"

record SendOutcome =
  so_sent :: bool
  so_message_id :: uuid
  so_provider_message_id :: "string option"
  so_retryable :: bool
  so_already_dispatched :: bool

subsection \<open>The gates\<close>

definition assert_not_suppressed :: "string list \<Rightarrow> string \<Rightarrow> send_error option" where
  "assert_not_suppressed scopes message_class =
     (if ''all'' \<in> set scopes then Some (SendRefused ''suppressed_contact'' ''contact suppressed (all)'')
      else if message_class = ''marketing'' \<and> ''marketing'' \<in> set scopes
        then Some (SendRefused ''suppressed_contact'' ''contact suppressed (marketing)'')
      else None)"

definition assert_consent :: "string \<Rightarrow> string \<Rightarrow> send_error option" where
  "assert_consent consent_status message_class =
     (if message_class = ''transactional'' then None
      else if consent_status \<notin> set POSITIVE_MARKETING
        then Some (SendRefused ''consent_missing'' (''marketing requires consent (is '' @ consent_status @ '')''))
      else None)"

definition op_assert :: "send_error option \<Rightarrow> (send_error, unit, 's) op" where
  "op_assert e s = (case e of None \<Rightarrow> (Inr (), s) | Some x \<Rightarrow> (Inl x, s))"

definition suppression_scopes :: "uuid \<Rightarrow> 'a crm_db_scheme \<Rightarrow> string list" where
  "suppression_scopes contact s =
     map sp_scope (filter (\<lambda>r. rls_visible s (sp_org_id r) \<and> sp_contact_id r = contact) (suppressions s))"

fun unmatched_figures :: "uuid \<Rightarrow> ExtractedFigure list \<Rightarrow> 'a ledger_db_scheme \<Rightarrow> nat \<times> 'a ledger_db_scheme" where
  "unmatched_figures org [] s = (0, s)"
| "unmatched_figures org (f # fs) s =
     (case ledger_match org (int (xf_minor f)) DEFAULT_MATCH_WINDOW_HOURS s of (hit, s1) \<Rightarrow>
        case unmatched_figures org fs s1 of (n, s2) \<Rightarrow> (if hit then n else Suc n, s2))"

definition assert_figures_ledgered :: "(string \<Rightarrow> string) \<Rightarrow> send_args \<Rightarrow> (send_error, unit, 'a send_db_scheme) op" where
  "assert_figures_ledgered h a s =
     (if sa_figure_check a = ''off'' then (Inr (), s)
      else (case unmatched_figures (sa_org_id a) (extract_amounts (sa_body a)) s of (n, s1) \<Rightarrow>
        if n = 0 then (Inr (), s1)
        else (case sa_figure_override_by a of
            Some u \<Rightarrow> (Inr (), snd (audit_write h
              \<lparr>ae_org_id = sa_org_id a, ae_actor_type = ''user'', ae_action = FIGURE_OVERRIDE_ACTION,
               ae_actor_id = Some (nat_str u), ae_resource = Some (nat_str (sa_conversation_id a)),
               ae_payload = JObj [(''unledgered_count'', JInt (int n))], ae_trace_id = None,
               ae_permission_manifest_hash = None\<rparr> s1))
          | None \<Rightarrow>
              if sa_figure_check a = ''block''
              then (Inl (SendRefused ''unledgered_figure'' (nat_str n @ '' amount(s) not in the ledger'')), s1)
              else (Inr (), s1))))"

definition load_credentials :: "(string \<Rightarrow> json option) \<Rightarrow> uuid \<Rightarrow> uuid \<Rightarrow> (send_error, json option, 'a send_db_scheme) op" where
  "load_credentials decrypt org channel s0 =
     (let s = set_org_context org s0 in
      case find (\<lambda>r. rls_visible s (cc_org_id r) \<and> cc_channel_id r = channel) (channel_credentials s) of
        None \<Rightarrow> (Inr None, s)
      | Some r \<Rightarrow> if cc_ciphertext r = [] then (Inr None, s)
          else (case decrypt (cc_ciphertext r) of None \<Rightarrow> (Inl CredentialsUnreadable, s) | Some c \<Rightarrow> (Inr (Some c), s)))"

definition capability_gate :: "send_args \<Rightarrow> (send_error, uuid, 'a send_db_scheme) op" where
  "capability_gate a s =
     (case sa_audit_id a of
        Some aid \<Rightarrow> if verify_capability aid SEND_ACTION (Some (nat_str (sa_conversation_id a))) s then (Inr aid, s)
          else (Inl (SendRefused ''approval_required'' ''missing or invalid audit capability''), s)
      | None \<Rightarrow> (Inl (SendRefused ''approval_required'' ''missing or invalid audit capability''), s))"

definition token_gate :: "crypto \<Rightarrow> send_args \<Rightarrow> (send_error, TokenClaims, 'a send_db_scheme) op" where
  "token_gate C a =
     op_error (\<lambda>e. case e of TokenInvalid m \<Rightarrow> SendRefused ''approval_required'' (''execution token: '' @ m)
                 | TokenMalformedPayload \<Rightarrow> SendTokenMalformed)
       (verify C (sa_execution_token a) (sa_org_id a)
          (action_hash C (sa_org_id a) SEND_ACTION (nat_str (sa_conversation_id a))))"

definition template_gate :: "send_args \<Rightarrow> (send_error, unit, 'a send_db_scheme) op" where
  "template_gate a = (case sa_template a of None \<Rightarrow> (\<lambda>s. (Inr (), s))
     | Some (k, lang) \<Rightarrow> op_error TemplateRefused (assert_template_sendable (sa_org_id a) k lang))"

definition new_message :: "send_args \<Rightarrow> uuid \<Rightarrow> string \<Rightarrow> message_row" where
  "new_message a i status = \<lparr>ms_id = i, ms_org_id = sa_org_id a, ms_conversation_id = sa_conversation_id a,
     ms_direction = ''outbound'', ms_sender = ''agent'', ms_body = sa_body a, ms_audit_id = sa_audit_id a,
     ms_status = status, ms_provider_message_id = None, ms_idempotency_key = None, ms_recovery_attempt_id = None\<rparr>"

text \<open>Without an idempotency key the gates' transaction also inserts the queued row.\<close>

definition queue_message :: "send_args \<Rightarrow> (send_error, uuid option, 'a send_db_scheme) op" where
  "queue_message a s =
     (case sa_idempotency_key a of
        Some _ \<Rightarrow> (Inr None, s)
      | None \<Rightarrow>
          if \<not> rls_visible s (sa_org_id a) then (Inl SendRlsViolation, s)
          else (Inr (Some (fresh s)), s\<lparr>messages := messages s @ [new_message a (fresh s) ''queued''], fresh := fresh s + 1\<rparr>))"

text \<open>What the first transaction hands on: the contact, the request to make, the queued message.\<close>

record cleared =
  cl_contact_id :: uuid
  cl_request :: provider_request
  cl_message_id :: "uuid option"

definition request_of :: "send_args \<Rightarrow> json \<Rightarrow> json \<Rightarrow> string \<Rightarrow> provider_request" where
  "request_of a phone_number_id access_token to =
     (case sa_template a of
        Some (name, language) \<Rightarrow> SendTemplate phone_number_id access_token to name language (sa_template_parameters a)
      | None \<Rightarrow> SendText phone_number_id access_token to (sa_body a))"

definition conversation_contact :: "uuid \<Rightarrow> 'a crm_db_scheme \<Rightarrow> (conversation_row \<times> contact_row) option" where
  "conversation_contact conv s =
     (case find (\<lambda>c. rls_visible s (cv_org_id c) \<and> cv_id c = conv) (conversations s) of
        None \<Rightarrow> None
      | Some c \<Rightarrow> map_option (Pair c) (find (\<lambda>ct. rls_visible s (ct_org_id ct) \<and> ct_id ct = cv_contact_id c) (contacts s)))"

definition credentials_gate :: "(string \<Rightarrow> json option) \<Rightarrow> send_args \<Rightarrow> conversation_row \<Rightarrow> contact_row
    \<Rightarrow> (send_error, provider_request, 'a send_db_scheme) op" where
  "credentials_gate decrypt a c ct =
     op_bind (load_credentials decrypt (sa_org_id a) (cv_channel_id c)) (\<lambda>creds s.
       case creds of
         None \<Rightarrow> (Inl (SendRefused ''approval_required'' ''channel not connected''), s)
       | Some j \<Rightarrow> (case (jget j ''phone_number_id'', jget j ''access_token'') of
             (Some p, Some t) \<Rightarrow> (Inr (request_of a p t (ct_phone ct)), s)
           | _ \<Rightarrow> (Inl CredentialsUnreadable, s)))"

definition admit :: "crypto \<Rightarrow> (string \<Rightarrow> json option) \<Rightarrow> send_args \<Rightarrow> conversation_row \<Rightarrow> contact_row
    \<Rightarrow> (send_error, cleared, 'a send_db_scheme) op" where
  "admit C decrypt a c ct =
     op_bind (capability_gate a) (\<lambda>_.
     op_bind (token_gate C a) (\<lambda>_.
     op_bind (\<lambda>s. op_assert (assert_not_suppressed (suppression_scopes (ct_id ct) s) (sa_message_class a)) s) (\<lambda>_.
     op_bind (op_assert (assert_consent (ct_consent_status ct) (sa_message_class a))) (\<lambda>_.
     op_bind (assert_figures_ledgered (sha256 C) a) (\<lambda>_.
     op_bind (template_gate a) (\<lambda>_.
     op_bind (credentials_gate decrypt a c ct) (\<lambda>req.
     op_bind (queue_message a) (\<lambda>m s.
       (Inr \<lparr>cl_contact_id = ct_id ct, cl_request = req, cl_message_id = m\<rparr>, s)))))))))"

definition send_gates :: "crypto \<Rightarrow> (string \<Rightarrow> json option) \<Rightarrow> send_args \<Rightarrow> (send_error, cleared, 'a send_db_scheme) op" where
  "send_gates C decrypt a s =
     (case conversation_contact (sa_conversation_id a) s of
        None \<Rightarrow> (Inl (SendRefused ''approval_required'' ''unknown conversation''), s)
      | Some (c, ct) \<Rightarrow> admit C decrypt a c ct s)"

subsection \<open>The claim\<close>

record Claim =
  cm_message_id :: uuid
  cm_already_dispatched :: bool
  cm_sent :: bool
  cm_provider_message_id :: "string option"

text \<open>
  \<open>INSERT\<close> against the unique index on \<open>(org_id, idempotency_key)\<close>, in a transaction of its own; a
  loser reads the winner's row, which only exists for a row of this organisation.
\<close>

definition key_row :: "uuid \<Rightarrow> string \<Rightarrow> message_row \<Rightarrow> bool" where
  "key_row org key m \<longleftrightarrow> ms_org_id m = org \<and> ms_idempotency_key m = Some key"

definition claim_dispatch :: "send_args \<Rightarrow> string \<Rightarrow> 'a send_db_scheme \<Rightarrow> Claim \<times> 'a send_db_scheme" where
  "claim_dispatch a key s =
     (case find (key_row (sa_org_id a) key) (messages s) of
        Some m \<Rightarrow> (\<lparr>cm_message_id = ms_id m, cm_already_dispatched = True, cm_sent = (ms_status m = ''sent''),
                   cm_provider_message_id = ms_provider_message_id m\<rparr>, s)
      | None \<Rightarrow>
          (let m = (new_message a (fresh s) ''dispatching'')\<lparr>ms_idempotency_key := Some key,
                     ms_recovery_attempt_id := sa_recovery_attempt_id a\<rparr>
           in (\<lparr>cm_message_id = fresh s, cm_already_dispatched = False, cm_sent = False, cm_provider_message_id = None\<rparr>,
               s\<lparr>messages := messages s @ [m], dispatch_claims := dispatch_claims s @ [m], fresh := fresh s + 1\<rparr>)))"

text \<open>A rollback of the caller's transaction: what left the process and the committed claims stay.\<close>

definition roll_back :: "'a send_db_scheme \<Rightarrow> 'a send_db_scheme \<Rightarrow> 'a send_db_scheme" where
  "roll_back base s =
     base\<lparr>now := now s, fresh := fresh s, provider := provider s, dispatch_claims := dispatch_claims s,
          messages := messages base @ filter (\<lambda>c. \<not> list_ex (\<lambda>m. ms_org_id m = ms_org_id c \<and>
            ms_idempotency_key m = ms_idempotency_key c) (messages base)) (dispatch_claims s)\<rparr>"

subsection \<open>The dispatch\<close>

definition is_retryable :: "SendResult \<Rightarrow> bool" where
  "is_retryable r = (case sr_status_code r of None \<Rightarrow> True | Some sc \<Rightarrow> sc = 429 \<or> (500 \<le> sc \<and> sc < 600))"

definition backoff :: "nat \<Rightarrow> rat" where
  "backoff attempt = min (2 ^ attempt) MAX_BACKOFF_S"

function send_with_retries :: "meta_client \<Rightarrow> provider_request \<Rightarrow> nat \<Rightarrow> nat \<Rightarrow> provider_log
    \<Rightarrow> SendResult option \<times> provider_log" where
  "send_with_retries client req max_retries attempt pv =
     (case client (pv_calls pv) req of
        None \<Rightarrow> (None, pv\<lparr>pv_calls := pv_calls pv @ [req]\<rparr>)
      | Some result \<Rightarrow>
          (let pv1 = pv\<lparr>pv_calls := pv_calls pv @ [req]\<rparr> in
           if sr_ok result \<or> \<not> is_retryable result \<or> max_retries \<le> attempt then (Some result, pv1)
           else
             (let delay = (case sr_retry_after_s result of Some d \<Rightarrow> d | None \<Rightarrow> backoff attempt)
              in send_with_retries client req max_retries (Suc attempt) (pv1\<lparr>pv_sleeps := pv_sleeps pv1 @ [delay]\<rparr>))))"
  by pat_completeness auto
termination by (relation "measure (\<lambda>(_, _, max_retries, attempt, _). max_retries - attempt)") auto

declare send_with_retries.simps [simp del]

text \<open>The claim, if the send carries a key, and the dispatch: \<open>Inl\<close> is the outcome of the other caller.\<close>

definition dispatch :: "meta_client \<Rightarrow> send_args \<Rightarrow> cleared \<Rightarrow> 'a send_db_scheme
    \<Rightarrow> (SendOutcome + uuid \<times> SendResult option) \<times> 'a send_db_scheme" where
  "dispatch client a cl s =
     (case (case sa_idempotency_key a of
          Some key \<Rightarrow> claim_dispatch a key s
        | None \<Rightarrow> (\<lparr>cm_message_id = (case cl_message_id cl of Some m \<Rightarrow> m | None \<Rightarrow> 0), cm_already_dispatched = False,
                   cm_sent = False, cm_provider_message_id = None\<rparr>, s)) of (c, s1) \<Rightarrow>
        if cm_already_dispatched c then
          (Inl \<lparr>so_sent = cm_sent c, so_message_id = cm_message_id c, so_provider_message_id = cm_provider_message_id c,
                so_retryable = False, so_already_dispatched = True\<rparr>, s1)
        else (case send_with_retries client (cl_request cl) MAX_RETRIES 0 (provider s1) of (r, pv) \<Rightarrow>
          (Inr (cm_message_id c, r), s1\<lparr>provider := pv\<rparr>)))"

subsection \<open>The record\<close>

text \<open>\<open>UPDATE messages ... WHERE id\<close>; \<open>provider_message_id\<close> is unique over all rows.\<close>

definition set_message :: "uuid \<Rightarrow> (message_row \<Rightarrow> message_row) \<Rightarrow> (send_error, unit, 'a send_db_scheme) op" where
  "set_message i f s =
     (let rows = update_where (\<lambda>r. rls_visible s (ms_org_id r) \<and> ms_id r = i) f (messages s) in
      if distinct (map ms_provider_message_id (filter (\<lambda>r. ms_provider_message_id r \<noteq> None) rows))
      then (Inr (), s\<lparr>messages := rows\<rparr>) else (Inl SendUniqueViolation, s))"

definition record_sent :: "crypto \<Rightarrow> send_args \<Rightarrow> uuid \<Rightarrow> uuid \<Rightarrow> uuid \<Rightarrow> SendResult
    \<Rightarrow> (send_error, SendOutcome, 'a send_db_scheme) op" where
  "record_sent C a audit_id contact message_id result =
     op_bind (set_message message_id (\<lambda>r. r\<lparr>ms_status := ''sent'', ms_provider_message_id := sr_provider_message_id result\<rparr>)) (\<lambda>_.
     op_bind (op_error SendEmit (emit (sa_org_id a) ''msg.sent.v1''
       [(''message_id'', JId message_id), (''conversation_id'', JId (sa_conversation_id a)), (''audit_id'', JId audit_id)]
       ''whatsapp'')) (\<lambda>_.
     op_bind (if sa_figure_refs a = [] then (\<lambda>s. (Inr None, s))
              else op_error SendEmit (mark_quoted (sa_org_id a) contact (Some message_id))) (\<lambda>_.
     op_bind (op_error SendAudit (write_outcome (sha256 C) audit_id ''succeeded'' None)) (\<lambda>_ s.
       (Inr \<lparr>so_sent = True, so_message_id = message_id, so_provider_message_id = sr_provider_message_id result,
             so_retryable = False, so_already_dispatched = False\<rparr>, s)))))"

definition failure_text :: "SendResult \<Rightarrow> string" where
  "failure_text r = take 500 (case sr_error r of
       Some e \<Rightarrow> if e = [] then ''status '' @ (case sr_status_code r of None \<Rightarrow> ''None'' | Some c \<Rightarrow> int_str c) else e
     | None \<Rightarrow> ''status '' @ (case sr_status_code r of None \<Rightarrow> ''None'' | Some c \<Rightarrow> int_str c))"

definition record_failed :: "crypto \<Rightarrow> send_args \<Rightarrow> uuid \<Rightarrow> uuid \<Rightarrow> SendResult
    \<Rightarrow> (send_error, SendOutcome, 'a send_db_scheme) op" where
  "record_failed C a audit_id message_id result =
     op_bind (set_message message_id (\<lambda>r. r\<lparr>ms_status := ''failed''\<rparr>)) (\<lambda>_.
     op_bind (op_error SendEmit (emit (sa_org_id a) ''msg.failed.v1''
       [(''message_id'', JId message_id), (''error'', JStr (failure_text result)), (''retryable'', JBool (is_retryable result))]
       ''whatsapp'')) (\<lambda>_.
     op_bind (op_error SendAudit (write_outcome (sha256 C) audit_id ''failed'' (sr_error result))) (\<lambda>_ s.
       (Inr \<lparr>so_sent = False, so_message_id = message_id, so_provider_message_id = None,
             so_retryable = is_retryable result, so_already_dispatched = False\<rparr>, s))))"

definition record_outcome :: "crypto \<Rightarrow> send_args \<Rightarrow> uuid \<Rightarrow> uuid \<Rightarrow> SendResult
    \<Rightarrow> (send_error, SendOutcome, 'a send_db_scheme) op" where
  "record_outcome C a contact message_id result s =
     (case sa_audit_id a of
        None \<Rightarrow> (Inl (SendRefused ''approval_required'' ''missing or invalid audit capability''), s)
      | Some aid \<Rightarrow>
          if sr_ok result then record_sent C a aid contact message_id result s
          else record_failed C a aid message_id result s)"

subsection \<open>The send\<close>

text \<open>
  \<open>_send_session\<close>: the caller's transaction, or one of its own in the organisation's context, committed
  unless it raises.
\<close>

definition send_session :: "bool \<Rightarrow> uuid \<Rightarrow> ('e, 'b, 'a send_db_scheme) op \<Rightarrow> ('e, 'b, 'a send_db_scheme) op" where
  "send_session passed org f s =
     (if passed then f s
      else (case f (set_org_context org s) of
          (Inl e, s1) \<Rightarrow> (Inl e, roll_back s s1) | (Inr x, s1) \<Rightarrow> (Inr x, s1\<lparr>org_ctx := org_ctx s\<rparr>)))"

definition send :: "crypto \<Rightarrow> (string \<Rightarrow> json option) \<Rightarrow> meta_client \<Rightarrow> bool \<Rightarrow> send_args
    \<Rightarrow> (send_error, SendOutcome, 'a send_db_scheme) op" where
  "send C decrypt client passed a =
     op_bind (send_session passed (sa_org_id a) (send_gates C decrypt a)) (\<lambda>cl s.
       case dispatch client a cl s of
         (Inl other, s1) \<Rightarrow> (Inr other, s1)
       | (Inr (message_id, None), s1) \<Rightarrow> (Inl ProviderRaised, s1)
       | (Inr (message_id, Some result), s1) \<Rightarrow>
           send_session passed (sa_org_id a) (record_outcome C a (cl_contact_id cl) message_id result) s1)"

subsection \<open>Lemmas\<close>

text \<open>What the gates and the record leave alone: the provider, the committed claims and the keys in use.\<close>

definition keys_in_use :: "message_row list \<Rightarrow> (uuid \<times> string option) list" where
  "keys_in_use rows = map (\<lambda>m. (ms_org_id m, ms_idempotency_key m)) (filter (\<lambda>m. ms_idempotency_key m \<noteq> None) rows)"

definition outside :: "'a send_db_scheme \<Rightarrow> provider_log \<times> message_row list \<times> (uuid \<times> string option) list" where
  "outside s = (provider s, dispatch_claims s, keys_in_use (messages s))"

abbreviation op_inside :: "('e, 'b, 'a send_db_scheme) op \<Rightarrow> bool" where
  "op_inside f \<equiv> (\<forall>x. op_keeps (\<lambda>s. outside s = x) f)"

lemma op_insideI: "(\<And>s. outside (snd (f s)) = outside s) \<Longrightarrow> op_inside f"
  by (simp add: op_keeps_def)

lemma op_inside_snd: "op_inside f \<Longrightarrow> outside (snd (f s)) = outside s"
  unfolding op_keeps_def by blast

lemma op_insideD: "op_inside f \<Longrightarrow> f s = (r, s1) \<Longrightarrow> outside s1 = outside s"
  by (drule op_inside_snd [of f s]) simp

lemma outside_set_org_context [simp]: "outside (set_org_context org s) = outside s"
  by (simp add: outside_def set_org_context_def)

lemma outside_verify: "outside (snd (verify C t org h s)) = outside s"
proof (cases "verify C t org h s")
  case (Pair r s1)
  show ?thesis
  proof (cases r)
    case (Inl e)
    with Pair verify_refused [of C t org h s e s1] show ?thesis by simp
  next
    case (Inr c)
    with Pair have "verify C t org h s = (Inr c, s1)" by simp
    then obtain x where "s1 = s\<lparr>execution_token_jti := x\<rparr>" by (rule verify_cases) blast
    with Pair show ?thesis by (simp add: outside_def)
  qed
qed

lemma outside_audit_write: "outside (snd (audit_write h e s)) = outside s"
  by (simp add: outside_def audit_write_def Let_def set_org_context_def)

lemma unmatched_figures_state: "snd (unmatched_figures org fs s) = (if fs = [] then s else set_org_context org s)"
  by (induction fs arbitrary: s) (auto simp: case_prod_beta)

lemma inside_figures: "op_inside (assert_figures_ledgered h a)"
proof (rule op_insideI)
  fix s :: "'a send_db_scheme"
  obtain n s1 where u: "unmatched_figures (sa_org_id a) (extract_amounts (sa_body a)) s = (n, s1)" by fastforce
  with unmatched_figures_state [of "sa_org_id a" "extract_amounts (sa_body a)" s] have "outside s1 = outside s"
    by (simp split: if_splits)
  then show "outside (snd (assert_figures_ledgered h a s)) = outside s"
    by (simp add: assert_figures_ledgered_def u outside_audit_write split: option.split)
qed

lemma inside_capability: "op_inside (capability_gate a)"
  by (rule op_insideI) (simp add: capability_gate_def split: option.split)

lemma inside_token: "op_inside (token_gate C a)"
  unfolding token_gate_def by (intro allI op_keeps_error) (simp add: op_keeps_def outside_verify)

lemma inside_template: "op_inside (template_gate a)"
  by (rule op_insideI)
    (simp add: template_gate_def op_error_def assert_template_sendable_def split: option.split prod.split)

lemma inside_assert: "op_inside (op_assert e)"
  by (rule op_insideI) (simp add: op_assert_def split: option.split)

lemma inside_assert_of: "op_inside (\<lambda>s. op_assert (e s) s)"
  by (rule op_insideI) (simp add: op_assert_def split: option.split)

lemma inside_credentials: "op_inside (credentials_gate decrypt a c ct)"
  unfolding credentials_gate_def
proof (intro allI op_keeps_bind)
  show "op_keeps (\<lambda>s. outside s = x) (load_credentials decrypt (sa_org_id a) (cv_channel_id c))" for x :: "provider_log \<times> message_row list \<times> (uuid \<times> string option) list"
    by (simp add: op_keeps_def load_credentials_def Let_def split: option.split)
qed (simp add: op_keeps_def split: option.split)

lemma inside_queue: "op_inside (queue_message a)"
  by (rule op_insideI) (simp add: queue_message_def outside_def keys_in_use_def new_message_def split: option.split)

lemma inside_admit: "op_inside (admit C decrypt a c ct)"
  unfolding admit_def
  by (intro allI op_keeps_bind)
    (simp_all add: inside_capability inside_token inside_assert_of inside_assert inside_figures inside_template
      inside_credentials inside_queue, simp add: op_keeps_def)

lemma inside_gates: "op_inside (send_gates C decrypt a)"
proof (rule op_insideI)
  fix s :: "'a send_db_scheme"
  have "outside (snd (admit C decrypt a c ct s)) = outside s" for c ct
    using inside_admit [of C decrypt a c ct] unfolding op_keeps_def by blast
  then show "outside (snd (send_gates C decrypt a s)) = outside s"
    by (simp add: send_gates_def split: option.split)
qed

lemma outside_emit: "outside (snd (emit org ty pl src s)) = outside s"
  by (simp add: emit_def outside_def split: option.split)

lemma inside_emit: "op_inside (emit org ty pl src)"
  by (rule op_insideI) (rule outside_emit)

lemma inside_mark_quoted: "op_inside (mark_quoted org contact m)"
proof (rule op_insideI)
  fix s :: "'a send_db_scheme"
  have sl: "outside (set_leads p f s) = outside s" for p f by (simp add: set_leads_def outside_def)
  have em: "outside s2 = outside s1" if "emit org ty pl src s1 = (r, s2)" for ty pl src s1 r and s2 :: "'a send_db_scheme"
    using outside_emit [of org ty pl src s1] that by simp
  show "outside (snd (mark_quoted org contact m s)) = outside s"
    by (auto simp: mark_quoted_def Let_def sl split: option.split prod.split sum.split dest!: em)
qed

lemma outside_write_outcome: "outside (snd (write_outcome h i oc d s)) = outside s"
  by (simp add: write_outcome_def Let_def case_prod_beta outside_audit_write split: option.split)

lemma keys_update_where:
  "(\<And>m. ms_org_id (f m) = ms_org_id m \<and> ms_idempotency_key (f m) = ms_idempotency_key m) \<Longrightarrow>
   keys_in_use (update_where p f rows) = keys_in_use rows"
  by (induction rows) (auto simp: keys_in_use_def)

lemma inside_set_message:
  "(\<And>m. ms_org_id (f m) = ms_org_id m \<and> ms_idempotency_key (f m) = ms_idempotency_key m) \<Longrightarrow> op_inside (set_message i f)"
  by (rule op_insideI) (simp add: set_message_def Let_def outside_def keys_update_where)

lemma inside_write_outcome: "op_inside (write_outcome h i oc d)"
  by (rule op_insideI) (rule outside_write_outcome)

lemma inside_return: "op_inside (\<lambda>s. (x, s))"
  by (simp add: op_keeps_def)

lemma inside_record_sent: "op_inside (record_sent C a aid ct m r)"
  unfolding record_sent_def
  by (intro allI op_keeps_bind op_keeps_error)
    (auto intro: inside_set_message [rule_format] inside_emit [rule_format] inside_write_outcome [rule_format]
      inside_return [rule_format] op_keeps_error inside_mark_quoted [rule_format])

lemma inside_record_failed: "op_inside (record_failed C a aid m r)"
  unfolding record_failed_def
  by (intro allI op_keeps_bind op_keeps_error)
    (auto intro: inside_set_message [rule_format] inside_emit [rule_format] inside_write_outcome [rule_format]
      inside_return [rule_format])

lemma inside_record: "op_inside (record_outcome C a ct m r)"
proof (rule op_insideI)
  fix s :: "'a send_db_scheme"
  show "outside (snd (record_outcome C a ct m r s)) = outside s"
    by (simp add: record_outcome_def op_inside_snd [OF inside_record_sent] op_inside_snd [OF inside_record_failed]
        split: option.split)
qed

text \<open>The retry loop makes between one and \<open>max_retries - attempt + 1\<close> identical requests.\<close>

lemma send_with_retries_calls:
  "\<exists>n. 1 \<le> n \<and> n \<le> Suc (max_retries - attempt) \<and>
     pv_calls (snd (send_with_retries client req max_retries attempt pv)) = pv_calls pv @ replicate n req"
proof (induction client req max_retries attempt pv rule: send_with_retries.induct)
  case (1 client req max_retries attempt pv)
  let ?pv1 = "pv\<lparr>pv_calls := pv_calls pv @ [req]\<rparr>"
  show ?case
  proof (cases "client (pv_calls pv) req")
    case None
    then show ?thesis by (subst send_with_retries.simps) (auto intro: exI [of _ 1])
  next
    case (Some result)
    show ?thesis
    proof (cases "sr_ok result \<or> \<not> is_retryable result \<or> max_retries \<le> attempt")
      case True
      with Some show ?thesis by (subst send_with_retries.simps) (auto simp: Let_def intro: exI [of _ 1])
    next
      case False
      let ?delay = "case sr_retry_after_s result of Some d \<Rightarrow> d | None \<Rightarrow> backoff attempt"
      from "1.IH" [OF Some refl False refl] obtain n where n: "1 \<le> n" "n \<le> Suc (max_retries - Suc attempt)"
        "pv_calls (snd (send_with_retries client req max_retries (Suc attempt) (?pv1\<lparr>pv_sleeps := pv_sleeps ?pv1 @ [?delay]\<rparr>))) =
           pv_calls pv @ [req] @ replicate n req" by auto
      from Some False have "send_with_retries client req max_retries attempt pv =
          send_with_retries client req max_retries (Suc attempt) (?pv1\<lparr>pv_sleeps := pv_sleeps ?pv1 @ [?delay]\<rparr>)"
        by (subst send_with_retries.simps) (simp add: Let_def)
      with n False show ?thesis by (intro exI [of _ "Suc n"]) auto
    qed
  qed
qed

lemma dispatch_calls:
  assumes "dispatch client a cl s = (r, s1)"
  shows "(\<exists>out. r = Inl out \<and> s1 = s \<and> (\<exists>key. sa_idempotency_key a = Some key \<and> find (key_row (sa_org_id a) key) (messages s) \<noteq> None))
    \<or> (\<exists>n. 1 \<le> n \<and> n \<le> 4 \<and> pv_calls (provider s1) = pv_calls (provider s) @ replicate n (cl_request cl) \<and>
         (\<forall>key. sa_idempotency_key a = Some key \<longrightarrow> find (key_row (sa_org_id a) key) (messages s) = None))"
proof -
  have calls: "\<exists>n. 1 \<le> n \<and> n \<le> 4 \<and> pv_calls pv' = pv_calls pv @ replicate n req"
    if "send_with_retries client req MAX_RETRIES 0 pv = (x, pv')" for req pv x pv'
    using send_with_retries_calls [of MAX_RETRIES 0 client req pv] that by (simp add: MAX_RETRIES_def)
  show ?thesis
  proof (cases "sa_idempotency_key a")
    case None
    with assms show ?thesis by (auto simp: dispatch_def split: prod.splits dest!: calls)
  next
    case (Some key)
    with assms show ?thesis
      by (cases "find (key_row (sa_org_id a) key) (messages s)")
        (auto simp: dispatch_def claim_dispatch_def Let_def split: prod.splits dest!: calls)
  qed
qed

text \<open>A cleared send passed every gate, in the state the transaction started from.\<close>

definition figures_admitted :: "send_args \<Rightarrow> 'a send_db_scheme \<Rightarrow> bool" where
  "figures_admitted a s \<longleftrightarrow> sa_figure_check a = ''block'' \<longrightarrow> sa_figure_override_by a = None \<longrightarrow>
     (\<forall>f \<in> set (extract_amounts (sa_body a)).
        fst (ledger_match (sa_org_id a) (int (xf_minor f)) DEFAULT_MATCH_WINDOW_HOURS s))"

definition send_admitted :: "crypto \<Rightarrow> send_args \<Rightarrow> contact_row \<Rightarrow> 'a send_db_scheme \<Rightarrow> bool" where
  "send_admitted C a ct s \<longleftrightarrow>
     (\<exists>aid. sa_audit_id a = Some aid \<and> verify_capability aid SEND_ACTION (Some (nat_str (sa_conversation_id a))) s) \<and>
     ok (verify C (sa_execution_token a) (sa_org_id a)
           (action_hash C (sa_org_id a) SEND_ACTION (nat_str (sa_conversation_id a))) s) \<and>
     ''all'' \<notin> set (suppression_scopes (ct_id ct) s) \<and>
     (sa_message_class a = ''marketing'' \<longrightarrow> ''marketing'' \<notin> set (suppression_scopes (ct_id ct) s)) \<and>
     (sa_message_class a \<noteq> ''transactional'' \<longrightarrow> ct_consent_status ct \<in> set POSITIVE_MARKETING) \<and>
     figures_admitted a s \<and>
     (\<forall>k lang. sa_template a = Some (k, lang) \<longrightarrow> ok (assert_template_sendable (sa_org_id a) k lang s))"

lemma unmatched_figures_zero:
  "fst (unmatched_figures org fs s) = 0 \<longleftrightarrow>
     (\<forall>f \<in> set fs. fst (ledger_match org (int (xf_minor f)) DEFAULT_MATCH_WINDOW_HOURS s))"
proof (induction fs arbitrary: s)
  case (Cons f fs)
  have "fst (ledger_match org n w (set_org_context org s)) = fst (ledger_match org n w s)" for n w
    by (simp add: ledger_match_def Let_def)
  with Cons show ?case by (simp add: case_prod_beta del: ledger_match_sel(1))
qed simp

text \<open>What the later gates read is not touched by the earlier ones.\<close>

definition same_tables :: "'a send_db_scheme \<Rightarrow> 'a send_db_scheme \<Rightarrow> bool" where
  "same_tables s s1 \<longleftrightarrow> org_ctx s1 = org_ctx s \<and> now s1 = now s \<and> suppressions s1 = suppressions s \<and>
     committed_figures_ledger s1 = committed_figures_ledger s \<and> message_templates s1 = message_templates s"

lemma same_tables_suppression: "same_tables s s1 \<Longrightarrow> suppression_scopes ct s1 = suppression_scopes ct s"
  by (simp add: same_tables_def suppression_scopes_def rls_visible_def)

lemma same_tables_ledger: "same_tables s s1 \<Longrightarrow> fst (ledger_match org n w s1) = fst (ledger_match org n w s)"
proof -
  assume "same_tables s s1"
  then have "now s1 = now s" "committed_figures_ledger s1 = committed_figures_ledger s" by (simp_all add: same_tables_def)
  moreover from this(1) have "ledger_hit org n w (set_org_context org s1) = ledger_hit org n w (set_org_context org s)"
    by (intro ext ledger_hit_cong) simp_all
  ultimately show ?thesis by simp
qed

lemma same_tables_template:
  assumes "same_tables s s1"
  shows "ok (assert_template_sendable org k lang s1) = ok (assert_template_sendable org k lang s)"
proof -
  have "is_template s1 org k lang = is_template s org k lang"
    using assms by (intro ext) (simp add: same_tables_def is_template_def rls_visible_def)
  with assms show ?thesis
    by (simp add: same_tables_def assert_template_sendable_def get_template_def split: option.split)
qed

lemma token_gate_Inr:
  assumes "token_gate C a s = (Inr c, s1)"
  shows "ok (verify C (sa_execution_token a) (sa_org_id a)
      (action_hash C (sa_org_id a) SEND_ACTION (nat_str (sa_conversation_id a))) s)" "same_tables s s1"
proof -
  have v: "verify C (sa_execution_token a) (sa_org_id a)
      (action_hash C (sa_org_id a) SEND_ACTION (nat_str (sa_conversation_id a))) s = (Inr c, s1)"
    using assms by (simp add: token_gate_def op_error_Inr)
  then show "ok (verify C (sa_execution_token a) (sa_org_id a)
      (action_hash C (sa_org_id a) SEND_ACTION (nat_str (sa_conversation_id a))) s)" by simp
  from v obtain x where "s1 = s\<lparr>execution_token_jti := x\<rparr>" by (rule verify_cases) blast
  then show "same_tables s s1" by (simp add: same_tables_def)
qed

lemma capability_gate_Inr:
  "capability_gate a s = (Inr aid, s1) \<Longrightarrow> s1 = s \<and> sa_audit_id a = Some aid \<and>
     verify_capability aid SEND_ACTION (Some (nat_str (sa_conversation_id a))) s"
  by (auto simp: capability_gate_def split: option.splits if_splits)

lemma credentials_gate_Inr:
  assumes "credentials_gate decrypt a c ct s = (Inr req, s1)"
  shows "\<exists>p t. req = request_of a p t (ct_phone ct)"
proof -
  obtain creds s2 where "(case creds of None \<Rightarrow> (Inl (SendRefused ''approval_required'' ''channel not connected''), s2)
       | Some j \<Rightarrow> (case (jget j ''phone_number_id'', jget j ''access_token'') of
             (Some p, Some t) \<Rightarrow> (Inr (request_of a p t (ct_phone ct)), s2)
           | _ \<Rightarrow> (Inl CredentialsUnreadable, s2))) = (Inr req, s1)"
    using assms unfolding credentials_gate_def op_bind_Inr by blast
  then show ?thesis by (auto split: option.splits)
qed

lemma set_own_context: "org_ctx s = Some org \<Longrightarrow> set_org_context org s = s"
  by (simp add: set_org_context_def)

lemma figures_gate_Inr:
  assumes "assert_figures_ledgered h a s = (Inr u, s1)" and "org_ctx s = Some (sa_org_id a)"
  shows "figures_admitted a s" "same_tables s s1"
proof -
  obtain n s2 where u: "unmatched_figures (sa_org_id a) (extract_amounts (sa_body a)) s = (n, s2)" by fastforce
  have "s2 = s" using unmatched_figures_state [of "sa_org_id a" "extract_amounts (sa_body a)" s] assms(2) u
    by (simp add: set_own_context split: if_splits)
  with assms(1) u unmatched_figures_zero [of "sa_org_id a" "extract_amounts (sa_body a)" s]
  show "figures_admitted a s"
    by (auto simp: assert_figures_ledgered_def figures_admitted_def split: if_splits)
  have aw: "same_tables s (snd (audit_write h e s))" if "ae_org_id e = sa_org_id a" for e
    using assms(2) that by (simp add: audit_write_def Let_def set_org_context_def same_tables_def)
  have "same_tables s s" by (simp add: same_tables_def)
  with aw \<open>s2 = s\<close> assms(1) u show "same_tables s s1"
    by (auto simp: assert_figures_ledgered_def split: if_splits option.splits)
qed

lemma admit_admitted:
  assumes "admit C decrypt a c ct s = (Inr cl, s')" and ctx: "org_ctx s = Some (sa_org_id a)"
  shows "send_admitted C a ct s \<and> (\<exists>p t. cl_request cl = request_of a p t (ct_phone ct))"
proof -
  have oa: "s2 = s1" if "op_assert e s1 = (Inr u, s2)" for e u and s1 s2 :: "'a send_db_scheme"
    using that by (simp add: op_assert_def split: option.splits)
  obtain aid s1 claims s2 s2a s2b s3 s3a req s4 where
    cap: "capability_gate a s = (Inr aid, s1)" and tok1: "token_gate C a s1 = (Inr claims, s2)"
    and sup1: "op_assert (assert_not_suppressed (suppression_scopes (ct_id ct) s2) (sa_message_class a)) s2 = (Inr (), s2a)"
    and con1: "op_assert (assert_consent (ct_consent_status ct) (sa_message_class a)) s2a = (Inr (), s2b)"
    and fig1: "assert_figures_ledgered (sha256 C) a s2b = (Inr (), s3)"
    and tem: "template_gate a s3 = (Inr (), s3a)"
    and cre1: "credentials_gate decrypt a c ct s3a = (Inr req, s4)" and cl: "cl_request cl = req"
    using assms(1) unfolding admit_def op_bind_Inr by auto
  have "s1 = s" "s2a = s2" "s2b = s2a" using capability_gate_Inr [OF cap] oa [OF sup1] oa [OF con1] by simp_all
  then have tok: "token_gate C a s = (Inr claims, s2)" and fig: "assert_figures_ledgered (sha256 C) a s2 = (Inr (), s3)"
    and sup: "op_assert (assert_not_suppressed (suppression_scopes (ct_id ct) s2) (sa_message_class a)) s2 = (Inr (), s2)"
    and con: "op_assert (assert_consent (ct_consent_status ct) (sa_message_class a)) s2 = (Inr (), s2)"
    using tok1 fig1 sup1 con1 by simp_all
  have s2: "same_tables s s2" using token_gate_Inr [OF tok] by blast
  then have "org_ctx s2 = Some (sa_org_id a)" using ctx by (simp add: same_tables_def)
  from figures_gate_Inr [OF fig this] have s3: "same_tables s s3" and f: "figures_admitted a s"
    using s2 by (auto simp: same_tables_def figures_admitted_def same_tables_ledger [OF s2] simp del: ledger_match_sel)
  have "ok (assert_template_sendable (sa_org_id a) k lang s)" if "sa_template a = Some (k, lang)" for k lang
    using tem that by (simp add: template_gate_def op_error_Inr same_tables_template [OF s3, symmetric])
  moreover have "\<exists>p t. req = request_of a p t (ct_phone ct)"
    by (rule credentials_gate_Inr [OF cre1])
  ultimately show ?thesis
    using capability_gate_Inr [OF cap] token_gate_Inr(1) [OF tok] sup con f cl same_tables_suppression [OF s2]
    by (auto simp: send_admitted_def op_assert_def assert_not_suppressed_def assert_consent_def split: if_splits option.splits)
qed

lemma send_session_provider:
  assumes "op_inside f"
  shows "provider (snd (send_session passed org f s)) = provider s"
proof -
  have "outside (snd (f s1)) = outside s1" for s1 by (rule op_inside_snd [OF assms])
  from this [of s] this [of "set_org_context org s"] show ?thesis
    by (auto simp: send_session_def outside_def roll_back_def set_org_context_def split: prod.split sum.split)
qed

definition send_start :: "bool \<Rightarrow> send_args \<Rightarrow> 'a send_db_scheme \<Rightarrow> 'a send_db_scheme" where
  "send_start passed a s = (if passed then s else set_org_context (sa_org_id a) s)"

lemma send_session_gates:
  assumes "send_session passed (sa_org_id a) (send_gates C decrypt a) s = (Inr cl, s1)"
    and "passed \<Longrightarrow> org_ctx s = Some (sa_org_id a)"
  shows "\<exists>c ct p t. conversation_contact (sa_conversation_id a) (send_start passed a s) = Some (c, ct) \<and>
    send_admitted C a ct (send_start passed a s) \<and> cl_request cl = request_of a p t (ct_phone ct)"
proof -
  obtain s2 where "send_gates C decrypt a (send_start passed a s) = (Inr cl, s2)"
    using assms(1) by (auto simp: send_session_def send_start_def split: if_splits prod.splits sum.splits)
  then obtain c ct where c: "conversation_contact (sa_conversation_id a) (send_start passed a s) = Some (c, ct)"
      "admit C decrypt a c ct (send_start passed a s) = (Inr cl, s2)"
    by (auto simp: send_gates_def split: option.splits)
  moreover have "org_ctx (send_start passed a s) = Some (sa_org_id a)" using assms(2) by (simp add: send_start_def)
  ultimately show ?thesis using admit_admitted [OF c(2)] by blast
qed

lemma send_calls:
  assumes "pv_calls (provider (snd (send C decrypt client passed a s))) \<noteq> pv_calls (provider s)"
    and "passed \<Longrightarrow> org_ctx s = Some (sa_org_id a)"
  shows "\<exists>c ct p t n. conversation_contact (sa_conversation_id a) (send_start passed a s) = Some (c, ct) \<and>
    send_admitted C a ct (send_start passed a s) \<and> 1 \<le> n \<and> n \<le> 4 \<and>
    pv_calls (provider (snd (send C decrypt client passed a s))) =
      pv_calls (provider s) @ replicate n (request_of a p t (ct_phone ct))"
proof -
  obtain r s1 where g: "send_session passed (sa_org_id a) (send_gates C decrypt a) s = (r, s1)" by fastforce
  have s1: "provider s1 = provider s" using send_session_provider [OF inside_gates, of passed "sa_org_id a" C decrypt a s] g by simp
  obtain cl where r: "r = Inr cl"
  proof (cases r)
    case (Inl e)
    with assms(1) g s1 show ?thesis by (simp add: send_def op_bind_def)
  qed blast
  obtain x s2 where d: "dispatch client a cl s1 = (x, s2)" by fastforce
  have after: "provider (snd (send C decrypt client passed a s)) = provider s2"
    using g d by (simp add: send_def op_bind_def r send_session_provider [OF inside_record]
        split: sum.split prod.split option.split)
  obtain n where "1 \<le> n" "n \<le> 4" "pv_calls (provider s2) = pv_calls (provider s1) @ replicate n (cl_request cl)"
    using dispatch_calls [OF d] assms(1) after s1 by auto
  with send_session_gates [OF g [unfolded r] assms(2)] after s1 show ?thesis by metis
qed

subsection \<open>Properties\<close>

text \<open>
  C7: nothing reaches a customer past a closed gate. If a send makes Meta's API receive anything,
  then in the state it started from the conversation and its contact were visible to the tenant, a
  fresh audit entry authorised exactly this send, a valid single-use token for it was presented, no
  suppression covered it, consent was positive unless the message is transactional, every amount of
  the body was in the ledger (in blocking mode without an owner override), and a template was
  approved; and what Meta received is one request to the contact's phone, at most four times.
\<close>

theorem send_past_open_gates:
  assumes "pv_calls (provider (snd (send C decrypt client passed a s))) \<noteq> pv_calls (provider s)"
    and "passed \<Longrightarrow> org_ctx s = Some (sa_org_id a)"
  shows "\<exists>c ct p t n. conversation_contact (sa_conversation_id a) (send_start passed a s) = Some (c, ct) \<and>
    send_admitted C a ct (send_start passed a s) \<and> 1 \<le> n \<and> n \<le> 4 \<and>
    pv_calls (provider (snd (send C decrypt client passed a s))) =
      pv_calls (provider s) @ replicate n (request_of a p t (ct_phone ct))"
  by (rule send_calls [OF assms])

subsection \<open>At most one dispatch for a key\<close>

text \<open>
  Sends run concurrently with each other, with other steps of the system and with rollbacks of
  their callers. The database serialises three kinds of step of a send: its gates, its claim and dispatch,
  and its record. A step of another kind is any function that leaves the claims and the keys in use
  alone.
\<close>

definition claims_ok :: "'a send_db_scheme \<Rightarrow> bool" where
  "claims_ok s \<longleftrightarrow> (\<forall>c \<in> set (dispatch_claims s). ms_idempotency_key c \<noteq> None \<and>
     (ms_org_id c, ms_idempotency_key c) \<in> set (keys_in_use (messages s)))"

definition key_claimed :: "uuid \<times> string option \<Rightarrow> 'a send_db_scheme \<Rightarrow> bool" where
  "key_claimed k s \<longleftrightarrow> (\<exists>c \<in> set (dispatch_claims s). (ms_org_id c, ms_idempotency_key c) = k)"

definition send_key :: "send_args \<times> cleared \<Rightarrow> uuid \<times> string option" where
  "send_key k = (sa_org_id (fst k), sa_idempotency_key (fst k))"

text \<open>Whether a dispatch with a key made Meta receive something.\<close>

definition reaches :: "meta_client \<Rightarrow> send_args \<times> cleared \<Rightarrow> 'a send_db_scheme \<Rightarrow> bool \<times> 'a send_db_scheme" where
  "reaches client k s = (case dispatch client (fst k) (snd k) s of (_, s1) \<Rightarrow>
     (sa_idempotency_key (fst k) \<noteq> None \<and> pv_calls (provider s1) \<noteq> pv_calls (provider s), s1))"

definition keeps_claims :: "('a send_db_scheme \<Rightarrow> 'a send_db_scheme) \<Rightarrow> bool" where
  "keeps_claims f \<longleftrightarrow> (\<forall>s. claims_ok s \<longrightarrow> claims_ok (f s) \<and> (\<forall>k. key_claimed k s \<longrightarrow> key_claimed k (f s)))"

lemma keeps_claims_outside: "(\<And>s. outside (f s) = outside s) \<Longrightarrow> keeps_claims f"
  by (simp add: keeps_claims_def claims_ok_def key_claimed_def outside_def)

lemma claims_outside:
  "outside s1 = outside s \<Longrightarrow> claims_ok s1 = claims_ok s" "outside s1 = outside s \<Longrightarrow> key_claimed k s1 = key_claimed k s"
  by (simp_all add: claims_ok_def key_claimed_def outside_def)

lemma keys_in_use_append: "keys_in_use (xs @ ys) = keys_in_use xs @ keys_in_use ys"
  by (simp add: keys_in_use_def)

lemma keys_in_use_iff: "(org, Some key) \<in> set (keys_in_use rows) \<longleftrightarrow> (\<exists>m \<in> set rows. key_row org key m)"
  by (force simp: keys_in_use_def key_row_def)

lemma keeps_claims_roll_back: "keeps_claims (roll_back base)"
proof -
  have "(ms_org_id c, ms_idempotency_key c) \<in> set (keys_in_use (messages (roll_back base s)))"
    if c: "claims_ok s" "c \<in> set (dispatch_claims s)" for s c
  proof -
    obtain key where key: "ms_idempotency_key c = Some key" using c unfolding claims_ok_def by blast
    have "\<exists>m \<in> set (messages (roll_back base s)). key_row (ms_org_id c) key m"
    proof (cases "\<exists>m \<in> set (messages base). ms_org_id m = ms_org_id c \<and> ms_idempotency_key m = ms_idempotency_key c")
      case True
      with key show ?thesis by (auto simp: roll_back_def key_row_def)
    next
      case False
      then have "c \<in> set (messages (roll_back base s))" using c(2) by (auto simp: roll_back_def list_ex_iff)
      with key show ?thesis by (auto simp: key_row_def)
    qed
    with key show ?thesis by (simp add: keys_in_use_iff)
  qed
  then show ?thesis by (auto simp: keeps_claims_def claims_ok_def key_claimed_def roll_back_def)
qed

lemma keeps_claims_session:
  assumes "op_inside f"
  shows "keeps_claims (\<lambda>s. snd (send_session passed org f s))"
proof -
  have f: "outside (snd (f s)) = outside s" for s by (rule op_inside_snd [OF assms])
  have rb: "claims_ok (roll_back s s1) \<and> (\<forall>k. key_claimed k s \<longrightarrow> key_claimed k (roll_back s s1))"
    if "claims_ok s" "outside s1 = outside s" for s s1
    using keeps_claims_roll_back [of s] that claims_outside [of s1 s] unfolding keeps_claims_def by blast
  have "claims_ok (snd (send_session passed org f s)) \<and>
      (\<forall>k. key_claimed k s \<longrightarrow> key_claimed k (snd (send_session passed org f s)))" if c: "claims_ok s" for s
  proof (cases passed)
    case True
    with c f [of s] show ?thesis by (simp add: send_session_def claims_ok_def key_claimed_def outside_def)
  next
    case False
    obtain r s1 where r: "f (set_org_context org s) = (r, s1)" by fastforce
    with f [of "set_org_context org s"] have s1: "outside s1 = outside s" by simp
    show ?thesis
    proof (cases r)
      case (Inl e)
      with False r rb [OF c s1] show ?thesis by (simp add: send_session_def)
    next
      case (Inr x)
      with False r s1 c show ?thesis by (simp add: send_session_def claims_ok_def key_claimed_def outside_def)
    qed
  qed
  then show ?thesis by (simp add: keeps_claims_def)
qed

lemma claim_dispatch_cases:
  assumes "claim_dispatch a key s = (c, s1)"
  obtains (lost) "cm_already_dispatched c" "s1 = s" "(sa_org_id a, Some key) \<in> set (keys_in_use (messages s))"
  | (won) m where "\<not> cm_already_dispatched c" "(sa_org_id a, Some key) \<notin> set (keys_in_use (messages s))"
      "key_row (sa_org_id a) key m" "messages s1 = messages s @ [m]" "dispatch_claims s1 = dispatch_claims s @ [m]"
      "provider s1 = provider s"
proof (cases "find (key_row (sa_org_id a) key) (messages s)")
  case None
  let ?m = "(new_message a (fresh s) ''dispatching'')\<lparr>ms_idempotency_key := Some key,
                     ms_recovery_attempt_id := sa_recovery_attempt_id a\<rparr>"
  from None have "(sa_org_id a, Some key) \<notin> set (keys_in_use (messages s))"
    by (simp add: keys_in_use_iff find_None_iff_ball)
  moreover have "key_row (sa_org_id a) key ?m" by (simp add: key_row_def new_message_def)
  ultimately show ?thesis using None assms by (intro won [of ?m]) (auto simp: claim_dispatch_def Let_def)
next
  case (Some m)
  with find_Some_set [OF Some] assms show ?thesis
    by (intro lost) (auto simp: claim_dispatch_def keys_in_use_iff)
qed

lemma reaches_cases:
  assumes "reaches client k s = (won, s1)"
  obtains (other) "\<not> won" "dispatch_claims s1 = dispatch_claims s" "keys_in_use (messages s1) = keys_in_use (messages s)"
  | (first) m where "send_key k \<notin> set (keys_in_use (messages s))" "snd (send_key k) \<noteq> None"
      "(ms_org_id m, ms_idempotency_key m) = send_key k"
      "messages s1 = messages s @ [m]" "dispatch_claims s1 = dispatch_claims s @ [m]"
proof (cases "sa_idempotency_key (fst k)")
  case None
  with assms other show ?thesis by (auto simp: reaches_def dispatch_def split: prod.splits)
next
  case (Some key)
  obtain c s2 where c: "claim_dispatch (fst k) key s = (c, s2)" by fastforce
  then show ?thesis
  proof (cases rule: claim_dispatch_cases)
    case lost
    with c Some assms other show ?thesis by (auto simp: reaches_def dispatch_def)
  next
    case (won m)
    with c Some assms show ?thesis
      by (intro first [of m]) (auto simp: reaches_def dispatch_def send_key_def key_row_def split: prod.splits)
  qed
qed

interpretation keyed_send: once_claim "reaches client :: send_args \<times> cleared \<Rightarrow> 'a send_db_scheme \<Rightarrow> bool \<times> 'a send_db_scheme"
    key_claimed send_key claims_ok keeps_claims for client
proof
  fix k :: "send_args \<times> cleared" and s s' :: "'a send_db_scheme" and w i
  show "\<not> key_claimed (send_key k) s" if "claims_ok s" "reaches client k s = (True, s')"
    using that(2)
  proof (cases rule: reaches_cases)
    case (first m)
    with that(1) show ?thesis by (auto simp: claims_ok_def key_claimed_def)
  qed simp
  show "key_claimed (send_key k) s'" if "claims_ok s" "reaches client k s = (True, s')"
    using that(2) by (cases rule: reaches_cases) (auto simp: key_claimed_def)
  show "key_claimed i s'" if "claims_ok s" "reaches client k s = (w, s')" "key_claimed i s"
    using that(2) by (cases rule: reaches_cases) (use that(3) in \<open>auto simp: key_claimed_def\<close>)
  show "claims_ok s'" if "claims_ok s" "reaches client k s = (w, s')"
    using that(2)
  proof (cases rule: reaches_cases)
    case other
    with that(1) show ?thesis by (simp add: claims_ok_def)
  next
    case (first m)
    then have "ms_idempotency_key m \<noteq> None" by (auto simp: send_key_def)
    with first that(1) show ?thesis by (auto simp: claims_ok_def keys_in_use_append) (simp_all add: keys_in_use_def)
  qed
qed (unfold keeps_claims_def, blast+)

datatype 'a send_act =
    GateStep crypto "string \<Rightarrow> json option" bool send_args
  | RecordStep crypto bool send_args uuid uuid SendResult
  | RollBack "'a send_db_scheme"

fun run_send_act :: "'a send_act \<Rightarrow> 'a send_db_scheme \<Rightarrow> 'a send_db_scheme" where
  "run_send_act (GateStep C decrypt passed a) s = snd (send_session passed (sa_org_id a) (send_gates C decrypt a) s)"
| "run_send_act (RecordStep C passed a ct m r) s = snd (send_session passed (sa_org_id a) (record_outcome C a ct m r) s)"
| "run_send_act (RollBack base) s = roll_back base s"

lemma keeps_claims_act: "keeps_claims (run_send_act x)"
proof (cases x)
  case (GateStep C decrypt passed a)
  then have "run_send_act x = (\<lambda>s. snd (send_session passed (sa_org_id a) (send_gates C decrypt a) s))" by auto
  with keeps_claims_session [OF inside_gates] show ?thesis by metis
next
  case (RecordStep C passed a ct m r)
  then have "run_send_act x = (\<lambda>s. snd (send_session passed (sa_org_id a) (record_outcome C a ct m r) s))" by auto
  with keeps_claims_session [OF inside_record] show ?thesis by metis
next
  case (RollBack base)
  then have "run_send_act x = roll_back base" by auto
  with keeps_claims_roll_back show ?thesis by metis
qed

text \<open>
  C6: an idempotency key reaches the customer at most once. In every interleaving of the gates, the
  dispatches and the records of any number of sends, with rollbacks of any caller to any earlier
  state in between, at most one dispatch of a key of an organisation makes Meta receive anything.
\<close>

theorem key_dispatches_once:
  assumes "claims_ok s"
  shows "length (filter (\<lambda>k. send_key k = (org, Some key))
     (fst (run_claims (reaches client) (map (map_sum id run_send_act) acts) s))) \<le> 1"
proof (rule keyed_send.wins_at_most_one [OF _ assms])
  fix f assume "Inr f \<in> set (map (map_sum id run_send_act) acts)"
  then obtain z where "z \<in> set acts" "map_sum id run_send_act z = Inr f" by (auto simp: eq_commute)
  from this(2) show "keeps_claims f" by (cases z) (auto simp: keeps_claims_act)
qed

text \<open>An organisation with a conversation, an authorised reply and a connected channel.\<close>

definition example_send_db :: send_db where
  "example_send_db = attempt_db.extend (template_db.extend (example_templates\<lparr>org_ctx := Some 7, now := 10, fresh := 40,
       audit_log := [\<lparr>al_id = 31, al_org_id = 7, al_seq = 1, al_actor_type = ''agent'', al_actor_id = None,
          al_action = ''msg.send'', al_resource = Some ''6'', al_payload = JObj [], al_prev_hash = [], al_entry_hash = ''h'',
          al_trace_id = None, al_permission_manifest_hash = None, al_created_at = 10\<rparr>],
       execution_token_jti := [\<lparr>tj_jti = 30, tj_org_id = 7, tj_action_hash = ''h'', tj_decision_tier = 1,
          tj_expires_at = seconds 600, tj_used_at = None\<rparr>],
       contacts := [\<lparr>ct_id = 5, ct_org_id = 7, ct_phone = ''911'', ct_consent_status = ''unknown''\<rparr>],
       conversations := [\<lparr>cv_id = 6, cv_org_id = 7, cv_contact_id = 5, cv_channel_id = 8\<rparr>]\<rparr>) (attempt_db.fields []))
     (send_db.fields [\<lparr>cc_channel_id = 8, cc_org_id = 7, cc_ciphertext = ''c''\<rparr>] [] \<lparr>pv_calls = [], pv_sleeps = []\<rparr>)"

definition example_send_crypto :: crypto where
  "example_send_crypto = \<lparr>sha256 = \<lambda>_. ''h'', sign = \<lambda>_. ''s'', check_sig = \<lambda>_ _. True, b64 = \<lambda>x. x, unb64 = Some,
     loads = \<lambda>_. Some (token_payload 30 ''h'' 1 600)\<rparr>"

definition example_decrypt :: "string \<Rightarrow> json option" where
  "example_decrypt = (\<lambda>_. Some (JObj [(''phone_number_id'', JStr ''p''), (''access_token'', JStr ''t'')]))"

definition example_reply :: send_args where
  "example_reply = \<lparr>sa_org_id = 7, sa_conversation_id = 6, sa_body = ''Hello'', sa_audit_id = Some 31,
     sa_execution_token = Some ''a.b'', sa_figure_refs = [], sa_figure_check = ''block'', sa_figure_override_by = None,
     sa_message_class = ''transactional'', sa_template = None, sa_template_parameters = [],
     sa_idempotency_key = Some ''k'', sa_recovery_attempt_id = None\<rparr>"

text \<open>Meta refuses the first request with a server error and accepts the second.\<close>

definition example_client :: meta_client where
  "example_client = (\<lambda>calls _. Some \<lparr>sr_ok = (calls \<noteq> []), sr_provider_message_id = Some ''w1'',
     sr_status_code = Some (if calls = [] then 503 else 200), sr_retry_after_s = Some 1, sr_error = None\<rparr>)"

lemma example_send_calls:
  "pv_calls (provider (snd (send example_send_crypto example_decrypt example_client True example_reply example_send_db))) =
     [SendText (JStr ''p'') (JStr ''t'') ''911'' ''Hello'', SendText (JStr ''p'') (JStr ''t'') ''911'' ''Hello'']"
  by code_simp

theorem send_past_open_gates_witness:
  "\<exists>c ct. conversation_contact 6 example_send_db = Some (c, ct) \<and> send_admitted example_send_crypto example_reply ct example_send_db"
proof -
  have start: "send_start True example_reply example_send_db = example_send_db" by (simp add: send_start_def)
  have args: "sa_conversation_id example_reply = 6" "sa_org_id example_reply = 7" by (simp_all add: example_reply_def)
  have "org_ctx example_send_db = Some (sa_org_id example_reply)" "pv_calls (provider example_send_db) = []" by code_simp+
  with send_past_open_gates [of example_send_crypto example_decrypt example_client True example_reply example_send_db]
    example_send_calls show ?thesis unfolding start args by auto
qed

theorem key_dispatches_once_witness:
  "length (filter (\<lambda>k. send_key k = (7, Some ''k'')) (fst (run_claims (reaches example_client)
     (map (map_sum id run_send_act)
       [Inl (example_reply, \<lparr>cl_contact_id = 5, cl_request = SendText JNull JNull ''911'' ''Hello'', cl_message_id = None\<rparr>),
        Inr (RollBack example_send_db),
        Inl (example_reply, \<lparr>cl_contact_id = 5, cl_request = SendText JNull JNull ''911'' ''Hello'', cl_message_id = None\<rparr>)])
     example_send_db))) \<le> 1"
proof (rule key_dispatches_once)
  have "dispatch_claims example_send_db = []" by code_simp
  then show "claims_ok example_send_db" by (simp add: claims_ok_def)
qed

end
