(* ===== verification/Tools.thy ===== *)
theory Tools
  imports Proxy Send
begin

text \<open>
  The tool implementations the mediation proxy dispatches to (\<open>core/mediation/tools.py\<close>): the
  \<open>messages.send\<close> tool, which mints the authorisation of a send, makes it and records the recovery
  attempt; \<open>ledger.read\<close>; and the tools that are not wired. The others delegate to services the
  theory takes as the argument \<open>services\<close>. An exception leaves as the name of its type. Identifiers in
  parameters are decimal numerals.

  The lemmas join the two halves of the path to a customer: a mediated call that makes Meta's API
  receive anything passed the gates of the proxy and those of the send adapter.
\<close>

record agent_run_row =
  rn_id :: uuid
  rn_org_id :: uuid
  rn_agent_instance_id :: uuid
  rn_conversation_id :: "uuid option"
  rn_trigger :: string
  rn_trace_id :: string
  rn_status :: string
  rn_input :: json
  rn_output :: json
  rn_error :: json
  rn_composed_prompt_hash :: string
  rn_permission_manifest_hash :: string
  rn_tokens_in :: int
  rn_tokens_out :: int
  rn_steps_taken :: nat
  rn_ended_at :: "time option"

record run_db = send_db +
  agent_runs :: "agent_run_row list"

text \<open>What the tools need from outside the repository: decryption and Meta's API.\<close>

record wiring =
  wi_decrypt :: "string \<Rightarrow> json option"
  wi_client :: meta_client

definition or_empty :: "json \<Rightarrow> string" where
  "or_empty v = (if truthy v then py_str v else [])"

definition param :: "json \<Rightarrow> string \<Rightarrow> json" where
  "param params k = jget_null params k"

text \<open>\<open>UUID(str(x))\<close>\<close>

definition py_uuid :: "json \<Rightarrow> string + uuid" where
  "py_uuid v = (case parse_nat (py_str v) of None \<Rightarrow> Inl ''ValueError'' | Some i \<Rightarrow> Inr i)"

text \<open>\<open>list(params.get(k, []))\<close>, with the elements as text.\<close>

definition str_items :: "json \<Rightarrow> string \<Rightarrow> string + string list" where
  "str_items params k = (case jget params k of None \<Rightarrow> Inr []
     | Some v \<Rightarrow> (case py_iter v of Inl _ \<Rightarrow> Inl ''TypeError'' | Inr xs \<Rightarrow> Inr (map py_str xs)))"

text \<open>\<open>str.replace\<close>; the pattern is not empty.\<close>

function replace_all :: "string \<Rightarrow> string \<Rightarrow> string \<Rightarrow> string" where
  "replace_all pat new s =
     (if pat = [] \<or> s = [] then s
      else if starts_with pat s then new @ replace_all pat new (drop (length pat) s)
      else hd s # replace_all pat new (tl s))"
  by pat_completeness auto
termination by (relation "measure (\<lambda>(_, _, s). length s)") auto

declare replace_all.simps [simp del]

fun fill_placeholders :: "nat \<Rightarrow> string list \<Rightarrow> string \<Rightarrow> string" where
  "fill_placeholders i [] body = body"
| "fill_placeholders i (v # vs) body = fill_placeholders (Suc i) vs (replace_all (''{{'' @ nat_str i @ ''}}'') v body)"

definition render_stored_body :: "uuid \<Rightarrow> string \<times> string \<Rightarrow> string list \<Rightarrow> 'a run_db_scheme \<Rightarrow> string" where
  "render_stored_body org template values s =
     (let body = fill_placeholders 1 values
        (case get_template org (fst template) (snd template) s of None \<Rightarrow> [] | Some t \<Rightarrow> mt_body t)
      in if body = [] then fst template else body)"

definition record_attempt_outcome :: "uuid \<Rightarrow> uuid option \<Rightarrow> string \<Rightarrow> (attempt_error, unit, 'a run_db_scheme) op" where
  "record_attempt_outcome org attempt blocked = (case attempt of None \<Rightarrow> (\<lambda>s. (Inr (), s))
     | Some i \<Rightarrow> mark_blocked org i blocked)"

fun attempt_exn :: "attempt_error \<Rightarrow> string" where
  "attempt_exn AttemptUniqueViolation = ''IntegrityError''"
| "attempt_exn AttemptRlsViolation = ''ProgrammingError''"
| "attempt_exn MultipleResultsFound = ''MultipleResultsFound''"

fun send_exn :: "send_error \<Rightarrow> string" where
  "send_exn (SendRefused code detail) = ''SendRefused''"
| "send_exn (TemplateRefused e) = ''TemplateNotSendable''"
| "send_exn SendTokenMalformed = ''KeyError''"
| "send_exn CredentialsUnreadable = ''InvalidToken''"
| "send_exn SendRlsViolation = ''ProgrammingError''"
| "send_exn SendUniqueViolation = ''IntegrityError''"
| "send_exn ProviderRaised = ''HTTPError''"
| "send_exn (SendEmit e) = ''ValueError''"
| "send_exn (SendAudit e) = ''ValueError''"

subsection \<open>\<open>messages.send\<close>\<close>

text \<open>
  What the tool reads before it mints the authorisation; \<open>Inl\<close> is the exception it raises. The two
  lists of parameters are only read when the arguments of \<open>send\<close> are evaluated, after the minting.
\<close>

definition send_request :: "RunContext \<Rightarrow> json \<Rightarrow> 'a run_db_scheme \<Rightarrow> string + send_args" where
  "send_request ctx params s =
     (let conversation = (if truthy (param params ''conversation_id'') then param params ''conversation_id''
            else (case find (\<lambda>r. rls_visible s (rn_org_id r) \<and> rn_id r = rx_run_id ctx) (agent_runs s) of
                None \<Rightarrow> JNull
              | Some r \<Rightarrow> (case rn_conversation_id r of None \<Rightarrow> JNull | Some c \<Rightarrow> JId c)));
          template = (if truthy (param params ''template_key'')
            then Some (py_str (param params ''template_key''),
                       if truthy (param params ''template_language'') then py_str (param params ''template_language'') else ''en'')
            else None);
          body0 = or_empty (param params ''body'')
      in case (case template of None \<Rightarrow> Inr body0
           | Some t \<Rightarrow> if body0 \<noteq> [] then Inr body0
               else map_sum id (\<lambda>values. render_stored_body (rx_org_id ctx) t values s) (str_items params ''template_parameters'')) of
         Inl e \<Rightarrow> Inl e
       | Inr body \<Rightarrow>
           if body = [] \<or> \<not> truthy conversation then Inl ''GrowthOperatorError''
           else (case py_uuid conversation of
               Inl e \<Rightarrow> Inl e
             | Inr conv \<Rightarrow>
                 (case (if truthy (param params ''recovery_attempt_id'')
                        then map_sum id Some (py_uuid (param params ''recovery_attempt_id'')) else Inr None) of
                    Inl e \<Rightarrow> Inl e
                  | Inr attempt \<Rightarrow>
                      Inr \<lparr>sa_org_id = rx_org_id ctx, sa_conversation_id = conv, sa_body = body, sa_audit_id = None,
                           sa_execution_token = None, sa_figure_refs = [], sa_figure_check = ''block'',
                           sa_figure_override_by = None,
                           sa_message_class = (case jget params ''message_class'' of None \<Rightarrow> ''transactional''
                              | Some (JStr x) \<Rightarrow> x | Some v \<Rightarrow> []),
                           sa_template = template, sa_template_parameters = [],
                           sa_idempotency_key = (if truthy (param params ''idempotency_key'')
                              then Some (py_str (param params ''idempotency_key'')) else None),
                           sa_recovery_attempt_id = attempt\<rparr>)))"

definition send_lists :: "json \<Rightarrow> send_args \<Rightarrow> string + send_args" where
  "send_lists params a =
     (case str_items params ''figure_refs'' of
        Inl e \<Rightarrow> Inl e
      | Inr figure_refs \<Rightarrow> (case str_items params ''template_parameters'' of
            Inl e \<Rightarrow> Inl e
          | Inr values \<Rightarrow> Inr (a\<lparr>sa_figure_refs := figure_refs, sa_template_parameters := values\<rparr>)))"

text \<open>The capability and the token are minted in the caller's transaction.\<close>

definition authorise_send :: "crypto \<Rightarrow> RunContext \<Rightarrow> send_args \<Rightarrow> 'a run_db_scheme \<Rightarrow> send_args \<times> 'a run_db_scheme" where
  "authorise_send C ctx a s =
     (case audit_write (sha256 C)
        \<lparr>ae_org_id = rx_org_id ctx, ae_actor_type = ''agent'', ae_action = SEND_ACTION,
         ae_actor_id = Some (nat_str (rx_instance_id ctx)), ae_resource = Some (nat_str (sa_conversation_id a)),
         ae_payload = JObj [(''run_id'', JId (rx_run_id ctx))], ae_trace_id = None,
         ae_permission_manifest_hash = None\<rparr> s of (aid, s1) \<Rightarrow>
      case mint C (rx_org_id ctx) (action_hash C (rx_org_id ctx) SEND_ACTION (nat_str (sa_conversation_id a))) 1 TOKEN_TTL_S s1 of
        (token, s2) \<Rightarrow> (a\<lparr>sa_audit_id := Some (aid_id aid), sa_execution_token := Some token\<rparr>, s2))"

definition refused_output :: "string \<Rightarrow> (string \<times> json) list \<Rightarrow> uuid \<Rightarrow> json" where
  "refused_output code extra conv =
     JObj ([(''sent'', JBool False), (''refused'', JStr code)] @ extra @ [(''conversation_id'', JId conv)])"

definition record_attempt_sent :: "send_args \<Rightarrow> SendOutcome \<Rightarrow> (attempt_error, unit, 'a run_db_scheme) op" where
  "record_attempt_sent a outcome =
     (case sa_recovery_attempt_id a of
        None \<Rightarrow> (\<lambda>s. (Inr (), s))
      | Some i \<Rightarrow>
          if so_already_dispatched outcome then (\<lambda>s. (Inr (), s))
          else if so_sent outcome then mark_sent (sa_org_id a) i (Some (so_message_id outcome))
            (map_option fst (sa_template a)) (map_option snd (sa_template a))
          else mark_failed (sa_org_id a) i ''provider_send_failed'' (so_retryable outcome))"

definition sent_output :: "send_args \<Rightarrow> SendOutcome \<Rightarrow> json" where
  "sent_output a outcome =
     JObj [(''sent'', JBool (so_sent outcome)), (''conversation_id'', JId (sa_conversation_id a)),
           (''message_id'', JId (so_message_id outcome)),
           (''provider_message_id'', json_of_string_option (so_provider_message_id outcome)),
           (''already_dispatched'', JBool (so_already_dispatched outcome))]"

definition after_send :: "send_args \<Rightarrow> send_error + SendOutcome \<Rightarrow> (string, json, 'a run_db_scheme) op" where
  "after_send a r =
     (case r of
        Inl (SendRefused code detail) \<Rightarrow>
          op_bind (op_error attempt_exn (record_attempt_outcome (sa_org_id a) (sa_recovery_attempt_id a) code))
            (\<lambda>_ s. (Inr (refused_output code [] (sa_conversation_id a)), s))
      | Inl (TemplateRefused (TemplateNotSendable k lang st reason)) \<Rightarrow>
          op_bind (op_error attempt_exn (record_attempt_outcome (sa_org_id a) (sa_recovery_attempt_id a) ''template_not_sendable''))
            (\<lambda>_ s. (Inr (refused_output ''template_not_sendable'' [(''template'', JStr k)] (sa_conversation_id a)), s))
      | Inl e \<Rightarrow> (\<lambda>s. (Inl (send_exn e), s))
      | Inr outcome \<Rightarrow>
          op_bind (op_error attempt_exn (record_attempt_sent a outcome)) (\<lambda>_ s. (Inr (sent_output a outcome), s)))"

definition messages_send :: "crypto \<Rightarrow> wiring \<Rightarrow> RunContext \<Rightarrow> json \<Rightarrow> (string, json, 'a run_db_scheme) op" where
  "messages_send C wi ctx params s =
     (case send_request ctx params s of
        Inl e \<Rightarrow> (Inl e, s)
      | Inr a0 \<Rightarrow>
          (case authorise_send C ctx a0 s of (a1, s1) \<Rightarrow>
           case send_lists params a1 of
             Inl e \<Rightarrow> (Inl e, s1)
           | Inr a \<Rightarrow> (case send C (wi_decrypt wi) (wi_client wi) True a s1 of (r, s2) \<Rightarrow> after_send a r s2)))"

subsection \<open>The registry\<close>

definition on_session :: "(string, json, 'a run_db_scheme) op \<Rightarrow> 'a run_db_scheme \<times> redis
    \<Rightarrow> (string + json) \<times> 'a run_db_scheme \<times> redis" where
  "on_session f w = (case f (fst w) of (r, s1) \<Rightarrow> (r, s1, snd w))"

definition ledger_read :: "RunContext \<Rightarrow> json \<Rightarrow> (string, json, 'a run_db_scheme) op" where
  "ledger_read ctx params s =
     (case jget params ''amount_minor'' of
        None \<Rightarrow> (Inl ''KeyError'', s)
      | Some v \<Rightarrow> (case py_int v of
            None \<Rightarrow> (Inl (case v of JStr _ \<Rightarrow> ''ValueError'' | _ \<Rightarrow> ''TypeError''), s)
          | Some n \<Rightarrow> (case ledger_match (rx_org_id ctx) n DEFAULT_MATCH_WINDOW_HOURS s of (hit, s1) \<Rightarrow>
              (Inr (JObj [(''matched'', JBool hit)]), s1))))"

definition not_wired :: "(string, json, 'a run_db_scheme) op" where
  "not_wired s = (Inl ''GrowthOperatorError'', s)"

definition REGISTRY :: "crypto \<Rightarrow> wiring \<Rightarrow> (string \<Rightarrow> json \<Rightarrow> (string, json, 'a run_db_scheme) op) \<Rightarrow> RunContext
    \<Rightarrow> string \<Rightarrow> (json \<Rightarrow> uuid \<Rightarrow> 'a run_db_scheme \<times> redis \<Rightarrow> (string + json) \<times> 'a run_db_scheme \<times> redis) option" where
  "REGISTRY C wi services ctx tool =
     (if tool \<in> {''catalog.search'', ''pricing.compute'', ''landing_page.generate'', ''landing_page.publish''}
        then Some (\<lambda>params audit_id. on_session (services tool params))
      else if tool = ''ledger.read'' then Some (\<lambda>params audit_id. on_session (ledger_read ctx params))
      else if tool = ''messages.send'' then Some (\<lambda>params audit_id. on_session (messages_send C wi ctx params))
      else if tool \<in> {''calendar.book'', ''crm.read'', ''crm.write''} then Some (\<lambda>params audit_id. on_session not_wired)
      else None)"

subsection \<open>Lemmas\<close>

text \<open>The chain itself sends nothing: without an implementation the provider is left alone.\<close>

lemma provider_set_org_context [simp]: "provider (set_org_context org s) = provider s"
  by (simp add: set_org_context_def)

lemma provider_audit_write [simp]: "provider (snd (audit_write h e s)) = provider s"
  using outside_audit_write [of h e s] by (simp add: outside_def)

lemma provider_audit_call [simp]: "provider (snd (audit_call pf ctx action payload s)) = provider s"
  by (simp add: audit_call_def case_prod_beta)

lemma provider_manifest_denied:
  "provider (fst (snd (manifest_denied pf ctx tool reason w))) = provider (fst w)"
  by (simp add: manifest_denied_def publish_alert_def Let_def case_prod_beta)

lemma provider_execute_none:
  "provider (fst (snd (execute_tool pf (\<lambda>_. None) ctx tool params w))) = provider (fst w)"
  using provider_audit_call [of pf ctx "''tool.'' @ tool @ '':intent''" "JObj [(''params'', redact params)]" "fst w"]
  by (simp add: execute_tool_def case_prod_beta)

lemma provider_authorise_none:
  "provider (fst (snd (authorise_and_execute pf (\<lambda>_. None) ctx tool params w))) = provider (fst w)"
proof -
  obtain d s1 where d: "commercial_denial pf ctx tool (fst w) = (d, s1)" by fastforce
  then have "s1 = set_org_context (rx_org_id ctx) (fst w)"
    using commercial_denial_state [of pf ctx tool "fst w"] by simp
  with d show ?thesis
    using provider_execute_none [of pf ctx tool params "(s1, snd w)"]
    by (simp add: authorise_and_execute_def case_prod_beta Let_def split: option.split)
qed

lemma provider_tier_none:
  "provider (fst (snd (tier_step pf (\<lambda>_. None) te ctx tool params grant w))) = provider (fst w)"
proof -
  obtain r s1 where r: "engine_tier pf ctx tool params (fst w) = (r, s1)" by fastforce
  then have "s1 = set_org_context (rx_org_id ctx) (fst w)" using engine_tier_state [of pf ctx tool params "fst w"] by simp
  with r show ?thesis
    using provider_authorise_none [of pf ctx tool params w] provider_authorise_none [of pf ctx tool params "(s1, snd w)"]
      provider_authorise_none [of pf ctx tool params "(fst w, snd w)"]
    by (cases w) (simp add: tier_step_def split: option.split sum.split)
qed

lemma provider_call_none:
  "provider (fst (snd (call pf (\<lambda>_. None) te ctx tool params w))) = provider (fst w)"
proof -
  have b: "provider (fst (snd (budget_step pf (\<lambda>_. None) te ctx tool params grant v))) = provider (fst v)" for grant v
    using provider_tier_none [of pf te ctx tool params grant v] by (simp add: budget_step_def split: option.split prod.split)
  have "provider (fst (snd (gated pf (\<lambda>_. None) te ctx tool params grant w))) = provider (fst w)" for grant
    by (simp add: gated_def case_prod_beta b split: sum.split option.split)
  then show ?thesis
    by (simp add: call_def provider_manifest_denied split: option.split)
qed

lemma inside_set_attempts: "op_inside (set_attempts p f)"
  by (rule op_insideI) (simp add: set_attempts_def Let_def outside_def)

lemma outside_set_attempts [simp]: "outside (snd (set_attempts p f s)) = outside s"
  by (rule op_inside_snd [OF inside_set_attempts])

lemma inside_mark_blocked: "op_inside (mark_blocked org i why)"
  by (rule op_insideI) (simp add: mark_blocked_def)

lemma inside_mark_sent: "op_inside (mark_sent org i m k l)"
  by (rule op_insideI) (simp add: mark_sent_def)

lemma inside_mark_failed: "op_inside (mark_failed org i why u)"
  by (rule op_insideI) (simp add: mark_failed_def)

lemma inside_record_attempts:
  "op_inside (record_attempt_outcome org att why)" "op_inside (record_attempt_sent a out)"
  by (auto simp: record_attempt_outcome_def record_attempt_sent_def inside_mark_blocked inside_mark_sent inside_mark_failed inside_return split: option.split)

lemma outside_bind_return: "op_inside f \<Longrightarrow> outside (snd (op_bind (op_error w f) (\<lambda>_ s. (x, s)) s)) = outside s"
  by (rule op_inside_snd) (intro allI op_keeps_bind op_keeps_error, blast, rule spec [OF inside_return])

lemma inside_after_send: "op_inside (after_send a r)"
  by (rule op_insideI)
    (simp add: after_send_def outside_bind_return [OF inside_record_attempts(1)] outside_bind_return [OF inside_record_attempts(2)]
      split: sum.split send_error.split template_error.split)

lemma authorise_send_state:
  assumes "authorise_send C ctx a0 s = (a, s1)"
  shows "provider s1 = provider s" "org_ctx s1 = Some (rx_org_id ctx)" "sa_org_id a = sa_org_id a0"
  using assms by (auto simp: authorise_send_def mint_def Let_def audit_write_def set_org_context_def)

lemma send_request_org: "send_request ctx params s = Inr a \<Longrightarrow> sa_org_id a = rx_org_id ctx"
  by (auto simp: send_request_def Let_def split: sum.splits if_splits)

lemma messages_send_calls:
  fixes s :: "'a run_db_scheme"
  assumes "pv_calls (provider (snd (messages_send C wi ctx params s))) \<noteq> pv_calls (provider s)"
  shows "\<exists>a (s1 :: 'a run_db_scheme) c ct p t n. org_ctx s1 = Some (rx_org_id ctx) \<and> sa_org_id a = rx_org_id ctx \<and>
    conversation_contact (sa_conversation_id a) s1 = Some (c, ct) \<and> send_admitted C a ct s1 \<and> 1 \<le> n \<and> n \<le> 4 \<and>
    pv_calls (provider (snd (messages_send C wi ctx params s))) =
      pv_calls (provider s) @ replicate n (request_of a p t (ct_phone ct))"
proof -
  obtain a0 where a0: "send_request ctx params s = Inr a0"
    using assms by (cases "send_request ctx params s") (auto simp: messages_send_def)
  obtain a1 s1 where a1: "authorise_send C ctx a0 s = (a1, s1)" by fastforce
  note st = authorise_send_state [OF a1]
  obtain a where a: "send_lists params a1 = Inr a"
    using assms st(1) by (cases "send_lists params a1") (auto simp: messages_send_def a0 a1)
  let ?send = "send C (wi_decrypt wi) (wi_client wi) True a s1"
  have calls: "provider (snd (messages_send C wi ctx params s)) = provider (snd ?send)"
    using op_inside_snd [OF inside_after_send, of a "fst ?send" "snd ?send"]
    by (simp add: messages_send_def a0 a1 a outside_def case_prod_beta)
  have org: "sa_org_id a = rx_org_id ctx" using st(3) send_request_org [OF a0] a by (auto simp: send_lists_def split: sum.splits)
  have "pv_calls (provider (snd ?send)) \<noteq> pv_calls (provider s1)" using assms calls st(1) by simp
  from send_calls [OF this] obtain c ct p t n where e:
    "conversation_contact (sa_conversation_id a) s1 = Some (c, ct)" "send_admitted C a ct s1" "1 \<le> n" "n \<le> 4"
    "pv_calls (provider (snd ?send)) = pv_calls (provider s1) @ replicate n (request_of a p t (ct_phone ct))"
    using st(2) org by (auto simp: send_start_def)
  have "pv_calls (provider (snd (messages_send C wi ctx params s))) = pv_calls (provider s) @ replicate n (request_of a p t (ct_phone ct))"
    using e(5) calls st(1) by simp
  with st(2) org e(1-4) show ?thesis by blast
qed

subsection \<open>Properties\<close>


text \<open>The store of the earlier examples, its agent replying in a conversation.\<close>

definition example_tools_platform :: platform where
  "example_tools_platform = example_platform\<lparr>pf_crypto := (pf_crypto example_platform)
      \<lparr>loads := \<lambda>_. Some (token_payload 42 ''h'' 1 600)\<rparr>,
     pf_codec := example_codec\<lparr>validate_plan := \<lambda>_. Some (empty_config\<lparr>pc_agents := [''nurture''],
       pc_schema_version := Some 1, pc_entitlements := Some [''conversations'']\<rparr>)\<rparr>\<rparr>"

definition example_reply_run :: RunContext where
  "example_reply_run = example_run\<lparr>rx_manifest := manifest_sign (pf_crypto example_tools_platform)
     [(''tools'', JArr [compile_tool (JObj []) ''messages.send''])]\<rparr>"

definition example_run_db :: run_db where
  "example_run_db = send_db.extend (example_send_db\<lparr>billing_plans := [\<lparr>pl_id = 9, pl_name = ''starter'', pl_features = JArr [],
     pl_config = JObj [], pl_max_managers = None, pl_max_staff = None\<rparr>]\<rparr>) (run_db.fields [])"

definition example_params :: json where
  "example_params = JObj [(''body'', JStr ''Hello''), (''conversation_id'', JStr ''6'')]"

lemma example_gates:
  "rx_manifest_hash example_reply_run = manifest_hash (pf_crypto example_tools_platform) (rx_manifest example_reply_run)"
  "manifest_verify (pf_crypto example_tools_platform) (rx_manifest example_reply_run)"
  "current_hash_of (rx_instance_id example_reply_run) example_run_db = None"
  "find_tool_grant (rx_manifest example_reply_run) ''messages.send'' = Some (compile_tool (JObj []) ''messages.send'')"
  "\<not> narrowed example_reply_run ''messages.send'' redis_empty"
  "validate_params example_tools_platform example_params (jget_null (compile_tool (JObj []) ''messages.send'') ''params_constraints'') = Inr None"
  "per_min_of (compile_tool (JObj []) ''messages.send'') = Inr None"
  "fst (check_rate (rx_instance_id example_reply_run) ''messages.send'' None (rd_now redis_empty) redis_empty)"
  "budget_breach (case map_of (rx_manifest example_reply_run) ''budgets'' of None \<Rightarrow> JObj [] | Some b \<Rightarrow> b) = None"
  "fst (commercial_denial example_tools_platform example_reply_run ''messages.send'' example_run_db) = None"
  "pv_calls (provider example_run_db) = []"
  by code_simp+

lemma example_messages_send:
  "length (pv_calls (provider (snd (messages_send (pf_crypto example_tools_platform)
     \<lparr>wi_decrypt = example_decrypt, wi_client = example_client\<rparr> example_reply_run example_params
     (snd (audit_call example_tools_platform example_reply_run ''tool.messages.send:intent''
        (JObj [(''params'', redact example_params)]) (set_org_context 7 example_run_db))))))) = 2"
  by code_simp

lemma example_agent_message:
  "pv_calls (provider (fst (snd (call example_tools_platform (REGISTRY (pf_crypto example_tools_platform)
     \<lparr>wi_decrypt = example_decrypt, wi_client = example_client\<rparr> (\<lambda>_ _. not_wired) example_reply_run)
     (Some (\<lambda>_ _ _. 1)) example_reply_run ''messages.send'' example_params (example_run_db, redis_empty))))) \<noteq> []"
proof -
  let ?R = "REGISTRY (pf_crypto example_tools_platform)
     \<lparr>wi_decrypt = example_decrypt, wi_client = example_client\<rparr> (\<lambda>_ _. not_wired) example_reply_run"
  have org: "rx_org_id example_reply_run = 7" by (simp add: example_reply_run_def example_run_def)
  obtain rd1 where rd1: "check_rate (rx_instance_id example_reply_run) ''messages.send'' None (rd_now redis_empty) redis_empty = (True, rd1)"
    using example_gates(8) by (metis prod.collapse)
  have den: "commercial_denial example_tools_platform example_reply_run ''messages.send'' example_run_db = (None, set_org_context 7 example_run_db)"
    using example_gates(10) commercial_denial_state [of example_tools_platform example_reply_run "''messages.send''" example_run_db] org
    by (metis prod.collapse)
  have "call example_tools_platform ?R (Some (\<lambda>_ _ _. 1)) example_reply_run ''messages.send'' example_params (example_run_db, redis_empty) =
      authorise_and_execute example_tools_platform ?R example_reply_run ''messages.send'' example_params (example_run_db, rd1)"
    using rd1 by (simp add: call_def gated_def budget_step_def tier_step_def example_gates(1-7,9))
  also have "\<dots> = execute_tool example_tools_platform ?R example_reply_run ''messages.send'' example_params (set_org_context 7 example_run_db, rd1)"
    by (simp add: authorise_and_execute_def den)
  finally show ?thesis using example_messages_send
    by (auto simp: execute_tool_def REGISTRY_def on_session_def case_prod_beta split: sum.split)
qed


end
