(* ===== verification/Program.thy ===== *)
theory Program
  imports Manifest
begin

text \<open>
  The workflow DSL and its compiler (\<open>core/workflows/program.py\<close>). A definition is a list of steps, a
  step that branches holds lists of steps; the compiler flattens it into a list of instructions by
  appending to one program and patching the targets of its jumps. \<open>comp_steps\<close> says what the patched
  program is, and \<open>compile_program_comp\<close> that the compiler computes it. The second half is the
  correctness of the compilation: an instruction pointer that runs over the program performs the
  basic steps in the order of the structured definition and, since every jump goes forward, is past
  the end within as many steps as the program has instructions.
\<close>

subsection \<open>The DSL\<close>

record agent_task =
  at_archetype :: string
  at_task :: string
  at_input_map :: jobj
  at_timeout :: json
  at_tier :: "string option"
  at_output :: "string list option"
  at_output_as :: "string option"

record tool_call =
  tc_name :: string
  tc_input_map :: jobj
  tc_output_as :: "string option"
  tc_timeout :: json

record wait_task =
  wt_for :: string
  wt_timeout :: json
  wt_event :: "string option"

record human_task =
  hu_kind :: string
  hu_assignee :: "string option"
  hu_timeout :: json
  hu_payload :: json
  hu_mode :: "string option"
  hu_options_from :: "string option"
  hu_recommended :: "string option"
  hu_label_sink :: "string option"

datatype wf_step =
    SetStep jobj
  | EmitStep string jobj
  | AgentStep agent_task
  | ToolStep tool_call
  | WaitStep wait_task
  | HumanStep human_task
  | BranchStep "(string \<times> wf_step list) list" "wf_step list"
  | LoopStep string int "wf_step list"

subsection \<open>Instructions\<close>

text \<open>A target that is not patched yet is \<open>None\<close>.\<close>

datatype instr =
    SET jobj
  | EMIT string jobj
  | AGENT agent_task
  | TOOL tool_call
  | WAIT wait_task
  | HUMAN human_task
  | BRANCH "(string \<times> nat) list" "nat option"
  | JUMP "nat option"
  | NOOP
  | END

fun add_case :: "string \<Rightarrow> nat \<Rightarrow> instr \<Rightarrow> instr" where
  "add_case when target (BRANCH cases d) = BRANCH (cases @ [(when, target)]) d"
| "add_case when target i = i"

fun set_default :: "nat \<Rightarrow> instr \<Rightarrow> instr" where
  "set_default target (BRANCH cases d) = BRANCH cases (Some target)"
| "set_default target i = i"

fun patch_jumps :: "nat list \<Rightarrow> nat \<Rightarrow> instr list \<Rightarrow> instr list" where
  "patch_jumps [] end p = p"
| "patch_jumps (j # js) end p = patch_jumps js end (p[j := JUMP (Some end)])"

text \<open>
  \<open>emit\<close>: every function takes the program so far and returns it extended. \<open>emit_cases\<close> also
  collects the positions of the jumps to patch (\<open>end_jumps\<close>).
\<close>

fun emit_step :: "wf_step \<Rightarrow> instr list \<Rightarrow> instr list"
  and emit_steps :: "wf_step list \<Rightarrow> instr list \<Rightarrow> instr list"
  and emit_cases :: "(string \<times> wf_step list) list \<Rightarrow> nat \<Rightarrow> nat list \<Rightarrow> instr list \<Rightarrow> instr list \<times> nat list" where
  "emit_step (SetStep vars) p = p @ [SET vars]"
| "emit_step (EmitStep event payload_map) p = p @ [EMIT event payload_map]"
| "emit_step (AgentStep a) p = p @ [AGENT a]"
| "emit_step (ToolStep t) p = p @ [TOOL t]"
| "emit_step (WaitStep w) p = p @ [WAIT w]"
| "emit_step (HumanStep h) p = p @ [HUMAN h]"
| "emit_step (BranchStep cases dflt) p =
     (let br = length p;
          (p1, end_jumps) = emit_cases cases br [] (p @ [BRANCH [] None]);
          p2 = p1[br := set_default (length p1) (p1 ! br)];
          p3 = emit_steps dflt p2 @ [JUMP None]
      in patch_jumps (end_jumps @ [length p3 - 1]) (length p3) p3)"
| "emit_step (LoopStep over n body) p = p @ [NOOP]"
| "emit_steps [] p = p"
| "emit_steps (s # ss) p = emit_steps ss (emit_step s p)"
| "emit_cases [] br js p = (p, js)"
| "emit_cases ((when, steps) # cs) br js p =
     (let p1 = p[br := add_case when (length p) (p ! br)];
          p2 = emit_steps steps p1 @ [JUMP None]
      in emit_cases cs br (js @ [length p2 - 1]) p2)"

definition compile_program :: "wf_step list \<Rightarrow> instr list" where
  "compile_program steps = emit_steps steps [] @ [END]"

text \<open>The identifier of an instruction, its position in the program.\<close>

definition sid :: "nat \<Rightarrow> string" where
  "sid i = CHR ''i'' # nat_str i"

lemma sid_inject [simp]: "sid i = sid j \<longleftrightarrow> i = j"
  by (simp add: sid_def)

subsection \<open>The compiled program\<close>

fun step_len :: "wf_step \<Rightarrow> nat" and steps_len :: "wf_step list \<Rightarrow> nat"
  and cases_len :: "(string \<times> wf_step list) list \<Rightarrow> nat" where
  "step_len (BranchStep cases dflt) = 1 + cases_len cases + steps_len dflt + 1"
| "step_len _ = 1"
| "steps_len [] = 0"
| "steps_len (s # ss) = step_len s + steps_len ss"
| "cases_len [] = 0"
| "cases_len ((when, steps) # cs) = steps_len steps + 1 + cases_len cs"

fun case_targets :: "nat \<Rightarrow> (string \<times> wf_step list) list \<Rightarrow> (string \<times> nat) list" where
  "case_targets n [] = []"
| "case_targets n ((when, steps) # cs) = (when, n) # case_targets (n + steps_len steps + 1) cs"

text \<open>\<open>comp_steps n steps\<close>: the code of \<open>steps\<close> placed at position \<open>n\<close>.\<close>

fun comp_step :: "nat \<Rightarrow> wf_step \<Rightarrow> instr list"
  and comp_steps :: "nat \<Rightarrow> wf_step list \<Rightarrow> instr list"
  and comp_cases :: "nat \<Rightarrow> nat option \<Rightarrow> (string \<times> wf_step list) list \<Rightarrow> instr list" where
  "comp_step n (SetStep vars) = [SET vars]"
| "comp_step n (EmitStep event payload_map) = [EMIT event payload_map]"
| "comp_step n (AgentStep a) = [AGENT a]"
| "comp_step n (ToolStep t) = [TOOL t]"
| "comp_step n (WaitStep w) = [WAIT w]"
| "comp_step n (HumanStep h) = [HUMAN h]"
| "comp_step n (BranchStep cases dflt) =
     (let d = n + 1 + cases_len cases; end = d + steps_len dflt + 1
      in BRANCH (case_targets (n + 1) cases) (Some d)
           # comp_cases (n + 1) (Some end) cases @ comp_steps d dflt @ [JUMP (Some end)])"
| "comp_step n (LoopStep over k body) = [NOOP]"
| "comp_steps n [] = []"
| "comp_steps n (s # ss) = comp_step n s @ comp_steps (n + step_len s) ss"
| "comp_cases n end [] = []"
| "comp_cases n end ((when, steps) # cs) =
     comp_steps n steps @ [JUMP end] @ comp_cases (n + steps_len steps + 1) end cs"

lemma length_comp [simp]:
  "length (comp_step n s) = step_len s"
  "length (comp_steps n ss) = steps_len ss"
  "length (comp_cases n e cs) = cases_len cs"
  by (induction s and ss and cs arbitrary: n and n and n e rule: step_len_steps_len_cases_len.induct)
     (simp_all add: Let_def)

subsection \<open>The compiler computes it\<close>

fun case_jumps :: "nat \<Rightarrow> (string \<times> wf_step list) list \<Rightarrow> nat list" where
  "case_jumps n [] = []"
| "case_jumps n ((when, steps) # cs) = (n + steps_len steps) # case_jumps (n + steps_len steps + 1) cs"

lemma patch_jumps_append: "patch_jumps (js @ ks) e p = patch_jumps ks e (patch_jumps js e p)"
  by (induction js arbitrary: p) simp_all

lemma patch_case_jumps:
  "length pre = n \<Longrightarrow>
   patch_jumps (case_jumps n cs) e (pre @ comp_cases n None cs @ post) = pre @ comp_cases n (Some e) cs @ post"
proof (induction cs arbitrary: n pre)
  case (Cons c cs)
  obtain "when" steps where c: "c = (when, steps)" by fastforce
  let ?m = "n + steps_len steps" and ?code = "comp_steps n steps"
  have "(pre @ comp_cases n None (c # cs) @ post)[?m := JUMP (Some e)]
    = (pre @ ?code @ [JUMP (Some e)]) @ comp_cases (?m + 1) None cs @ post"
    using Cons.prems by (simp add: c list_update_append)
  moreover have "patch_jumps (case_jumps (?m + 1) cs) e ((pre @ ?code @ [JUMP (Some e)]) @ comp_cases (?m + 1) None cs @ post)
    = (pre @ ?code @ [JUMP (Some e)]) @ comp_cases (?m + 1) (Some e) cs @ post"
    by (rule Cons.IH) (simp add: Cons.prems)
  ultimately show ?case by (simp add: c)
qed simp

lemma emit_comp:
  "emit_step s p = p @ comp_step (length p) s"
  "emit_steps ss p = p @ comp_steps (length p) ss"
  "br < length p \<Longrightarrow> p ! br = BRANCH ts d \<Longrightarrow>
   emit_cases cs br js p =
     (p[br := BRANCH (ts @ case_targets (length p) cs) d] @ comp_cases (length p) None cs, js @ case_jumps (length p) cs)"
proof (induction s p and ss p and cs br js p arbitrary: and and ts d rule: emit_step_emit_steps_emit_cases.induct)
  case (7 cases dflt p)
  let ?n = "length p"
  let ?d = "?n + 1 + cases_len cases"
  let ?p1 = "p @ BRANCH (case_targets (?n + 1) cases) None # comp_cases (?n + 1) None cases"
  have cases: "emit_cases cases ?n [] (p @ [BRANCH [] None]) = (?p1, case_jumps (?n + 1) cases)"
    using 7(1) [OF refl, of "[]"] by simp
  have p2: "?p1[?n := set_default (length ?p1) (?p1 ! ?n)]
    = p @ BRANCH (case_targets (?n + 1) cases) (Some ?d) # comp_cases (?n + 1) None cases" (is "_ = ?p2")
    by simp
  have dflt: "emit_steps dflt ?p2 = ?p2 @ comp_steps ?d dflt"
    using 7(2) [OF refl cases [symmetric] refl p2 [symmetric]] by simp
  let ?e = "?d + steps_len dflt + 1"
  let ?post = "comp_steps ?d dflt @ [JUMP None]"
  have "emit_step (BranchStep cases dflt) p
    = patch_jumps (case_jumps (?n + 1) cases @ [?d + steps_len dflt]) ?e (?p2 @ ?post)"
    by (simp add: Let_def cases dflt [simplified] add.assoc del: patch_jumps.simps)
  also have "\<dots> = patch_jumps [?d + steps_len dflt] ?e
      ((p @ [BRANCH (case_targets (?n + 1) cases) (Some ?d)]) @ comp_cases (?n + 1) (Some ?e) cases @ ?post)"
    using patch_case_jumps [of "p @ [BRANCH (case_targets (?n + 1) cases) (Some ?d)]" "?n + 1" cases ?e ?post]
    by (simp add: patch_jumps_append)
  also have "\<dots> = p @ comp_step ?n (BranchStep cases dflt)"
    by (simp add: Let_def list_update_append)
  finally show ?case .
next
  case (11 br js p)
  then have "p[br := BRANCH ts d] = p" by (simp add: list_update_same_conv)
  then show ?case by simp
next
  case (12 "when" steps cs br js p)
  let ?p1 = "p[br := add_case when (length p) (p ! br)]"
  have p1: "?p1 = p[br := BRANCH (ts @ [(when, length p)]) d]" using 12(4) by simp
  have p2: "emit_steps steps ?p1 @ [JUMP None] = ?p1 @ comp_steps (length p) steps @ [JUMP None]" (is "_ = ?p2")
    using 12(1) [OF refl] by simp
  have "emit_cases cs br (js @ [length ?p2 - 1]) ?p2
    = (?p2[br := BRANCH ((ts @ [(when, length p)]) @ case_targets (length ?p2) cs) d] @ comp_cases (length ?p2) None cs,
       (js @ [length ?p2 - 1]) @ case_jumps (length ?p2) cs)"
    by (rule 12(2) [OF refl p2 [symmetric]]) (use 12(3) p1 in \<open>simp_all add: nth_append\<close>)
  with p1 p2 12(3) show ?case by (simp add: Let_def list_update_append add.assoc)
qed (simp_all add: Let_def)

lemma compile_program_comp: "compile_program steps = comp_steps 0 steps @ [END]"
  using emit_comp(2) [of steps "[]"] by (simp add: compile_program_def)

subsection \<open>Running a program\<close>

text \<open>
  The instruction pointer: \<open>tst\<close> decides the predicate of a case in the current state, \<open>act\<close> is the
  effect of a basic instruction at its position. The first argument is fuel.
\<close>

fun case_target :: "(string \<Rightarrow> bool) \<Rightarrow> (string \<times> nat) list \<Rightarrow> nat option \<Rightarrow> nat option" where
  "case_target tst [] d = d"
| "case_target tst ((when, target) # cs) d = (if tst when then Some target else case_target tst cs d)"

fun machine :: "('x \<Rightarrow> string \<Rightarrow> bool) \<Rightarrow> (nat \<Rightarrow> instr \<Rightarrow> 'x \<Rightarrow> 'x) \<Rightarrow> instr list \<Rightarrow> nat \<Rightarrow> nat \<Rightarrow> 'x \<Rightarrow> 'x option" where
  "machine tst act prog 0 pc x = None"
| "machine tst act prog (Suc fuel) pc x =
     (if length prog \<le> pc then Some x
      else (case prog ! pc of
          END \<Rightarrow> Some x
        | BRANCH cases d \<Rightarrow> (case case_target (tst x) cases d of None \<Rightarrow> None
            | Some target \<Rightarrow> machine tst act prog fuel target x)
        | JUMP target \<Rightarrow> (case target of None \<Rightarrow> None | Some t \<Rightarrow> machine tst act prog fuel t x)
        | NOOP \<Rightarrow> machine tst act prog fuel (pc + 1) x
        | ins \<Rightarrow> machine tst act prog fuel (pc + 1) (act pc ins x)))"

text \<open>The structured reading of a definition.\<close>

function exec_step :: "('x \<Rightarrow> string \<Rightarrow> bool) \<Rightarrow> (nat \<Rightarrow> instr \<Rightarrow> 'x \<Rightarrow> 'x) \<Rightarrow> nat \<Rightarrow> wf_step \<Rightarrow> 'x \<Rightarrow> 'x"
  and exec_steps :: "('x \<Rightarrow> string \<Rightarrow> bool) \<Rightarrow> (nat \<Rightarrow> instr \<Rightarrow> 'x \<Rightarrow> 'x) \<Rightarrow> nat \<Rightarrow> wf_step list \<Rightarrow> 'x \<Rightarrow> 'x"
  and exec_cases :: "('x \<Rightarrow> string \<Rightarrow> bool) \<Rightarrow> (nat \<Rightarrow> instr \<Rightarrow> 'x \<Rightarrow> 'x) \<Rightarrow> nat \<Rightarrow> (string \<times> wf_step list) list
    \<Rightarrow> wf_step list \<Rightarrow> 'x \<Rightarrow> 'x" where
  "exec_step tst act n (SetStep vars) x = act n (SET vars) x"
| "exec_step tst act n (EmitStep event payload_map) x = act n (EMIT event payload_map) x"
| "exec_step tst act n (AgentStep a) x = act n (AGENT a) x"
| "exec_step tst act n (ToolStep t) x = act n (TOOL t) x"
| "exec_step tst act n (WaitStep w) x = act n (WAIT w) x"
| "exec_step tst act n (HumanStep h) x = act n (HUMAN h) x"
| "exec_step tst act n (BranchStep cases dflt) x = exec_cases tst act (n + 1) cases dflt x"
| "exec_step tst act n (LoopStep over k body) x = x"
| "exec_steps tst act n [] x = x"
| "exec_steps tst act n (s # ss) x = exec_steps tst act (n + step_len s) ss (exec_step tst act n s x)"
| "exec_cases tst act n [] dflt x = exec_steps tst act n dflt x"
| "exec_cases tst act n ((when, steps) # cs) dflt x =
     (if tst x when then exec_steps tst act n steps x
      else exec_cases tst act (n + steps_len steps + 1) cs dflt x)"
  by pat_completeness auto
termination
  by (relation "measure (case_sum (\<lambda>(_, _, _, s, _). 2 * size s) (case_sum (\<lambda>(_, _, _, ss, _). 2 * size_list size ss)
      (\<lambda>(_, _, _, cs, d, _). Suc (2 * (size_list (size_prod (\<lambda>_. 0) (size_list size)) cs + size_list size d)))))")
     auto

lemma exec_keeps:
  "(\<And>pc ins x. P x \<Longrightarrow> P (act pc ins x)) \<Longrightarrow> P x \<Longrightarrow> P (exec_step tst act n s x)"
  "(\<And>pc ins x. P x \<Longrightarrow> P (act pc ins x)) \<Longrightarrow> P x \<Longrightarrow> P (exec_steps tst act n ss x)"
  "(\<And>pc ins x. P x \<Longrightarrow> P (act pc ins x)) \<Longrightarrow> P x \<Longrightarrow> P (exec_cases tst act n cs d x)"
  by (induction tst act n s x and tst act n ss x and tst act n cs d x rule: exec_step_exec_steps_exec_cases.induct) auto

text \<open>The code at \<open>n\<close> of a program.\<close>

fun code_at :: "instr list \<Rightarrow> nat \<Rightarrow> instr list \<Rightarrow> bool" where
  "code_at prog n [] = True"
| "code_at prog n (i # code) \<longleftrightarrow> n < length prog \<and> prog ! n = i \<and> code_at prog (Suc n) code"

lemma code_at_append [simp]: "code_at prog n (a @ b) \<longleftrightarrow> code_at prog n a \<and> code_at prog (n + length a) b"
  by (induction a arbitrary: n) auto

lemma code_at_mid: "code_at (pre @ code @ post) (length pre) code"
proof (induction code arbitrary: pre)
  case (Cons i code)
  from Cons.IH [of "pre @ [i]"] show ?case by simp
qed simp

text \<open>\<open>k\<close> steps lead from one configuration to another.\<close>

definition leads :: "('x \<Rightarrow> string \<Rightarrow> bool) \<Rightarrow> (nat \<Rightarrow> instr \<Rightarrow> 'x \<Rightarrow> 'x) \<Rightarrow> instr list
    \<Rightarrow> nat \<Rightarrow> nat \<Rightarrow> 'x \<Rightarrow> nat \<Rightarrow> 'x \<Rightarrow> bool" where
  "leads tst act prog k pc x pc' x' \<longleftrightarrow>
     (\<exists>j \<le> k. \<forall>f. machine tst act prog (j + f) pc x = machine tst act prog f pc' x')"

lemma leads_refl [simp]: "leads tst act prog k pc x pc x"
  unfolding leads_def by (rule exI [of _ 0]) simp

lemma leads_trans:
  assumes "leads tst act prog j a x b y" and "leads tst act prog k b y c z" and "j + k \<le> m"
  shows "leads tst act prog m a x c z"
proof -
  from assms(1) obtain i where i: "i \<le> j" "\<And>f. machine tst act prog (i + f) a x = machine tst act prog f b y"
    by (auto simp: leads_def)
  from assms(2) obtain l where l: "l \<le> k" "\<And>f. machine tst act prog (l + f) b y = machine tst act prog f c z"
    by (auto simp: leads_def)
  have "machine tst act prog (i + l + f) a x = machine tst act prog f c z" for f
    using i(2) [of "l + f"] l(2) [of f] by (simp add: add.assoc)
  moreover have "i + l \<le> m" using i(1) l(1) assms(3) by simp
  ultimately show ?thesis unfolding leads_def by blast
qed

lemma leads_1: "(\<And>f. machine tst act prog (Suc f) pc x = machine tst act prog f pc' x') \<Longrightarrow> 1 \<le> k \<Longrightarrow>
    leads tst act prog k pc x pc' x'"
  unfolding leads_def by (rule exI [of _ 1]) simp

lemma leads_jump: "code_at prog pc [JUMP (Some t)] \<Longrightarrow> leads tst act prog 1 pc x t x"
  by (rule leads_1) simp_all

lemma leads_branch:
  "code_at prog pc [BRANCH cases d] \<Longrightarrow> case_target (tst x) cases d = Some t \<Longrightarrow> leads tst act prog 1 pc x t x"
  by (rule leads_1) simp_all

lemma case_target_default: "\<exists>t. case_target tst cs (Some d) = Some t"
  by (induction cs) auto

lemma machine_comp:
  "code_at prog n (comp_step n s) \<Longrightarrow> leads tst act prog (step_len s) n x (n + step_len s) (exec_step tst act n s x)"
  "code_at prog n (comp_steps n ss) \<Longrightarrow> leads tst act prog (steps_len ss) n x (n + steps_len ss) (exec_steps tst act n ss x)"
  "code_at prog n (comp_cases n (Some e) cs) \<Longrightarrow> code_at prog (n + cases_len cs) (comp_steps (n + cases_len cs) dflt @ [JUMP (Some e)]) \<Longrightarrow>
   case_target (tst x) (case_targets n cs) (Some (n + cases_len cs)) = Some t \<Longrightarrow>
   leads tst act prog (cases_len cs + steps_len dflt + 1) t x e (exec_cases tst act n cs dflt x)"
proof (induction tst act n s x and tst act n ss x and tst act n cs dflt x arbitrary: and and t e
    rule: exec_step_exec_steps_exec_cases.induct)
  case (7 tst act n cases dflt x)
  let ?d = "n + 1 + cases_len cases"
  obtain t where t: "case_target (tst x) (case_targets (n + 1) cases) (Some ?d) = Some t"
    using case_target_default by blast
  have code: "code_at prog n [BRANCH (case_targets (n + 1) cases) (Some ?d)]"
      "code_at prog (n + 1) (comp_cases (n + 1) (Some (?d + steps_len dflt + 1)) cases)"
      "code_at prog (n + 1 + cases_len cases) (comp_steps (n + 1 + cases_len cases) dflt @ [JUMP (Some (?d + steps_len dflt + 1))])"
    using 7(2) by (simp_all add: Let_def)
  have "leads tst act prog 1 n x t x" by (rule leads_branch [OF code(1)]) (rule t)
  from leads_trans [OF this 7(1) [OF code(2,3) t]] show ?case by (simp add: add.assoc)
next
  case (10 tst act n s ss x)
  let ?y = "exec_step tst act n s x"
  have "leads tst act prog (step_len s) n x (n + step_len s) ?y"
    "leads tst act prog (steps_len ss) (n + step_len s) ?y (n + step_len s + steps_len ss)
       (exec_steps tst act (n + step_len s) ss ?y)"
    using 10(1,2) 10(3) by simp_all
  from leads_trans [OF this] show ?case by (simp add: add.assoc)
next
  case (11 tst act n dflt x)
  let ?y = "exec_steps tst act n dflt x"
  from 11 have t: "t = n" and run: "leads tst act prog (steps_len dflt) n x (n + steps_len dflt) ?y" by simp_all
  have "leads tst act prog 1 (n + steps_len dflt) ?y e ?y" using 11 by (intro leads_jump) simp
  from leads_trans [OF run this] show ?case by (simp add: t)
next
  case (12 tst act n "when" steps cs dflt x)
  show ?case
  proof (cases "tst x when")
    case True
    let ?y = "exec_steps tst act n steps x"
    have "leads tst act prog (steps_len steps) n x (n + steps_len steps) ?y" using 12(1) [OF True] 12(3) by simp
    moreover have "leads tst act prog 1 (n + steps_len steps) ?y e ?y" using 12(3) by (intro leads_jump) simp
    ultimately have "leads tst act prog (cases_len ((when, steps) # cs) + steps_len dflt + 1) n x e ?y"
      by (rule leads_trans) simp
    with True 12(5) show ?thesis by simp
  next
    case False
    have "leads tst act prog (cases_len cs + steps_len dflt + 1) t x e (exec_cases tst act (n + steps_len steps + 1) cs dflt x)"
      using 12(3,4,5) False by (intro 12(2)) (simp_all add: add.assoc add.commute add.left_commute)
    from leads_trans [OF this leads_refl [of _ _ _ 0]] False show ?thesis by simp
  qed
qed (auto intro: leads_1)

lemma machine_runs:
  "length (compile_program steps) \<le> fuel \<Longrightarrow>
   machine tst act (compile_program steps) fuel 0 x = Some (exec_steps tst act 0 steps x)"
proof -
  let ?prog = "compile_program steps"
  assume fuel: "length ?prog \<le> fuel"
  have len: "length ?prog = steps_len steps + 1" by (simp add: compile_program_comp)
  have "code_at ?prog 0 (comp_steps 0 steps)"
    using code_at_mid [of "[]" "comp_steps 0 steps" "[END]"] by (simp add: compile_program_comp)
  then have "leads tst act ?prog (steps_len steps) 0 x (steps_len steps) (exec_steps tst act 0 steps x)"
    using machine_comp(2) [of ?prog 0 steps tst act x] by simp
  then obtain j where j: "j \<le> steps_len steps" "\<And>f. machine tst act ?prog (j + f) 0 x
      = machine tst act ?prog f (steps_len steps) (exec_steps tst act 0 steps x)"
    unfolding leads_def by blast
  from j(1) fuel len obtain f where f: "fuel = j + Suc f"
    by (metis add_Suc_right le_add_diff_inverse le_trans not_less_eq_eq Suc_eq_plus1 less_eq_Suc_le less_iff_Suc_add not_le)
  have "?prog ! steps_len steps = END" by (simp add: compile_program_comp nth_append)
  then show ?thesis unfolding f j(2) by (simp add: len)
qed

subsection \<open>Jumps go forward\<close>

fun targets :: "instr \<Rightarrow> nat option list" where
  "targets (BRANCH cases d) = d # map (\<lambda>c. Some (snd c)) cases"
| "targets (JUMP t) = [t]"
| "targets i = []"

text \<open>Every target of the code at \<open>n\<close> lies after its instruction and at most at \<open>m\<close>.\<close>

fun forward :: "nat \<Rightarrow> nat \<Rightarrow> instr list \<Rightarrow> bool" where
  "forward m n [] = True"
| "forward m n (i # code) \<longleftrightarrow> (\<forall>t \<in> set (targets i). \<exists>k. t = Some k \<and> n < k \<and> k \<le> m) \<and> forward m (Suc n) code"

lemma forward_append [simp]: "forward m n (a @ b) \<longleftrightarrow> forward m n a \<and> forward m (n + length a) b"
  by (induction a arbitrary: n) auto

lemma forward_nth: "forward m n code \<Longrightarrow> i < length code \<Longrightarrow> t \<in> set (targets (code ! i)) \<Longrightarrow>
    \<exists>k. t = Some k \<and> n + i < k \<and> k \<le> m"
proof (induction code arbitrary: n i)
  case (Cons c code)
  show ?case
  proof (cases i)
    case (Suc j)
    with Cons show ?thesis using Cons.IH [of "Suc n" j] by simp
  qed (use Cons in simp)
qed simp

lemma case_targets_bounds: "(w, t) \<in> set (case_targets n cs) \<Longrightarrow> n \<le> t \<and> t < n + cases_len cs"
  by (induction n cs rule: case_targets.induct) auto

lemma comp_forward:
  "n + step_len s \<le> m \<Longrightarrow> forward m n (comp_step n s)"
  "n + steps_len ss \<le> m \<Longrightarrow> forward m n (comp_steps n ss)"
  "t = Some e \<Longrightarrow> n + cases_len cs \<le> e \<Longrightarrow> e \<le> m \<Longrightarrow> forward m n (comp_cases n t cs)"
proof (induction n s and n ss and n t cs arbitrary: m and m and m e rule: comp_step_comp_steps_comp_cases.induct)
  case (7 n cases dflt)
  let ?d = "n + 1 + cases_len cases"
  have "forward m (n + 1) (comp_cases (n + 1) (Some (?d + steps_len dflt + 1)) cases)" using 7(3)
    by (intro 7(1) [OF refl refl refl]) auto
  moreover have "forward m ?d (comp_steps ?d dflt)" using 7(3) by (intro 7(2) [OF refl refl]) auto
  ultimately show ?case using 7(3) by (fastforce simp: Let_def dest: case_targets_bounds)
qed (auto simp: add.assoc)

lemma program_forward:
  assumes "i < length (compile_program steps)" and "t \<in> set (targets (compile_program steps ! i))"
  shows "\<exists>k. t = Some k \<and> i < k \<and> k < length (compile_program steps)"
proof -
  have "forward (steps_len steps) 0 (compile_program steps)"
    using comp_forward(2) [of 0 steps "steps_len steps"] by (simp add: compile_program_comp)
  from forward_nth [OF this assms] show ?thesis by (simp add: compile_program_comp less_Suc_eq_le)
qed

lemma case_target_in: "case_target tst cs d = t \<Longrightarrow> t \<in> set (targets (BRANCH cs d))"
  by (induction cs) (auto split: if_splits)

end
