(* ===== verification/Frame.thy ===== *)
theory Frame
  imports Tools
begin

text \<open>
  What a mediated tool call can reach: the tables up to the agent runs. Every operation on the path of
  a call leaves whatever a client adds to the session state (\<open>run_db.more\<close>) as it was; the workflow
  engine, whose tables are such an extension, relies on it.
\<close>

named_theorems beyond_simps \<open>operations that leave the extension of the state alone\<close>

abbreviation op_within :: "('e, 'b, 'a run_db_scheme) op \<Rightarrow> bool" where
  "op_within f \<equiv> (\<forall>x. op_keeps (\<lambda>s. run_db.more s = x) f)"

lemma op_withinI: "(\<And>s. run_db.more (snd (f s)) = run_db.more s) \<Longrightarrow> op_within f"
  by (simp add: op_keeps_def)

lemma op_within_snd: "op_within f \<Longrightarrow> run_db.more (snd (f s)) = run_db.more s"
  unfolding op_keeps_def by blast

lemma op_within_bind: "op_within f \<Longrightarrow> (\<And>x. op_within (g x)) \<Longrightarrow> op_within (op_bind f g)"
  by (intro allI op_keeps_bind) auto

lemma op_within_error: "op_within f \<Longrightarrow> op_within (op_error w f)"
  by (intro allI op_keeps_error) auto

lemma op_within_return: "op_within (\<lambda>s. (x, s))"
  by (simp add: op_keeps_def)

lemmas op_within = op_within_bind op_within_error op_within_return

subsection \<open>The components a call uses\<close>

lemma beyond_set_org_context [simp, beyond_simps]: "run_db.more (set_org_context org s) = run_db.more s"
  by (simp add: set_org_context_def)

lemma beyond_audit_write [simp, beyond_simps]: "run_db.more (snd (audit_write h e s)) = run_db.more s"
  by (simp add: audit_write_def Let_def set_org_context_def)

lemma beyond_audit_call [simp, beyond_simps]: "run_db.more (snd (audit_call pf ctx action payload s)) = run_db.more s"
  by (simp add: audit_call_def case_prod_beta)

lemma beyond_emit [simp, beyond_simps]: "run_db.more (snd (emit org ty pl src s)) = run_db.more s"
  by (simp add: emit_def split: option.split)

lemma beyond_verify: "run_db.more (snd (verify C t org h s)) = run_db.more s"
proof (cases "verify C t org h s")
  case (Pair r s1)
  show ?thesis
  proof (cases r)
    case (Inl e)
    with Pair verify_refused [of C t org h s e s1] show ?thesis by simp
  next
    case (Inr c)
    with Pair have "verify C t org h s = (Inr c, s1)" by simp
    then obtain x where "s1 = s\<lparr>execution_token_jti := x\<rparr>" by (rule verify_cases) blast
    with Pair show ?thesis by simp
  qed
qed

lemma within_gates:
  "op_within (capability_gate a)"
  "op_within (token_gate C a)"
  "op_within (\<lambda>s. op_assert (e s) s)"
  "op_within (op_assert x)"
  "op_within (template_gate a)"
  "op_within (queue_message a)"
proof -
  show "op_within (capability_gate a)" by (rule op_withinI) (simp add: capability_gate_def split: option.split)
  have "op_within (verify C t org h)" for t org h by (rule op_withinI) (rule beyond_verify)
  then show "op_within (token_gate C a)" unfolding token_gate_def by (rule op_within_error)
  show "op_within (\<lambda>s. op_assert (e s) s)" by (rule op_withinI) (simp add: op_assert_def split: option.split)
  show "op_within (op_assert x)" by (rule op_withinI) (simp add: op_assert_def split: option.split)
  show "op_within (template_gate a)"
    by (rule op_withinI) (simp add: template_gate_def op_error_def assert_template_sendable_def split: option.split prod.split)
  show "op_within (queue_message a)" by (rule op_withinI) (simp add: queue_message_def split: option.split)
qed

lemma within_figures: "op_within (assert_figures_ledgered h a)"
proof (rule op_withinI)
  fix s :: "'a run_db_scheme"
  obtain n s1 where u: "unmatched_figures (sa_org_id a) (extract_amounts (sa_body a)) s = (n, s1)" by fastforce
  with unmatched_figures_state [of "sa_org_id a" "extract_amounts (sa_body a)" s] have "run_db.more s1 = run_db.more s"
    by (simp split: if_splits)
  then show "run_db.more (snd (assert_figures_ledgered h a s)) = run_db.more s"
    by (simp add: assert_figures_ledgered_def u split: option.split)
qed

lemma within_credentials: "op_within (credentials_gate decrypt a c ct)"
  unfolding credentials_gate_def
  by (rule op_within_bind; rule op_withinI)
    (simp_all add: load_credentials_def Let_def split: option.split)

lemma within_admit: "op_within (admit C decrypt a c ct)"
  unfolding admit_def
  by (intro op_within_bind within_gates within_figures within_credentials op_within_return)

lemma within_send_gates: "op_within (send_gates C decrypt a)"
  by (rule op_withinI) (simp add: send_gates_def op_within_snd [OF within_admit] split: option.split)

lemma within_mark_quoted: "op_within (mark_quoted org contact m)"
proof (rule op_withinI)
  fix s :: "'a run_db_scheme"
  have sl: "run_db.more (set_leads p f s) = run_db.more s" for p f by (simp add: set_leads_def)
  have em: "run_db.more s2 = run_db.more s1" if "emit org ty pl src s1 = (r, s2)" for ty pl src s1 r and s2 :: "'a run_db_scheme"
    using beyond_emit [of org ty pl src s1] that by simp
  show "run_db.more (snd (mark_quoted org contact m s)) = run_db.more s"
    by (auto simp: mark_quoted_def Let_def sl split: option.split prod.split sum.split dest!: em)
qed

lemma within_record_parts:
  "op_within (set_message i f)"
  "op_within (emit org ty pl src)"
  "op_within (write_outcome h aid oc d)"
proof -
  show "op_within (set_message i f)" by (rule op_withinI) (simp add: set_message_def Let_def)
  show "op_within (emit org ty pl src)" by (rule op_withinI) simp
  show "op_within (write_outcome h aid oc d)"
    by (rule op_withinI) (simp add: write_outcome_def Let_def case_prod_beta split: option.split)
qed

lemma within_record_outcome: "op_within (record_outcome C a ct m r)"
proof -
  have sent: "op_within (record_sent C a aid ct m r)" for aid
    unfolding record_sent_def
    by (intro op_within_bind) (auto intro!: op_within within_record_parts within_mark_quoted simp del: split_paired_All)
  have failed: "op_within (record_failed C a aid m r)" for aid
    unfolding record_failed_def by (intro op_within within_record_parts)
  show ?thesis
    by (rule op_withinI) (simp add: record_outcome_def op_within_snd [OF sent] op_within_snd [OF failed] split: option.split)
qed

lemma beyond_dispatch: "run_db.more (snd (dispatch client a cl s)) = run_db.more s"
  by (simp add: dispatch_def claim_dispatch_def Let_def case_prod_beta split: option.split)

lemma within_send: "op_within (send C decrypt client True a)"
  unfolding send_def
proof (rule op_within_bind)
  show "op_within (send_session True (sa_org_id a) (send_gates C decrypt a))"
    by (rule op_withinI) (simp add: send_session_def op_within_snd [OF within_send_gates])
  show "op_within (\<lambda>s. case dispatch client a cl s of (Inl other, s1) \<Rightarrow> (Inr other, s1)
      | (Inr (message_id, None), s1) \<Rightarrow> (Inl ProviderRaised, s1)
      | (Inr (message_id, Some result), s1) \<Rightarrow>
          send_session True (sa_org_id a) (record_outcome C a (cl_contact_id cl) message_id result) s1)" for cl
  proof (rule op_withinI, goal_cases)
    case (1 s)
    obtain r s1 where d: "dispatch client a cl s = (r, s1)" by fastforce
    with beyond_dispatch [of client a cl s] have "run_db.more s1 = run_db.more s" by simp
    with d show ?case
      by (auto simp: send_session_def op_within_snd [OF within_record_outcome] split: sum.split prod.split option.split)
  qed
qed

text \<open>The tools.\<close>

lemma within_attempts:
  "op_within (record_attempt_outcome org att why)" "op_within (record_attempt_sent a out)"
proof -
  have "op_within (set_attempts p f)" for p f by (rule op_withinI) (simp add: set_attempts_def Let_def)
  note snd = op_within_snd [OF this]
  show "op_within (record_attempt_outcome org att why)"
    by (rule op_withinI) (simp add: record_attempt_outcome_def mark_blocked_def snd split: option.split)
  show "op_within (record_attempt_sent a out)"
    by (rule op_withinI) (simp add: record_attempt_sent_def mark_sent_def mark_failed_def snd split: option.split)
qed

lemma beyond_bind_return:
  "op_within f \<Longrightarrow> run_db.more (snd (op_bind (op_error w f) (\<lambda>_ s. (x, s)) s)) = run_db.more s"
  by (rule op_within_snd) (intro op_within)

lemma within_after_send: "op_within (after_send a r)"
  by (rule op_withinI)
    (simp add: after_send_def beyond_bind_return [OF within_attempts(1)] beyond_bind_return [OF within_attempts(2)]
      split: sum.split send_error.split template_error.split)

lemma within_messages_send: "op_within (messages_send C wi ctx params)"
proof (rule op_withinI)
  fix s :: "'a run_db_scheme"
  have "run_db.more (snd (authorise_send C ctx a s)) = run_db.more s" for a
    by (simp add: authorise_send_def mint_def Let_def case_prod_beta)
  then show "run_db.more (snd (messages_send C wi ctx params s)) = run_db.more s"
    by (auto simp: messages_send_def op_within_snd [OF within_send] op_within_snd [OF within_after_send] case_prod_beta split: sum.split)
qed

lemma within_registry:
  assumes "\<And>tool params. op_within (services tool params)" and "REGISTRY C wi services ctx tool = Some impl"
  shows "run_db.more (fst (snd (impl params aid w))) = run_db.more (fst w)"
proof -
  have on: "run_db.more (fst (snd (on_session f w))) = run_db.more (fst w)" if "op_within f"
    for f :: "(string, json, 'a run_db_scheme) op"
    using op_within_snd [OF that, of "fst w"] by (simp add: on_session_def case_prod_beta)
  have "op_within (ledger_read ctx params)" by (rule op_withinI) (simp add: ledger_read_def case_prod_beta split: option.split)
  note ledger = on [OF this]
  have "op_within not_wired" by (rule op_withinI) (simp add: not_wired_def)
  note none = on [OF this]
  from assms(2) consider "impl = (\<lambda>params aid. on_session (services tool params))"
    | "impl = (\<lambda>params aid. on_session (ledger_read ctx params))"
    | "impl = (\<lambda>params aid. on_session (messages_send C wi ctx params))"
    | "impl = (\<lambda>params aid. on_session not_wired)"
    unfolding REGISTRY_def by (simp split: if_splits)
  then show ?thesis
    by cases (simp_all only: on [OF assms(1)] on [OF within_messages_send] ledger none)
qed

subsection \<open>The proxy\<close>

lemma beyond_manifest_denied: "run_db.more (fst (snd (manifest_denied pf ctx tool reason w))) = run_db.more (fst w)"
  by (simp add: manifest_denied_def publish_alert_def Let_def case_prod_beta)

lemma beyond_execute:
  assumes "\<And>impl params aid w. R tool = Some impl \<Longrightarrow> run_db.more (fst (snd (impl params aid w))) = run_db.more (fst w)"
  shows "run_db.more (fst (snd (execute_tool pf R ctx tool params w))) = run_db.more (fst w)"
proof -
  obtain s rd where w: "w = (s, rd)" by fastforce
  obtain aid s1 where a: "audit_call pf ctx (''tool.'' @ tool @ '':intent'') (JObj [(''params'', redact params)]) s = (aid, s1)" by fastforce
  have s1: "run_db.more s1 = run_db.more s" using arg_cong [OF a, where f = "\<lambda>x. run_db.more (snd x)"] by simp
  show ?thesis
  proof (cases "R tool")
    case None
    then show ?thesis by (simp add: execute_tool_def w case_prod_beta)
  next
    case (Some impl)
    with a assms [OF Some, of params aid "(s1, rd)"] s1 show ?thesis
      by (auto simp: execute_tool_def w split: sum.split prod.split)
  qed
qed

lemma beyond_call:
  assumes "\<And>impl params aid w. R tool = Some impl \<Longrightarrow> run_db.more (fst (snd (impl params aid w))) = run_db.more (fst w)"
  shows "run_db.more (fst (snd (call pf R te ctx tool params w))) = run_db.more (fst w)"
proof -
  have exec: "run_db.more (fst (snd (execute_tool pf R ctx tool params v))) = run_db.more (fst v)" for v
    by (rule beyond_execute) (rule assms)
  have auth: "run_db.more (fst (snd (authorise_and_execute pf R ctx tool params v))) = run_db.more (fst v)" for v
  proof -
    obtain d s1 where d: "commercial_denial pf ctx tool (fst v) = (d, s1)" by fastforce
    then have "s1 = set_org_context (rx_org_id ctx) (fst v)" using commercial_denial_state [of pf ctx tool "fst v"] by simp
    with d show ?thesis
      by (simp add: authorise_and_execute_def case_prod_beta Let_def exec split: option.split)
  qed
  have tier: "run_db.more (fst (snd (tier_step pf R te ctx tool params grant v))) = run_db.more (fst v)" for grant v
  proof -
    obtain r s1 where r: "engine_tier pf ctx tool params (fst v) = (r, s1)" by fastforce
    then have "s1 = set_org_context (rx_org_id ctx) (fst v)" using engine_tier_state [of pf ctx tool params "fst v"] by simp
    with r show ?thesis
      by (cases v) (simp add: tier_step_def auth split: option.split sum.split)
  qed
  have budget: "run_db.more (fst (snd (budget_step pf R te ctx tool params grant v))) = run_db.more (fst v)" for grant v
    by (simp add: budget_step_def tier split: option.split prod.split)
  have gated: "run_db.more (fst (snd (gated pf R te ctx tool params grant v))) = run_db.more (fst v)" for grant v
    by (simp add: gated_def case_prod_beta budget split: sum.split option.split)
  show ?thesis
    by (simp add: call_def beyond_manifest_denied gated split: option.split)
qed

end
