(* ===== verification/Runs.thy ===== *)
theory Runs
  imports Program Frame
begin

text \<open>
  The tables of the workflow engine and the operations of \<open>core/workflows/executor.py\<close> that work on
  one row of them: the append-only log of a run, its cursor, the concurrency policy of a new run, the
  emit of an event, the registration of a wait (\<open>waits.py\<close>), and the resolution of references into a
  run's variables.

  CEL is the argument \<open>cel\<close>: the value of an expression over the variables, \<open>None\<close> where the engine
  raises. Dicts are association lists, merged as \<open>{**a, **b}\<close> does.
\<close>

type_synonym wf_cel = "string \<Rightarrow> jobj \<Rightarrow> json option"

record workflow_dsl =
  dl_steps :: "wf_step list"
  dl_compensation :: "(wf_step list \<times> string option) option"
  dl_concurrency :: "(string \<times> string) option"

record workflow_definition_row =
  wd_id :: uuid
  wd_org_id :: uuid
  wd_pack_id :: "uuid option"
  wd_workflow_key :: string
  wd_version :: int
  wd_origin :: string
  wd_status :: string
  wd_dsl :: workflow_dsl
  wd_trigger_spec :: json
  wd_guards :: "string list"

record workflow_run_row =
  wr_id :: uuid
  wr_org_id :: uuid
  wr_definition_id :: uuid
  wr_definition_version :: int
  wr_status :: string
  wr_concurrency_key :: "string option"
  wr_subject :: jobj
  wr_vars :: jobj
  wr_cursor :: nat
  wr_created_at :: time
  wr_updated_at :: time
  wr_completed_at :: "time option"

record run_event_row =
  we_org_id :: uuid
  we_run_id :: uuid
  we_seq :: int
  we_kind :: string
  we_step_id :: "string option"
  we_data :: jobj

record wait_row =
  ws_id :: uuid
  ws_org_id :: uuid
  ws_run_id :: uuid
  ws_step_id :: string
  ws_wait_for :: string
  ws_correlation :: jobj
  ws_fire_at :: "time option"
  ws_timeout_at :: "time option"
  ws_status :: string

record wf_db = run_db +
  workflow_definitions :: "workflow_definition_row list"
  workflow_runs :: "workflow_run_row list"
  workflow_run_events :: "run_event_row list"
  wait_subscriptions :: "wait_row list"

subsection \<open>Dicts\<close>

fun dict_put :: "string \<Rightarrow> json \<Rightarrow> jobj \<Rightarrow> jobj" where
  "dict_put k v [] = [(k, v)]"
| "dict_put k v ((k', v') # d) = (if k = k' then (k, v) # d else (k', v') # dict_put k v d)"

fun dict_merge :: "jobj \<Rightarrow> jobj \<Rightarrow> jobj" where
  "dict_merge a [] = a"
| "dict_merge a ((k, v) # b) = dict_merge (dict_put k v a) b"

lemma map_of_dict_put [simp]: "map_of (dict_put k v d) = (map_of d)(k \<mapsto> v)"
  by (induction d) (auto simp: fun_eq_iff)

lemma map_of_dict_merge: "distinct (map fst b) \<Longrightarrow> map_of (dict_merge a b) = map_of a ++ map_of b"
proof (induction b arbitrary: a)
  case (Cons kv b)
  then obtain k v where kv: "kv = (k, v)" "k \<notin> fst ` set b" by (cases kv) auto
  then have "map_of b k = None" by (simp add: map_of_eq_None_iff)
  with Cons kv show ?case by (auto simp: fun_eq_iff map_add_def split: option.split)
qed simp

subsection \<open>Variables of a run\<close>

text \<open>What the expressions of a step see: \<open>{**vars, "subject": subject, "vars": vars}\<close>.\<close>

definition run_activation :: "jobj \<Rightarrow> jobj \<Rightarrow> jobj" where
  "run_activation vars subject = dict_merge vars [(''subject'', JObj subject), (''vars'', JObj vars)]"

definition cel_truthy :: "wf_cel \<Rightarrow> string \<Rightarrow> jobj \<Rightarrow> bool" where
  "cel_truthy cel expr act = (case cel expr act of None \<Rightarrow> False | Some v \<Rightarrow> truthy v)"

text \<open>A walk along the parts of a dotted reference.\<close>

fun walk_path :: "string list \<Rightarrow> json \<Rightarrow> json option" where
  "walk_path [] node = Some node"
| "walk_path (part # parts) node = (case jget node part of None \<Rightarrow> None | Some v \<Rightarrow> walk_path parts v)"

definition resolve_ref :: "string option \<Rightarrow> jobj \<Rightarrow> json" where
  "resolve_ref ref act = (case ref of None \<Rightarrow> JNull
     | Some r \<Rightarrow> if r = [] then JNull
         else (case walk_path (py_split CHR ''.'' r) (JObj act) of None \<Rightarrow> JStr r | Some v \<Rightarrow> v))"

subsection \<open>The log and the cursor of a run\<close>

definition own_run :: "uuid \<Rightarrow> uuid \<Rightarrow> 'a wf_db_scheme \<Rightarrow> workflow_run_row \<Rightarrow> bool" where
  "own_run org run s r \<longleftrightarrow> rls_visible s (wr_org_id r) \<and> wr_id r = run \<and> wr_org_id r = org"

definition set_run :: "uuid \<Rightarrow> uuid \<Rightarrow> (workflow_run_row \<Rightarrow> workflow_run_row) \<Rightarrow> 'a wf_db_scheme \<Rightarrow> 'a wf_db_scheme" where
  "set_run org run f s = s\<lparr>workflow_runs := update_where (own_run org run s) f (workflow_runs s)\<rparr>"

definition run_log :: "uuid \<Rightarrow> 'a wf_db_scheme \<Rightarrow> run_event_row list" where
  "run_log run s = filter (\<lambda>e. rls_visible s (we_org_id e) \<and> we_run_id e = run) (workflow_run_events s)"

definition next_seq :: "uuid \<Rightarrow> 'a wf_db_scheme \<Rightarrow> int" where
  "next_seq run s = foldl max (- 1) (map we_seq (run_log run s)) + 1"

definition append_event :: "uuid \<Rightarrow> uuid \<Rightarrow> string \<Rightarrow> string option \<Rightarrow> jobj \<Rightarrow> 'a wf_db_scheme \<Rightarrow> 'a wf_db_scheme" where
  "append_event org run kind step_id data s = s\<lparr>workflow_run_events := workflow_run_events s @
     [\<lparr>we_org_id = org, we_run_id = run, we_seq = next_seq run s, we_kind = kind, we_step_id = step_id, we_data = data\<rparr>]\<rparr>"

definition step_done :: "uuid \<Rightarrow> string \<Rightarrow> 'a wf_db_scheme \<Rightarrow> bool" where
  "step_done run step s = list_ex (\<lambda>e. we_step_id e = Some step \<and> we_kind e = ''step_completed'') (run_log run s)"

definition DONE_STATUSES :: "string list" where
  "DONE_STATUSES = [''completed'', ''failed'', ''compensated'', ''compensated_partial'', ''superseded'']"

definition set_cursor :: "uuid \<Rightarrow> uuid \<Rightarrow> nat \<Rightarrow> string option \<Rightarrow> 'a wf_db_scheme \<Rightarrow> 'a wf_db_scheme" where
  "set_cursor org run pc status s =
     set_run org run (\<lambda>r. case status of
         None \<Rightarrow> r\<lparr>wr_cursor := pc, wr_updated_at := now s\<rparr>
       | Some st \<Rightarrow> r\<lparr>wr_cursor := pc, wr_status := st, wr_updated_at := now s,
           wr_completed_at := (if st \<in> set DONE_STATUSES then Some (now s) else wr_completed_at r)\<rparr>) s"

definition set_vars :: "uuid \<Rightarrow> uuid \<Rightarrow> jobj \<Rightarrow> 'a wf_db_scheme \<Rightarrow> 'a wf_db_scheme" where
  "set_vars org run vars = set_run org run (\<lambda>r. r\<lparr>wr_vars := vars\<rparr>)"

text \<open>The run joined with its definition.\<close>

definition load_run :: "uuid \<Rightarrow> uuid \<Rightarrow> 'a wf_db_scheme \<Rightarrow> (workflow_run_row \<times> workflow_dsl) option" where
  "load_run org run s =
     (case find (own_run org run s) (workflow_runs s) of None \<Rightarrow> None
      | Some r \<Rightarrow> (case find (\<lambda>d. rls_visible s (wd_org_id d) \<and> wd_id d = wr_definition_id r) (workflow_definitions s) of
            None \<Rightarrow> None | Some d \<Rightarrow> Some (r, wd_dsl d)))"

subsection \<open>Concurrency\<close>

definition is_live :: "workflow_run_row \<Rightarrow> bool" where
  "is_live r \<longleftrightarrow> wr_status r \<in> {''running'', ''waiting''}"

definition live_runs :: "uuid \<Rightarrow> uuid \<Rightarrow> string \<Rightarrow> 'a wf_db_scheme \<Rightarrow> workflow_run_row list" where
  "live_runs org defn key s = filter (\<lambda>r. rls_visible s (wr_org_id r) \<and> wr_org_id r = org \<and>
     wr_definition_id r = defn \<and> wr_concurrency_key r = Some key \<and> is_live r) (workflow_runs s)"

definition supersede :: "uuid \<Rightarrow> uuid \<Rightarrow> 'a wf_db_scheme \<Rightarrow> 'a wf_db_scheme" where
  "supersede org run s = append_event org run ''superseded'' None [(''by'', JStr ''replace'')]
     (set_cursor org run 0 (Some ''superseded'') s)"

definition apply_concurrency :: "uuid \<Rightarrow> uuid \<Rightarrow> string \<Rightarrow> string \<Rightarrow> 'a wf_db_scheme \<Rightarrow> string \<times> 'a wf_db_scheme" where
  "apply_concurrency org defn policy key s =
     (let lives = live_runs org defn key s in
      if lives = [] then (''start'', s)
      else if policy = ''drop'' then (''drop'', s)
      else if policy = ''queue'' then (''queue'', s)
      else if policy = ''replace'' then (''start'', fold (supersede org) (map wr_id lives) s)
      else (''start'', s))"

subsection \<open>Emitting an event\<close>

definition emit_type :: "string \<Rightarrow> string" where
  "emit_type event = (if event \<in> set ALLOWED_EVENT_TYPES then event else event @ ''.v1'')"

definition eval_payload :: "wf_cel \<Rightarrow> jobj \<Rightarrow> jobj \<Rightarrow> jobj" where
  "eval_payload cel act payload_map = map (\<lambda>(k, e). (k, case e of
       JStr expr \<Rightarrow> (case cel expr act of None \<Rightarrow> JNull | Some v \<Rightarrow> v) | v \<Rightarrow> v)) payload_map"

definition do_emit :: "wf_cel \<Rightarrow> uuid \<Rightarrow> string \<Rightarrow> jobj \<Rightarrow> jobj \<Rightarrow> 'a wf_db_scheme \<Rightarrow> 'a wf_db_scheme" where
  "do_emit cel org event payload_map act s =
     (if emit_type event \<notin> set ALLOWED_EVENT_TYPES then s
      else (case emit org (emit_type event) (eval_payload cel act payload_map) ''workflow'' s of
          (Inl _, s1) \<Rightarrow> s | (Inr _, s1) \<Rightarrow> s1))"

subsection \<open>Registering a wait\<close>

text \<open>\<open>parse_duration_s\<close> of \<open>schema.py\<close>; an integer is a number of seconds.\<close>

definition DUR_UNIT :: "(char \<times> int) list" where
  "DUR_UNIT = [(CHR ''s'', 1), (CHR ''m'', 60), (CHR ''h'', 3600), (CHR ''d'', 86400)]"

definition parse_duration_s :: "string \<Rightarrow> int option" where
  "parse_duration_s t =
     (let u = py_strip t in
      if u = [] then None
      else (case (map_of DUR_UNIT (last u), parse_nat (py_strip (butlast u))) of
          (Some unit, Some n) \<Rightarrow> Some (int n * unit) | _ \<Rightarrow> None))"

definition timeout_seconds :: "json \<Rightarrow> int option" where
  "timeout_seconds timeout = (case timeout of JStr t \<Rightarrow> parse_duration_s t | JInt n \<Rightarrow> Some n
     | JBool b \<Rightarrow> Some (if b then 1 else 0) | _ \<Rightarrow> None)"

text \<open>The table accepts the three kinds of wait only (\<open>CHECK\<close>); \<open>None\<close> is the violation.\<close>

definition register_wait :: "uuid \<Rightarrow> uuid \<Rightarrow> string \<Rightarrow> wait_task \<Rightarrow> jobj \<Rightarrow> 'a wf_db_scheme \<Rightarrow> 'a wf_db_scheme option" where
  "register_wait org run step w subject s =
     (let timeout_at = map_option (\<lambda>n. now s + seconds n) (timeout_seconds (wt_timeout w));
          correlation = (if wt_for w = ''reply'' then [(''conversation_id'', jget_null (JObj subject) ''conversation_id'')]
            else if wt_for w = ''event'' then [(''event_type'', json_of_string_option (wt_event w))] else []);
          fire_at = (if wt_for w = ''duration'' then timeout_at else None)
      in if wt_for w \<notin> {''reply'', ''event'', ''duration''} then None
         else Some (s\<lparr>wait_subscriptions := wait_subscriptions s @
           [\<lparr>ws_id = fresh s, ws_org_id = org, ws_run_id = run, ws_step_id = step, ws_wait_for = wt_for w,
             ws_correlation = correlation, ws_fire_at = fire_at, ws_timeout_at = timeout_at, ws_status = ''pending''\<rparr>],
           fresh := fresh s + 1\<rparr>))"

end
