(* ===== verification/Workflows.thy ===== *)
theory Workflows
  imports Runs
begin

text \<open>
  The workflow executor (\<open>core/workflows/executor.py\<close>) and the one step that causes an external effect
  (\<open>tool_step.py\<close>). A run is driven by \<open>advance\<close>: each iteration is one transaction on the run's row
  (\<open>advance_step\<close>) and, after it has committed, the agent, the tool or the promotion it asks for.
  \<open>compensate\<close> runs the compensation steps of a failed run as a program of their own; \<open>wake_run\<close>,
  \<open>resume_human\<close> and \<open>resume_tool\<close> continue a parked run.

  The agent runner is an argument: it may do anything to the world, return an output dict, or raise.
  A raised exception leaves with the state as committed so far. The argument \<open>fuel\<close> of \<open>advance\<close> bounds
  the number of iterations over the run and the runs promoted after it.
\<close>

datatype wf_exn = AgentRaised string | ProxyRaised proxy_exn | ApprovalRaised approval_error | ConstraintViolation | BadUuid

datatype run_end = Finished | Raised wf_exn | OutOfFuel

record 's engine =
  en_platform :: platform
  en_wiring :: wiring
  en_services :: "string \<Rightarrow> json \<Rightarrow> (string, json, 's) op"
  en_cel :: wf_cel
  en_runner :: "uuid \<Rightarrow> agent_task \<Rightarrow> jobj option \<Rightarrow> 's \<times> redis \<Rightarrow> (string + jobj) \<times> 's \<times> redis"

definition WORKFLOW_HUMAN_ACTION :: string where "WORKFLOW_HUMAN_ACTION = ''workflow.human_task''"
definition WORKFLOW_TOOL_ACTION :: string where "WORKFLOW_TOOL_ACTION = ''workflow.tool_call''"
definition HUMAN_TASK_TIER :: int where "HUMAN_TASK_TIER = 2"

definition FAILURE_STATUSES :: "string list" where
  "FAILURE_STATUSES = [''failed'', ''error'']"

definition output_failed :: "jobj \<Rightarrow> bool" where
  "output_failed out \<longleftrightarrow> py_str (jget_null (JObj out) ''status'') \<in> set FAILURE_STATUSES"

text \<open>A block that is its own transaction, in the tenant's context.\<close>

definition in_org :: "uuid \<Rightarrow> ('a wf_db_scheme \<Rightarrow> 'a wf_db_scheme) \<Rightarrow> 'a wf_db_scheme \<times> redis \<Rightarrow> 'a wf_db_scheme \<times> redis" where
  "in_org org f w = (f (set_org_context org (fst w)), snd w)"

subsection \<open>The tool step\<close>

text \<open>
  \<open>resolve_inputs\<close>: a string is a required reference, \<open>{const: v}\<close> a literal, \<open>{ref: p, required: b}\<close> a
  reference that may be optional. An input is a value, left out, or missing.
\<close>

datatype input = Given json | Omitted | Missing

definition input_ref :: "json \<Rightarrow> bool \<Rightarrow> jobj \<Rightarrow> input" where
  "input_ref ref required act =
     (case (case ref of JStr r \<Rightarrow> walk_path (py_split CHR ''.'' r) (JObj act) | _ \<Rightarrow> None) of
        Some v \<Rightarrow> if v \<noteq> JNull then Given v else if required then Missing else Omitted
      | None \<Rightarrow> if required then Missing else Omitted)"

definition resolve_input :: "jobj \<Rightarrow> json \<Rightarrow> input" where
  "resolve_input act spec =
     (case spec of
        JObj d \<Rightarrow> (case map_of d ''const'' of Some v \<Rightarrow> Given v
          | None \<Rightarrow> input_ref (jget_null spec ''ref'')
              (case map_of d ''required'' of None \<Rightarrow> True | Some b \<Rightarrow> truthy b) act)
      | JStr r \<Rightarrow> input_ref spec True act
      | v \<Rightarrow> Given v)"

definition resolve_inputs :: "jobj \<Rightarrow> jobj \<Rightarrow> string list + jobj" where
  "resolve_inputs input_map act =
     (let ins = map (\<lambda>(k, spec). (k, resolve_input act spec)) input_map;
          missing = map fst (filter (\<lambda>(k, i). i = Missing) ins)
      in if missing \<noteq> [] then Inl (sort missing)
         else Inr (concat (map (\<lambda>(k, i). case i of Given v \<Rightarrow> [(k, v)] | _ \<Rightarrow> []) ins)))"

record tool_principal =
  tp_grant :: InternalWorkerGrant
  tp_instance_id :: uuid
  tp_manifest :: jobj

definition run_definition :: "uuid \<Rightarrow> uuid \<Rightarrow> 'a wf_db_scheme \<Rightarrow> workflow_definition_row option" where
  "run_definition org run s =
     (case find (own_run org run s) (workflow_runs s) of None \<Rightarrow> None
      | Some r \<Rightarrow> find (\<lambda>d. rls_visible s (wd_org_id d) \<and> wd_id d = wr_definition_id r) (workflow_definitions s))"

text \<open>The refusal is the reason of \<open>ToolStepError\<close> and its detail.\<close>

definition resolve_principal :: "platform \<Rightarrow> uuid \<Rightarrow> uuid \<Rightarrow> 'a wf_db_scheme \<Rightarrow> (string \<times> jobj) + tool_principal" where
  "resolve_principal pf org run s0 =
     (let s = set_org_context org s0 in
      case run_definition org run s of
        None \<Rightarrow> Inl (''workflow_unknown'', [])
      | Some d \<Rightarrow>
          if wd_origin d \<noteq> ''pack'' then Inl (''untrusted_workflow_origin'', [(''origin'', JStr (wd_origin d))])
          else (case find (\<lambda>g. iw_workflow_key g = wd_workflow_key d) GRANTS of
              None \<Rightarrow> Inl (''no_worker_grant'', [(''workflow_key'', JStr (wd_workflow_key d))])
            | Some g \<Rightarrow>
                (case find (\<lambda>i. rls_visible s (ai_org_id i) \<and> ai_org_id i = org \<and> ai_status i = ''active'' \<and>
                        archetype_of s i = Some (iw_archetype g)) (agent_instances s) of
                   None \<Rightarrow> Inl (''no_active_instance'', [(''archetype'', JStr (iw_archetype g))])
                 | Some i \<Rightarrow>
                     (case ai_permission_manifest i of
                        JObj (kv # m) \<Rightarrow>
                          if (case fst (assert_entitled (pf_codec pf) (pf_pack_caps pf) (Some org) (iw_capability g) s) of
                                Inl _ \<Rightarrow> True | Inr _ \<Rightarrow> False)
                          then Inl (''not_entitled'', [(''capability'', JStr (iw_capability g))])
                          else (case fst (assert_agent_executable (pf_codec pf) (pf_pack_caps pf) org (ai_id i) (Some g) s) of
                              Inl r \<Rightarrow> Inl (''agent_not_executable'', [(''detail'', JStr (drop (length ''agent not executable: '') (refusal_text r)))])
                            | Inr _ \<Rightarrow> Inr \<lparr>tp_grant = g, tp_instance_id = ai_id i, tp_manifest = kv # m\<rparr>)
                      | _ \<Rightarrow> Inl (''no_manifest'', [(''archetype'', JStr (iw_archetype g))])))))"

datatype tool_outcome =
    ToolDone json "uuid option"
  | ToolPending int string jobj string uuid
  | ToolFailed string jobj

text \<open>The status dict the step returns, as the log stores it.\<close>

fun outcome_json :: "string \<Rightarrow> tool_outcome \<Rightarrow> jobj" where
  "outcome_json tool (ToolDone out aid) = [(''status'', JStr ''ok''), (''tool'', JStr tool), (''output'', out),
     (''audit_id'', case aid of None \<Rightarrow> JNull | Some i \<Rightarrow> JId i)]"
| "outcome_json tool (ToolPending tier reason params cap inst) = [(''status'', JStr ''pending''), (''tool'', JStr tool),
     (''tier'', JInt tier), (''reason'', JStr reason), (''params'', JObj params), (''capability'', JStr cap),
     (''instance_id'', JId inst)]"
| "outcome_json tool (ToolFailed reason detail) =
     [(''status'', JStr ''failed''), (''tool'', JStr tool), (''reason'', JStr reason)] @ detail"

definition tool_context :: "platform \<Rightarrow> uuid \<Rightarrow> uuid \<Rightarrow> tool_principal \<Rightarrow> string list \<Rightarrow> RunContext" where
  "tool_context pf org run p approved =
     \<lparr>rx_org_id = org, rx_run_id = run, rx_instance_id = tp_instance_id p, rx_manifest = tp_manifest p,
      rx_manifest_hash = manifest_hash (pf_crypto pf) (tp_manifest p), rx_untrusted = False, rx_actor_id = None,
      rx_approved = approved, rx_communication_mode = Proactive\<rparr>"

definition mediated :: "'a wf_db_scheme engine \<Rightarrow> RunContext \<Rightarrow> string \<Rightarrow> jobj \<Rightarrow> 'a wf_db_scheme \<times> redis
    \<Rightarrow> (proxy_exn + ToolResult) \<times> 'a wf_db_scheme \<times> redis" where
  "mediated en ctx tool params w =
     call (en_platform en) (REGISTRY (pf_crypto (en_platform en)) (en_wiring en) (en_services en) ctx) None ctx tool
       (JObj params) w"

text \<open>An aborted run rolls the session back; Redis keeps its counters.\<close>

definition run_tool :: "'a wf_db_scheme engine \<Rightarrow> uuid \<Rightarrow> uuid \<Rightarrow> tool_call \<Rightarrow> jobj \<Rightarrow> string list
    \<Rightarrow> 'a wf_db_scheme \<times> redis \<Rightarrow> (wf_exn + tool_outcome) \<times> 'a wf_db_scheme \<times> redis" where
  "run_tool en org run t act approved w =
     (case resolve_inputs (tc_input_map t) act of
        Inl missing \<Rightarrow> (Inr (ToolFailed ''input_unresolved'' [(''missing'', JArr (map JStr missing))]), w)
      | Inr params \<Rightarrow>
          (case resolve_principal (en_platform en) org run (fst w) of
             Inl (reason, detail) \<Rightarrow> (Inr (ToolFailed reason detail), w)
           | Inr p \<Rightarrow>
               (case mediated en (tool_context (en_platform en) org run p approved) (tc_name t) params
                       (set_org_context org (fst w), snd w) of
                  (Inl (RunAborted _ _), s1, rd1) \<Rightarrow> (Inr (ToolFailed ''run_aborted'' []), fst w, rd1)
                | (Inl e, s1, rd1) \<Rightarrow> (Inl (ProxyRaised e), fst w, rd1)
                | (Inr r, w1) \<Rightarrow>
                    (Inr (case tr_pending r of
                        Some pend \<Rightarrow> ToolPending (pn_tier pend) (pn_reason pend) params (iw_capability (tp_grant p)) (tp_instance_id p)
                      | None \<Rightarrow>
                          if tr_ok r then ToolDone (tr_output r) (tr_audit_id r)
                          else (case tr_error r of
                              Some err \<Rightarrow> ToolFailed (te_code err) [(''message'', JStr (te_message err))]
                            | None \<Rightarrow> ToolFailed ''tool_error'' [(''message'', JNull)])), w1))))"

subsection \<open>Compensation\<close>

text \<open>
  State of the mini-program: the variables, whether a compensating agent failed, the exception that
  stopped it, the world. After an exception the rest of the program does nothing. Waits, human tasks
  and tool calls inside a compensation are stepped over.
\<close>

type_synonym 's comp_state = "jobj \<times> bool \<times> wf_exn option \<times> 's \<times> redis"

definition comp_sid :: "nat \<Rightarrow> string" where
  "comp_sid pc = ''comp_'' @ sid pc"

definition comp_test :: "'a wf_db_scheme engine \<Rightarrow> jobj \<Rightarrow> 'a wf_db_scheme comp_state \<Rightarrow> string \<Rightarrow> bool" where
  "comp_test en subject x when = cel_truthy (en_cel en) when (run_activation (fst x) subject)"

definition comp_log :: "uuid \<Rightarrow> uuid \<Rightarrow> nat \<Rightarrow> jobj \<Rightarrow> 'a wf_db_scheme \<Rightarrow> 'a wf_db_scheme" where
  "comp_log org run pc data = append_event org run ''compensation_step'' (Some (comp_sid pc)) data"

fun comp_act :: "'a wf_db_scheme engine \<Rightarrow> uuid \<Rightarrow> uuid \<Rightarrow> jobj \<Rightarrow> nat \<Rightarrow> instr
    \<Rightarrow> 'a wf_db_scheme comp_state \<Rightarrow> 'a wf_db_scheme comp_state" where
  "comp_act en org run subject pc ins (vars, partial, Some e, w) = (vars, partial, Some e, w)"
| "comp_act en org run subject pc (SET vs) (vars, partial, None, w) =
     (dict_merge vars vs, partial, None, in_org org (comp_log org run pc [(''op'', JStr ''set'')]) w)"
| "comp_act en org run subject pc (EMIT event payload_map) (vars, partial, None, w) =
     (vars, partial, None,
      in_org org (\<lambda>s. comp_log org run pc [(''op'', JStr ''emit''), (''event'', JStr event)]
        (do_emit (en_cel en) org event payload_map (run_activation vars subject) s)) w)"
| "comp_act en org run subject pc (AGENT a) (vars, partial, None, w) =
     (case en_runner en org a None w of
        (Inl e, w1) \<Rightarrow> (vars, partial, Some (AgentRaised e), w1)
      | (Inr out, w1) \<Rightarrow> (vars, partial \<or> output_failed out, None, in_org org (comp_log org run pc out) w1))"
| "comp_act en org run subject pc ins (vars, partial, None, w) = (vars, partial, None, w)"

definition run_compensation :: "'a wf_db_scheme engine \<Rightarrow> uuid \<Rightarrow> uuid \<Rightarrow> wf_step list \<Rightarrow> jobj \<Rightarrow> jobj
    \<Rightarrow> 'a wf_db_scheme \<times> redis \<Rightarrow> 'a wf_db_scheme comp_state option" where
  "run_compensation en org run steps subject vars w =
     (let program = compile_program steps
      in machine (comp_test en subject) (comp_act en org run subject) program (length program) 0 (vars, False, None, w))"

definition compensation_alert :: "uuid \<Rightarrow> uuid \<Rightarrow> string \<Rightarrow> string option \<Rightarrow> 'a wf_db_scheme \<Rightarrow> 'a wf_db_scheme" where
  "compensation_alert org run reason alert s =
     (case alert of None \<Rightarrow> s
      | Some channel \<Rightarrow> if channel = [] then s
          else (case emit org ''alert.ops.v1'' [(''severity'', JStr ''warn''), (''kind'', JStr ''workflow_compensation''),
                   (''detail'', JObj [(''run_id'', JId run), (''reason'', JStr reason), (''channel'', JStr channel)])]
                   ''workflow'' s of (Inl _, s1) \<Rightarrow> s | (Inr _, s1) \<Rightarrow> s1))"

definition close_compensation :: "uuid \<Rightarrow> uuid \<Rightarrow> string \<Rightarrow> string option \<Rightarrow> bool \<Rightarrow> 'a wf_db_scheme \<Rightarrow> 'a wf_db_scheme" where
  "close_compensation org run reason alert partial s =
     compensation_alert org run reason alert
       (append_event org run ''run_compensated'' None [(''reason'', JStr reason), (''partial'', JBool partial)]
         (set_run org run (\<lambda>r. r\<lparr>wr_status := (if partial then ''compensated_partial'' else ''compensated''),
            wr_completed_at := Some (now s), wr_updated_at := now s\<rparr>) s))"

definition compensate :: "'a wf_db_scheme engine \<Rightarrow> uuid \<Rightarrow> uuid \<Rightarrow> string \<Rightarrow> 'a wf_db_scheme \<times> redis
    \<Rightarrow> run_end \<times> 'a wf_db_scheme \<times> redis" where
  "compensate en org run reason w =
     (let s = set_org_context org (fst w) in
      case load_run org run s of
        None \<Rightarrow> (Finished, s, snd w)
      | Some (r, dsl) \<Rightarrow>
          (let s1 = append_event org run ''compensation_started'' None [(''reason'', JStr reason)] s in
           case dl_compensation dsl of
             None \<Rightarrow> (Finished, append_event org run ''run_failed'' None [(''reason'', JStr reason)]
                        (set_cursor org run (wr_cursor r) (Some ''failed'') s1), snd w)
           | Some (on_failure, alert) \<Rightarrow>
               (case run_compensation en org run on_failure (wr_subject r) (wr_vars r) (s1, snd w) of
                  None \<Rightarrow> (OutOfFuel, s1, snd w)
                | Some (_, _, Some e, w1) \<Rightarrow> (Raised e, w1)
                | Some (_, partial, None, w1) \<Rightarrow>
                    (Finished, in_org org (close_compensation org run reason alert partial) w1))))"

subsection \<open>One step of a run\<close>

text \<open>What an iteration asks for after its transaction.\<close>

datatype follow_up =
    Halt
  | Again
  | Crash wf_exn
  | Promote uuid "string option"
  | RunTool tool_call nat jobj "string list"
  | RunAgent agent_task nat jobj

definition approved_tools :: "jobj \<Rightarrow> string list" where
  "approved_tools vars = (case map_of vars ''_approved_tools'' of
     Some (JArr xs) \<Rightarrow> concat (map (\<lambda>x. case x of JStr t \<Rightarrow> [t] | _ \<Rightarrow> []) xs) | _ \<Rightarrow> [])"

definition human_payload :: "uuid \<Rightarrow> nat \<Rightarrow> human_task \<Rightarrow> jobj \<Rightarrow> jobj" where
  "human_payload run pc h act =
     [(''workflow_run_id'', JId run), (''step_id'', JStr (sid pc)), (''kind'', JStr (hu_kind h)),
      (''assignee'', json_of_string_option (hu_assignee h))] @
     (if hu_mode h = Some ''ranked'' then
        [(''mode'', JStr ''ranked''), (''options'', resolve_ref (hu_options_from h) act),
         (''recommended'', resolve_ref (hu_recommended h) act), (''label_sink'', json_of_string_option (hu_label_sink h))]
      else [])"

definition start_step :: "uuid \<Rightarrow> uuid \<Rightarrow> nat \<Rightarrow> jobj \<Rightarrow> follow_up \<Rightarrow> 'a wf_db_scheme \<Rightarrow> follow_up \<times> 'a wf_db_scheme" where
  "start_step org run pc data nxt s =
     (if step_done run (sid pc) s then (Again, set_cursor org run (pc + 1) None s)
      else (nxt, append_event org run ''step_started'' (Some (sid pc)) data s))"

text \<open>A branch without a target would store a null cursor, which the column refuses.\<close>

definition exec_instr :: "wf_cel \<Rightarrow> uuid \<Rightarrow> uuid \<Rightarrow> workflow_run_row \<Rightarrow> nat \<Rightarrow> instr
    \<Rightarrow> 'a wf_db_scheme \<Rightarrow> follow_up \<times> 'a wf_db_scheme" where
  "exec_instr cel org run r pc ins s =
     (let vars = wr_vars r; act = run_activation vars (wr_subject r) in
      case ins of
        SET vs \<Rightarrow>
          (Again, set_cursor org run (pc + 1) None (append_event org run ''step_completed'' (Some (sid pc)) [(''op'', JStr ''set'')]
             (set_vars org run (dict_merge vars vs) s)))
      | EMIT event payload_map \<Rightarrow>
          (Again, set_cursor org run (pc + 1) None (append_event org run ''step_completed'' (Some (sid pc))
             [(''op'', JStr ''emit''), (''event'', JStr event)] (do_emit cel org event payload_map act s)))
      | BRANCH cases d \<Rightarrow>
          (case case_target (\<lambda>when. cel_truthy cel when act) cases d of
             None \<Rightarrow> (Crash ConstraintViolation, s)
           | Some target \<Rightarrow> (Again, set_cursor org run target None
               (append_event org run ''branch_taken'' (Some (sid pc)) [(''target'', JInt (int target))] s)))
      | JUMP target \<Rightarrow> (case target of None \<Rightarrow> (Crash ConstraintViolation, s) | Some t \<Rightarrow> (Again, set_cursor org run t None s))
      | NOOP \<Rightarrow> (Again, set_cursor org run (pc + 1) None s)
      | WAIT wt \<Rightarrow>
          (case register_wait org run (sid pc) wt (wr_subject r)
                  (append_event org run ''step_parked'' (Some (sid pc)) [(''op'', JStr ''wait''), (''for'', JStr (wt_for wt))]
                    (set_cursor org run pc (Some ''waiting'') s)) of
             None \<Rightarrow> (Crash ConstraintViolation, s) | Some s1 \<Rightarrow> (Halt, s1))
      | HUMAN h \<Rightarrow>
          (case create_approval org WORKFLOW_HUMAN_ACTION HUMAN_TASK_TIER (human_payload run pc h act) None None [] None
                  DEFAULT_EXPIRES_S
                  (append_event org run ''step_parked'' (Some (sid pc)) [(''op'', JStr ''human''), (''for'', JNull)]
                    (set_cursor org run pc (Some ''waiting'') s)) of
             (Inl e, _) \<Rightarrow> (Crash (ApprovalRaised e), s) | (Inr _, s1) \<Rightarrow> (Halt, s1))
      | AGENT a \<Rightarrow> start_step org run pc [(''task'', JStr (at_task a))] (RunAgent a pc act) s
      | TOOL t \<Rightarrow> start_step org run pc [(''tool'', JStr (tc_name t))] (RunTool t pc act (approved_tools vars)) s
      | END \<Rightarrow> (Promote (wr_definition_id r) (wr_concurrency_key r),
          append_event org run ''run_completed'' None [] (set_cursor org run pc (Some ''completed'') s)))"

definition advance_step :: "wf_cel \<Rightarrow> uuid \<Rightarrow> uuid \<Rightarrow> 'a wf_db_scheme \<Rightarrow> follow_up \<times> 'a wf_db_scheme" where
  "advance_step cel org run s0 =
     (let s = set_org_context org s0 in
      case load_run org run s of
        None \<Rightarrow> (Halt, s)
      | Some (r, dsl) \<Rightarrow>
          if wr_status r \<noteq> ''running'' then (Halt, s)
          else (let program = compile_program (dl_steps dsl); pc = wr_cursor r
                in exec_instr cel org run r pc (if length program \<le> pc then END else program ! pc) s))"

subsection \<open>Driving a run\<close>

definition output_binding :: "jobj \<Rightarrow> string list option \<Rightarrow> json" where
  "output_binding out keys = (case keys of
       Some (k # ks) \<Rightarrow> JObj (map (\<lambda>x. (x, jget_null (JObj out) x)) (k # ks)) | _ \<Rightarrow> JObj out)"

definition bind_output :: "uuid \<Rightarrow> uuid \<Rightarrow> string option \<Rightarrow> json \<Rightarrow> 'a wf_db_scheme \<Rightarrow> 'a wf_db_scheme" where
  "bind_output org run output_as v s =
     (case output_as of None \<Rightarrow> s
      | Some name \<Rightarrow> if name = [] then s
          else set_vars org run (dict_put name v (case load_run org run s of None \<Rightarrow> [] | Some (r, _) \<Rightarrow> wr_vars r)) s)"

definition complete_step :: "uuid \<Rightarrow> uuid \<Rightarrow> nat \<Rightarrow> jobj \<Rightarrow> string option \<Rightarrow> json \<Rightarrow> 'a wf_db_scheme \<Rightarrow> 'a wf_db_scheme" where
  "complete_step org run pc data output_as v s =
     set_cursor org run (pc + 1) None (bind_output org run output_as v
       (append_event org run ''step_completed'' (Some (sid pc)) data s))"

definition agent_step :: "'a wf_db_scheme engine \<Rightarrow> uuid \<Rightarrow> uuid \<Rightarrow> agent_task \<Rightarrow> nat \<Rightarrow> jobj
    \<Rightarrow> 'a wf_db_scheme \<times> redis \<Rightarrow> run_end option \<times> 'a wf_db_scheme \<times> redis" where
  "agent_step en org run a pc act w =
     (case en_runner en org a (Some act) w of
        (Inl e, w1) \<Rightarrow> (Some (Raised (AgentRaised e)), w1)
      | (Inr out, w1) \<Rightarrow>
          if output_failed out then
            (case compensate en org run (''agent_task '' @ at_task a @ '' failed'')
                    (in_org org (append_event org run ''step_failed'' (Some (sid pc)) out) w1) of (e, w2) \<Rightarrow> (Some e, w2))
          else (None, in_org org (complete_step org run pc out (at_output_as a) (output_binding out (at_output a))) w1))"

text \<open>Parking on an approval is one transaction.\<close>

definition park_tool :: "uuid \<Rightarrow> uuid \<Rightarrow> nat \<Rightarrow> string \<Rightarrow> int \<Rightarrow> string \<Rightarrow> jobj \<Rightarrow> string
    \<Rightarrow> (approval_error, uuid, 'a wf_db_scheme) op" where
  "park_tool org run pc tool tier reason params cap s =
     create_approval org WORKFLOW_TOOL_ACTION (if tier = 0 then 2 else tier)
       [(''workflow_run_id'', JId run), (''step_id'', JStr (sid pc)), (''tool'', JStr tool), (''params'', JObj params),
        (''capability'', JStr cap)] None None [] None DEFAULT_EXPIRES_S
       (append_event org run ''step_parked'' (Some (sid pc)) [(''op'', JStr ''tool_call''), (''tool'', JStr tool),
            (''tier'', JInt tier), (''reason'', JStr reason)]
         (set_cursor org run pc (Some ''waiting'') (set_org_context org s)))"

definition still_running :: "uuid \<Rightarrow> uuid \<Rightarrow> 'a wf_db_scheme \<Rightarrow> bool" where
  "still_running org run s0 =
     (let s = set_org_context org s0
      in (case find (own_run org run s) (workflow_runs s) of None \<Rightarrow> False | Some r \<Rightarrow> wr_status r = ''running''))"

definition record_tool :: "'a wf_db_scheme engine \<Rightarrow> uuid \<Rightarrow> uuid \<Rightarrow> tool_call \<Rightarrow> nat \<Rightarrow> wf_exn + tool_outcome
    \<Rightarrow> 'a wf_db_scheme \<times> redis \<Rightarrow> run_end option \<times> 'a wf_db_scheme \<times> redis" where
  "record_tool en org run t pc outcome w =
     (case outcome of
        Inl e \<Rightarrow> (Some (Raised e), w)
      | Inr (ToolPending tier reason params cap inst) \<Rightarrow>
          (case park_tool org run pc (tc_name t) tier reason params cap (fst w) of
             (Inl e, _) \<Rightarrow> (Some (Raised (ApprovalRaised e)), w)
           | (Inr _, s1) \<Rightarrow> (None, s1, snd w))
      | Inr (ToolFailed reason detail) \<Rightarrow>
          (case compensate en org run (''tool_call '' @ tc_name t @ '' failed'')
                  (in_org org (append_event org run ''step_failed'' (Some (sid pc))
                     (outcome_json (tc_name t) (ToolFailed reason detail))) w) of
             (Finished, w2) \<Rightarrow> (None, w2) | (e, w2) \<Rightarrow> (Some e, w2))
      | Inr (ToolDone out aid) \<Rightarrow>
          (None, in_org org (complete_step org run pc (outcome_json (tc_name t) (ToolDone out aid)) (tc_output_as t) out) w))"

definition tool_step :: "'a wf_db_scheme engine \<Rightarrow> uuid \<Rightarrow> uuid \<Rightarrow> tool_call \<Rightarrow> nat \<Rightarrow> jobj \<Rightarrow> string list
    \<Rightarrow> 'a wf_db_scheme \<times> redis \<Rightarrow> run_end option \<times> 'a wf_db_scheme \<times> redis" where
  "tool_step en org run t pc act approved w =
     (case run_tool en org run t act approved w of (outcome, w1) \<Rightarrow>
      case record_tool en org run t pc outcome w1 of
        (Some e, w2) \<Rightarrow> (Some e, w2)
      | (None, w2) \<Rightarrow> if still_running org run (fst w2) then (None, w2) else (Some Finished, w2))"

text \<open>\<open>UPDATE ... WHERE id = (SELECT ... ORDER BY created_at LIMIT 1) RETURNING id\<close>\<close>

definition next_queued :: "uuid \<Rightarrow> uuid \<Rightarrow> string \<Rightarrow> 'a wf_db_scheme \<Rightarrow> workflow_run_row option" where
  "next_queued org defn key s = order_first wr_created_at (filter (\<lambda>r. rls_visible s (wr_org_id r) \<and> wr_org_id r = org \<and>
     wr_definition_id r = defn \<and> wr_concurrency_key r = Some key \<and> wr_status r = ''queued'') (workflow_runs s))"

definition promote_next :: "uuid \<Rightarrow> uuid \<Rightarrow> string option \<Rightarrow> 'a wf_db_scheme \<Rightarrow> uuid option \<times> 'a wf_db_scheme" where
  "promote_next org defn key s0 =
     (case key of None \<Rightarrow> (None, s0)
      | Some k \<Rightarrow>
          (let s = set_org_context org s0 in
           case next_queued org defn k s of
             None \<Rightarrow> (None, s)
           | Some r \<Rightarrow> (Some (wr_id r), append_event org (wr_id r) ''run_started'' None [(''promoted_from'', JStr ''queue'')]
               (s\<lparr>workflow_runs := update_where (\<lambda>x. rls_visible s (wr_org_id x) \<and> wr_id x = wr_id r)
                   (\<lambda>x. x\<lparr>wr_status := ''running'', wr_updated_at := now s\<rparr>) (workflow_runs s)\<rparr>))))"

fun advance :: "'a wf_db_scheme engine \<Rightarrow> nat \<Rightarrow> uuid \<Rightarrow> uuid \<Rightarrow> 'a wf_db_scheme \<times> redis
    \<Rightarrow> run_end \<times> 'a wf_db_scheme \<times> redis" where
  "advance en 0 org run w = (OutOfFuel, w)"
| "advance en (Suc fuel) org run w =
     (case advance_step (en_cel en) org run (fst w) of
        (Halt, s1) \<Rightarrow> (Finished, s1, snd w)
      | (Crash e, s1) \<Rightarrow> (Raised e, s1, snd w)
      | (Again, s1) \<Rightarrow> advance en fuel org run (s1, snd w)
      | (Promote defn key, s1) \<Rightarrow>
          (case promote_next org defn key s1 of
             (None, s2) \<Rightarrow> (Finished, s2, snd w) | (Some run2, s2) \<Rightarrow> advance en fuel org run2 (s2, snd w))
      | (RunAgent a pc act, s1) \<Rightarrow>
          (case agent_step en org run a pc act (s1, snd w) of
             (Some e, w2) \<Rightarrow> (e, w2) | (None, w2) \<Rightarrow> advance en fuel org run w2)
      | (RunTool t pc act approved, s1) \<Rightarrow>
          (case tool_step en org run t pc act approved (s1, snd w) of
             (Some e, w2) \<Rightarrow> (e, w2) | (None, w2) \<Rightarrow> advance en fuel org run w2))"

subsection \<open>Starting and resuming\<close>

definition concurrency_key :: "wf_cel \<Rightarrow> workflow_dsl \<Rightarrow> jobj \<Rightarrow> string option" where
  "concurrency_key cel dsl subject = (case dl_concurrency dsl of None \<Rightarrow> None
     | Some (expr, _) \<Rightarrow> map_option py_str (cel expr [(''subject'', JObj subject)]))"

definition insert_run :: "uuid \<Rightarrow> uuid \<Rightarrow> int \<Rightarrow> string option \<Rightarrow> jobj \<Rightarrow> string \<Rightarrow> 'a wf_db_scheme \<Rightarrow> uuid \<times> 'a wf_db_scheme" where
  "insert_run org defn version key subject status s =
     (fresh s, append_event org (fresh s) (if status = ''queued'' then ''run_queued'' else ''run_started'') None
        [(''subject'', JObj subject)]
        (s\<lparr>workflow_runs := workflow_runs s @
             [\<lparr>wr_id = fresh s, wr_org_id = org, wr_definition_id = defn, wr_definition_version = version,
               wr_status = status, wr_concurrency_key = key, wr_subject = subject, wr_vars = [], wr_cursor = 0,
               wr_created_at = now s, wr_updated_at = now s, wr_completed_at = None\<rparr>],
           fresh := fresh s + 1\<rparr>))"

text \<open>The transaction of \<open>start_run\<close>: the decision and, unless the run is dropped, its row.\<close>

definition admit_run :: "wf_cel \<Rightarrow> uuid \<Rightarrow> uuid \<Rightarrow> int \<Rightarrow> workflow_dsl \<Rightarrow> jobj \<Rightarrow> 'a wf_db_scheme
    \<Rightarrow> (string \<times> uuid) option \<times> 'a wf_db_scheme" where
  "admit_run cel org defn version dsl subject s0 =
     (let s = set_org_context org s0;
          key = concurrency_key cel dsl subject;
          (decision, s1) = (case (dl_concurrency dsl, key) of
              (Some (_, policy), Some k) \<Rightarrow> apply_concurrency org defn policy k s | _ \<Rightarrow> (''start'', s))
      in if decision = ''drop'' then (None, s1)
         else (case insert_run org defn version key subject (if decision = ''queue'' then ''queued'' else ''running'') s1 of
             (run, s2) \<Rightarrow> (Some (decision, run), s2)))"

definition start_run :: "'a wf_db_scheme engine \<Rightarrow> nat \<Rightarrow> uuid \<Rightarrow> uuid \<Rightarrow> int \<Rightarrow> workflow_dsl \<Rightarrow> jobj
    \<Rightarrow> 'a wf_db_scheme \<times> redis \<Rightarrow> (uuid option \<times> run_end) \<times> 'a wf_db_scheme \<times> redis" where
  "start_run en fuel org defn version dsl subject w =
     (case admit_run (en_cel en) org defn version dsl subject (fst w) of
        (None, s1) \<Rightarrow> ((None, Finished), s1, snd w)
      | (Some (decision, run), s1) \<Rightarrow>
          if decision = ''queue'' then ((Some run, Finished), s1, snd w)
          else (case advance en fuel org run (s1, snd w) of (e, w2) \<Rightarrow> ((Some run, e), w2)))"

definition resume_run :: "'a wf_db_scheme engine \<Rightarrow> nat \<Rightarrow> uuid \<Rightarrow> uuid \<Rightarrow> 'a wf_db_scheme \<times> redis
    \<Rightarrow> run_end \<times> 'a wf_db_scheme \<times> redis" where
  "resume_run = advance"

text \<open>
  The transactions that take a parked run on: \<open>None\<close> when it is not waiting. The result says whether to
  drive the run.
\<close>

definition waiting_run :: "uuid \<Rightarrow> uuid \<Rightarrow> 'a wf_db_scheme \<Rightarrow> workflow_run_row option" where
  "waiting_run org run s = (case load_run org run s of None \<Rightarrow> None
     | Some (r, _) \<Rightarrow> if wr_status r = ''waiting'' then Some r else None)"

definition wake_session :: "uuid \<Rightarrow> uuid \<Rightarrow> string \<Rightarrow> 'a wf_db_scheme \<Rightarrow> bool \<times> 'a wf_db_scheme" where
  "wake_session org run result s0 =
     (let s = set_org_context org s0 in
      case waiting_run org run s of None \<Rightarrow> (False, s)
      | Some r \<Rightarrow> (True, append_event org run ''step_resumed'' None [(''result'', JStr result)]
          (set_run org run (\<lambda>x. x\<lparr>wr_vars := dict_put ''wait'' (JObj [(''result'', JStr result)]) (wr_vars r),
             wr_status := ''running'', wr_cursor := wr_cursor r + 1, wr_updated_at := now s\<rparr>) s)))"

definition wake_run :: "'a wf_db_scheme engine \<Rightarrow> nat \<Rightarrow> uuid \<Rightarrow> uuid \<Rightarrow> string \<Rightarrow> 'a wf_db_scheme \<times> redis
    \<Rightarrow> (bool \<times> run_end) \<times> 'a wf_db_scheme \<times> redis" where
  "wake_run en fuel org run result w =
     (case wake_session org run result (fst w) of
        (False, s1) \<Rightarrow> ((False, Finished), s1, snd w)
      | (True, s1) \<Rightarrow> (case advance en fuel org run (s1, snd w) of (e, w2) \<Rightarrow> ((True, e), w2)))"

definition human_session :: "uuid \<Rightarrow> uuid \<Rightarrow> string \<Rightarrow> 'a wf_db_scheme \<Rightarrow> bool \<times> 'a wf_db_scheme" where
  "human_session org run decision s0 =
     (let s = set_org_context org s0; approved = (decision = ''approved'') in
      case waiting_run org run s of None \<Rightarrow> (False, s)
      | Some r \<Rightarrow> (True, append_event org run ''human_resolved'' None [(''decision'', JStr decision)]
          (set_run org run (\<lambda>x. x\<lparr>wr_vars := dict_put ''human'' (JObj [(''decision'', JStr decision)]) (wr_vars r),
             wr_status := (if approved then ''running'' else ''waiting''),
             wr_cursor := (if approved then wr_cursor r + 1 else wr_cursor r), wr_updated_at := now s\<rparr>) s)))"

text \<open>\<open>sorted(set(...) | {tool})\<close>\<close>

definition add_approved :: "string \<Rightarrow> jobj \<Rightarrow> jobj" where
  "add_approved tool vars = dict_put ''_approved_tools''
     (JArr (map JStr (sort (remdups (tool # approved_tools vars))))) vars"

definition tool_session :: "uuid \<Rightarrow> uuid \<Rightarrow> string \<Rightarrow> string option \<Rightarrow> 'a wf_db_scheme \<Rightarrow> bool \<times> 'a wf_db_scheme" where
  "tool_session org run decision tool s0 =
     (let s = set_org_context org s0; approved = (decision = ''approved'') in
      case waiting_run org run s of None \<Rightarrow> (False, s)
      | Some r \<Rightarrow> (True, append_event org run ''tool_resolved'' None
            [(''decision'', JStr decision), (''tool'', json_of_string_option tool)]
          (set_run org run (\<lambda>x. x\<lparr>wr_vars := (if approved \<and> tool \<notin> {None, Some []} then add_approved (the tool) (wr_vars r) else wr_vars r),
             wr_status := (if approved then ''running'' else ''waiting''), wr_updated_at := now s\<rparr>) s)))"

text \<open>After the decision: drive on, or compensate.\<close>

definition after_decision :: "'a wf_db_scheme engine \<Rightarrow> nat \<Rightarrow> uuid \<Rightarrow> uuid \<Rightarrow> string \<Rightarrow> string
    \<Rightarrow> bool \<times> 'a wf_db_scheme \<Rightarrow> redis \<Rightarrow> (bool \<times> run_end) \<times> 'a wf_db_scheme \<times> redis" where
  "after_decision en fuel org run decision reason x rd =
     (case x of
        (False, s1) \<Rightarrow> ((False, Finished), s1, rd)
      | (True, s1) \<Rightarrow>
          (case (if decision = ''approved'' then advance en fuel org run (s1, rd) else compensate en org run reason (s1, rd)) of
             (e, w2) \<Rightarrow> ((True, e), w2)))"

definition resume_human :: "'a wf_db_scheme engine \<Rightarrow> nat \<Rightarrow> uuid \<Rightarrow> uuid \<Rightarrow> string \<Rightarrow> 'a wf_db_scheme \<times> redis
    \<Rightarrow> (bool \<times> run_end) \<times> 'a wf_db_scheme \<times> redis" where
  "resume_human en fuel org run decision w =
     after_decision en fuel org run decision ''human_task rejected'' (human_session org run decision (fst w)) (snd w)"

definition resume_tool :: "'a wf_db_scheme engine \<Rightarrow> nat \<Rightarrow> uuid \<Rightarrow> uuid \<Rightarrow> string \<Rightarrow> string option \<Rightarrow> 'a wf_db_scheme \<times> redis
    \<Rightarrow> (bool \<times> run_end) \<times> 'a wf_db_scheme \<times> redis" where
  "resume_tool en fuel org run decision tool w =
     after_decision en fuel org run decision ''tool_call rejected'' (tool_session org run decision tool (fst w)) (snd w)"

end
