(* ===== verification/Progress.thy ===== *)
theory Progress
  imports Workflows
begin

text \<open>
  A driven run makes progress. The first part follows one run through the operations of the executor:
  whatever they do to the tables of the workflow engine is an update of that run's own rows (\<open>touches\<close>).
  The second part is the termination of \<open>advance\<close> and of a compensation.
\<close>

subsection \<open>The row of a run\<close>

definition run_row :: "uuid \<Rightarrow> uuid \<Rightarrow> 'a wf_db_scheme \<Rightarrow> workflow_run_row option" where
  "run_row org run s = find (\<lambda>r. wr_id r = run \<and> wr_org_id r = org) (workflow_runs s)"

definition def_row :: "uuid \<Rightarrow> uuid \<Rightarrow> 'a wf_db_scheme \<Rightarrow> workflow_definition_row option" where
  "def_row org d s = find (\<lambda>x. wd_org_id x = org \<and> wd_id x = d) (workflow_definitions s)"

lemma own_run_ctx: "org_ctx s = Some org \<Longrightarrow> own_run org run s = (\<lambda>r. wr_id r = run \<and> wr_org_id r = org)"
  by (auto simp: own_run_def rls_visible_def fun_eq_iff)

lemma load_run_ctx:
  "org_ctx s = Some org \<Longrightarrow> load_run org run s = (case run_row org run s of None \<Rightarrow> None
     | Some r \<Rightarrow> map_option (\<lambda>d. (r, wd_dsl d)) (def_row org (wr_definition_id r) s))"
  by (simp add: load_run_def run_row_def def_row_def own_run_ctx rls_visible_def split: option.split)

lemma tables_of_more:
  "run_db.more s1 = run_db.more s \<Longrightarrow> workflow_runs s1 = workflow_runs s"
  "run_db.more s1 = run_db.more s \<Longrightarrow> workflow_definitions s1 = workflow_definitions s"
  by (cases s; cases s1; simp)+

text \<open>An update of the rows of \<open>run\<close> that keeps what identifies them and queues none.\<close>

definition row_update :: "(workflow_run_row \<Rightarrow> workflow_run_row) \<Rightarrow> bool" where
  "row_update f \<longleftrightarrow> (\<forall>r. wr_id (f r) = wr_id r \<and> wr_org_id (f r) = wr_org_id r \<and>
     wr_definition_id (f r) = wr_definition_id r \<and> wr_concurrency_key (f r) = wr_concurrency_key r \<and>
     (wr_status (f r) = ''queued'' \<longrightarrow> wr_status r = ''queued''))"

lemma row_update_same:
  assumes "row_update f"
  shows "wr_id (f r) = wr_id r" "wr_org_id (f r) = wr_org_id r" "wr_definition_id (f r) = wr_definition_id r"
    "wr_concurrency_key (f r) = wr_concurrency_key r"
  using assms by (simp_all only: row_update_def)

lemma row_update_queued: "row_update f \<Longrightarrow> wr_status (f r) = ''queued'' \<Longrightarrow> wr_status r = ''queued''"
  by (simp only: row_update_def)

lemma row_updateI:
  "(\<And>r. wr_id (f r) = wr_id r) \<Longrightarrow> (\<And>r. wr_org_id (f r) = wr_org_id r) \<Longrightarrow>
   (\<And>r. wr_definition_id (f r) = wr_definition_id r) \<Longrightarrow> (\<And>r. wr_concurrency_key (f r) = wr_concurrency_key r) \<Longrightarrow>
   (\<And>r. wr_status (f r) = ''queued'' \<Longrightarrow> wr_status r = ''queued'') \<Longrightarrow> row_update f"
  unfolding row_update_def by blast

definition touches :: "uuid \<Rightarrow> uuid \<Rightarrow> 'a wf_db_scheme \<Rightarrow> 'b wf_db_scheme \<Rightarrow> bool" where
  "touches org run s s' \<longleftrightarrow> workflow_definitions s' = workflow_definitions s \<and>
     (\<exists>f. row_update f \<and> workflow_runs s' = update_where (\<lambda>r. wr_id r = run \<and> wr_org_id r = org) f (workflow_runs s))"

lemma touchesI:
  "workflow_definitions s' = workflow_definitions s \<Longrightarrow> row_update f \<Longrightarrow>
   workflow_runs s' = update_where (\<lambda>r. wr_id r = run \<and> wr_org_id r = org) f (workflow_runs s) \<Longrightarrow> touches org run s s'"
  unfolding touches_def by blast

lemma update_where_id: "update_where p id rows = rows"
  by (induction rows) simp_all

lemma update_where_comp:
  "row_update f \<Longrightarrow> update_where (\<lambda>r. wr_id r = run \<and> wr_org_id r = org) g
      (update_where (\<lambda>r. wr_id r = run \<and> wr_org_id r = org) f rows)
    = update_where (\<lambda>r. wr_id r = run \<and> wr_org_id r = org) (g \<circ> f) rows"
  by (induction rows) (simp_all add: row_update_same)

lemma touches_same:
  "workflow_definitions s' = workflow_definitions s \<Longrightarrow> workflow_runs s' = workflow_runs s \<Longrightarrow> touches org run s s'"
  by (rule touchesI [where f = id]) (simp_all add: row_update_def update_where_id)

lemma touches_refl [simp, intro]: "touches org run s s"
  by (rule touches_same) simp_all

lemma touches_trans [trans]:
  assumes "touches org run s s1" and "touches org run s1 s2"
  shows "touches org run s s2"
proof -
  let ?p = "\<lambda>r. wr_id r = run \<and> wr_org_id r = org"
  obtain f where f: "row_update f" "workflow_runs s1 = update_where ?p f (workflow_runs s)"
    using assms(1) unfolding touches_def by blast
  obtain g where g: "row_update g" "workflow_runs s2 = update_where ?p g (workflow_runs s1)"
    using assms(2) unfolding touches_def by blast
  have "row_update (g \<circ> f)"
    by (rule row_updateI) (auto simp: row_update_same [OF f(1)] row_update_same [OF g(1)] dest!: row_update_queued [OF f(1)] row_update_queued [OF g(1)])
  moreover have "workflow_runs s2 = update_where ?p (g \<circ> f) (workflow_runs s)"
    unfolding g(2) f(2) by (rule update_where_comp [OF f(1)])
  moreover have "workflow_definitions s2 = workflow_definitions s" using assms by (simp add: touches_def)
  ultimately show ?thesis by (intro touchesI)
qed

lemma touches_more: "run_db.more s1 = run_db.more s \<Longrightarrow> touches org run s s1"
  by (rule touches_same) (erule tables_of_more)+

lemma touches_row:
  assumes "touches org run s s'" and "run_row org run s = Some r"
  shows "\<exists>r'. run_row org run s' = Some r' \<and> wr_definition_id r' = wr_definition_id r \<and>
    wr_concurrency_key r' = wr_concurrency_key r"
proof -
  obtain f where f: "row_update f"
      "workflow_runs s' = update_where (\<lambda>r. wr_id r = run \<and> wr_org_id r = org) f (workflow_runs s)"
    using assms(1) unfolding touches_def by blast
  have "run_row org run s' = map_option (\<lambda>r. if wr_id r = run \<and> wr_org_id r = org then f r else r) (run_row org run s)"
    unfolding run_row_def f(2) by (rule find_update_where) (simp add: row_update_same [OF f(1)])
  with assms(2) show ?thesis by (auto simp: row_update_same [OF f(1)])
qed

lemma touches_def_row: "touches org run s s' \<Longrightarrow> def_row o2 d s' = def_row o2 d s"
  by (simp add: touches_def def_row_def)

definition queued_in :: "uuid \<Rightarrow> uuid \<Rightarrow> string option \<Rightarrow> workflow_run_row \<Rightarrow> bool" where
  "queued_in org d k r \<longleftrightarrow> wr_org_id r = org \<and> wr_definition_id r = d \<and> wr_concurrency_key r = k \<and> wr_status r = ''queued''"

definition queue_len :: "uuid \<Rightarrow> uuid \<Rightarrow> string option \<Rightarrow> 'a wf_db_scheme \<Rightarrow> nat" where
  "queue_len org d k s = length (filter (queued_in org d k) (workflow_runs s))"

lemma filter_len_update_where:
  "(\<And>r. q (f r) \<Longrightarrow> q r) \<Longrightarrow> length (filter q (update_where p f rows)) \<le> length (filter q rows)"
  by (induction rows) (auto intro: le_SucI)

lemma touches_queue_len:
  assumes "touches org run s s'"
  shows "queue_len o2 d k s' \<le> queue_len o2 d k s"
proof -
  obtain f where f: "row_update f"
      "workflow_runs s' = update_where (\<lambda>r. wr_id r = run \<and> wr_org_id r = org) f (workflow_runs s)"
    using assms unfolding touches_def by blast
  then show ?thesis
    unfolding queue_len_def f(2)
    by (intro filter_len_update_where) (auto simp: row_update_same [OF f(1)] queued_in_def dest: row_update_queued [OF f(1)])
qed

lemma touches_ids: "touches org run s s' \<Longrightarrow> map wr_id (workflow_runs s') = map wr_id (workflow_runs s)"
  unfolding touches_def using map_update_where [where g = wr_id] by (metis row_update_same(1))

subsection \<open>The operations on one run\<close>

lemma org_ctx_keeps [simp]:
  "org_ctx (append_event org run k sd d s) = org_ctx s"
  "org_ctx (set_run org run f s) = org_ctx s"
  "org_ctx (set_cursor org run pc st s) = org_ctx s"
  "org_ctx (set_vars org run vs s) = org_ctx s"
  by (simp_all add: append_event_def set_run_def set_cursor_def set_vars_def)

lemma org_ctx_emit [simp]: "org_ctx (snd (emit o1 ty pl src s)) = org_ctx s"
  by (simp add: emit_def split: option.split)

lemma org_ctx_do_emit [simp]: "org_ctx (do_emit cel org ev pm act s) = org_ctx s"
  by (auto simp: do_emit_def split: prod.split sum.split dest: arg_cong [where f = "\<lambda>x. org_ctx (snd x)"])

lemma org_ctx_bind_output [simp]: "org_ctx (bind_output org run oa v s) = org_ctx s"
  by (simp add: bind_output_def split: option.split)

lemma tables_append [simp]:
  "workflow_runs (append_event org run k sd d s) = workflow_runs s"
  "workflow_definitions (append_event org run k sd d s) = workflow_definitions s"
  by (simp_all add: append_event_def)

lemma touches_append: "touches org run s (append_event o1 r1 k sd d s)"
  by (rule touches_same) simp_all

lemma touches_set_run:
  "org_ctx s = Some org \<Longrightarrow> row_update f \<Longrightarrow> touches org run s (set_run org run f s)"
  by (rule touchesI [where f = f]) (simp_all add: set_run_def own_run_ctx)

lemma touches_set_cursor:
  "org_ctx s = Some org \<Longrightarrow> st \<noteq> Some ''queued'' \<Longrightarrow> touches org run s (set_cursor org run pc st s)"
  unfolding set_cursor_def
  by (rule touches_set_run, assumption, rule row_updateI) (auto split: option.splits)

lemma touches_set_vars: "org_ctx s = Some org \<Longrightarrow> touches org run s (set_vars org run vs s)"
  unfolding set_vars_def by (rule touches_set_run, assumption, rule row_updateI) auto

lemma touches_bind_output: "org_ctx s = Some org \<Longrightarrow> touches org run s (bind_output org run oa v s)"
  by (auto simp: bind_output_def intro: touches_set_vars split: option.split)

lemma touches_set_org_context [simp]: "touches org run s (set_org_context o1 s)"
  by (rule touches_more) simp

lemma touches_emit: "emit o1 ty pl src s = (r, s1) \<Longrightarrow> touches org run s s1"
  by (rule touches_more) (metis beyond_emit snd_conv)

lemma touches_do_emit: "touches org run s (do_emit cel o1 ev pm act s)"
  by (auto simp: do_emit_def intro: touches_emit split: prod.split sum.split)

lemma touches_create_approval:
  assumes "create_approval o1 a tier p rn rq mr au ex s = (r, s1)"
  shows "touches org run s s1"
proof -
  have "run_db.more (snd (create_approval o1 a tier p rn rq mr au ex s)) = run_db.more s"
    by (auto simp: create_approval_def Let_def emit_def split: prod.split sum.split option.split)
  with assms show ?thesis by (intro touches_more) simp
qed

lemma touches_register_wait: "register_wait org run sd wt subj s = Some s1 \<Longrightarrow> touches org run s s1"
  by (rule touches_same) (auto simp: register_wait_def Let_def split: if_splits)

lemma run_row_append [simp]: "run_row org run (append_event o1 r1 k sd d s) = run_row org run s"
  by (simp add: run_row_def)

lemma run_row_set_org [simp]: "run_row org run (set_org_context o1 s) = run_row org run s"
  by (simp add: run_row_def set_org_context_def)

lemma def_row_set_org [simp]: "def_row o2 d (set_org_context o1 s) = def_row o2 d s"
  by (simp add: def_row_def set_org_context_def)

lemma run_row_set_run:
  assumes "org_ctx s = Some org" and "\<And>r. wr_id (f r) = wr_id r" and "\<And>r. wr_org_id (f r) = wr_org_id r"
  shows "run_row org run (set_run org run f s) = map_option f (run_row org run s)"
proof -
  let ?q = "\<lambda>r. wr_id r = run \<and> wr_org_id r = org"
  have "run_row org run (set_run org run f s) = map_option (\<lambda>r. if ?q r then f r else r) (run_row org run s)"
    unfolding run_row_def set_run_def by (simp add: own_run_ctx [OF assms(1)] find_update_where assms(2,3))
  moreover have "?q r" if "run_row org run s = Some r" for r using find_Some_set that unfolding run_row_def by fast
  ultimately show ?thesis by (cases "run_row org run s") auto
qed

lemma run_row_set_cursor:
  "org_ctx s = Some org \<Longrightarrow> run_row org run (set_cursor org run pc st s) = map_option (\<lambda>r. case st of
      None \<Rightarrow> r\<lparr>wr_cursor := pc, wr_updated_at := now s\<rparr>
    | Some st \<Rightarrow> r\<lparr>wr_cursor := pc, wr_status := st, wr_updated_at := now s,
        wr_completed_at := (if st \<in> set DONE_STATUSES then Some (now s) else wr_completed_at r)\<rparr>) (run_row org run s)"
  unfolding set_cursor_def by (rule run_row_set_run) (simp_all split: option.split)

text \<open>The step is over: the run's own row has moved past \<open>pc\<close>.\<close>

definition moved_past :: "uuid \<Rightarrow> uuid \<Rightarrow> nat \<Rightarrow> 'a wf_db_scheme \<Rightarrow> 'b wf_db_scheme \<Rightarrow> bool" where
  "moved_past org run pc s s' \<longleftrightarrow> touches org run s s' \<and> (\<exists>r. run_row org run s' = Some r \<and> pc < wr_cursor r)"

lemma moved_pastI:
  assumes "touches org run s t" and "org_ctx t = Some org" and "run_row org run s = Some r" and "pc < pc'"
  shows "moved_past org run pc s (set_cursor org run pc' None t)"
proof -
  obtain r' where "run_row org run t = Some r'" using touches_row [OF assms(1,3)] by blast
  moreover have "touches org run s (set_cursor org run pc' None t)"
    by (rule touches_trans [OF assms(1)]) (rule touches_set_cursor [OF assms(2)], simp)
  ultimately show ?thesis using assms(4) by (simp add: moved_past_def run_row_set_cursor [OF assms(2)])
qed

lemma start_step_moves:
  assumes "org_ctx s = Some org" and "run_row org run s = Some r0"
    and "start_step org run pc data nxt s = (fu, s1)" and "nxt \<noteq> Again"
  shows "fu = Again \<and> moved_past org run pc s s1 \<or> fu = nxt \<and> touches org run s s1"
  using assms moved_pastI [OF touches_refl assms(1,2), of pc "pc + 1"] touches_append [of org run s]
  by (auto simp: start_step_def split: if_splits)

lemma exec_instr_result:
  assumes ctx: "org_ctx s = Some org" and row: "run_row org run s = Some r0"
    and fwd: "\<And>t. t \<in> set (targets ins) \<Longrightarrow> \<exists>k. t = Some k \<and> pc < k"
    and run: "exec_instr cel org run r pc ins s = (fu, s1)"
  shows "touches org run s s1" "fu = Again \<Longrightarrow> moved_past org run pc s s1"
    "fu = Promote d k \<Longrightarrow> d = wr_definition_id r \<and> k = wr_concurrency_key r"
    "fu = RunTool t q act ap \<Longrightarrow> q = pc" "fu = RunAgent a q act \<Longrightarrow> q = pc"
proof -
  have all: "(fu = Again \<and> moved_past org run pc s s1 \<or> fu \<noteq> Again \<and> touches org run s s1) \<and>
      (fu = Promote d k \<longrightarrow> d = wr_definition_id r \<and> k = wr_concurrency_key r) \<and>
      (fu = RunTool t q act ap \<longrightarrow> q = pc) \<and> (fu = RunAgent a q act \<longrightarrow> q = pc)"
  proof (cases ins)
    case (SET vs)
    let ?t = "append_event org run ''step_completed'' (Some (sid pc)) [(''op'', JStr ''set'')] (set_vars org run (dict_merge (wr_vars r) vs) s)"
    have "touches org run s ?t" by (rule touches_trans [OF touches_set_vars [OF ctx] touches_append])
    from moved_pastI [OF this _ row, of pc "pc + 1"] run SET ctx show ?thesis by (auto simp: exec_instr_def Let_def)
  next
    case (EMIT ev pm)
    let ?t = "append_event org run ''step_completed'' (Some (sid pc)) [(''op'', JStr ''emit''), (''event'', JStr ev)]
        (do_emit cel org ev pm (run_activation (wr_vars r) (wr_subject r)) s)"
    have "touches org run s ?t" by (rule touches_trans [OF touches_do_emit touches_append])
    from moved_pastI [OF this _ row, of pc "pc + 1"] run EMIT ctx show ?thesis by (auto simp: exec_instr_def Let_def)
  next
    case (BRANCH cases dflt)
    let ?t = "case_target (\<lambda>when. cel_truthy cel when (run_activation (wr_vars r) (wr_subject r))) cases dflt"
    obtain n where n: "?t = Some n" "pc < n"
      using fwd [of ?t] case_target_in [of _ cases dflt ?t] BRANCH by auto
    from moved_pastI [OF touches_append _ row n(2), of org run "''branch_taken''" "Some (sid pc)" "[(''target'', JInt (int n))]"] run BRANCH n(1) ctx
    show ?thesis by (auto simp: exec_instr_def Let_def)
  next
    case (JUMP tgt)
    then obtain n where "tgt = Some n" "pc < n" using fwd by auto
    with moved_pastI [OF touches_refl ctx row, of pc n] run JUMP show ?thesis by (auto simp: exec_instr_def Let_def)
  next
    case NOOP
    with moved_pastI [OF touches_refl ctx row, of pc "pc + 1"] run show ?thesis by (auto simp: exec_instr_def Let_def)
  next
    case (WAIT wt)
    let ?t = "append_event org run ''step_parked'' (Some (sid pc)) [(''op'', JStr ''wait''), (''for'', JStr (wt_for wt))]
        (set_cursor org run pc (Some ''waiting'') s)"
    have "touches org run s ?t" by (rule touches_trans [OF touches_set_cursor [OF ctx] touches_append]) simp
    with run WAIT touches_register_wait [of org run "sid pc" wt "wr_subject r" ?t] show ?thesis
      by (auto simp: exec_instr_def Let_def intro: touches_trans split: option.splits)
  next
    case (HUMAN h)
    let ?t = "append_event org run ''step_parked'' (Some (sid pc)) [(''op'', JStr ''human''), (''for'', JNull)]
        (set_cursor org run pc (Some ''waiting'') s)"
    have "touches org run s ?t" by (rule touches_trans [OF touches_set_cursor [OF ctx] touches_append]) simp
    with run HUMAN show ?thesis
      by (auto simp: exec_instr_def Let_def intro: touches_trans touches_create_approval split: prod.splits sum.splits)
  next
    case (AGENT x)
    with run start_step_moves [OF ctx row, of pc _ "RunAgent x pc (run_activation (wr_vars r) (wr_subject r))" fu s1]
    show ?thesis by (fastforce simp: exec_instr_def Let_def)
  next
    case (TOOL x)
    with run start_step_moves [OF ctx row, of pc _ "RunTool x pc (run_activation (wr_vars r) (wr_subject r)) (approved_tools (wr_vars r))" fu s1]
    show ?thesis by (fastforce simp: exec_instr_def Let_def)
  next
    case END
    have "touches org run s (append_event org run ''run_completed'' None [] (set_cursor org run pc (Some ''completed'') s))"
      by (rule touches_trans [OF touches_set_cursor [OF ctx] touches_append]) simp
    with run END show ?thesis by (auto simp: exec_instr_def Let_def)
  qed
  then show "touches org run s s1" "fu = Again \<Longrightarrow> moved_past org run pc s s1"
    "fu = Promote d k \<Longrightarrow> d = wr_definition_id r \<and> k = wr_concurrency_key r"
    "fu = RunTool t q act ap \<Longrightarrow> q = pc" "fu = RunAgent a q act \<Longrightarrow> q = pc"
    by (auto simp: moved_past_def)
qed

subsection \<open>Agents, tools and compensation\<close>

text \<open>The agent runner and the services leave the tables of the workflow engine alone.\<close>

definition engine_frame :: "'a wf_db_scheme engine \<Rightarrow> bool" where
  "engine_frame en \<longleftrightarrow> (\<forall>tool params. op_within (en_services en tool params)) \<and>
     (\<forall>org a act w. run_db.more (fst (snd (en_runner en org a act w))) = run_db.more (fst w))"

lemma engine_frame_runner:
  assumes "engine_frame en" and "en_runner en org a act w = (r, w1)"
  shows "touches o1 run (fst w) (fst w1)"
proof (rule touches_more)
  have "run_db.more (fst (snd (en_runner en org a act w))) = run_db.more (fst w)" using assms(1) by (simp only: engine_frame_def)
  with assms(2) show "run_db.more (fst w1) = run_db.more (fst w)" by simp
qed

lemma run_tool_touches:
  assumes "engine_frame en" and "run_tool en org run t act ap w = (r, w1)"
  shows "touches o1 r1 (fst w) (fst w1)"
proof (rule touches_more)
  have serv: "op_within (en_services en tool params)" for tool params using assms(1) unfolding engine_frame_def by blast
  have med: "run_db.more (fst (snd (mediated en ctx tool params v))) = run_db.more (fst v)" for ctx tool params v
    unfolding mediated_def by (rule beyond_call) (rule within_registry [OF serv])
  show "run_db.more (fst w1) = run_db.more (fst w)"
  proof (cases "resolve_inputs (tc_input_map t) act")
    case inputs: (Inr params)
    show ?thesis
    proof (cases "resolve_principal (en_platform en) org run (fst w)")
      case principal: (Inr p)
      let ?ctx = "tool_context (en_platform en) org run p ap"
      obtain x v where m: "mediated en ?ctx (tc_name t) params (set_org_context org (fst w), snd w) = (x, v)"
        by (meson surj_pair)
      with med [of ?ctx "tc_name t" params "(set_org_context org (fst w), snd w)"]
      have "run_db.more (fst v) = run_db.more (fst w)" by simp
      with assms(2) m inputs principal show ?thesis
        by (cases v; cases x) (auto simp: run_tool_def split: proxy_exn.splits)
    qed (use assms(2) inputs in \<open>auto simp: run_tool_def split: prod.splits\<close>)
  qed (use assms(2) in \<open>auto simp: run_tool_def\<close>)
qed

lemma comp_act_touches:
  assumes "engine_frame en" and "touches org run s (fst (snd (snd (snd x))))"
  shows "touches org run s (fst (snd (snd (snd (comp_act en org run subject pc ins x)))))"
proof -
  obtain vs partial ex w where x: "x = (vs, partial, ex, w)" by (cases x) auto
  have log: "touches org run s (fst (in_org org (\<lambda>t. comp_log org run pc d (f t)) v))"
    if "touches org run s (fst v)" "\<And>t. touches org run t (f t)" for d f v
    unfolding in_org_def comp_log_def
    by (simp, rule touches_trans [OF that(1)], rule touches_trans [OF touches_set_org_context], rule touches_trans [OF that(2)], rule touches_append)
  have log0: "touches org run s (fst (in_org org (comp_log org run pc d) v))" if "touches org run s (fst v)" for d v
    using log [OF that touches_refl] .
  show ?thesis
  proof (cases ex)
    case None
    show ?thesis
    proof (cases ins)
      case (AGENT a)
      obtain r w1 where r: "en_runner en org a None w = (r, w1)" by (meson surj_pair)
      have "touches org run s (fst w1)"
        using touches_trans [OF _ engine_frame_runner [OF assms(1) r, of org run]] assms(2) by (simp add: x)
      with r None AGENT log0 [of w1] show ?thesis by (cases w1) (auto simp: x split: sum.split)
    next
      case (SET vs')
      with assms(2) None log0 [of w] show ?thesis by (simp add: x)
    next
      case (EMIT ev pm)
      with assms(2) None log [OF _ touches_do_emit, of w] show ?thesis by (simp add: x)
    qed (use assms(2) None in \<open>auto simp: x\<close>)
  qed (use assms(2) in \<open>simp add: x\<close>)
qed

lemma run_compensation_exec:
  "run_compensation en org run steps subject vars w
    = Some (exec_steps (comp_test en subject) (comp_act en org run subject) 0 steps (vars, False, None, w))"
  unfolding run_compensation_def Let_def by (rule machine_runs) simp

lemma run_compensation_touches:
  assumes "engine_frame en" and "run_compensation en org run steps subject vars w = Some (vs, partial, ex, w1)"
  shows "touches org run (fst w) (fst w1)"
proof -
  have "touches org run (fst w) (fst (snd (snd (snd (exec_steps (comp_test en subject) (comp_act en org run subject) 0 steps (vars, False, None, w))))))"
    by (rule exec_keeps(2) [where P = "\<lambda>x. touches org run (fst w) (fst (snd (snd (snd x))))"])
      (rule comp_act_touches [OF assms(1)], assumption, simp)
  with assms(2) show ?thesis by (simp add: run_compensation_exec)
qed

lemma touches_alert: "touches org run s (compensation_alert o1 r1 reason alert s)"
  by (auto simp: compensation_alert_def intro: touches_emit split: option.split prod.split sum.split)

lemma run_row_alert [simp]: "run_row org run (compensation_alert o1 r1 reason alert s) = run_row org run s"
proof -
  have "run_db.more (compensation_alert o1 r1 reason alert s) = run_db.more s"
    by (auto simp: compensation_alert_def emit_def split: option.split prod.split sum.split)
  from tables_of_more(1) [OF this] show ?thesis by (simp add: run_row_def)
qed

lemma still_running_row:
  "still_running org run s \<longleftrightarrow> (\<exists>r. run_row org run s = Some r \<and> wr_status r = ''running'')"
proof -
  have "find (own_run org run (set_org_context org s)) (workflow_runs (set_org_context org s)) = run_row org run s"
    using run_row_set_org [of org run org s] by (simp add: own_run_ctx run_row_def)
  then show ?thesis by (simp add: still_running_def Let_def split: option.split)
qed

lemma compensate_result:
  assumes "engine_frame en" and "run_row org run (fst w) = Some r" and "def_row org (wr_definition_id r) (fst w) = Some d"
    and "compensate en org run reason w = (e, w1)"
  shows "touches org run (fst w) (fst w1)" "e \<noteq> OutOfFuel" "e = Finished \<Longrightarrow> \<not> still_running org run (fst w1)"
proof -
  let ?s = "set_org_context org (fst w)"
  let ?s1 = "append_event org run ''compensation_started'' None [(''reason'', JStr reason)] ?s"
  have load: "load_run org run ?s = Some (r, wd_dsl d)"
    using assms(2,3) touches_def_row [of org run "fst w" ?s org] by (simp add: load_run_ctx)
  have t1: "touches org run (fst w) ?s1" by (rule touches_trans [OF touches_set_org_context touches_append])
  have "touches org run (fst w) (fst w1) \<and> e \<noteq> OutOfFuel \<and> (e = Finished \<longrightarrow> \<not> still_running org run (fst w1))"
  proof (cases "dl_compensation (wd_dsl d)")
    case None
    let ?t = "append_event org run ''run_failed'' None [(''reason'', JStr reason)] (set_cursor org run (wr_cursor r) (Some ''failed'') ?s1)"
    have "touches org run (fst w) ?t"
      by (rule touches_trans [OF t1], rule touches_trans [OF touches_set_cursor touches_append]) simp_all
    moreover have "\<not> still_running org run ?t"
      using assms(2) by (simp add: still_running_row run_row_set_cursor)
    ultimately show ?thesis using assms(4) None load by (auto simp: compensate_def Let_def)
  next
    case (Some c)
    obtain on_failure alert where c: "c = (on_failure, alert)" by fastforce
    obtain vs partial ex w2 where rc: "run_compensation en org run on_failure (wr_subject r) (wr_vars r) (?s1, snd w) = Some (vs, partial, ex, w2)"
      using run_compensation_exec by (metis prod_cases4)
    have t2: "touches org run (fst w) (fst w2)" using touches_trans [OF t1] run_compensation_touches [OF assms(1) rc] by simp
    show ?thesis
    proof (cases ex)
      case (Some e0)
      with t2 rc c \<open>dl_compensation (wd_dsl d) = Some c\<close> load assms(4) show ?thesis by (auto simp: compensate_def Let_def)
    next
      case None
      let ?u = "set_org_context org (fst w2)"
      let ?f = "\<lambda>r. r\<lparr>wr_status := (if partial then ''compensated_partial'' else ''compensated''),
            wr_completed_at := Some (now ?u), wr_updated_at := now ?u\<rparr>"
      have "touches org run (fst w) (set_run org run ?f ?u)"
        by (rule touches_trans [OF t2], rule touches_trans [OF touches_set_org_context touches_set_run], simp,
            rule row_updateI) (auto split: if_splits)
      then have "touches org run (fst w) (close_compensation org run reason alert partial ?u)"
        unfolding close_compensation_def by (rule touches_trans [OF touches_trans [OF _ touches_append] touches_alert])
      moreover obtain r2 where "run_row org run (fst w2) = Some r2" using touches_row [OF t2 assms(2)] by blast
      then have "\<not> still_running org run (close_compensation org run reason alert partial ?u)"
        by (simp add: still_running_row close_compensation_def run_row_set_run)
      ultimately show ?thesis
        using None rc c \<open>dl_compensation (wd_dsl d) = Some c\<close> load assms(4) by (auto simp: compensate_def Let_def in_org_def)
    qed
  qed
  then show "touches org run (fst w) (fst w1)" "e \<noteq> OutOfFuel" "e = Finished \<Longrightarrow> \<not> still_running org run (fst w1)" by blast+
qed

text \<open>The rest of an iteration: an agent or a tool step that does not end the drive has moved the run on.\<close>

lemma complete_step_moves:
  assumes "run_row org run (fst w) = Some r"
  shows "moved_past org run pc (fst w) (fst (in_org org (complete_step org run pc data oa v) w))"
proof -
  let ?s = "set_org_context org (fst w)"
  let ?t = "bind_output org run oa v (append_event org run ''step_completed'' (Some (sid pc)) data ?s)"
  have "touches org run (fst w) ?t"
    by (rule touches_trans [OF touches_set_org_context], rule touches_trans [OF touches_append touches_bind_output]) simp
  from moved_pastI [OF this _ assms, of pc "pc + 1"] show ?thesis by (simp add: in_org_def complete_step_def)
qed

lemma moved_past_trans: "touches org run s s1 \<Longrightarrow> moved_past org run pc s1 s2 \<Longrightarrow> moved_past org run pc s s2"
  unfolding moved_past_def by (blast intro: touches_trans)

lemma touched_rows:
  assumes "touches org run s s'" and "run_row org run s = Some r" and "def_row org (wr_definition_id r) s = Some d"
  obtains r' where "run_row org run s' = Some r'" "def_row org (wr_definition_id r') s' = Some d"
    "wr_definition_id r' = wr_definition_id r" "wr_concurrency_key r' = wr_concurrency_key r"
  using touches_row [OF assms(1,2)] touches_def_row [OF assms(1)] assms(3) by fastforce

lemma agent_step_result:
  assumes frame: "engine_frame en" and row: "run_row org run (fst w) = Some r"
    and defn: "def_row org (wr_definition_id r) (fst w) = Some d"
    and run: "agent_step en org run a pc act w = (e, w1)"
  shows "e \<noteq> Some OutOfFuel \<and> (e = None \<longrightarrow> moved_past org run pc (fst w) (fst w1))"
proof -
  obtain x v where x: "en_runner en org a (Some act) w = (x, v)" by (meson surj_pair)
  have t: "touches org run (fst w) (fst v)" by (rule engine_frame_runner [OF frame x])
  show ?thesis
  proof (cases x)
    case (Inr out)
    show ?thesis
    proof (cases "output_failed out")
      case True
      let ?w = "in_org org (append_event org run ''step_failed'' (Some (sid pc)) out) v"
      have "touches org run (fst w) (fst ?w)"
        unfolding in_org_def using touches_trans [OF t touches_trans [OF touches_set_org_context touches_append]] by simp
      then obtain r' where r': "run_row org run (fst ?w) = Some r'" "def_row org (wr_definition_id r') (fst ?w) = Some d"
        using row defn by (rule touched_rows)
      obtain e' w' where c: "compensate en org run (''agent_task '' @ at_task a @ '' failed'') ?w = (e', w')" by (meson surj_pair)
      have "e = Some e'" using run x Inr True c by (simp add: agent_step_def)
      with compensate_result(2) [OF frame r' c] show ?thesis by simp
    next
      case False
      obtain r' where "run_row org run (fst v) = Some r'" using touches_row [OF t row] by blast
      from moved_past_trans [OF t complete_step_moves [OF this]] run x Inr False show ?thesis
        by (auto simp: agent_step_def)
    qed
  qed (use run x in \<open>auto simp: agent_step_def\<close>)
qed

lemma tool_step_result:
  assumes frame: "engine_frame en" and row: "run_row org run (fst w) = Some r"
    and defn: "def_row org (wr_definition_id r) (fst w) = Some d"
    and run: "tool_step en org run t pc act ap w = (e, w1)"
  shows "e \<noteq> Some OutOfFuel \<and> (e = None \<longrightarrow> moved_past org run pc (fst w) (fst w1))"
proof -
  obtain x v where x: "run_tool en org run t act ap w = (x, v)" by (meson surj_pair)
  have tv: "touches org run (fst w) (fst v)" by (rule run_tool_touches [OF frame x])
  obtain r1 where r1: "run_row org run (fst v) = Some r1" "def_row org (wr_definition_id r1) (fst v) = Some d"
    using tv row defn by (rule touched_rows)
  show ?thesis
  proof (cases x)
    case (Inl a)
    with run x show ?thesis by (auto simp: tool_step_def record_tool_def)
  next
    case (Inr outcome)
    show ?thesis
    proof (cases outcome)
      case (ToolDone out aid)
      with moved_past_trans [OF tv complete_step_moves [OF r1(1)]] run x Inr show ?thesis
        by (auto simp: tool_step_def record_tool_def split: if_splits)
    next
      case (ToolPending tier reason params cap inst)
      let ?t = "append_event org run ''step_parked'' (Some (sid pc)) [(''op'', JStr ''tool_call''), (''tool'', JStr (tc_name t)),
            (''tier'', JInt tier), (''reason'', JStr reason)] (set_cursor org run pc (Some ''waiting'') (set_org_context org (fst v)))"
      have "\<not> still_running org run s1" if "park_tool org run pc (tc_name t) tier reason params cap (fst v) = (Inr i, s1)" for i s1
      proof -
        from that have "run_row org run s1 = run_row org run ?t"
          using tables_of_more(1) [of s1 ?t]
          by (auto simp: park_tool_def create_approval_def Let_def emit_def run_row_def split: prod.splits sum.splits option.splits if_splits)
        with r1(1) show ?thesis by (simp add: still_running_row run_row_set_cursor)
      qed
      with run x Inr ToolPending show ?thesis
        by (auto simp: tool_step_def record_tool_def split: if_splits prod.splits sum.splits)
    next
      case (ToolFailed reason detail)
      let ?w = "in_org org (append_event org run ''step_failed'' (Some (sid pc)) (outcome_json (tc_name t) (ToolFailed reason detail))) v"
      have "touches org run (fst v) (fst ?w)"
        unfolding in_org_def using touches_trans [OF touches_set_org_context touches_append] by simp
      then obtain r' where r': "run_row org run (fst ?w) = Some r'" "def_row org (wr_definition_id r') (fst ?w) = Some d"
        using r1 by (rule touched_rows)
      obtain e' w' where c: "compensate en org run (''tool_call '' @ tc_name t @ '' failed'') ?w = (e', w')" by (meson surj_pair)
      with run x Inr ToolFailed compensate_result(2,3) [OF frame r' c] show ?thesis
        by (cases e') (auto simp: tool_step_def record_tool_def split: if_splits)
    qed
  qed
qed

subsection \<open>Promotion\<close>

lemma filter_len_update_where_less:
  "(\<And>r. q (f r) \<Longrightarrow> q r) \<Longrightarrow> x \<in> set rows \<Longrightarrow> p x \<Longrightarrow> q x \<Longrightarrow> \<not> q (f x) \<Longrightarrow>
   length (filter q (update_where p f rows)) < length (filter q rows)"
proof (induction rows)
  case (Cons r rows)
  have le: "length (filter q (update_where p f rows)) \<le> length (filter q rows)"
    by (rule filter_len_update_where) (rule Cons.prems(1))
  show ?case
  proof (cases "x = r")
    case True
    with Cons.prems(3-5) le show ?thesis by auto
  next
    case False
    with Cons have "length (filter q (update_where p f rows)) < length (filter q rows)" by simp
    with Cons.prems(1) [of r] show ?thesis by auto
  qed
qed simp

lemma find_own_id:
  "distinct (map wr_id rows) \<Longrightarrow> q \<in> set rows \<Longrightarrow> find (\<lambda>r. wr_id r = wr_id q \<and> wr_org_id r = wr_org_id q) rows = Some q"
  by (induction rows) force+

lemma promote_next_result:
  assumes ids: "distinct (map wr_id (workflow_runs s))"
    and prom: "promote_next org d key s = (Some run2, s2)"
  obtains r2 where "run_row org run2 s2 = Some r2" "wr_definition_id r2 = d" "wr_concurrency_key r2 = key"
    "queue_len org d key s2 < queue_len org d key s" "map wr_id (workflow_runs s2) = map wr_id (workflow_runs s)"
    "workflow_definitions s2 = workflow_definitions s" "wr_status r2 = ''running''"
proof -
  let ?s = "set_org_context org s"
  have runs: "workflow_runs ?s = workflow_runs s" "workflow_definitions ?s = workflow_definitions s"
    by (simp_all add: set_org_context_def)
  obtain k where k: "key = Some k" using prom by (cases key) (auto simp: promote_next_def)
  obtain q where q: "next_queued org d k ?s = Some q" and run2: "run2 = wr_id q"
    using prom k by (auto simp: promote_next_def Let_def split: option.splits)
  let ?p = "\<lambda>x. wr_org_id x = org \<and> wr_id x = wr_id q"
  let ?f = "\<lambda>x. x\<lparr>wr_status := ''running'', wr_updated_at := now ?s\<rparr>"
  have vis: "rls_visible ?s o' \<longleftrightarrow> o' = org" for o' by simp
  have s2: "workflow_runs s2 = update_where ?p ?f (workflow_runs s)" "workflow_definitions s2 = workflow_definitions s"
    using prom k q by (auto simp: promote_next_def Let_def runs)
  have qin: "q \<in> set (workflow_runs s)" and qq: "queued_in org d key q"
    using order_first_Some [OF q [unfolded next_queued_def]] k by (auto simp: runs queued_in_def)
  have "find (\<lambda>r. wr_id r = wr_id q \<and> wr_org_id r = org) (workflow_runs s) = Some q"
    using find_own_id [OF ids qin] qq by (simp add: queued_in_def)
  then have "run_row org run2 s2 = Some (?f q)"
    unfolding run_row_def s2(1) run2 using qq by (subst find_update_where) (auto simp: queued_in_def)
  moreover have "queue_len org d key s2 < queue_len org d key s"
    unfolding queue_len_def s2(1)
    by (rule filter_len_update_where_less [where x = q]) (use qin qq in \<open>auto simp: queued_in_def\<close>)
  moreover have "map wr_id (workflow_runs s2) = map wr_id (workflow_runs s)"
    unfolding s2(1) by (rule map_update_where) simp
  ultimately show thesis using that qq s2(2) by (simp add: queued_in_def)
qed

subsection \<open>Termination\<close>

lemma advance_step_result:
  assumes "run_row org run s = Some r" and "def_row org (wr_definition_id r) s = Some d"
    and "advance_step cel org run s = (fu, s1)"
  defines "L \<equiv> length (compile_program (dl_steps (wd_dsl d)))"
  shows "touches org run s s1" "fu = Again \<Longrightarrow> moved_past org run (wr_cursor r) s s1 \<and> wr_cursor r < L"
    "fu = Promote d2 k \<Longrightarrow> d2 = wr_definition_id r \<and> k = wr_concurrency_key r"
    "fu = RunTool t q act ap \<Longrightarrow> q = wr_cursor r \<and> wr_cursor r < L" "fu = RunAgent a q act \<Longrightarrow> q = wr_cursor r \<and> wr_cursor r < L"
proof -
  let ?s = "set_org_context org s"
  let ?prog = "compile_program (dl_steps (wd_dsl d))"
  let ?ins = "if length ?prog \<le> wr_cursor r then END else ?prog ! wr_cursor r"
  have load: "load_run org run ?s = Some (r, wd_dsl d)"
    using assms(1,2) touches_def_row [of org run s ?s org] by (simp add: load_run_ctx)
  have row: "run_row org run ?s = Some r" using assms(1) by simp
  have fwd: "\<exists>k. x = Some k \<and> wr_cursor r < k" if "x \<in> set (targets ?ins)" for x
    using that program_forward [of "wr_cursor r" "dl_steps (wd_dsl d)" x] by (auto split: if_splits)
  have "(touches org run s s1 \<and> (fu = Again \<longrightarrow> moved_past org run (wr_cursor r) s s1 \<and> wr_cursor r < L) \<and>
      (fu = Promote d2 k \<longrightarrow> d2 = wr_definition_id r \<and> k = wr_concurrency_key r) \<and>
      (fu = RunTool t q act ap \<longrightarrow> q = wr_cursor r \<and> wr_cursor r < L) \<and> (fu = RunAgent a q act \<longrightarrow> q = wr_cursor r \<and> wr_cursor r < L))"
  proof (cases "wr_status r = ''running''")
    case True
    with assms(3) load have run: "exec_instr cel org run r (wr_cursor r) ?ins ?s = (fu, s1)"
      by (simp add: advance_step_def Let_def)
    note res = exec_instr_result [OF _ row fwd run]
    have small: "wr_cursor r < L" if "fu = Again \<or> (\<exists>t q act ap. fu = RunTool t q act ap) \<or> (\<exists>a q act. fu = RunAgent a q act)"
      using that run by (auto simp: L_def exec_instr_def Let_def split: if_splits)
    have "touches org run s s1" using res(1) touches_trans [OF touches_set_org_context] by simp
    moreover have "moved_past org run (wr_cursor r) s s1" if "fu = Again"
      using res(2) that moved_past_trans [OF touches_set_org_context] by simp
    ultimately show ?thesis using res(3-5) small by auto
  qed (use assms(3) load in \<open>auto simp: advance_step_def Let_def\<close>)
  then show "touches org run s s1" "fu = Again \<Longrightarrow> moved_past org run (wr_cursor r) s s1 \<and> wr_cursor r < L"
    "fu = Promote d2 k \<Longrightarrow> d2 = wr_definition_id r \<and> k = wr_concurrency_key r"
    "fu = RunTool t q act ap \<Longrightarrow> q = wr_cursor r \<and> wr_cursor r < L" "fu = RunAgent a q act \<Longrightarrow> q = wr_cursor r \<and> wr_cursor r < L"
    by blast+
qed

text \<open>
  C13: driving a run terminates. If the agents and the services leave the tables of the workflow engine
  alone and run identifiers are unique, then \<open>advance\<close> ends (it completes, parks or raises) within as
  many iterations as the run's program has instructions left, and for every run queued behind it on
  the same key once the length of the program and one.
\<close>

theorem advance_terminates:
  assumes frame: "engine_frame en"
  shows "run_row org run (fst w) = Some r \<Longrightarrow> def_row org (wr_definition_id r) (fst w) = Some d \<Longrightarrow>
    distinct (map wr_id (workflow_runs (fst w))) \<Longrightarrow>
    queue_len org (wr_definition_id r) (wr_concurrency_key r) (fst w) * (length (compile_program (dl_steps (wd_dsl d))) + 1)
      + (length (compile_program (dl_steps (wd_dsl d))) - wr_cursor r) + 1 \<le> fuel \<Longrightarrow>
    fst (advance en fuel org run w) \<noteq> OutOfFuel"
proof (induction fuel arbitrary: run r w)
  case 0
  then show ?case by simp
next
  case (Suc fuel)
  let ?L = "length (compile_program (dl_steps (wd_dsl d)))"
  let ?Q = "\<lambda>s. queue_len org (wr_definition_id r) (wr_concurrency_key r) s"
  obtain fu s1 where step: "advance_step (en_cel en) org run (fst w) = (fu, s1)" by fastforce
  note res = advance_step_result [OF Suc.prems(1,2) step]
  have on: "fst (advance en fuel org run w2) \<noteq> OutOfFuel"
    if mv: "moved_past org run (wr_cursor r) (fst w) (fst w2)" and lt: "wr_cursor r < ?L" for w2
  proof -
    have t: "touches org run (fst w) (fst w2)" using mv by (simp add: moved_past_def)
    obtain r2 where r2: "run_row org run (fst w2) = Some r2" "def_row org (wr_definition_id r2) (fst w2) = Some d"
      "wr_definition_id r2 = wr_definition_id r" "wr_concurrency_key r2 = wr_concurrency_key r"
      using t Suc.prems(1,2) by (rule touched_rows)
    have "wr_cursor r < wr_cursor r2" using mv r2(1) by (simp add: moved_past_def)
    moreover have "?Q (fst w2) * (?L + 1) \<le> ?Q (fst w) * (?L + 1)" using touches_queue_len [OF t] by (rule mult_le_mono1)
    ultimately have "?Q (fst w2) * (?L + 1) + (?L - wr_cursor r2) + 1 \<le> fuel" using Suc.prems(4) lt by linarith
    then show ?thesis
      using Suc.IH [OF r2(1,2)] Suc.prems(3) touches_ids [OF t] r2(3,4) by simp
  qed
  show ?case
  proof (cases fu)
    case Again
    with res(2) on [of "(s1, snd w)"] step show ?thesis by simp
  next
    case (Promote d2 k)
    with res(3) have d2: "d2 = wr_definition_id r" "k = wr_concurrency_key r" by auto
    obtain o2 s2 where p: "promote_next org d2 k s1 = (o2, s2)" by fastforce
    show ?thesis
    proof (cases o2)
      case None
      with step Promote p show ?thesis by simp
    next
      case (Some run2)
      have ids: "distinct (map wr_id (workflow_runs s1))" using Suc.prems(3) touches_ids [OF res(1)] by simp
      obtain r2 where r2: "run_row org run2 s2 = Some r2" "wr_definition_id r2 = wr_definition_id r"
        "wr_concurrency_key r2 = wr_concurrency_key r" "?Q s2 < ?Q s1"
        "map wr_id (workflow_runs s2) = map wr_id (workflow_runs s1)" "workflow_definitions s2 = workflow_definitions s1"
        using promote_next_result [OF ids p [unfolded Some d2]] by blast
      have "?Q s2 < ?Q (fst w)" using r2(4) touches_queue_len [OF res(1)] by (rule less_le_trans)
      then have "Suc (?Q s2) * (?L + 1) \<le> ?Q (fst w) * (?L + 1)" by (intro mult_le_mono1) simp
      then have "?Q s2 * (?L + 1) + (?L - wr_cursor r2) + 1 \<le> fuel" using Suc.prems(4) by simp
      moreover have "def_row org (wr_definition_id r2) s2 = Some d"
        using Suc.prems(2) touches_def_row [OF res(1), of org "wr_definition_id r"] r2(2,6) by (simp add: def_row_def)
      ultimately have "fst (advance en fuel org run2 (s2, snd w)) \<noteq> OutOfFuel"
        using Suc.IH [of run2 "(s2, snd w)" r2] r2(1-3,5) ids by simp
      with step Promote p Some show ?thesis by simp
    qed
  next
    case (RunTool t q act ap)
    then have q: "q = wr_cursor r" "wr_cursor r < ?L" using res(4) by auto
    obtain r1 where r1: "run_row org run s1 = Some r1" "def_row org (wr_definition_id r1) s1 = Some d"
      using res(1) Suc.prems(1,2) by (rule touched_rows)
    obtain e w2 where ts: "tool_step en org run t q act ap (s1, snd w) = (e, w2)" by (meson surj_pair)
    from tool_step_result [OF frame _ _ ts, of r1 d] r1
    have "e \<noteq> Some OutOfFuel" "e = None \<longrightarrow> moved_past org run q s1 (fst w2)" by simp_all
    then show ?thesis using step RunTool ts on [of w2] q moved_past_trans [OF res(1)] by (cases e) auto
  next
    case (RunAgent a q act)
    then have q: "q = wr_cursor r" "wr_cursor r < ?L" using res(5) by auto
    obtain r1 where r1: "run_row org run s1 = Some r1" "def_row org (wr_definition_id r1) s1 = Some d"
      using res(1) Suc.prems(1,2) by (rule touched_rows)
    obtain e w2 where ts: "agent_step en org run a q act (s1, snd w) = (e, w2)" by (meson surj_pair)
    from agent_step_result [OF frame _ _ ts, of r1 d] r1
    have "e \<noteq> Some OutOfFuel" "e = None \<longrightarrow> moved_past org run q s1 (fst w2)" by simp_all
    then show ?thesis using step RunAgent ts on [of w2] q moved_past_trans [OF res(1)] by (cases e) auto
  qed (use step in simp_all)
qed

text \<open>
  C15: a compensation unwinds what the definition says. For a run with a compensation block, the steps
  of the block are performed in the order of their structured reading, whatever their branches, over
  the run's variables; the machine never runs out of fuel; an exception of a compensating agent leaves
  as it is, otherwise the run is closed as compensated, partially if one of the agents failed.
\<close>

theorem compensation_structured:
  assumes "load_run org run (set_org_context org (fst w)) = Some (r, dsl)"
    and "dl_compensation dsl = Some (steps, alert)"
  shows "compensate en org run reason w =
    (case exec_steps (comp_test en (wr_subject r)) (comp_act en org run (wr_subject r)) 0 steps
            (wr_vars r, False, None, append_event org run ''compensation_started'' None [(''reason'', JStr reason)]
               (set_org_context org (fst w)), snd w) of
       (vars, partial, Some e, w1) \<Rightarrow> (Raised e, w1)
     | (vars, partial, None, w1) \<Rightarrow> (Finished, in_org org (close_compensation org run reason alert partial) w1))"
  using assms by (simp add: compensate_def Let_def run_compensation_exec split: prod.split option.split)

subsection \<open>Examples\<close>

definition example_definition :: workflow_definition_row where
  "example_definition = \<lparr>wd_id = 70, wd_org_id = 7, wd_pack_id = None, wd_workflow_key = ''silent_lead_reactivation'',
     wd_version = 1, wd_origin = ''pack'', wd_status = ''active'',
     wd_dsl = \<lparr>dl_steps = [BranchStep [(''hot'', [SetStep [(''x'', JInt 1)]])] [WaitStep \<lparr>wt_for = ''reply'', wt_timeout = JNull, wt_event = None\<rparr>]],
       dl_compensation = Some ([SetStep [(''undone'', JBool True)]], None), dl_concurrency = Some (''subject.id'', ''queue'')\<rparr>,
     wd_trigger_spec = JObj [], wd_guards = []\<rparr>"

definition example_workflow_run :: "uuid \<Rightarrow> string \<Rightarrow> workflow_run_row" where
  "example_workflow_run i status = \<lparr>wr_id = i, wr_org_id = 7, wr_definition_id = 70, wr_definition_version = 1,
     wr_status = status, wr_concurrency_key = Some ''k'', wr_subject = [(''conversation_id'', JStr ''6'')], wr_vars = [], wr_cursor = 0,
     wr_created_at = int i, wr_updated_at = 0, wr_completed_at = None\<rparr>"

definition example_wf_db :: wf_db where
  "example_wf_db = run_db.extend example_run_db
     (wf_db.fields [example_definition] [example_workflow_run 71 ''running'', example_workflow_run 72 ''queued''] [] [])"

definition example_engine :: "wf_db engine" where
  "example_engine = \<lparr>en_platform = example_tools_platform,
     en_wiring = \<lparr>wi_decrypt = example_decrypt, wi_client = example_client\<rparr>, en_services = \<lambda>_ _. not_wired,
     en_cel = \<lambda>_ _. None, en_runner = \<lambda>org a act w. (Inr [], w)\<rparr>"

lemma example_wf_simps [simp]:
  "workflow_runs example_wf_db = [example_workflow_run 71 ''running'', example_workflow_run 72 ''queued'']"
  "workflow_definitions example_wf_db = [example_definition]"
  by (simp_all add: example_wf_db_def run_db.defs wf_db.defs)

lemma example_engine_frame: "engine_frame example_engine"
  by (simp add: engine_frame_def example_engine_def op_keeps_def not_wired_def)

lemma example_rows:
  "run_row 7 71 example_wf_db = Some (example_workflow_run 71 ''running'')"
  "def_row 7 70 example_wf_db = Some example_definition"
  by (simp_all add: run_row_def def_row_def example_workflow_run_def example_definition_def)

lemma example_program: "length (compile_program (dl_steps (wd_dsl example_definition))) = 6"
  by (simp add: example_definition_def compile_program_comp)

theorem advance_terminates_witness:
  "fst (advance example_engine 14 7 71 (example_wf_db, redis_empty)) \<noteq> OutOfFuel"
  by (rule advance_terminates [OF example_engine_frame, where r = "example_workflow_run 71 ''running''" and d = example_definition])
    (simp_all only: fst_conv example_rows example_program, simp_all add: example_rows queue_len_def queued_in_def example_workflow_run_def)

theorem compensation_structured_witness:
  "fst (compensate example_engine 7 71 ''agent failed'' (example_wf_db, redis_empty)) = Finished"
proof -
  have "load_run 7 71 (set_org_context 7 (fst (example_wf_db, redis_empty))) = Some (example_workflow_run 71 ''running'', wd_dsl example_definition)"
    using example_rows by (simp add: load_run_ctx example_workflow_run_def)
  from compensation_structured [OF this, of "[SetStep [(''undone'', JBool True)]]" None example_engine "''agent failed''"]
  show ?thesis by (simp add: example_definition_def)
qed

end
