(* ===== verification/StepAuthority.thy ===== *)
theory StepAuthority
  imports Progress
begin

text \<open>
  What a workflow's tool step may do, and under whose authority (\<open>core/workflows/tool_step.py\<close> composed
  with the mediation proxy). An effect implies a certified pack workflow, the internal-worker grant of
  its key, an active instance with its own manifest, and every gate of the proxy. The proxy's
  commercial gate repeats the execution check without the worker's grant, so that a worker whose
  archetype the plan does not select resolves its principal and is then refused every tool.
\<close>

lemma resolve_principal_facts:
  assumes "resolve_principal pf org run s = Inr p"
  shows "(\<exists>d. run_definition org run (set_org_context org s) = Some d \<and> wd_origin d = ''pack'' \<and>
       wd_workflow_key d = iw_workflow_key (tp_grant p)) \<and> tp_grant p \<in> set GRANTS \<and>
    (\<exists>i \<in> set (agent_instances s). ai_id i = tp_instance_id p \<and> ai_org_id i = org \<and> ai_status i = ''active'' \<and>
       archetype_of s i = Some (iw_archetype (tp_grant p)) \<and> ai_permission_manifest i = JObj (tp_manifest p)) \<and>
    iw_capability (tp_grant p) \<in> ee_capabilities (fst (resolve_entitlements (pf_codec pf) (pf_pack_caps pf) org s))"
proof -
  let ?s = "set_org_context org s"
  have frame: "agent_instances ?s = agent_instances s" "archetype_of ?s = archetype_of s"
    by (simp_all add: fun_eq_iff set_org_context_def archetype_of_def grants_of_def cong: option.case_cong)
  obtain d where d: "run_definition org run ?s = Some d" "wd_origin d = ''pack''"
    using assms by (auto simp: resolve_principal_def Let_def split: option.splits if_splits)
  obtain g where g: "find (\<lambda>g. iw_workflow_key g = wd_workflow_key d) GRANTS = Some g"
    using assms d by (auto simp: resolve_principal_def Let_def split: option.splits if_splits)
  obtain i where i: "find (\<lambda>i. rls_visible ?s (ai_org_id i) \<and> ai_org_id i = org \<and> ai_status i = ''active'' \<and>
      archetype_of ?s i = Some (iw_archetype g)) (agent_instances ?s) = Some i"
    using assms d g by (auto simp: resolve_principal_def Let_def split: option.splits)
  have p: "p = \<lparr>tp_grant = g, tp_instance_id = ai_id i, tp_manifest = tp_manifest p\<rparr> \<and> ai_permission_manifest i = JObj (tp_manifest p)
      \<and> fst (assert_entitled (pf_codec pf) (pf_pack_caps pf) (Some org) (iw_capability g) ?s) = Inr ()"
    using assms d g i by (auto simp: resolve_principal_def Let_def split: json.splits list.splits if_splits sum.splits)
  then have "iw_capability g \<in> ee_capabilities (fst (resolve_entitlements (pf_codec pf) (pf_pack_caps pf) org s))"
    by (auto simp: assert_entitled_def case_prod_beta split: if_splits)
  moreover have "tp_grant p = g" "tp_instance_id p = ai_id i" using p by (metis tool_principal.select_convs(1,2))+
  ultimately show ?thesis
    using d p find_Some_set [OF g] find_Some_set [OF i] frame by auto
qed

text \<open>Without an implementation nothing succeeds.\<close>

lemma call_none_not_ok: "fst (call pf (\<lambda>_. None) te ctx tool params w) = Inr r \<Longrightarrow> \<not> tr_ok r"
proof -
  have exec: "\<not> tr_ok x" if "fst (execute_tool pf (\<lambda>_. None) ctx tool params v) = Inr x" for v x
    using that by (auto simp: execute_tool_def tool_failed_def case_prod_beta)
  have denial: "\<not> tr_ok x" if "fst (commercial_denial pf ctx tool s) = Some x" for s x
    using that by (auto simp: commercial_denial_def tool_failed_def case_prod_beta split: sum.splits option.splits if_splits)
  have auth: "\<not> tr_ok x" if "fst (authorise_and_execute pf (\<lambda>_. None) ctx tool params v) = Inr x" for v x
    using that exec denial [of "fst v"] by (cases v) (auto simp: authorise_and_execute_def case_prod_beta Let_def split: option.splits)
  have tier: "\<not> tr_ok x" if "fst (tier_step pf (\<lambda>_. None) te ctx tool params grant v) = Inr x" for grant v x
    using that auth by (cases v) (auto simp: tier_step_def case_prod_beta split: option.splits sum.splits if_splits)
  have budget: "\<not> tr_ok x" if "fst (budget_step pf (\<lambda>_. None) te ctx tool params grant v) = Inr x" for grant v x
    using that tier by (cases v) (auto simp: budget_step_def budget_denied_def split: option.splits prod.splits if_splits)
  have gated: "\<not> tr_ok x" if "fst (gated pf (\<lambda>_. None) te ctx tool params grant v) = Inr x" for grant v x
    using that budget by (auto simp: gated_def tool_failed_def case_prod_beta split: sum.splits option.splits if_splits)
  show "fst (call pf (\<lambda>_. None) te ctx tool params w) = Inr r \<Longrightarrow> \<not> tr_ok r"
    using gated by (cases w) (auto simp: call_def manifest_denied_def tool_failed_def Let_def case_prod_beta split: option.splits if_splits)
qed

text \<open>The call a tool step makes, if it makes one.\<close>

lemma run_tool_call:
  "resolve_inputs (tc_input_map t) act = Inr params \<Longrightarrow> resolve_principal (en_platform en) org run (fst w) = Inr p \<Longrightarrow>
   (\<And>R. call (en_platform en) R None (tool_context (en_platform en) org run p ap) (tc_name t) (JObj params)
      (set_org_context org (fst w), snd w) = c) \<Longrightarrow>
   provider (fst (snd (run_tool en org run t act ap w))) = provider (fst w) \<and>
   (\<forall>out aid. fst (run_tool en org run t act ap w) \<noteq> Inr (ToolDone out aid))"
  for c :: "(proxy_exn + ToolResult) \<times> 'a wf_db_scheme \<times> redis"
proof -
  assume ins: "resolve_inputs (tc_input_map t) act = Inr params" and pr: "resolve_principal (en_platform en) org run (fst w) = Inr p"
    and c: "\<And>R. call (en_platform en) R None (tool_context (en_platform en) org run p ap) (tc_name t) (JObj params)
      (set_org_context org (fst w), snd w) = c"
  obtain x v where x: "c = (x, v)" by (cases c)
  have prov: "provider (fst v) = provider (fst w)"
    using provider_call_none [of "en_platform en" None "tool_context (en_platform en) org run p ap" "tc_name t" "JObj params"
        "(set_org_context org (fst w), snd w)"] c x by simp
  have bad: "\<not> tr_ok r" if "x = Inr r" for r
    using call_none_not_ok [of "en_platform en" None "tool_context (en_platform en) org run p ap" "tc_name t" "JObj params"
        "(set_org_context org (fst w), snd w)" r] c x that by simp
  show ?thesis
    using prov bad ins pr c x
    by (cases x) (auto simp: run_tool_def mediated_def case_prod_beta split: proxy_exn.split option.split)
qed


text \<open>
  A worker whose archetype the plan does not select can run no tool. Where the principal resolves
  by the worker's capability but the plan's agents do not contain its archetype, a tool step neither
  succeeds nor makes Meta's API receive anything: the proxy repeats the execution check without the
  worker's grant and refuses.
\<close>

theorem internal_worker_runs_no_tool:
  fixes w :: "'a wf_db_scheme \<times> redis"
  assumes "resolve_inputs (tc_input_map t) act = Inr params"
    and p: "resolve_principal (en_platform en) org run (fst w) = Inr p"
    and ids: "distinct (map ai_id (agent_instances (fst w)))"
    and out: "iw_archetype (tp_grant p) \<notin> ee_agents (fst (resolve_entitlements (pf_codec (en_platform en))
       (pf_pack_caps (en_platform en)) org (fst w)))"
  shows "provider (fst (snd (run_tool en org run t act ap w))) = provider (fst w) \<and>
    (\<forall>o1 aid. fst (run_tool en org run t act ap w) \<noteq> Inr (ToolDone o1 aid))"
proof -
  let ?pf = "en_platform en" and ?w = "(set_org_context org (fst w), snd w)"
  let ?ctx = "tool_context ?pf org run p ap"
  obtain i where i: "i \<in> set (agent_instances (fst w))" "ai_id i = tp_instance_id p" "archetype_of (fst w) i = Some (iw_archetype (tp_grant p))"
    using resolve_principal_facts [OF p] by blast
  have "\<not> commercially_admitted ?pf ?ctx (tc_name t) (fst w)"
  proof
    assume "commercially_admitted ?pf ?ctx (tc_name t) (fst w)"
    then obtain slug where a: "fst (assert_agent_executable (pf_codec ?pf) (pf_pack_caps ?pf) org (tp_instance_id p) None (fst w)) = Inr slug"
      by (auto simp: commercially_admitted_def tool_context_def)
    from agent_execution_row [OF a] obtain r where r: "r \<in> set (agent_instances (fst w))" "ai_id r = tp_instance_id p"
      "archetype_of (fst w) r = Some slug" and sel: "slug \<in> ee_agents (fst (resolve_entitlements (pf_codec ?pf) (pf_pack_caps ?pf) org (fst w)))"
      by blast
    have "r = i" using ids i(1,2) r(1,2) by (metis distinct_map inj_onD)
    with i(3) r(3) sel out show False by simp
  qed
  then have "\<not> gates_open ?pf None ?ctx (tc_name t) (JObj params) ?w" by (simp add: gates_open_def)
  with call_cases [of ?pf None ?ctx "tc_name t" "JObj params" ?w]
  have "ignores (\<lambda>R. call ?pf R None ?ctx (tc_name t) (JObj params) ?w)" by blast
  then have "\<And>R. call ?pf R None ?ctx (tc_name t) (JObj params) ?w = call ?pf (\<lambda>_. None) None ?ctx (tc_name t) (JObj params) ?w"
    unfolding ignores_def by blast
  from run_tool_call [OF assms(1,2) this] show ?thesis .
qed

subsection \<open>Examples\<close>

definition example_plan_platform :: "string list \<Rightarrow> platform" where
  "example_plan_platform agents = example_tools_platform\<lparr>pf_codec := example_codec\<lparr>validate_plan := \<lambda>_. Some (empty_config
     \<lparr>pc_agents := agents, pc_schema_version := Some 1, pc_entitlements := Some [''conversations'', ''customers'', ''ghost_recovery'']\<rparr>)\<rparr>\<rparr>"

definition example_worker_engine :: "string list \<Rightarrow> wf_db engine" where
  "example_worker_engine agents = example_engine\<lparr>en_platform := example_plan_platform agents\<rparr>"

definition example_worker_manifest :: jobj where
  "example_worker_manifest = manifest_sign (pf_crypto example_tools_platform) [(''tools'', JArr [compile_tool (JObj []) ''messages.send''])]"

definition example_worker_db :: wf_db where
  "example_worker_db = example_wf_db\<lparr>agent_instances := [\<lparr>ai_id = 5, ai_org_id = 7, ai_persona_name = ''Priya'', ai_binding_id = 1, ai_status = ''active'',
     ai_permission_manifest = JObj example_worker_manifest, ai_budget_caps = []\<rparr>]\<rparr>"

definition example_tool_call :: tool_call where
  "example_tool_call = \<lparr>tc_name = ''messages.send'', tc_input_map = [(''body'', JObj [(''const'', JStr ''Hello'')]),
     (''conversation_id'', JStr ''subject.conversation_id'')], tc_output_as = None, tc_timeout = JNull\<rparr>"

definition example_act :: jobj where
  "example_act = run_activation [] [(''conversation_id'', JStr ''6'')]"

definition example_principal :: tool_principal where
  "example_principal = \<lparr>tp_grant = hd GRANTS, tp_instance_id = 5, tp_manifest = example_worker_manifest\<rparr>"

definition example_step_context :: "string list \<Rightarrow> RunContext" where
  "example_step_context agents = tool_context (example_plan_platform agents) 7 71 example_principal [''messages.send'']"

lemma example_step_inputs: "resolve_inputs (tc_input_map example_tool_call) example_act = Inr [(''body'', JStr ''Hello''), (''conversation_id'', JStr ''6'')]"
  by code_simp

lemma example_step_principal:
  "resolve_principal (example_plan_platform [''nurture'']) 7 71 example_worker_db = Inr example_principal"
  by code_simp

lemma example_step_principal_unplanned:
  "resolve_principal (example_plan_platform []) 7 71 example_worker_db = Inr example_principal"
  by code_simp

lemma example_step_plan:
  "iw_archetype (tp_grant example_principal) \<notin> ee_agents (fst (resolve_entitlements (pf_codec (example_plan_platform []))
     (pf_pack_caps (example_plan_platform [])) 7 example_worker_db))"
  by code_simp

theorem internal_worker_runs_no_tool_witness:
  "provider (fst (snd (run_tool (example_worker_engine []) 7 71 example_tool_call example_act [''messages.send''] (example_worker_db, redis_empty))))
     = provider example_worker_db"
proof -
  have eng: "en_platform (example_worker_engine []) = example_plan_platform []" by (simp add: example_worker_engine_def)
  have "distinct (map ai_id (agent_instances (fst (example_worker_db, redis_empty))))" by (simp add: example_worker_db_def)
  from internal_worker_runs_no_tool [OF example_step_inputs _ this, of "example_worker_engine []" 7 71 example_principal "[''messages.send'']"]
    example_step_principal_unplanned example_step_plan
  show ?thesis by (simp add: eng)
qed

definition example_step_params :: json where
  "example_step_params = JObj [(''body'', JStr ''Hello''), (''conversation_id'', JStr ''6'')]"

lemma example_step_gates:
  "rx_manifest_hash (example_step_context [''nurture'']) = manifest_hash (pf_crypto (example_plan_platform [''nurture''])) (rx_manifest (example_step_context [''nurture'']))"
  "manifest_verify (pf_crypto (example_plan_platform [''nurture''])) (rx_manifest (example_step_context [''nurture'']))"
  "current_hash_of (rx_instance_id (example_step_context [''nurture''])) (set_org_context 7 example_worker_db) \<in> {None, Some (''sha256:'' @ rx_manifest_hash (example_step_context [''nurture'']))}"
  "find_tool_grant (rx_manifest (example_step_context [''nurture''])) ''messages.send'' = Some (compile_tool (JObj []) ''messages.send'')"
  "\<not> narrowed (example_step_context [''nurture'']) ''messages.send'' redis_empty"
  "validate_params (example_plan_platform [''nurture'']) example_step_params (jget_null (compile_tool (JObj []) ''messages.send'') ''params_constraints'') = Inr None"
  "per_min_of (compile_tool (JObj []) ''messages.send'') = Inr None"
  "fst (check_rate (rx_instance_id (example_step_context [''nurture''])) ''messages.send'' None (rd_now redis_empty) redis_empty)"
  "budget_breach (case map_of (rx_manifest (example_step_context [''nurture''])) ''budgets'' of None \<Rightarrow> JObj [] | Some b \<Rightarrow> b) = None"
  "fst (commercial_denial (example_plan_platform [''nurture'']) (example_step_context [''nurture'']) ''messages.send'' (set_org_context 7 example_worker_db)) = None"
  by code_simp+

lemma example_step_send:
  "pv_calls (provider (snd (messages_send (pf_crypto (example_plan_platform [''nurture'']))
     \<lparr>wi_decrypt = example_decrypt, wi_client = example_client\<rparr> (example_step_context [''nurture'']) example_step_params
     (snd (audit_call (example_plan_platform [''nurture'']) (example_step_context [''nurture'']) ''tool.messages.send:intent''
        (JObj [(''params'', redact example_step_params)]) (set_org_context 7 example_worker_db)))))) \<noteq> []"
  "pv_calls (provider example_worker_db) = []"
  by code_simp+

lemma example_step_call:
  "pv_calls (provider (fst (snd (run_tool (example_worker_engine [''nurture'']) 7 71 example_tool_call example_act [''messages.send'']
     (example_worker_db, redis_empty))))) \<noteq> []"
proof -
  let ?pf = "example_plan_platform [''nurture'']" and ?ctx = "example_step_context [''nurture'']"
  let ?R = "REGISTRY (pf_crypto ?pf) \<lparr>wi_decrypt = example_decrypt, wi_client = example_client\<rparr> (\<lambda>_ _. not_wired) ?ctx"
  let ?w = "(set_org_context 7 example_worker_db, redis_empty)"
  have ctx: "rx_org_id ?ctx = 7" "rx_approved ?ctx = [''messages.send'']" "tool_context ?pf 7 71 example_principal [''messages.send''] = ?ctx"
    by (simp_all add: example_step_context_def tool_context_def)
  obtain rd1 where rd1: "check_rate (rx_instance_id ?ctx) ''messages.send'' None (rd_now redis_empty) redis_empty = (True, rd1)"
    using example_step_gates(8) by (metis prod.collapse)
  have den: "commercial_denial ?pf ?ctx ''messages.send'' (set_org_context 7 example_worker_db) = (None, set_org_context 7 example_worker_db)"
    using example_step_gates(10) commercial_denial_state [of ?pf ?ctx "''messages.send''" "set_org_context 7 example_worker_db"] ctx(1)
    by (metis prod.collapse set_org_context_idem)
  have "call ?pf ?R None ?ctx ''messages.send'' example_step_params ?w =
      authorise_and_execute ?pf ?R ?ctx ''messages.send'' example_step_params (set_org_context 7 example_worker_db, rd1)"
    using rd1 ctx(2) example_step_gates(3)
    by (auto simp: call_def gated_def budget_step_def tier_step_def example_step_gates(1,2,4-7,9))
  also have "\<dots> = execute_tool ?pf ?R ?ctx ''messages.send'' example_step_params (set_org_context 7 example_worker_db, rd1)"
    by (simp add: authorise_and_execute_def den)
  finally have call: "call ?pf ?R None ?ctx ''messages.send'' example_step_params ?w = \<dots>" .
  have "mediated (example_worker_engine [''nurture'']) ?ctx ''messages.send'' [(''body'', JStr ''Hello''), (''conversation_id'', JStr ''6'')] ?w
      = execute_tool ?pf ?R ?ctx ''messages.send'' example_step_params (set_org_context 7 example_worker_db, rd1)"
    using call by (simp add: mediated_def example_worker_engine_def example_engine_def example_step_params_def)
  moreover have "pv_calls (provider (fst (snd (execute_tool ?pf ?R ?ctx ''messages.send'' example_step_params
      (set_org_context 7 example_worker_db, rd1))))) \<noteq> []"
    using example_step_send(1) by (auto simp: execute_tool_def REGISTRY_def on_session_def case_prod_beta split: sum.split)
  moreover have "\<exists>r. fst (execute_tool ?pf ?R ?ctx ''messages.send'' example_step_params (set_org_context 7 example_worker_db, rd1)) = Inr r"
    by (auto simp: execute_tool_def REGISTRY_def on_session_def case_prod_beta split: sum.split)
  moreover have "en_platform (example_worker_engine [''nurture'']) = ?pf" "tc_name example_tool_call = ''messages.send''"
    by (simp_all add: example_worker_engine_def example_tool_call_def)
  ultimately show ?thesis
    using example_step_inputs example_step_principal ctx(3)
    by (auto simp: run_tool_def case_prod_beta split: prod.split)
qed


end
