(* ===== verification/Waits.thy ===== *)
theory Waits
  imports Progress Once
begin

text \<open>
  Durable waits and what wakes them (\<open>core/workflows/waits.py\<close>), and the consumers that turn inbound
  messages and resolved approvals into wakes and resumes (\<open>core/workflows/consumer.py\<close>). A signal claims
  its subscriptions in one update and wakes their runs after that has committed; the claim is an
  instance of \<open>once_claim\<close>.
\<close>

text \<open>\<open>UPDATE ... SET status = :ns WHERE status = 'pending' AND ... RETURNING run_id\<close>\<close>

definition claim_waits :: "(wait_row \<Rightarrow> bool) \<Rightarrow> string \<Rightarrow> 'a wf_db_scheme \<Rightarrow> uuid list \<times> 'a wf_db_scheme" where
  "claim_waits p new_status s =
     (let q = (\<lambda>r. rls_visible s (ws_org_id r) \<and> ws_status r = ''pending'' \<and> p r)
      in (map ws_run_id (filter q (wait_subscriptions s)),
          s\<lparr>wait_subscriptions := update_where q (\<lambda>r. r\<lparr>ws_status := new_status\<rparr>) (wait_subscriptions s)\<rparr>))"

text \<open>\<open>correlation ->> key\<close>\<close>

definition arrow_text :: "jobj \<Rightarrow> string \<Rightarrow> string option" where
  "arrow_text d k = (case map_of d k of None \<Rightarrow> None | Some JNull \<Rightarrow> None | Some (JStr t) \<Rightarrow> Some t | Some v \<Rightarrow> Some (jprint v))"

definition reply_wait :: "uuid \<Rightarrow> wait_row \<Rightarrow> bool" where
  "reply_wait conv r \<longleftrightarrow> ws_wait_for r = ''reply'' \<and> arrow_text (ws_correlation r) ''conversation_id'' = Some (nat_str conv)"

definition event_wait :: "string \<Rightarrow> wait_row \<Rightarrow> bool" where
  "event_wait event_type r \<longleftrightarrow> ws_wait_for r = ''event'' \<and> arrow_text (ws_correlation r) ''event_type'' = Some event_type"

definition due_wait :: "time \<Rightarrow> wait_row \<Rightarrow> bool" where
  "due_wait t r \<longleftrightarrow> ws_wait_for r = ''duration'' \<and> (case ws_fire_at r of None \<Rightarrow> False | Some f \<Rightarrow> f \<le> t)"

definition overdue_wait :: "time \<Rightarrow> wait_row \<Rightarrow> bool" where
  "overdue_wait t r \<longleftrightarrow> ws_wait_for r \<in> {''reply'', ''event''} \<and> (case ws_timeout_at r of None \<Rightarrow> False | Some f \<Rightarrow> f \<le> t)"

text \<open>The runs are woken one after the other; an exception leaves the rest unwoken.\<close>

fun wake_all :: "'a wf_db_scheme engine \<Rightarrow> nat \<Rightarrow> uuid \<Rightarrow> (uuid \<times> string) list \<Rightarrow> 'a wf_db_scheme \<times> redis
    \<Rightarrow> run_end \<times> 'a wf_db_scheme \<times> redis" where
  "wake_all en fuel org [] w = (Finished, w)"
| "wake_all en fuel org ((run, result) # rs) w =
     (case wake_run en fuel org run result w of ((_, e), w1) \<Rightarrow>
        if e = Finished then wake_all en fuel org rs w1 else (e, w1))"

definition match_signal :: "'a wf_db_scheme engine \<Rightarrow> nat \<Rightarrow> uuid \<Rightarrow> (wait_row \<Rightarrow> bool) \<Rightarrow> string \<Rightarrow> 'a wf_db_scheme \<times> redis
    \<Rightarrow> (nat \<times> run_end) \<times> 'a wf_db_scheme \<times> redis" where
  "match_signal en fuel org p result w =
     (case claim_waits p ''matched'' (set_org_context org (fst w)) of (runs, s1) \<Rightarrow>
      case wake_all en fuel org (map (\<lambda>r. (r, result)) runs) (s1, snd w) of (e, w2) \<Rightarrow> ((length runs, e), w2))"

definition match_reply :: "'a wf_db_scheme engine \<Rightarrow> nat \<Rightarrow> uuid \<Rightarrow> uuid \<Rightarrow> 'a wf_db_scheme \<times> redis
    \<Rightarrow> (nat \<times> run_end) \<times> 'a wf_db_scheme \<times> redis" where
  "match_reply en fuel org conv = match_signal en fuel org (reply_wait conv) ''reply''"

definition match_event :: "'a wf_db_scheme engine \<Rightarrow> nat \<Rightarrow> uuid \<Rightarrow> string \<Rightarrow> 'a wf_db_scheme \<times> redis
    \<Rightarrow> (nat \<times> run_end) \<times> 'a wf_db_scheme \<times> redis" where
  "match_event en fuel org event_type = match_signal en fuel org (event_wait event_type) ''event''"

text \<open>One tenant's part of the sweep: what fires and what times out, in one transaction.\<close>

definition sweep_claims :: "uuid \<Rightarrow> 'a wf_db_scheme \<Rightarrow> (uuid \<times> string) list \<times> 'a wf_db_scheme" where
  "sweep_claims org s0 =
     (let s = set_org_context org s0 in
      case claim_waits (due_wait (now s)) ''matched'' s of (fired, s1) \<Rightarrow>
      case claim_waits (overdue_wait (now s)) ''expired'' s1 of (expired, s2) \<Rightarrow>
        (map (\<lambda>r. (r, ''duration'')) fired @ map (\<lambda>r. (r, ''timeout'')) expired, s2))"

fun sweep_orgs :: "'a wf_db_scheme engine \<Rightarrow> nat \<Rightarrow> uuid list \<Rightarrow> 'a wf_db_scheme \<times> redis
    \<Rightarrow> run_end \<times> 'a wf_db_scheme \<times> redis" where
  "sweep_orgs en fuel [] w = (Finished, w)"
| "sweep_orgs en fuel (org # orgs) w =
     (case sweep_claims org (fst w) of (fired, s1) \<Rightarrow>
      case wake_all en fuel org fired (s1, snd w) of (e, w1) \<Rightarrow>
        if e = Finished then sweep_orgs en fuel orgs w1 else (e, w1))"

definition sweep_waits :: "'a wf_db_scheme engine \<Rightarrow> nat \<Rightarrow> 'a wf_db_scheme \<times> redis \<Rightarrow> run_end \<times> 'a wf_db_scheme \<times> redis" where
  "sweep_waits en fuel w = sweep_orgs en fuel (map or_id (organizations (fst w))) w"

subsection \<open>The consumers\<close>

definition envelope_data :: "json \<Rightarrow> json" where
  "envelope_data env = (let d = jget_null env ''data'' in if truthy d then d else JObj [])"

definition on_msg_received :: "'a wf_db_scheme engine \<Rightarrow> nat \<Rightarrow> json \<Rightarrow> 'a wf_db_scheme \<times> redis
    \<Rightarrow> run_end \<times> 'a wf_db_scheme \<times> redis" where
  "on_msg_received en fuel env w =
     (case py_uuid (jget_null env ''subject'') of
        Inl _ \<Rightarrow> (Raised BadUuid, w)
      | Inr org \<Rightarrow>
          (let c = jget_null (envelope_data env) ''conversation_id'' in
           if \<not> truthy c then (Finished, w)
           else (case py_uuid c of
               Inl _ \<Rightarrow> (Raised BadUuid, w)
             | Inr conv \<Rightarrow> (case match_reply en fuel org conv w of ((_, e), w1) \<Rightarrow> (e, w1)))))"

text \<open>
  The two consumers of resolved approvals. The verdict comes from the event, the run and the tool from
  the payload of the approval.
\<close>

definition resolved_approval :: "string \<Rightarrow> uuid \<Rightarrow> uuid \<Rightarrow> 'a wf_db_scheme \<Rightarrow> json option" where
  "resolved_approval action org i s0 =
     (let s = set_org_context org s0 in
      case find (\<lambda>r. rls_visible s (ar_org_id r) \<and> ar_id r = i) (approvals s) of
        None \<Rightarrow> None
      | Some r \<Rightarrow> if ar_action_type r = action then Some (ar_payload r) else None)"

definition on_resolved :: "string \<Rightarrow> (uuid \<Rightarrow> uuid \<Rightarrow> string \<Rightarrow> json \<Rightarrow> 'a wf_db_scheme \<times> redis \<Rightarrow> (bool \<times> run_end) \<times> 'a wf_db_scheme \<times> redis)
    \<Rightarrow> json \<Rightarrow> 'a wf_db_scheme \<times> redis \<Rightarrow> run_end \<times> 'a wf_db_scheme \<times> redis" where
  "on_resolved action resume env w =
     (case py_uuid (jget_null env ''subject'') of
        Inl _ \<Rightarrow> (Raised BadUuid, w)
      | Inr org \<Rightarrow>
          (let data = envelope_data env; a = jget_null data ''approval_id'' in
           if \<not> truthy a then (Finished, w)
           else (case py_uuid a of
               Inl _ \<Rightarrow> (Raised BadUuid, w)
             | Inr i \<Rightarrow>
                 (case resolved_approval action org i (fst w) of
                    None \<Rightarrow> (Finished, w)
                  | Some payload \<Rightarrow>
                      (let r = jget_null payload ''workflow_run_id'' in
                       if \<not> truthy r then (Finished, w)
                       else (case py_uuid r of
                           Inl _ \<Rightarrow> (Raised BadUuid, w)
                         | Inr run \<Rightarrow>
                             (case resume org run (if jget_null data ''decision'' = JStr ''approved'' then ''approved'' else ''rejected'')
                                     payload w of ((_, e), w1) \<Rightarrow> (e, w1))))))))"

definition on_approval_resolved :: "'a wf_db_scheme engine \<Rightarrow> nat \<Rightarrow> json \<Rightarrow> 'a wf_db_scheme \<times> redis
    \<Rightarrow> run_end \<times> 'a wf_db_scheme \<times> redis" where
  "on_approval_resolved en fuel =
     on_resolved WORKFLOW_HUMAN_ACTION (\<lambda>org run decision payload. resume_human en fuel org run decision)"

definition on_tool_approval_resolved :: "'a wf_db_scheme engine \<Rightarrow> nat \<Rightarrow> json \<Rightarrow> 'a wf_db_scheme \<times> redis
    \<Rightarrow> run_end \<times> 'a wf_db_scheme \<times> redis" where
  "on_tool_approval_resolved en fuel =
     on_resolved WORKFLOW_TOOL_ACTION (\<lambda>org run decision payload. resume_tool en fuel org run decision
       (case jget_null payload ''tool'' of JStr t \<Rightarrow> Some t | _ \<Rightarrow> None))"

subsection \<open>A subscription is claimed once\<close>

text \<open>
  One subscription's part of a claim: it is won when the subscription is among the claimed rows.
  \<open>no_rearm\<close> is what the rest of the system does to the table: no settled subscription becomes pending.
\<close>

definition wait_settled :: "uuid \<Rightarrow> 'a wf_db_scheme \<Rightarrow> bool" where
  "wait_settled i s \<longleftrightarrow> (\<exists>r \<in> set (wait_subscriptions s). ws_id r = i) \<and>
     (\<forall>r \<in> set (wait_subscriptions s). ws_id r = i \<longrightarrow> ws_status r \<noteq> ''pending'')"

definition claim_one :: "uuid \<times> (wait_row \<Rightarrow> bool) \<times> bool \<Rightarrow> 'a wf_db_scheme \<Rightarrow> bool \<times> 'a wf_db_scheme" where
  "claim_one k s = (case k of (i, p, expired) \<Rightarrow>
     (list_ex (\<lambda>r. ws_id r = i \<and> rls_visible s (ws_org_id r) \<and> ws_status r = ''pending'' \<and> p r) (wait_subscriptions s),
      snd (claim_waits p (if expired then ''expired'' else ''matched'') s)))"

definition waits_ok :: "'a wf_db_scheme \<Rightarrow> bool" where
  "waits_ok s \<longleftrightarrow> distinct (map ws_id (wait_subscriptions s))"

definition no_rearm :: "('a wf_db_scheme \<Rightarrow> 'a wf_db_scheme) \<Rightarrow> bool" where
  "no_rearm f \<longleftrightarrow> (\<forall>s. waits_ok s \<longrightarrow> waits_ok (f s) \<and> (\<forall>i. wait_settled i s \<longrightarrow> wait_settled i (f s)))"

lemma claim_waits_ids [simp]: "map ws_id (wait_subscriptions (snd (claim_waits p st s))) = map ws_id (wait_subscriptions s)"
  by (simp add: claim_waits_def Let_def map_update_where)

lemma claim_waits_settled:
  assumes "st \<noteq> ''pending''" and "wait_settled i s"
  shows "wait_settled i (snd (claim_waits p st s))"
  using assms by (auto simp: wait_settled_def claim_waits_def Let_def set_update_where)

lemma unique_wait:
  "distinct (map ws_id rows) \<Longrightarrow> r \<in> set rows \<Longrightarrow> r2 \<in> set rows \<Longrightarrow> ws_id r = ws_id r2 \<Longrightarrow> r = r2"
  by (metis distinct_map inj_onD)

lemma claim_one_settles:
  assumes "waits_ok s" and "claim_one k s = (True, s1)"
  shows "wait_settled (fst k) s1"
proof -
  obtain i p e where k: "k = (i, p, e)" by (cases k)
  let ?st = "if e then ''expired'' else ''matched''"
  from assms(2) k obtain r where r: "r \<in> set (wait_subscriptions s)" "ws_id r = i" "rls_visible s (ws_org_id r)"
      "ws_status r = ''pending''" "p r" and s1: "s1 = snd (claim_waits p ?st s)"
    by (auto simp: claim_one_def list_ex_iff)
  have "ws_status x \<noteq> ''pending''" if "x \<in> set (wait_subscriptions s1)" "ws_id x = i" for x
  proof -
    from that(1) obtain y where y: "y \<in> set (wait_subscriptions s)"
        "x = (if rls_visible s (ws_org_id y) \<and> ws_status y = ''pending'' \<and> p y then y\<lparr>ws_status := ?st\<rparr> else y)"
      by (auto simp: s1 claim_waits_def Let_def update_where_def)
    then have "ws_id y = i" using that(2) by (simp split: if_splits)
    with unique_wait [of "wait_subscriptions s" y r] assms(1) y(1) r(1,2) have "y = r" by (simp add: waits_ok_def)
    with y(2) r show ?thesis by simp
  qed
  moreover have "i \<in> set (map ws_id (wait_subscriptions s1))" unfolding s1 claim_waits_ids using r(1,2) by auto
  then have "\<exists>x \<in> set (wait_subscriptions s1). ws_id x = i" by auto
  ultimately show ?thesis by (simp add: wait_settled_def k)
qed

lemma claim_one_facts:
  assumes "waits_ok s" and c: "claim_one k s = (b, s1)"
  shows "waits_ok s1" "wait_settled j s \<Longrightarrow> wait_settled j s1" "b \<Longrightarrow> \<not> wait_settled (fst k) s"
proof -
  obtain i p e where k: "k = (i, p, e)" by (cases k)
  have s1: "s1 = snd (claim_waits p (if e then ''expired'' else ''matched'') s)" using c k by (simp add: claim_one_def)
  show "waits_ok s1" using assms(1) by (simp add: s1 waits_ok_def)
  show "wait_settled j s \<Longrightarrow> wait_settled j s1" unfolding s1 by (rule claim_waits_settled) (simp_all split: if_splits)
  show "b \<Longrightarrow> \<not> wait_settled (fst k) s" using c k by (auto simp: claim_one_def wait_settled_def list_ex_iff)
qed

interpretation wait_once: once_claim claim_one wait_settled fst waits_ok no_rearm
proof
  show "waits_ok s \<Longrightarrow> claim_one k s = (True, s') \<Longrightarrow> \<not> wait_settled (fst k) s" for k and s s' :: "'a wf_db_scheme"
    using claim_one_facts(3) by blast
  show "waits_ok s \<Longrightarrow> claim_one k s = (True, s') \<Longrightarrow> wait_settled (fst k) s'" for k and s s' :: "'a wf_db_scheme"
    by (rule claim_one_settles)
  show "waits_ok s \<Longrightarrow> claim_one k s = (w, s') \<Longrightarrow> wait_settled i s \<Longrightarrow> wait_settled i s'" for k w i and s s' :: "'a wf_db_scheme"
    using claim_one_facts(2) by blast
  show "waits_ok s \<Longrightarrow> claim_one k s = (w, s') \<Longrightarrow> waits_ok s'" for k w and s s' :: "'a wf_db_scheme"
    using claim_one_facts(1) by blast
qed (simp_all add: no_rearm_def)

text \<open>Steps that only add subscriptions with new identifiers are among the rest of the system.\<close>

lemma add_wait_no_rearm:
  fixes f :: "'a wf_db_scheme \<Rightarrow> 'a wf_db_scheme"
  assumes "\<And>s. \<exists>new. wait_subscriptions (f s) = wait_subscriptions s @ new \<and> distinct (map ws_id new) \<and>
      (\<forall>r \<in> set new. \<forall>x \<in> set (wait_subscriptions s). ws_id r \<noteq> ws_id x)"
  shows "no_rearm f"
  unfolding no_rearm_def
proof (intro allI impI conjI)
  fix s :: "'a wf_db_scheme"
  assume ok: "waits_ok s"
  obtain new where n: "wait_subscriptions (f s) = wait_subscriptions s @ new" "distinct (map ws_id new)"
      "\<forall>r \<in> set new. \<forall>x \<in> set (wait_subscriptions s). ws_id r \<noteq> ws_id x" using assms by blast
  then show "waits_ok (f s)" using ok by (fastforce simp: waits_ok_def)
  show "wait_settled i (f s)" if "wait_settled i s" for i
    using that n(1,3) by (fastforce simp: wait_settled_def)
qed


definition example_wait :: wait_row where
  "example_wait = \<lparr>ws_id = 80, ws_org_id = 7, ws_run_id = 71, ws_step_id = ''i4'', ws_wait_for = ''reply'',
     ws_correlation = [(''conversation_id'', JStr ''6'')], ws_fire_at = None, ws_timeout_at = Some 50, ws_status = ''pending''\<rparr>"

definition example_parked_db :: wf_db where
  "example_parked_db = example_wf_db\<lparr>wait_subscriptions := [example_wait], org_ctx := Some 7\<rparr>"


text \<open>A duplicate wake or decision, or one for a run that has ended, resumes nothing.\<close>

theorem stale_signal_ignored:
  assumes "\<And>r d. load_run org run (set_org_context org (fst w)) = Some (r, d) \<Longrightarrow> wr_status r \<noteq> ''waiting''"
  shows "wake_run en fuel org run result w = ((False, Finished), set_org_context org (fst w), snd w) \<and>
    resume_human en fuel org run decision w = ((False, Finished), set_org_context org (fst w), snd w) \<and>
    resume_tool en fuel org run decision tool w = ((False, Finished), set_org_context org (fst w), snd w)"
proof -
  have "waiting_run org run (set_org_context org (fst w)) = None"
    using assms by (auto simp: waiting_run_def split: option.split)
  then show ?thesis
    by (simp add: wake_run_def wake_session_def resume_human_def human_session_def resume_tool_def tool_session_def
        after_decision_def Let_def)
qed

text \<open>
  A rejected decision leaves the run \<open>waiting\<close> until its compensation has finished: a second delivery of
  the decision in between is not recognised as a duplicate.
\<close>

lemma rejection_stays_waiting:
  assumes "org_ctx s = Some org" and "decision \<noteq> ''approved''" and "human_session org run decision s = (True, s1)"
  shows "fst (human_session org run decision s1)"
proof -
  have [simp]: "set_org_context org s = s" using assms(1) by (simp add: set_org_context_def)
  obtain r where r: "waiting_run org run s = Some r" using assms(3) by (auto simp: human_session_def Let_def split: option.splits)
  then obtain d where l: "load_run org run s = Some (r, d)" "wr_status r = ''waiting''"
    by (auto simp: waiting_run_def split: option.splits if_splits)
  let ?f = "\<lambda>x. x\<lparr>wr_vars := dict_put ''human'' (JObj [(''decision'', JStr decision)]) (wr_vars r),
             wr_status := ''waiting'', wr_cursor := wr_cursor r, wr_updated_at := now s\<rparr>"
  have s1: "s1 = append_event org run ''human_resolved'' None [(''decision'', JStr decision)] (set_run org run ?f s)"
    using assms(2,3) r by (auto simp: human_session_def Let_def)
  have ctx: "org_ctx s1 = Some org" using assms(1) by (simp add: s1)
  have row: "run_row org run s = Some r" "map_option wd_dsl (def_row org (wr_definition_id r) s) = Some d"
    using l(1) assms(1) by (auto simp: load_run_ctx split: option.splits)
  have "run_row org run s1 = Some (?f r)" using row(1) by (simp add: s1 run_row_set_run [OF assms(1)])
  moreover have "def_row org (wr_definition_id r) s1 = def_row org (wr_definition_id r) s"
    by (simp add: s1 def_row_def set_run_def append_event_def)
  ultimately have "waiting_run org run s1 = Some (?f r)"
    using row(2) by (auto simp: waiting_run_def load_run_ctx [OF ctx])
  moreover have "set_org_context org s1 = s1" using ctx by (simp add: set_org_context_def)
  ultimately show ?thesis by (simp add: human_session_def Let_def)
qed

end
