(* ===== verification/Concurrency.thy ===== *)
theory Concurrency
  imports Progress
begin

text \<open>
  Runs of one definition that share a concurrency key (\<open>_apply_concurrency\<close>, \<open>start_run\<close> and
  \<open>_promote_next\<close> of \<open>core/workflows/executor.py\<close>). The transaction that admits a run keeps at most one
  live run per key under each of the three policies of the DSL. Two behaviours escape the policy: the
  promotion of a queued run is a transaction after the one that completed its predecessor, so a run
  admitted in between is live beside it; and a run that is compensated promotes nobody.
\<close>

definition live_on :: "uuid \<Rightarrow> uuid \<Rightarrow> string \<Rightarrow> workflow_run_row \<Rightarrow> bool" where
  "live_on org d k r \<longleftrightarrow> wr_org_id r = org \<and> wr_definition_id r = d \<and> wr_concurrency_key r = Some k \<and> is_live r"

definition live_count :: "uuid \<Rightarrow> uuid \<Rightarrow> string \<Rightarrow> 'a wf_db_scheme \<Rightarrow> nat" where
  "live_count org d k s = length (filter (live_on org d k) (workflow_runs s))"

lemma live_runs_ctx: "org_ctx s = Some org \<Longrightarrow> live_runs org d k s = filter (live_on org d k) (workflow_runs s)"
  unfolding live_runs_def by (rule filter_cong) (auto simp: live_on_def rls_visible_def)

lemma live_count_append [simp]: "live_count org d k (append_event o1 r1 kd sd dt s) = live_count org d k s"
  by (simp add: live_count_def)

lemma supersede_runs:
  "org_ctx s = Some org \<Longrightarrow> org_ctx (supersede org run s) = Some org"
  "org_ctx s = Some org \<Longrightarrow> workflow_runs (supersede org run s) = update_where (\<lambda>r. wr_id r = run \<and> wr_org_id r = org)
     (\<lambda>r. r\<lparr>wr_cursor := 0, wr_status := ''superseded'', wr_updated_at := now s, wr_completed_at := Some (now s)\<rparr>) (workflow_runs s)"
  by (simp_all add: supersede_def set_cursor_def set_run_def own_run_ctx DONE_STATUSES_def)

lemma supersede_all:
  assumes "org_ctx s = Some org"
  shows "org_ctx (fold (supersede org) runs s) = Some org \<and>
    (\<forall>r \<in> set (workflow_runs (fold (supersede org) runs s)). live_on org d k r \<longrightarrow>
       (r \<in> set (workflow_runs s) \<and> wr_id r \<notin> set runs))"
  using assms
proof (induction runs arbitrary: s)
  case (Cons x runs)
  let ?s = "supersede org x s"
  have ctx: "org_ctx ?s = Some org" using supersede_runs(1) [OF Cons.prems] .
  have one: "r \<in> set (workflow_runs s) \<and> wr_id r \<noteq> x" if "r \<in> set (workflow_runs ?s)" "live_on org d k r" for r
  proof -
    let ?p = "\<lambda>r. wr_id r = x \<and> wr_org_id r = org"
    let ?f = "\<lambda>r. r\<lparr>wr_cursor := 0, wr_status := ''superseded'', wr_updated_at := now s, wr_completed_at := Some (now s)\<rparr>"
    from that(1) have "r \<in> {r \<in> set (workflow_runs s). \<not> ?p r} \<union> ?f ` {r \<in> set (workflow_runs s). ?p r}"
      by (simp only: supersede_runs(2) [OF Cons.prems] set_update_where)
    then consider "r \<in> set (workflow_runs s)" "\<not> ?p r" | r0 where "r = ?f r0" by blast
    then show ?thesis using that(2) by cases (simp_all add: live_on_def is_live_def)
  qed
  have rest: "org_ctx (fold (supersede org) runs ?s) = Some org"
    "\<And>r. r \<in> set (workflow_runs (fold (supersede org) runs ?s)) \<Longrightarrow> live_on org d k r \<Longrightarrow> r \<in> set (workflow_runs ?s) \<and> wr_id r \<notin> set runs"
    using Cons.IH [OF ctx] by blast+
  show ?case
  proof (intro conjI ballI impI)
    show "org_ctx (fold (supersede org) (x # runs) s) = Some org" using rest(1) by simp
    fix r assume r: "r \<in> set (workflow_runs (fold (supersede org) (x # runs) s))" "live_on org d k r"
    then have "r \<in> set (workflow_runs ?s) \<and> wr_id r \<notin> set runs" using rest(2) by simp
    with one r(2) show "r \<in> set (workflow_runs s)" "wr_id r \<notin> set (x # runs)" by auto
  qed
qed simp

text \<open>
  C14: a key has one live run. Admitting a run under a \<open>drop\<close>, \<open>queue\<close> or \<open>replace\<close> policy keeps the number
  of running or waiting runs of the definition on that key at most one: the new run is skipped, queued,
  or started after every live one was superseded.
\<close>

theorem one_live_run:
  assumes dsl: "dl_concurrency dsl = Some (expr, policy)" "policy \<in> {''drop'', ''queue'', ''replace''}"
    and key: "concurrency_key cel dsl subject = Some k"
    and one: "live_count org d k s \<le> 1"
  shows "live_count org d k (snd (admit_run cel org d v dsl subject s)) \<le> 1"
proof -
  let ?s = "set_org_context org s"
  have ctx: "org_ctx ?s = Some org" by simp
  have runs: "workflow_runs ?s = workflow_runs s" by (simp add: set_org_context_def)
  have live: "live_runs org d k ?s = filter (live_on org d k) (workflow_runs s)" using live_runs_ctx [OF ctx] runs by simp
  have ins: "live_count org d k (snd (insert_run org d v (Some k) subject st t)) =
      live_count org d k t + (if st \<in> {''running'', ''waiting''} then 1 else 0)" for st and t :: "'a wf_db_scheme"
    by (auto simp: insert_run_def live_count_def live_on_def is_live_def)
  show ?thesis
  proof (cases "live_runs org d k ?s = []")
    case True
    then have "live_count org d k ?s = 0" using live runs by (simp add: live_count_def)
    with dsl key ins [of "''running''" ?s] True show ?thesis
      by (simp add: admit_run_def apply_concurrency_def Let_def case_prod_beta)
  next
    case False
    from dsl(2) consider "policy = ''drop''" | "policy = ''queue''" | "policy = ''replace''" by blast
    then show ?thesis
    proof cases
      case 1
      with dsl key False one runs show ?thesis
        by (simp add: admit_run_def apply_concurrency_def Let_def live_count_def)
    next
      case 2
      with dsl key False one ins [of "''queued''" ?s] runs show ?thesis
        by (simp add: admit_run_def apply_concurrency_def Let_def case_prod_beta live_count_def)
    next
      case 3
      let ?t = "fold (supersede org) (map wr_id (live_runs org d k ?s)) ?s"
      have "\<not> live_on org d k r" if "r \<in> set (workflow_runs ?t)" for r
        using supersede_all [OF ctx, of "map wr_id (live_runs org d k ?s)" d k] that live runs by auto
      then have "live_count org d k ?t = 0" by (simp add: live_count_def filter_empty_conv)
      with 3 dsl key False ins [of "''running''" ?t] show ?thesis
        by (simp add: admit_run_def apply_concurrency_def Let_def case_prod_beta)
    qed
  qed
qed

definition example_cel :: wf_cel where
  "example_cel expr act = (if expr = ''subject.id'' then Some (JStr ''k'') else None)"

theorem one_live_run_witness:
  "live_count 7 70 ''k'' (snd (admit_run example_cel 7 70 1 (wd_dsl example_definition) [] example_wf_db)) \<le> 1"
  by (rule one_live_run [where expr = "''subject.id''" and policy = "''queue''"])
    (simp_all add: example_definition_def concurrency_key_def example_cel_def live_count_def live_on_def is_live_def
      example_workflow_run_def py_str_def)

text \<open>
  The promotion of a queued run races with an admission. Run 71 is live on the key and run 72 queued
  behind it. 71 completes; before the executor's next transaction promotes 72, a new run is admitted,
  finds nobody live and starts; 72 is then promoted beside it, and the key has two live runs although
  its policy is \<open>queue\<close>.
\<close>

theorem promotion_races_admission:
  "let dsl = wd_dsl example_definition;
       s0 = example_wf_db\<lparr>workflow_runs := [(example_workflow_run 71 ''running'')\<lparr>wr_cursor := 6\<rparr>, example_workflow_run 72 ''queued'']\<rparr>;
       (completed, s1) = advance_step example_cel 7 71 s0;
       (admitted, s2) = admit_run example_cel 7 70 1 dsl [] s1;
       (promoted, s3) = promote_next 7 70 (Some ''k'') s2
   in live_count 7 70 ''k'' s0 = 1 \<and> completed = Promote 70 (Some ''k'') \<and> map_option fst admitted = Some ''start'' \<and>
      promoted = Some 72 \<and> live_count 7 70 ''k'' s3 = 2"
  by code_simp

text \<open>
  A run that fails leaves its queue standing. Compensating a run changes no other run's row, so the
  runs queued behind it on the key stay queued: only a completed run promotes its successor.
\<close>

theorem compensation_promotes_nobody:
  assumes "engine_frame en" and "run_row org run (fst w) = Some r" and "def_row org (wr_definition_id r) (fst w) = Some d"
    and "run_row org q (fst w) = Some x" and "q \<noteq> run"
  shows "run_row org q (fst (snd (compensate en org run reason w))) = Some x"
proof -
  obtain e w1 where c: "compensate en org run reason w = (e, w1)" by (meson surj_pair)
  obtain f where f: "row_update f"
      "workflow_runs (fst w1) = update_where (\<lambda>r. wr_id r = run \<and> wr_org_id r = org) f (workflow_runs (fst w))"
    using compensate_result(1) [OF assms(1-3) c] unfolding touches_def by blast
  have "run_row org q (fst w1) = map_option (\<lambda>r. if wr_id r = run \<and> wr_org_id r = org then f r else r) (run_row org q (fst w))"
    unfolding run_row_def f(2) by (rule find_update_where) (simp add: row_update_same [OF f(1)])
  moreover have "wr_id x = q" using assms(4) find_Some_set unfolding run_row_def by fast
  ultimately show ?thesis using assms(4,5) c by simp
qed

theorem compensation_promotes_nobody_witness:
  "map_option wr_status (run_row 7 72 (fst (snd (compensate example_engine 7 71 ''agent failed'' (example_wf_db, redis_empty))))) = Some ''queued''"
proof -
  have "run_row 7 72 (fst (example_wf_db, redis_empty)) = Some (example_workflow_run 72 ''queued'')"
    by (simp add: run_row_def example_workflow_run_def)
  with compensation_promotes_nobody [OF example_engine_frame, of 7 71 "(example_wf_db, redis_empty)"] example_rows
  have "run_row 7 72 (fst (snd (compensate example_engine 7 71 ''agent failed'' (example_wf_db, redis_empty)))) = Some (example_workflow_run 72 ''queued'')"
    by (simp add: example_workflow_run_def)
  then show ?thesis by (simp add: example_workflow_run_def)
qed

end
