(* ===== verification/Guards.thy ===== *)
theory Guards
  imports Workflows
begin

text \<open>
  The guards of a workflow (\<open>core/workflows/guards.py\<close>): references as they are written and stored,
  the seven predicates over a tenant's state, and the evaluation of a list of them. A predicate that
  needs a contact it was not given blocks.

  The lemmas show that the guards a definition stores are read back as the guards it declared, and
  that the injection of a mandated guard cannot be evaded.
\<close>

subsection \<open>Tables\<close>

text \<open>\<open>bc_period_month\<close> is the year and month of the first day the column holds.\<close>

record charge_row =
  bc_org_id :: uuid
  bc_period_month :: "int \<times> int"
  bc_amount_minor :: int

record flow_db = wf_db +
  billing_charges :: "charge_row list"

subsection \<open>References\<close>

definition GUARD_NAMES :: "string list" where
  "GUARD_NAMES = [''consent_valid'', ''not_suppressed'', ''within_send_window'', ''touch_cap'',
     ''budget_ok'', ''flag_on'', ''tier_max'']"

record GuardRef =
  gr_name :: string
  gr_args :: "string list"

definition comma_sep :: "string list \<Rightarrow> string" where
  "comma_sep xs = (case xs of [] \<Rightarrow> [] | y # ys \<Rightarrow> y @ concat (map (\<lambda>z. '', '' @ z) ys))"

definition render_guard :: "GuardRef \<Rightarrow> string" where
  "render_guard g = (if gr_args g = [] then gr_name g else gr_name g @ ''('' @ comma_sep (gr_args g) @ '')'')"

definition is_name_char :: "char \<Rightarrow> bool" where
  "is_name_char c \<longleftrightarrow> c = CHR ''_'' \<or> (97 \<le> (of_char c :: nat) \<and> (of_char c :: nat) \<le> 122)"

definition py_rstrip :: "string \<Rightarrow> string" where
  "py_rstrip s = rev (dropWhile is_space (rev s))"

text \<open>
  \<open>^\s*([a-z_]+)\s*(?:\((?P<args>.*)\))?\s*$\<close>: the name and the text between the first parenthesis and
  the last one, which has no line break.
\<close>

definition match_guard :: "string \<Rightarrow> (string \<times> string option) option" where
  "match_guard expr =
     (let s = dropWhile is_space expr;
          name = takeWhile is_name_char s;
          rest = py_strip (dropWhile is_name_char s)
      in if name = [] then None
         else (case rest of
             [] \<Rightarrow> Some (name, None)
           | c # cs \<Rightarrow> if c = CHR ''('' \<and> cs \<noteq> [] \<and> last cs = CHR '')'' \<and> CHR 0x0A \<notin> set (butlast cs)
                      then Some (name, Some (butlast cs)) else None))"

datatype guard_error = MalformedGuard string | UnknownGuard string

definition parse_guard_ref :: "string \<Rightarrow> guard_error + GuardRef" where
  "parse_guard_ref expr =
     (case match_guard expr of
        None \<Rightarrow> Inl (MalformedGuard expr)
      | Some (name, raw) \<Rightarrow>
          if name \<notin> set GUARD_NAMES then Inl (UnknownGuard name)
          else Inr \<lparr>gr_name = name, gr_args = (case raw of None \<Rightarrow> []
             | Some a \<Rightarrow> if py_strip a = [] then [] else map py_strip (py_split CHR '','' a))\<rparr>)"

definition inject_mandated_guards :: "GuardRef list \<Rightarrow> GuardRef list \<Rightarrow> GuardRef list" where
  "inject_mandated_guards declared mandated =
     declared @ filter (\<lambda>g. gr_name g \<notin> gr_name ` set declared) mandated"

subsection \<open>Predicates\<close>

text \<open>What a guard reads. A predicate that raises is \<open>None\<close>: \<open>int(...)\<close> of an argument that is no number,
  or a malformed duration.\<close>

record GuardContext =
  gc_org_id :: uuid
  gc_now :: time
  gc_contact_id :: "uuid option"
  gc_lead_id :: "uuid option"
  gc_vars :: jobj

definition not_suppressed :: "GuardContext \<Rightarrow> 'a flow_db_scheme \<Rightarrow> bool" where
  "not_suppressed ctx s = (case gc_contact_id ctx of None \<Rightarrow> False
     | Some c \<Rightarrow> \<not> list_ex (\<lambda>r. rls_visible s (sp_org_id r) \<and> sp_contact_id r = c \<and>
         sp_scope r \<in> {''marketing'', ''all''}) (suppressions s))"

definition consent_valid :: "GuardContext \<Rightarrow> string list \<Rightarrow> 'a flow_db_scheme \<Rightarrow> bool" where
  "consent_valid ctx args s = (case gc_contact_id ctx of None \<Rightarrow> False
     | Some c \<Rightarrow>
         (let purpose = (case args of [] \<Rightarrow> ''marketing'' | p # _ \<Rightarrow> p);
              status = map_option ct_consent_status (find (\<lambda>r. rls_visible s (ct_org_id r) \<and> ct_id r = c) (contacts s))
          in if purpose = ''marketing'' then marketing_allowed status
             else (case status of None \<Rightarrow> False | Some x \<Rightarrow> x \<in> set POSITIVE_TRANSACTIONAL)))"

text \<open>\<open>ctx.now.time()\<close>: the time of day of the instant, as a UTC clock shows it.\<close>

definition within_send_window :: "GuardContext \<Rightarrow> 'a flow_db_scheme \<Rightarrow> bool" where
  "within_send_window ctx s =
     (case resolve_window (gc_org_id ctx) s of (start, end') \<Rightarrow>
        \<not> in_quiet_window (gc_now ctx mod days 1) start end')"

definition touch_count :: "uuid \<Rightarrow> int \<Rightarrow> 'a flow_db_scheme \<Rightarrow> nat" where
  "touch_count c window_s s = length (filter (\<lambda>r. rls_visible s (ra_org_id r) \<and> ra_contact_id r = Some c \<and>
     ra_status r \<in> set TOUCH_STATUSES \<and>
     (case ra_sent_at r of None \<Rightarrow> False | Some t \<Rightarrow> now s - seconds window_s < t)) (recovery_attempts s))"

definition touch_cap :: "GuardContext \<Rightarrow> string list \<Rightarrow> 'a flow_db_scheme \<Rightarrow> bool option" where
  "touch_cap ctx args s = (case gc_contact_id ctx of None \<Rightarrow> Some False
     | Some c \<Rightarrow>
         (case (case args of [] \<Rightarrow> Some 1 | n # _ \<Rightarrow> parse_int n) of
            None \<Rightarrow> None
          | Some n \<Rightarrow>
              (case (case args of _ # w # _ \<Rightarrow> parse_duration_s w | _ \<Rightarrow> Some (30 * 86400)) of
                 None \<Rightarrow> None | Some w \<Rightarrow> Some (int (touch_count c w s) < n))))"

text \<open>The Gregorian year and month of a day counted from 1970-01-01.\<close>

definition civil_month :: "int \<Rightarrow> int \<times> int" where
  "civil_month day =
     (let z = day + 719468; era = z div 146097; doe = z mod 146097;
          yoe = (doe - doe div 1460 + doe div 36524 - doe div 146096) div 365;
          doy = doe - (365 * yoe + yoe div 4 - yoe div 100);
          mp = (5 * doy + 2) div 153;
          m = (if mp < 10 then mp + 3 else mp - 9)
      in (yoe + era * 400 + (if m \<le> 2 then 1 else 0), m))"

definition month_spend :: "'a flow_db_scheme \<Rightarrow> int" where
  "month_spend s = sum_list (map bc_amount_minor (filter (\<lambda>r. rls_visible s (bc_org_id r) \<and>
     bc_period_month r = civil_month (now s div days 1)) (billing_charges s)))"

definition budget_ok :: "GuardContext \<Rightarrow> 'a flow_db_scheme \<Rightarrow> bool option" where
  "budget_ok ctx s =
     (let cap = jget_null (JObj (gc_vars ctx)) ''budget_cap_minor'' in
      if cap = JNull then Some True else map_option (\<lambda>n. month_spend s < n) (py_int cap))"

definition flag_on :: "GuardContext \<Rightarrow> string list \<Rightarrow> 'a flow_db_scheme \<Rightarrow> bool" where
  "flag_on ctx args s = (case args of [] \<Rightarrow> False
     | key # _ \<Rightarrow>
         (case order_first fr_precedence (filter (\<lambda>r. fr_key r = key \<and> fr_scope r = ''tenant'' \<and>
                  fr_scope_ref r = Some (nat_str (gc_org_id ctx))) (flag_rules s)) of
            Some r \<Rightarrow> truthy (fr_value r)
          | None \<Rightarrow> (case find (\<lambda>f. ff_key f = key) (feature_flags s) of None \<Rightarrow> False | Some f \<Rightarrow> truthy (ff_default_value f))))"

definition tier_max :: bool where "tier_max = True"

text \<open>\<open>_GUARD_FUNCS[ref.name]\<close>; a name outside the table is not evaluated.\<close>

definition guard_predicate :: "GuardRef \<Rightarrow> GuardContext \<Rightarrow> 'a flow_db_scheme \<Rightarrow> bool option" where
  "guard_predicate g ctx s =
     (if gr_name g = ''not_suppressed'' then Some (not_suppressed ctx s)
      else if gr_name g = ''consent_valid'' then Some (consent_valid ctx (gr_args g) s)
      else if gr_name g = ''within_send_window'' then Some (within_send_window ctx s)
      else if gr_name g = ''touch_cap'' then touch_cap ctx (gr_args g) s
      else if gr_name g = ''budget_ok'' then budget_ok ctx s
      else if gr_name g = ''flag_on'' then Some (flag_on ctx (gr_args g) s)
      else if gr_name g = ''tier_max'' then Some tier_max
      else None)"

subsection \<open>Evaluation\<close>

record GuardResult =
  gs_passed :: bool
  gs_guard :: string
  gs_reason :: "string option"

definition evaluate_guard :: "GuardRef \<Rightarrow> GuardContext \<Rightarrow> 'a flow_db_scheme \<Rightarrow> GuardResult option" where
  "evaluate_guard g ctx s =
     map_option (\<lambda>p. \<lparr>gs_passed = p, gs_guard = render_guard g,
         gs_reason = (if p then None else Some (''guard '' @ render_guard g @ '' blocked''))\<rparr>)
       (guard_predicate g ctx (set_org_context (gc_org_id ctx) s))"

definition evaluate_all :: "GuardRef list \<Rightarrow> GuardContext \<Rightarrow> 'a flow_db_scheme \<Rightarrow> GuardResult list option" where
  "evaluate_all refs ctx s = those (map (\<lambda>g. evaluate_guard g ctx s) refs)"

definition first_block :: "GuardResult list \<Rightarrow> GuardResult option" where
  "first_block = find (\<lambda>r. \<not> gs_passed r)"

lemma evaluate_all_passes:
  "evaluate_all refs ctx s = Some rs \<Longrightarrow> first_block rs = None \<longleftrightarrow>
     (\<forall>g \<in> set refs. guard_predicate g ctx (set_org_context (gc_org_id ctx) s) = Some True)"
proof (induction refs arbitrary: rs)
  case Nil
  then show ?case by (simp add: evaluate_all_def first_block_def)
next
  case (Cons g gs)
  then obtain p rs' where "guard_predicate g ctx (set_org_context (gc_org_id ctx) s) = Some p"
      "evaluate_all gs ctx s = Some rs'" "rs = \<lparr>gs_passed = p, gs_guard = render_guard g,
         gs_reason = (if p then None else Some (''guard '' @ render_guard g @ '' blocked''))\<rparr> # rs'"
    by (auto simp: evaluate_all_def evaluate_guard_def split: option.splits)
  with Cons.IH [of rs'] show ?case by (simp add: first_block_def)
qed

lemma mandated_guard_kept:
  "m \<in> set mandated \<Longrightarrow> \<exists>g \<in> set (inject_mandated_guards declared mandated). gr_name g = gr_name m"
  by (cases "gr_name m \<in> gr_name ` set declared") (auto simp: inject_mandated_guards_def)

subsection \<open>Stored references\<close>

lemma py_strip_prefix: "\<exists>zs. dropWhile is_space s = py_strip s @ zs"
  unfolding py_strip_def by (metis rev_append rev_rev_ident takeWhile_dropWhile_id)

lemma py_strip_Nil_iff: "py_strip s = [] \<longleftrightarrow> (\<forall>c \<in> set s. is_space c)"
proof
  assume a: "\<forall>c \<in> set s. is_space c"
  have "dropWhile is_space s = []" using a by (simp only: dropWhile_eq_Nil_conv)
  then show "py_strip s = []" by (simp only: py_strip_def rev.simps dropWhile.simps)
next
  assume "py_strip s = []"
  then have a: "\<forall>c \<in> set (dropWhile is_space s). is_space c" by (simp add: py_strip_def dropWhile_eq_Nil_conv)
  have "dropWhile is_space s = []"
  proof (rule ccontr)
    assume n: "dropWhile is_space s \<noteq> []"
    then have "hd (dropWhile is_space s) \<in> set (dropWhile is_space s)" by (rule hd_in_set)
    then show False using a hd_dropWhile [OF n] by blast
  qed
  then show "\<forall>c \<in> set s. is_space c" by (simp add: dropWhile_eq_Nil_conv)
qed

lemma py_strip_hd: "py_strip s \<noteq> [] \<Longrightarrow> \<not> is_space (hd (py_strip s))"
proof -
  assume n: "py_strip s \<noteq> []"
  obtain zs where z: "dropWhile is_space s = py_strip s @ zs" using py_strip_prefix by blast
  then have "dropWhile is_space s \<noteq> []" "hd (dropWhile is_space s) = hd (py_strip s)" using n by auto
  then show ?thesis using hd_dropWhile [of is_space s] by simp
qed

lemma py_strip_last: "py_strip s \<noteq> [] \<Longrightarrow> \<not> is_space (last (py_strip s))"
  unfolding py_strip_def by (metis hd_dropWhile last_rev rev_is_Nil_conv)

lemma py_strip_fixed: "s = [] \<or> \<not> is_space (hd s) \<and> \<not> is_space (last s) \<Longrightarrow> py_strip s = s"
proof (cases "s = []")
  case False
  moreover assume "s = [] \<or> \<not> is_space (hd s) \<and> \<not> is_space (last s)"
  ultimately have h: "\<not> is_space (hd s)" and l: "\<not> is_space (hd (rev s))" by (auto simp: hd_rev)
  have "dropWhile is_space s = s" using h False by (cases s) auto
  moreover have "dropWhile is_space (rev s) = rev s" using l False by (cases "rev s") auto
  ultimately show ?thesis by (simp add: py_strip_def)
qed (simp add: py_strip_def)

lemma py_strip_idem [simp]: "py_strip (py_strip s) = py_strip s"
  using py_strip_fixed [of "py_strip s"] py_strip_hd py_strip_last by blast

lemma py_strip_space [simp]: "py_strip (CHR '' '' # s) = py_strip s"
  by (simp add: py_strip_def is_space_def)

lemma set_py_strip: "set (py_strip s) \<subseteq> set s"
  by (auto simp: py_strip_def dest!: set_dropWhileD)

lemma set_py_split: "w \<in> set (py_split c s) \<Longrightarrow> c \<notin> set w \<and> set w \<subseteq> set s"
proof (induction s arbitrary: w)
  case (Cons a s)
  show ?case
  proof (cases "py_split c s")
    case (Cons v vs)
    have "c \<notin> set v \<and> set v \<subseteq> set s" "\<And>u. u \<in> set vs \<Longrightarrow> c \<notin> set u \<and> set u \<subseteq> set s"
      using Cons.IH local.Cons by auto
    then show ?thesis using Cons.prems local.Cons by (auto split: if_splits)
  qed simp
qed simp

lemma split_comma_sep:
  assumes "xs \<noteq> []" and "\<And>x. x \<in> set xs \<Longrightarrow> CHR '','' \<notin> set x \<and> py_strip x = x"
  shows "map py_strip (py_split CHR '','' (comma_sep xs)) = xs"
  using assms
proof (induction xs rule: induct_list012)
  case (2 x)
  then show ?case by (simp add: comma_sep_def py_split_none)
next
  case (3 x y zs)
  have "comma_sep (x # y # zs) = x @ CHR '','' # CHR '' '' # comma_sep (y # zs)" by (simp add: comma_sep_def)
  moreover have "py_split CHR '','' (CHR '' '' # comma_sep (y # zs)) =
      (case py_split CHR '','' (comma_sep (y # zs)) of [] \<Rightarrow> [] | w # ws \<Rightarrow> (CHR '' '' # w) # ws)"
    by (simp split: list.split)
  ultimately show ?case using 3 by (auto simp: py_split_append split: list.splits)
qed simp

lemma set_comma_sep: "c \<in> set (comma_sep xs) \<Longrightarrow> c = CHR '','' \<or> c = CHR '' '' \<or> (\<exists>x \<in> set xs. c \<in> set x)"
  by (cases xs) (auto simp: comma_sep_def split: if_splits)

lemma guard_names_chars: "n \<in> set GUARD_NAMES \<Longrightarrow> n \<noteq> [] \<and> (\<forall>c \<in> set n. is_name_char c)"
  by (auto simp: GUARD_NAMES_def is_name_char_def)

lemma name_char_not_space: "is_name_char c \<Longrightarrow> \<not> is_space c"
  by (auto simp: is_name_char_def is_space_def)

lemma match_rendered:
  assumes n: "n \<in> set GUARD_NAMES" and a: "CHR 0x0A \<notin> set a"
  shows "match_guard n = Some (n, None)" "match_guard (n @ ''('' @ a @ '')'') = Some (n, Some a)"
proof -
  have nc: "n \<noteq> []" "\<And>c. c \<in> set n \<Longrightarrow> is_name_char c" using guard_names_chars [OF n] by auto
  then have sp: "dropWhile is_space (n @ r) = n @ r" for r using name_char_not_space by (cases n) auto
  show "match_guard n = Some (n, None)"
    using sp [of "[]"] nc by (simp add: match_guard_def Let_def py_strip_def takeWhile_eq_all_conv [THEN iffD2] dropWhile_eq_Nil_conv [THEN iffD2])
  have p: "\<not> is_name_char CHR ''(''" by (simp add: is_name_char_def)
  have tw: "takeWhile is_name_char (n @ CHR ''('' # r) = n" "dropWhile is_name_char (n @ CHR ''('' # r) = CHR ''('' # r" for r
    using nc p by (simp_all add: takeWhile_append2 dropWhile_append2)
  have st: "py_strip (CHR ''('' # a @ '')'') = CHR ''('' # a @ '')''"
    by (rule py_strip_fixed) (simp add: is_space_def)
  show "match_guard (n @ ''('' @ a @ '')'') = Some (n, Some a)"
    using sp [of "''('' @ a @ '')''"] tw [of "a @ '')''"] st nc(1) a by (simp add: match_guard_def Let_def butlast_append)
qed

lemma py_split_single:
  assumes "map f (py_split c a) = [x]"
  shows "py_split c a = [a]"
proof (cases "c \<in> set a")
  case True
  obtain u v where "a = u @ c # v" "c \<notin> set u" using split_list_first [OF True] by blast
  with assms show ?thesis by (simp add: py_split_append)
qed (simp add: py_split_none)

text \<open>The text a definition stores for a guard is read back as that guard.\<close>

theorem stored_guard_read_back:
  assumes p: "parse_guard_ref e = Inr g"
  shows "parse_guard_ref (render_guard g) = Inr g"
proof -
  obtain raw where m: "match_guard e = Some (gr_name g, raw)" and n: "gr_name g \<in> set GUARD_NAMES"
    and g: "gr_args g = (case raw of None \<Rightarrow> [] | Some a \<Rightarrow> if py_strip a = [] then [] else map py_strip (py_split CHR '','' a))"
    using p by (auto simp: parse_guard_ref_def split: option.splits if_splits)
  show ?thesis
  proof (cases "gr_args g = []")
    case True
    then show ?thesis using match_rendered(1) [OF n, of "[]"] n by (simp add: render_guard_def parse_guard_ref_def)
  next
    case False
    then obtain a where a: "raw = Some a" "py_strip a \<noteq> []" "gr_args g = map py_strip (py_split CHR '','' a)"
      using g by (auto split: option.splits if_splits)
    have nl: "CHR 0x0A \<notin> set a" using m a(1) by (auto simp: match_guard_def Let_def split: list.splits if_splits)
    have arg: "CHR '','' \<notin> set x \<and> py_strip x = x \<and> CHR 0x0A \<notin> set x" if "x \<in> set (gr_args g)" for x
      using that nl set_py_split set_py_strip by (fastforce simp: a(3))
    have reread: "map py_strip (py_split CHR '','' (comma_sep (gr_args g))) = gr_args g"
      using split_comma_sep [OF False] arg by blast
    have "CHR 0x0A \<notin> set (comma_sep (gr_args g))"
      using set_comma_sep [of _ "gr_args g"] arg by fastforce
    from match_rendered(2) [OF n this] have mr: "match_guard (render_guard g) = Some (gr_name g, Some (comma_sep (gr_args g)))"
      using False by (simp add: render_guard_def)
    have "py_strip (comma_sep (gr_args g)) \<noteq> []"
    proof (cases "\<exists>x. gr_args g = [x]")
      case True
      then obtain x where x: "gr_args g = [x]" by blast
      then have "py_split CHR '','' a = [a]" using a(3) py_split_single [of py_strip "CHR '','' " a x] by simp
      then have "x = py_strip a" using a(3) x by simp
      then show ?thesis using x a(2) by (simp add: comma_sep_def)
    next
      case False
      then obtain y z zs where "gr_args g = y # z # zs" using \<open>gr_args g \<noteq> []\<close> by (metis list.exhaust)
      then have "CHR '','' \<in> set (comma_sep (gr_args g))" by (simp add: comma_sep_def)
      then show ?thesis unfolding py_strip_Nil_iff by (force simp: is_space_def)
    qed
    then show ?thesis using mr n reread by (simp add: parse_guard_ref_def)
  qed
qed

end
