(* ===== verification/Authoring.thy ===== *)
theory Authoring
  imports Guards
begin

text \<open>
  From a document to a definition: the parser of the workflow DSL (\<open>core/workflows/parser.py\<close>) with the
  grammar it is validated against (\<open>schema.py\<close>), the persistence of a parsed definition (\<open>store.py\<close>)
  and the rules for definitions an owner writes (\<open>authoring.py\<close>).

  A document is a JSON value. The syntax check of a CEL expression is the argument \<open>cel_ok\<close>. An
  exception that no handler of the module names (a missing key, a value of the wrong type) is
  \<open>Crash\<close>. \<open>decode_dsl\<close> is how the compiler and the executor read a document.

  The properties: no definition an owner saves can emit a platform event; and saving one under the key
  and version of an installed pack workflow replaces the pack's steps, but not its origin.
\<close>

subsection \<open>Sugar\<close>

definition items_of :: "json \<Rightarrow> json list option" where
  "items_of v = (case py_iter v of Inl _ \<Rightarrow> None | Inr xs \<Rightarrow> Some xs)"

text \<open>\<open>for x in d.get(k, [])\<close>\<close>

definition sub_items :: "jobj \<Rightarrow> string \<Rightarrow> json list option" where
  "sub_items d k = (case map_of d k of None \<Rightarrow> Some [] | Some v \<Rightarrow> items_of v)"

lemma items_of_size: "items_of v = Some xs \<Longrightarrow> x \<in> set xs \<Longrightarrow> size x \<le> size v"
  by (cases v) (auto simp: items_of_def py_iter_def dest: size_list_estimation' [where f = size])

lemma value_size: "map_of d k = Some v \<Longrightarrow> size v < size (JObj d)"
proof -
  assume "map_of d k = Some v"
  then have "(k, v) \<in> set d" by (rule map_of_SomeD)
  then have "size_prod (\<lambda>_. 0) size (k, v) \<le> size_list (size_prod (\<lambda>_. 0) size) d"
    by (rule size_list_estimation') simp
  then show ?thesis by simp
qed

lemma sub_items_size:
  "sub_items d k = Some xs \<Longrightarrow> x \<in> set xs \<Longrightarrow> size x < size (JObj d)"
  using items_of_size value_size by (fastforce simp: sub_items_def split: option.splits)

text \<open>A list of results that may raise; \<open>map_sub f d k\<close> maps \<open>f\<close> over the items of \<open>d.get(k, [])\<close>.\<close>

definition map_sub :: "(json \<Rightarrow> 'b option) \<Rightarrow> jobj \<Rightarrow> string \<Rightarrow> 'b list option" where
  "map_sub f d k = (case sub_items d k of None \<Rightarrow> None | Some xs \<Rightarrow> those (map f xs))"

lemma map_sub_cong [fundef_cong]:
  "d = d' \<Longrightarrow> k = k' \<Longrightarrow> (\<And>x. size x < size (JObj d') \<Longrightarrow> f x = g x) \<Longrightarrow> map_sub f d k = map_sub g d' k'"
  using sub_items_size by (auto simp: map_sub_def split: option.split intro!: arg_cong [where f = those])

lemma those_Some_iff: "those xs = Some ys \<longleftrightarrow> xs = map Some ys"
proof (induction xs arbitrary: ys)
  case (Cons x xs)
  then show ?case by (cases ys) (auto split: option.splits)
qed auto

lemma map_sub_Some: "map_sub f d k = Some ys \<longleftrightarrow> (\<exists>xs. sub_items d k = Some xs \<and> map f xs = map Some ys)"
  by (simp add: map_sub_def those_Some_iff split: option.split)

lemma step_body_size: "size (snd kv) < size (JObj (kv # kvs))"
  by (cases kv) simp

lemma step_body_size' [termination_simp]: "snd kv = JObj b \<Longrightarrow> size x < size (JObj b) \<Longrightarrow> size x < size (JObj (kv # kvs))"
  using step_body_size [of kv kvs] by simp

lemma value_size' [termination_simp]: "map_of d k = Some (JObj b) \<Longrightarrow> size x < size (JObj b) \<Longrightarrow> size x < size (JObj d)"
  using value_size [of d k "JObj b"] by simp

fun those_sum :: "('e + 'a) list \<Rightarrow> 'e + 'a list" where
  "those_sum [] = Inr []"
| "those_sum (x # xs) = (case x of Inl e \<Rightarrow> Inl e | Inr y \<Rightarrow> map_sum id ((#) y) (those_sum xs))"

definition SUGAR_AGENT :: "string list" where
  "SUGAR_AGENT = [''diagnose'', ''classify_ghost'', ''compose'']"

text \<open>\<open>setdefault\<close>\<close>

definition dict_default :: "string \<Rightarrow> json \<Rightarrow> jobj \<Rightarrow> jobj" where
  "dict_default k v d = (if map_of d k = None then d @ [(k, v)] else d)"

definition approval_gate :: "jobj \<Rightarrow> json" where
  "approval_gate b = JObj [(''human_task'', JObj (
     [(''kind'', JStr ''approval''), (''mode'', JStr ''ranked'')] @
     concat (map (\<lambda>k. case map_of b k of None \<Rightarrow> [] | Some v \<Rightarrow> [(k, v)])
       [''options_from'', ''recommended'', ''label_sink'', ''assignee'', ''timeout'']) @
     [(''allow_decline'', JBool (truthy (case map_of b ''allow_decline'' of Some v \<Rightarrow> v
        | None \<Rightarrow> jget_null (JObj b) ''allow_owner_handle'')))]))]"

text \<open>\<open>_desugar_steps\<close>: only the first entry of a step counts; \<open>None\<close> where the rewriting raises.\<close>

function desugar_step :: "json \<Rightarrow> json option" where
  "desugar_step step =
     (case step of JObj st \<Rightarrow>
        (case st of [] \<Rightarrow> None
         | kv # _ \<Rightarrow>
            (if fst kv \<in> set SUGAR_AGENT then
               (case snd kv of JObj b \<Rightarrow> Some (JObj [(''agent_task'', JObj (dict_default ''output_as'' (JStr (fst kv)) b))]) | _ \<Rightarrow> None)
             else if fst kv = ''approval_gate'' then
               (case snd kv of JObj b \<Rightarrow> Some (approval_gate b) | _ \<Rightarrow> None)
             else if fst kv = ''branch'' then
               (case snd kv of JObj b \<Rightarrow>
                  (case (map_sub (\<lambda>c. case c of JObj c' \<Rightarrow>
                            map_option (\<lambda>ss. JObj (dict_put ''steps'' (JArr ss) c')) (map_sub desugar_step c' ''steps'')
                          | _ \<Rightarrow> None) b ''cases'', map_sub desugar_step b ''default'') of
                     (Some cs, Some ds) \<Rightarrow>
                       Some (JObj [(''branch'', JObj (dict_put ''default'' (JArr ds) (dict_put ''cases'' (JArr cs) b)))])
                   | _ \<Rightarrow> None)
                | _ \<Rightarrow> None)
             else if fst kv = ''loop'' then
               (case snd kv of JObj b \<Rightarrow>
                  map_option (\<lambda>ss. JObj [(''loop'', JObj (dict_put ''steps'' (JArr ss) b))]) (map_sub desugar_step b ''steps'')
                | _ \<Rightarrow> None)
             else Some step))
      | _ \<Rightarrow> None)"
  by pat_completeness auto
termination
  by (relation "measure size") (auto simp del: json.size simp: step_body_size' value_size' dest: less_trans)

declare desugar_step.simps [simp del]

definition desugar_steps :: "json list \<Rightarrow> json list option" where
  "desugar_steps ss = those (map desugar_step ss)"

definition desugar :: "jobj \<Rightarrow> jobj option" where
  "desugar d =
     (case map_of d ''steps'' of None \<Rightarrow> Some d
      | Some v \<Rightarrow>
          (case Option.bind (items_of v) desugar_steps of None \<Rightarrow> None
           | Some ss \<Rightarrow>
               (let r = dict_put ''steps'' (JArr ss) d in
                case map_of d ''compensation'' of
                  Some (JObj c) \<Rightarrow>
                    (case map_of c ''on_failure'' of None \<Rightarrow> Some r
                     | Some f \<Rightarrow> map_option (\<lambda>fs. dict_put ''compensation'' (JObj (dict_put ''on_failure'' (JArr fs) c)) r)
                                  (Option.bind (items_of f) desugar_steps))
                | _ \<Rightarrow> Some r)))"

subsection \<open>The grammar\<close>

text \<open>\<open>DSL_SCHEMA\<close>, read as JSON Schema: \<open>props\<close> is \<open>additionalProperties: false\<close> with \<open>required\<close>.\<close>

definition props :: "string list \<Rightarrow> string list \<Rightarrow> jobj \<Rightarrow> bool" where
  "props allowed required b \<longleftrightarrow> list_all (\<lambda>kv. fst kv \<in> set allowed) b \<and> list_all (\<lambda>k. map_of b k \<noteq> None) required"

definition prop_ok :: "string \<Rightarrow> (json \<Rightarrow> bool) \<Rightarrow> jobj \<Rightarrow> bool" where
  "prop_ok k p b = (case map_of b k of None \<Rightarrow> True | Some v \<Rightarrow> p v)"

fun is_str :: "json \<Rightarrow> bool" where "is_str (JStr t) = True" | "is_str _ = False"
fun is_int :: "json \<Rightarrow> bool" where "is_int (JInt i) = True" | "is_int _ = False"
fun is_bool :: "json \<Rightarrow> bool" where "is_bool (JBool i) = True" | "is_bool _ = False"
fun is_obj :: "json \<Rightarrow> bool" where "is_obj (JObj d) = True" | "is_obj _ = False"
fun is_arr :: "json \<Rightarrow> bool" where "is_arr (JArr xs) = True" | "is_arr _ = False"

definition is_duration :: "json \<Rightarrow> bool" where
  "is_duration v \<longleftrightarrow> is_str v \<or> is_int v"

definition str_or_obj :: "json \<Rightarrow> bool" where
  "str_or_obj v \<longleftrightarrow> is_str v \<or> is_obj v"

fun arr_of :: "(json \<Rightarrow> bool) \<Rightarrow> json \<Rightarrow> bool" where
  "arr_of p (JArr xs) = list_all p xs"
| "arr_of p v = False"

definition one_of :: "string list \<Rightarrow> json \<Rightarrow> bool" where
  "one_of xs v = list_ex (\<lambda>x. v = JStr x) xs"

definition at_least :: "int \<Rightarrow> json \<Rightarrow> bool" where
  "at_least n v = (case v of JInt i \<Rightarrow> n \<le> i | _ \<Rightarrow> False)"

definition agent_task_ok :: "jobj \<Rightarrow> bool" where
  "agent_task_ok b \<longleftrightarrow>
     props [''archetype'', ''task'', ''input_map'', ''timeout'', ''on_timeout'', ''tier'', ''output'', ''output_as'']
       [''archetype'', ''task''] b \<and>
     prop_ok ''archetype'' is_str b \<and> prop_ok ''task'' is_str b \<and> prop_ok ''input_map'' is_obj b \<and>
     prop_ok ''timeout'' is_duration b \<and> prop_ok ''on_timeout'' str_or_obj b \<and>
     prop_ok ''tier'' (one_of [''frontier'', ''standard'', ''nano'']) b \<and> prop_ok ''output'' (arr_of is_str) b \<and>
     prop_ok ''output_as'' is_str b"

definition tool_call_ok :: "jobj \<Rightarrow> bool" where
  "tool_call_ok b \<longleftrightarrow> props [''name'', ''input_map'', ''output_as'', ''timeout''] [''name''] b \<and>
     prop_ok ''name'' is_str b \<and> prop_ok ''input_map'' is_obj b \<and> prop_ok ''output_as'' is_str b \<and> prop_ok ''timeout'' is_duration b"

definition human_task_ok :: "jobj \<Rightarrow> bool" where
  "human_task_ok b \<longleftrightarrow>
     props [''kind'', ''assignee'', ''timeout'', ''escalation'', ''payload'', ''mode'', ''options_from'', ''recommended'',
            ''allow_decline'', ''label_sink''] [''kind''] b \<and>
     prop_ok ''kind'' (one_of [''approval'', ''form'']) b \<and> prop_ok ''assignee'' is_str b \<and> prop_ok ''timeout'' is_duration b \<and>
     prop_ok ''escalation'' is_arr b \<and> prop_ok ''payload'' str_or_obj b \<and> prop_ok ''mode'' (one_of [''single'', ''ranked'']) b \<and>
     prop_ok ''options_from'' is_str b \<and> prop_ok ''recommended'' is_str b \<and> prop_ok ''allow_decline'' is_bool b \<and>
     prop_ok ''label_sink'' is_str b"

definition wait_ok :: "jobj \<Rightarrow> bool" where
  "wait_ok b \<longleftrightarrow> props [''for'', ''timeout'', ''event''] [''for''] b \<and>
     prop_ok ''for'' (one_of [''reply'', ''event'', ''duration'']) b \<and> prop_ok ''timeout'' is_duration b \<and> prop_ok ''event'' is_str b"

definition emit_ok :: "jobj \<Rightarrow> bool" where
  "emit_ok b \<longleftrightarrow> props [''event'', ''payload_map''] [''event''] b \<and> prop_ok ''event'' is_str b \<and> prop_ok ''payload_map'' is_obj b"

definition set_ok :: "jobj \<Rightarrow> bool" where
  "set_ok b \<longleftrightarrow> props [''vars''] [''vars''] b \<and> prop_ok ''vars'' is_obj b"

text \<open>The elements of an array property.\<close>

definition sub_arr :: "jobj \<Rightarrow> string \<Rightarrow> json list option" where
  "sub_arr d k = (case map_of d k of Some (JArr xs) \<Rightarrow> Some xs | _ \<Rightarrow> None)"

definition all_sub :: "(json \<Rightarrow> bool) \<Rightarrow> jobj \<Rightarrow> string \<Rightarrow> bool" where
  "all_sub p d k = (case sub_arr d k of None \<Rightarrow> False | Some xs \<Rightarrow> list_all p xs)"

lemma sub_arr_items: "sub_arr d k = Some xs \<Longrightarrow> sub_items d k = Some xs"
  by (auto simp: sub_arr_def sub_items_def items_of_def py_iter_def split: option.splits json.splits)

lemma all_sub_cong [fundef_cong]:
  assumes "d = d'" "k = k'" and "\<And>x. size x < size (JObj d') \<Longrightarrow> p x = q x"
  shows "all_sub p d k = all_sub q d' k'"
proof -
  have "p x = q x" if "sub_arr d' k' = Some xs" "x \<in> set xs" for xs x
    using assms(3) sub_items_size [OF sub_arr_items [OF that(1)] that(2)] by blast
  then show ?thesis using assms(1,2) by (auto simp: all_sub_def list_all_iff split: option.split)
qed

function step_ok :: "json \<Rightarrow> bool" where
  "step_ok step =
     (case step of JObj st \<Rightarrow>
        (case st of [kv] \<Rightarrow>
           (case snd kv of JObj b \<Rightarrow>
              (if fst kv = ''agent_task'' then agent_task_ok b
               else if fst kv = ''tool_call'' then tool_call_ok b
               else if fst kv = ''human_task'' then human_task_ok b
               else if fst kv = ''wait'' then wait_ok b
               else if fst kv = ''emit'' then emit_ok b
               else if fst kv = ''set'' then set_ok b
               else if fst kv = ''branch'' then
                 props [''cases'', ''default''] [''cases''] b \<and>
                 all_sub (\<lambda>c. case c of JObj c' \<Rightarrow> props [''when'', ''steps''] [''when'', ''steps''] c' \<and>
                     prop_ok ''when'' is_str c' \<and> all_sub step_ok c' ''steps'' | _ \<Rightarrow> False) b ''cases'' \<and>
                 (map_of b ''default'' \<noteq> None \<longrightarrow> all_sub step_ok b ''default'')
               else if fst kv = ''loop'' then
                 props [''over'', ''max_iterations'', ''steps''] [''over'', ''max_iterations''] b \<and>
                 prop_ok ''over'' is_str b \<and> prop_ok ''max_iterations'' (at_least 1) b \<and>
                 (map_of b ''steps'' \<noteq> None \<longrightarrow> all_sub step_ok b ''steps'')
               else False)
            | _ \<Rightarrow> False)
         | _ \<Rightarrow> False)
      | _ \<Rightarrow> False)"
  by pat_completeness auto
termination
  by (relation "measure size") (auto simp del: json.size simp: step_body_size' value_size' dest: less_trans)

declare step_ok.simps [simp del]

definition steps_ok :: "json \<Rightarrow> bool" where
  "steps_ok v = arr_of step_ok v"

text \<open>\<open>^[a-z0-9_]{3,40}$\<close>; the final anchor also matches before a last line break.\<close>

definition workflow_key_ok :: "json \<Rightarrow> bool" where
  "workflow_key_ok v = (case v of JStr k \<Rightarrow>
     (let t = (if k \<noteq> [] \<and> last k = CHR 0x0A then butlast k else k)
      in 3 \<le> length t \<and> length t \<le> 40 \<and> list_all (\<lambda>c. is_name_char c \<or> is_digit c) t) | _ \<Rightarrow> False)"

definition trigger_ok :: "json \<Rightarrow> bool" where
  "trigger_ok v = (case v of
       JObj [(kind, JObj b)] \<Rightarrow>
         (if kind = ''event'' then props [''type'', ''condition''] [''type''] b \<and> prop_ok ''type'' is_str b \<and> prop_ok ''condition'' is_str b
          else if kind = ''schedule'' then props [''cron'', ''timezone''] [''cron''] b \<and> prop_ok ''cron'' is_str b \<and> prop_ok ''timezone'' is_str b
          else if kind = ''manual'' then props [''roles''] [] b \<and> prop_ok ''roles'' (arr_of is_str) b
          else False)
     | _ \<Rightarrow> False)"

definition compensation_ok :: "json \<Rightarrow> bool" where
  "compensation_ok v = (case v of JObj b \<Rightarrow> props [''on_failure'', ''alert''] [''on_failure''] b \<and>
     prop_ok ''on_failure'' steps_ok b \<and> prop_ok ''alert'' is_str b | _ \<Rightarrow> False)"

definition concurrency_ok :: "json \<Rightarrow> bool" where
  "concurrency_ok v = (case v of JObj b \<Rightarrow> props [''key'', ''policy''] [''key'', ''policy''] b \<and>
     prop_ok ''key'' is_str b \<and> prop_ok ''policy'' (one_of [''drop'', ''queue'', ''replace'']) b | _ \<Rightarrow> False)"

definition validate_dsl :: "jobj \<Rightarrow> bool" where
  "validate_dsl d \<longleftrightarrow>
     props [''workflow'', ''version'', ''trigger'', ''guards'', ''steps'', ''compensation'', ''concurrency'']
       [''workflow'', ''version'', ''trigger'', ''steps''] d \<and>
     prop_ok ''workflow'' workflow_key_ok d \<and> prop_ok ''version'' (at_least 1) d \<and> prop_ok ''trigger'' trigger_ok d \<and>
     prop_ok ''guards'' (arr_of is_str) d \<and>
     prop_ok ''steps'' (\<lambda>v. steps_ok v \<and> v \<noteq> JArr []) d \<and>
     prop_ok ''compensation'' compensation_ok d \<and> prop_ok ''concurrency'' concurrency_ok d"

subsection \<open>Reading a document\<close>

definition get_obj :: "jobj \<Rightarrow> string \<Rightarrow> jobj" where
  "get_obj b k = (case map_of b k of Some (JObj m) \<Rightarrow> m | _ \<Rightarrow> [])"

definition get_str :: "jobj \<Rightarrow> string \<Rightarrow> string option" where
  "get_str b k = (case map_of b k of Some (JStr t) \<Rightarrow> Some t | _ \<Rightarrow> None)"

definition get_text :: "jobj \<Rightarrow> string \<Rightarrow> string" where
  "get_text b k = (case get_str b k of None \<Rightarrow> [] | Some t \<Rightarrow> t)"

definition get_strs :: "jobj \<Rightarrow> string \<Rightarrow> string list option" where
  "get_strs b k = map_option (map py_str) (sub_arr b k)"

text \<open>The step a compiler branch reads; \<open>None\<close> for a verb it does not know or an array it cannot find.\<close>

function decode_step :: "json \<Rightarrow> wf_step option" where
  "decode_step step =
     (case step of JObj st \<Rightarrow>
        (case st of [] \<Rightarrow> None
         | kv # _ \<Rightarrow>
           (case snd kv of JObj b \<Rightarrow>
              (if fst kv = ''set'' then Some (SetStep (get_obj b ''vars''))
               else if fst kv = ''emit'' then Some (EmitStep (get_text b ''event'') (get_obj b ''payload_map''))
               else if fst kv = ''agent_task'' then Some (AgentStep \<lparr>at_archetype = get_text b ''archetype'', at_task = get_text b ''task'',
                 at_input_map = get_obj b ''input_map'', at_timeout = jget_null (JObj b) ''timeout'', at_tier = get_str b ''tier'',
                 at_output = get_strs b ''output'', at_output_as = get_str b ''output_as''\<rparr>)
               else if fst kv = ''tool_call'' then Some (ToolStep \<lparr>tc_name = get_text b ''name'', tc_input_map = get_obj b ''input_map'',
                 tc_output_as = get_str b ''output_as'', tc_timeout = jget_null (JObj b) ''timeout''\<rparr>)
               else if fst kv = ''wait'' then Some (WaitStep \<lparr>wt_for = get_text b ''for'', wt_timeout = jget_null (JObj b) ''timeout'',
                 wt_event = get_str b ''event''\<rparr>)
               else if fst kv = ''human_task'' then Some (HumanStep \<lparr>hu_kind = get_text b ''kind'', hu_assignee = get_str b ''assignee'',
                 hu_timeout = jget_null (JObj b) ''timeout'', hu_payload = jget_null (JObj b) ''payload'', hu_mode = get_str b ''mode'',
                 hu_options_from = get_str b ''options_from'', hu_recommended = get_str b ''recommended'',
                 hu_label_sink = get_str b ''label_sink''\<rparr>)
               else if fst kv = ''branch'' then
                 (case (map_sub (\<lambda>c. case c of JObj c' \<Rightarrow>
                           map_option (Pair (get_text c' ''when'')) (map_sub decode_step c' ''steps'') | _ \<Rightarrow> None) b ''cases'',
                        map_sub decode_step b ''default'') of
                    (Some cs, Some ds) \<Rightarrow> Some (BranchStep cs ds) | _ \<Rightarrow> None)
               else if fst kv = ''loop'' then
                 map_option (LoopStep (get_text b ''over'') (case map_of b ''max_iterations'' of Some (JInt n) \<Rightarrow> n | _ \<Rightarrow> 0))
                   (map_sub decode_step b ''steps'')
               else None)
            | _ \<Rightarrow> None))
      | _ \<Rightarrow> None)"
  by pat_completeness auto
termination
  by (relation "measure size") (auto simp del: json.size simp: step_body_size' value_size' dest: less_trans)

declare decode_step.simps [simp del]

definition decode_steps :: "json \<Rightarrow> wf_step list option" where
  "decode_steps v = Option.bind (items_of v) (\<lambda>ss. those (map decode_step ss))"

definition decode_dsl :: "jobj \<Rightarrow> workflow_dsl option" where
  "decode_dsl d =
     (case (case map_of d ''steps'' of None \<Rightarrow> Some [] | Some v \<Rightarrow> decode_steps v) of
        None \<Rightarrow> None
      | Some steps \<Rightarrow>
          (case (case map_of d ''compensation'' of
                   Some (JObj c) \<Rightarrow> map_option (\<lambda>fs. Some (fs, get_str c ''alert'')) (decode_steps (jget_null (JObj c) ''on_failure''))
                 | _ \<Rightarrow> Some None) of
             None \<Rightarrow> None
           | Some block \<Rightarrow> Some \<lparr>dl_steps = steps, dl_compensation = block,
               dl_concurrency = (case map_of d ''concurrency'' of
                   Some (JObj c) \<Rightarrow> Some (get_text c ''key'', get_text c ''policy'') | _ \<Rightarrow> None)\<rparr>))"

subsection \<open>Parsing\<close>

datatype parse_error = SchemaError | CelError string | GuardError guard_error | DurationError | Crash

record ParsedWorkflow =
  pw_workflow_key :: string
  pw_version :: int
  pw_dsl :: jobj
  pw_trigger_spec :: json
  pw_guards :: "GuardRef list"

text \<open>
  \<open>^(?P<pred>.+?)\s+FOR\s+['"](?P<dur>\d+[smhd])['"]\s*$\<close> without regard to case, read from the end: the
  quoted duration, the keyword and what is before the white space in front of it.
\<close>

definition is_quote :: "char \<Rightarrow> bool" where
  "is_quote c \<longleftrightarrow> c = CHR 0x27 \<or> c = CHR 0x22"

definition match_for :: "string \<Rightarrow> (string \<times> string) option" where
  "match_for cond =
     (case rev (py_rstrip cond) of
        q # u # r \<Rightarrow>
          (let ds = takeWhile is_digit r; r1 = dropWhile is_digit r in
           case r1 of
             q' # r2 \<Rightarrow>
               (let r3 = dropWhile is_space r2; r4 = drop 3 r3; before = dropWhile is_space r4 in
                if is_quote q \<and> is_quote q' \<and> lower_char u \<in> set ''smhd'' \<and> ds \<noteq> [] \<and> r3 \<noteq> r2 \<and>
                   py_lower (take 3 r3) = ''rof'' \<and> before \<noteq> r4 \<and> CHR 0x0A \<notin> set before \<and>
                   (before \<noteq> [] \<or> 2 \<le> length r4 \<and> last r4 \<noteq> CHR 0x0A)
                then Some (py_strip (rev before), rev ds @ [u]) else None)
           | [] \<Rightarrow> None)
      | _ \<Rightarrow> None)"

definition compile_cel :: "(string \<Rightarrow> bool) \<Rightarrow> string \<Rightarrow> string \<Rightarrow> parse_error option" where
  "compile_cel cel_ok expr place = (if cel_ok expr then None else Some (CelError place))"

definition compile_trigger :: "(string \<Rightarrow> bool) \<Rightarrow> json \<Rightarrow> parse_error + json" where
  "compile_trigger cel_ok trigger =
     (case jget trigger ''event'' of
        Some ev \<Rightarrow>
          (let spec = (\<lambda>cond dur. JObj [(''kind'', JStr ''event''), (''event_type'', jget_null ev ''type''),
                 (''condition'', cond), (''duration_check'', dur)]) in
           case jget_null ev ''condition'' of
             JStr cond \<Rightarrow>
               (if cond = [] then Inr (spec JNull JNull)
                else (case match_for cond of
                    Some (pred, dur) \<Rightarrow>
                      (case compile_cel cel_ok pred ''trigger.condition (FOR predicate)'' of
                         Some e \<Rightarrow> Inl e
                       | None \<Rightarrow> (case parse_duration_s dur of None \<Rightarrow> Inl DurationError
                           | Some n \<Rightarrow> Inr (spec (JStr pred) (JObj [(''predicate'', JStr pred), (''duration_s'', JInt n)]))))
                  | None \<Rightarrow> (case compile_cel cel_ok cond ''trigger.condition'' of
                         Some e \<Rightarrow> Inl e | None \<Rightarrow> Inr (spec (JStr cond) JNull))))
           | _ \<Rightarrow> Inr (spec JNull JNull))
      | None \<Rightarrow>
          (case jget trigger ''schedule'' of
             Some sch \<Rightarrow> Inr (JObj [(''kind'', JStr ''schedule''), (''cron'', jget_null sch ''cron''),
                 (''timezone'', case jget sch ''timezone'' of None \<Rightarrow> JStr ''tenant'' | Some z \<Rightarrow> z)])
           | None \<Rightarrow> Inr (JObj [(''kind'', JStr ''manual''),
                 (''roles'', case jget (jget_null trigger ''manual'') ''roles'' of None \<Rightarrow> JArr [JStr ''owner''] | Some r \<Rightarrow> r)])))"

text \<open>The \<open>when\<close> of every branch below a list of steps.\<close>

fun step_whens :: "wf_step \<Rightarrow> string list" and steps_whens :: "wf_step list \<Rightarrow> string list"
  and cases_whens :: "(string \<times> wf_step list) list \<Rightarrow> string list" where
  "step_whens (BranchStep cases dflt) = map fst cases @ cases_whens cases @ steps_whens dflt"
| "step_whens (LoopStep over n body) = steps_whens body"
| "step_whens _ = []"
| "steps_whens [] = []"
| "steps_whens (s # ss) = step_whens s @ steps_whens ss"
| "cases_whens [] = []"
| "cases_whens ((when, steps) # cs) = steps_whens steps @ cases_whens cs"

definition parse_guards :: "json \<Rightarrow> guard_error + GuardRef list" where
  "parse_guards v = (case v of JArr gs \<Rightarrow> those_sum (map (\<lambda>g. parse_guard_ref (py_str g)) gs) | _ \<Rightarrow> Inr [])"

definition parse :: "(string \<Rightarrow> bool) \<Rightarrow> GuardRef list \<Rightarrow> jobj \<Rightarrow> parse_error + ParsedWorkflow" where
  "parse cel_ok mandated raw =
     (case desugar raw of
        None \<Rightarrow> Inl Crash
      | Some d \<Rightarrow>
          if \<not> validate_dsl d then Inl SchemaError
          else (case parse_guards (jget_null (JObj d) ''guards'') of
              Inl e \<Rightarrow> Inl (GuardError e)
            | Inr declared \<Rightarrow>
                (let injected = inject_mandated_guards declared mandated in
                 case compile_trigger cel_ok (jget_null (JObj d) ''trigger'') of
                   Inl e \<Rightarrow> Inl e
                 | Inr spec \<Rightarrow>
                     (case decode_steps (jget_null (JObj d) ''steps'') of
                        None \<Rightarrow> Inl Crash
                      | Some steps \<Rightarrow>
                          if \<not> list_all cel_ok (steps_whens steps) then Inl (CelError ''branch.when'')
                          else if map_of d ''concurrency'' \<noteq> None \<and> \<not> cel_ok (get_text (get_obj d ''concurrency'') ''key'')
                            then Inl (CelError ''concurrency.key'')
                          else Inr \<lparr>pw_workflow_key = get_text d ''workflow'',
                              pw_version = (case map_of d ''version'' of Some (JInt n) \<Rightarrow> n | _ \<Rightarrow> 0),
                              pw_dsl = dict_put ''guards'' (JArr (map (JStr \<circ> render_guard) injected)) d,
                              pw_trigger_spec = spec, pw_guards = injected\<rparr>))))"

subsection \<open>The store\<close>

datatype store_error = RlsViolation | Unreadable

text \<open>
  \<open>INSERT ... ON CONFLICT (org_id, workflow_key, version) DO UPDATE\<close>: a row that exists keeps its
  identifier, its pack and its origin.
\<close>

definition same_version :: "uuid \<Rightarrow> string \<Rightarrow> int \<Rightarrow> workflow_definition_row \<Rightarrow> bool" where
  "same_version org key version d \<longleftrightarrow> wd_org_id d = org \<and> wd_workflow_key d = key \<and> wd_version d = version"

definition seed_definition :: "uuid \<Rightarrow> uuid option \<Rightarrow> ParsedWorkflow \<Rightarrow> string \<Rightarrow> string
    \<Rightarrow> (store_error, uuid, 'a wf_db_scheme) op" where
  "seed_definition org pack p origin status s =
     (case decode_dsl (pw_dsl p) of
        None \<Rightarrow> (Inl Unreadable, s)
      | Some dsl \<Rightarrow>
          if \<not> rls_visible s org then (Inl RlsViolation, s)
          else (let key = same_version org (pw_workflow_key p) (pw_version p); guards = map render_guard (pw_guards p) in
            case find key (workflow_definitions s) of
              Some d \<Rightarrow> (Inr (wd_id d), s\<lparr>workflow_definitions := update_where key
                  (\<lambda>d. d\<lparr>wd_dsl := dsl, wd_trigger_spec := pw_trigger_spec p, wd_guards := guards, wd_status := status\<rparr>)
                  (workflow_definitions s)\<rparr>)
            | None \<Rightarrow> (Inr (fresh s), s\<lparr>workflow_definitions := workflow_definitions s @
                  [\<lparr>wd_id = fresh s, wd_org_id = org, wd_pack_id = pack, wd_workflow_key = pw_workflow_key p,
                    wd_version = pw_version p, wd_origin = origin, wd_status = status, wd_dsl = dsl,
                    wd_trigger_spec = pw_trigger_spec p, wd_guards = guards\<rparr>], fresh := fresh s + 1\<rparr>)))"

definition set_definitions :: "uuid \<Rightarrow> uuid \<Rightarrow> (workflow_definition_row \<Rightarrow> workflow_definition_row) \<Rightarrow> 'a wf_db_scheme \<Rightarrow> 'a wf_db_scheme" where
  "set_definitions org i f s = s\<lparr>workflow_definitions := update_where
     (\<lambda>d. rls_visible s (wd_org_id d) \<and> wd_id d = i \<and> wd_org_id d = org) f (workflow_definitions s)\<rparr>"

definition set_status :: "uuid \<Rightarrow> uuid \<Rightarrow> string \<Rightarrow> 'a wf_db_scheme \<Rightarrow> 'a wf_db_scheme" where
  "set_status org i status s = set_definitions org i (\<lambda>d. d\<lparr>wd_status := status\<rparr>) (set_org_context org s)"

definition activate :: "uuid \<Rightarrow> uuid \<Rightarrow> 'a wf_db_scheme \<Rightarrow> 'a wf_db_scheme" where
  "activate org i = set_status org i ''active''"

definition deactivate :: "uuid \<Rightarrow> uuid \<Rightarrow> 'a wf_db_scheme \<Rightarrow> 'a wf_db_scheme" where
  "deactivate org i = set_status org i ''disabled''"

definition active_definitions_for_event :: "uuid \<Rightarrow> string \<Rightarrow> 'a wf_db_scheme \<Rightarrow> workflow_definition_row list" where
  "active_definitions_for_event org event_type s0 =
     (let s = set_org_context org s0 in
      filter (\<lambda>d. rls_visible s (wd_org_id d) \<and> wd_org_id d = org \<and> wd_status d = ''active'' \<and>
        jget (wd_trigger_spec d) ''event_type'' = Some (JStr event_type)) (workflow_definitions s))"

subsection \<open>Owners\<close>

definition OWNER_MANDATED_GUARDS :: "GuardRef list" where
  "OWNER_MANDATED_GUARDS = [\<lparr>gr_name = ''not_suppressed'', gr_args = []\<rparr>]"

definition MAX_OWNER_DEFINITIONS :: nat where "MAX_OWNER_DEFINITIONS = 10"

datatype authoring_error =
    ParseFailed parse_error | EmitForbidden | LimitReached | NotOwnerBuilt | UnknownDefinition | StoreFailed store_error

text \<open>\<open>any(...)\<close> of values that may raise.\<close>

fun any_of :: "bool option list \<Rightarrow> bool option" where
  "any_of [] = Some False"
| "any_of (b # bs) = (case b of None \<Rightarrow> None | Some True \<Rightarrow> Some True | Some False \<Rightarrow> any_of bs)"

definition any_sub :: "(json \<Rightarrow> bool option) \<Rightarrow> jobj \<Rightarrow> string \<Rightarrow> bool option" where
  "any_sub f d k = (case sub_items d k of None \<Rightarrow> None | Some xs \<Rightarrow> any_of (map f xs))"

lemma any_sub_cong [fundef_cong]:
  "d = d' \<Longrightarrow> k = k' \<Longrightarrow> (\<And>x. size x < size (JObj d') \<Longrightarrow> f x = g x) \<Longrightarrow> any_sub f d k = any_sub g d' k'"
  using sub_items_size by (auto simp: any_sub_def split: option.split intro!: arg_cong [where f = any_of])

text \<open>\<open>x in step\<close> where the step is a text or a list; then \<open>step["branch"]\<close> raises.\<close>

definition emit_in :: "(string \<Rightarrow> bool) \<Rightarrow> bool option" where
  "emit_in has = (if has ''emit'' then Some True else if has ''branch'' \<or> has ''loop'' then None else Some False)"

function has_emit :: "json \<Rightarrow> bool option" where
  "has_emit step =
     (case step of
        JObj st \<Rightarrow>
          (if map_of st ''emit'' \<noteq> None then Some True
           else any_of
             [case map_of st ''branch'' of None \<Rightarrow> Some False
              | Some br \<Rightarrow> (case br of JObj b \<Rightarrow>
                    any_of
                     [any_sub (\<lambda>c. case c of JObj c' \<Rightarrow> any_sub has_emit c' ''steps'' | _ \<Rightarrow> None) b ''cases'',
                      any_sub has_emit b ''default'']
                 | _ \<Rightarrow> None),
              case map_of st ''loop'' of None \<Rightarrow> Some False
              | Some lp \<Rightarrow> (case lp of JObj b \<Rightarrow> any_sub has_emit b ''steps'' | _ \<Rightarrow> None)])
      | JStr t \<Rightarrow> emit_in (\<lambda>w. is_substring w t)
      | JArr xs \<Rightarrow> emit_in (\<lambda>w. JStr w \<in> set xs)
      | _ \<Rightarrow> None)"
  by pat_completeness auto
termination
  by (relation "measure size") (auto simp del: json.size simp: step_body_size' value_size' dest: less_trans)

declare has_emit.simps [simp del]

definition validate_owner_dsl :: "(string \<Rightarrow> bool) \<Rightarrow> jobj \<Rightarrow> authoring_error + ParsedWorkflow" where
  "validate_owner_dsl cel_ok d =
     (case parse cel_ok OWNER_MANDATED_GUARDS d of
        Inl e \<Rightarrow> Inl (ParseFailed e)
      | Inr p \<Rightarrow>
          (case any_of [any_sub has_emit d ''steps'', any_sub has_emit (get_obj d ''compensation'') ''on_failure''] of
             None \<Rightarrow> Inl (ParseFailed Crash)
           | Some emits \<Rightarrow> if emits then Inl EmitForbidden else Inr p))"

definition owner_count :: "uuid \<Rightarrow> 'a wf_db_scheme \<Rightarrow> nat" where
  "owner_count org s = length (filter (\<lambda>d. rls_visible s (wd_org_id d) \<and> wd_org_id d = org \<and> wd_origin d = ''owner_built'')
     (workflow_definitions s))"

definition create_owner_definition :: "(string \<Rightarrow> bool) \<Rightarrow> uuid \<Rightarrow> jobj \<Rightarrow> (authoring_error, uuid, 'a wf_db_scheme) op" where
  "create_owner_definition cel_ok org d s0 =
     (case validate_owner_dsl cel_ok d of
        Inl e \<Rightarrow> (Inl e, s0)
      | Inr p \<Rightarrow>
          (let s = set_org_context org s0 in
           if MAX_OWNER_DEFINITIONS \<le> owner_count org s then (Inl LimitReached, s)
           else op_error StoreFailed (seed_definition org None p ''owner_built'' ''draft'') s))"

definition update_owner_definition :: "(string \<Rightarrow> bool) \<Rightarrow> uuid \<Rightarrow> uuid \<Rightarrow> jobj \<Rightarrow> (authoring_error, unit, 'a wf_db_scheme) op" where
  "update_owner_definition cel_ok org i d s0 =
     (case validate_owner_dsl cel_ok d of
        Inl e \<Rightarrow> (Inl e, s0)
      | Inr p \<Rightarrow>
          (let s = set_org_context org s0 in
           case find (\<lambda>r. rls_visible s (wd_org_id r) \<and> wd_id r = i \<and> wd_org_id r = org) (workflow_definitions s) of
             None \<Rightarrow> (Inl UnknownDefinition, s)
           | Some r \<Rightarrow>
               if wd_origin r \<noteq> ''owner_built'' then (Inl NotOwnerBuilt, s)
               else (case decode_dsl (pw_dsl p) of
                   None \<Rightarrow> (Inl (StoreFailed Unreadable), s)
                 | Some dsl \<Rightarrow> (Inr (), set_definitions org i (\<lambda>r. r\<lparr>wd_dsl := dsl, wd_trigger_spec := pw_trigger_spec p,
                     wd_guards := map render_guard (pw_guards p)\<rparr>) s))))"

end
