(* ===== verification/Triggers.thy ===== *)
theory Triggers
  imports Authoring
begin

text \<open>
  From an event to a run (\<open>core/workflows/triggers.py\<close>), the dry run of a definition over the tenant's
  history (\<open>simulate.py\<close>), and the activation of what owners write (\<open>activation.py\<close> and its consumer in
  \<open>consumer.py\<close>). Guards are evaluated in the session that looks the definitions up; the runs start
  after it has been released.
\<close>

subsection \<open>Routing\<close>

text \<open>\<open>_as_uuid\<close>: no identifier where the value is absent or malformed.\<close>

definition as_uuid :: "json \<Rightarrow> uuid option" where
  "as_uuid v = (if v = JNull then None else case py_uuid v of Inl _ \<Rightarrow> None | Inr i \<Rightarrow> Some i)"

definition trigger_context :: "uuid \<Rightarrow> jobj \<Rightarrow> time \<Rightarrow> GuardContext" where
  "trigger_context org payload t =
     \<lparr>gc_org_id = org, gc_now = t, gc_contact_id = as_uuid (jget_null (JObj payload) ''contact_id''),
      gc_lead_id = as_uuid (jget_null (JObj payload) ''lead_id''), gc_vars = []\<rparr>"

text \<open>Does the definition start on this payload? \<open>None\<close> where a guard is unknown or raises.\<close>

definition parse_refs :: "string list \<Rightarrow> GuardRef list option" where
  "parse_refs gs = those (map (\<lambda>g. case parse_guard_ref g of Inl _ \<Rightarrow> None | Inr r \<Rightarrow> Some r) gs)"

definition guards_pass :: "uuid \<Rightarrow> string list \<Rightarrow> jobj \<Rightarrow> 'a flow_db_scheme \<Rightarrow> GuardResult option option" where
  "guards_pass org gs payload s =
     (case parse_refs gs of None \<Rightarrow> None
      | Some refs \<Rightarrow> map_option first_block (evaluate_all refs (trigger_context org payload (now s)) s))"

definition condition_holds :: "wf_cel \<Rightarrow> json \<Rightarrow> jobj \<Rightarrow> bool" where
  "condition_holds cel trigger_spec payload =
     (case jget_null trigger_spec ''condition'' of
        JStr cond \<Rightarrow> cel_truthy cel cond [(''payload'', JObj payload)] | _ \<Rightarrow> True)"

fun startable :: "wf_cel \<Rightarrow> uuid \<Rightarrow> jobj \<Rightarrow> 'a flow_db_scheme \<Rightarrow> workflow_definition_row list \<Rightarrow> workflow_definition_row list option" where
  "startable cel org payload s [] = Some []"
| "startable cel org payload s (d # ds) =
     (if \<not> condition_holds cel (wd_trigger_spec d) payload then startable cel org payload s ds
      else (case guards_pass org (wd_guards d) payload s of
          None \<Rightarrow> None
        | Some (Some blocked) \<Rightarrow> startable cel org payload s ds
        | Some None \<Rightarrow> map_option ((#) d) (startable cel org payload s ds)))"

datatype trigger_end = Started "uuid list" | GuardRaised | RunStopped run_end

fun start_all :: "'a flow_db_scheme engine \<Rightarrow> nat \<Rightarrow> uuid \<Rightarrow> jobj \<Rightarrow> workflow_definition_row list \<Rightarrow> 'a flow_db_scheme \<times> redis
    \<Rightarrow> trigger_end \<times> 'a flow_db_scheme \<times> redis" where
  "start_all en fuel org payload [] w = (Started [], w)"
| "start_all en fuel org payload (d # ds) w =
     (case start_run en fuel org (wd_id d) (wd_version d) (wd_dsl d) payload w of
        ((run, e), w1) \<Rightarrow>
          if e \<noteq> Finished then (RunStopped e, w1)
          else (case start_all en fuel org payload ds w1 of
              (Started runs, w2) \<Rightarrow> (Started (case run of None \<Rightarrow> runs | Some r \<Rightarrow> r # runs), w2)
            | (e2, w2) \<Rightarrow> (e2, w2)))"

definition match_and_start :: "'a flow_db_scheme engine \<Rightarrow> nat \<Rightarrow> uuid \<Rightarrow> string \<Rightarrow> jobj \<Rightarrow> 'a flow_db_scheme \<times> redis
    \<Rightarrow> trigger_end \<times> 'a flow_db_scheme \<times> redis" where
  "match_and_start en fuel org event_type payload w =
     (let s = set_org_context org (fst w) in
      case startable (en_cel en) org payload s (active_definitions_for_event org event_type s) of
        None \<Rightarrow> (GuardRaised, w)
      | Some ds \<Rightarrow> start_all en fuel org payload ds (s, snd w))"

subsection \<open>Simulation\<close>

record sim_report =
  sm_workflow_key :: string
  sm_window_days :: int
  sm_candidates :: nat
  sm_condition_filtered :: nat
  sm_condition_passed :: nat
  sm_would_have_fired :: nat
  sm_guard_blocks :: "(string \<times> nat) list"
  sm_agent_steps_per_fire :: nat
  sm_estimated_cost_minor :: int
  sm_samples :: nat

definition SAMPLE_LIMIT :: nat where "SAMPLE_LIMIT = 5"

definition cost_per_message :: "uuid \<Rightarrow> 'a flow_db_scheme \<Rightarrow> int" where
  "cost_per_message org s = (case fst (resolve org ''campaign.cost_per_message_minor'' s) of
       Inl _ \<Rightarrow> 50
     | Inr r \<Rightarrow> (case py_int (rs_value r) of None \<Rightarrow> 50 | Some n \<Rightarrow> n))"

fun count_up :: "string \<Rightarrow> (string \<times> nat) list \<Rightarrow> (string \<times> nat) list" where
  "count_up k [] = [(k, 1)]"
| "count_up k ((k', n) # r) = (if k = k' then (k', n + 1) # r else (k', n) # count_up k r)"

definition is_agent :: "instr \<Rightarrow> bool" where
  "is_agent i = (case i of AGENT a \<Rightarrow> True | _ \<Rightarrow> False)"

text \<open>One historical event; the sample lines are counted, their text is for display.\<close>

definition sim_event :: "wf_cel \<Rightarrow> uuid \<Rightarrow> json \<Rightarrow> string list \<Rightarrow> json \<Rightarrow> 'a flow_db_scheme \<Rightarrow> sim_report \<Rightarrow> sim_report option" where
  "sim_event cel org spec gs payload s r =
     (let p = (case payload of JObj d \<Rightarrow> d | _ \<Rightarrow> []); cond = jget_null spec ''condition'' in
      if truthy cond \<and> \<not> (case cond of JStr c \<Rightarrow> cel_truthy cel c [(''payload'', JObj p)] | _ \<Rightarrow> False)
      then Some (r\<lparr>sm_condition_filtered := sm_condition_filtered r + 1\<rparr>)
      else (case guards_pass org gs p s of
          None \<Rightarrow> None
        | Some (Some blocked) \<Rightarrow> Some (r\<lparr>sm_condition_passed := sm_condition_passed r + 1,
              sm_guard_blocks := count_up (gs_guard blocked) (sm_guard_blocks r)\<rparr>)
        | Some None \<Rightarrow> Some (r\<lparr>sm_condition_passed := sm_condition_passed r + 1,
              sm_would_have_fired := sm_would_have_fired r + 1,
              sm_samples := (if sm_samples r < SAMPLE_LIMIT then sm_samples r + 1 else sm_samples r)\<rparr>)))"

fun sim_events :: "wf_cel \<Rightarrow> uuid \<Rightarrow> json \<Rightarrow> string list \<Rightarrow> json list \<Rightarrow> 'a flow_db_scheme \<Rightarrow> sim_report \<Rightarrow> sim_report option" where
  "sim_events cel org spec gs [] s r = Some r"
| "sim_events cel org spec gs (p # ps) s r =
     (case sim_event cel org spec gs p s r of None \<Rightarrow> None | Some r1 \<Rightarrow> sim_events cel org spec gs ps s r1)"

text \<open>\<open>SELECT payload FROM event_outbox ... ORDER BY created_at\<close>\<close>

definition past_events :: "uuid \<Rightarrow> string \<Rightarrow> time \<Rightarrow> 'a flow_db_scheme \<Rightarrow> json list" where
  "past_events org event_type since s = map ob_payload (sort_key ob_created_at (filter (\<lambda>r.
     rls_visible s (ob_org_id r) \<and> ob_org_id r = org \<and> ob_type r \<in> {event_type, event_type @ ''.v1''} \<and>
     since \<le> ob_created_at r) (event_outbox s)))"

datatype sim_error = UnknownWorkflow | GuardFailed

definition own_definition :: "uuid \<Rightarrow> uuid \<Rightarrow> 'a wf_db_scheme \<Rightarrow> workflow_definition_row option" where
  "own_definition org i s = find (\<lambda>d. rls_visible s (wd_org_id d) \<and> wd_id d = i \<and> wd_org_id d = org) (workflow_definitions s)"

definition simulate :: "wf_cel \<Rightarrow> uuid \<Rightarrow> uuid \<Rightarrow> int \<Rightarrow> (sim_error, sim_report, 'a flow_db_scheme) op" where
  "simulate cel org i window_days s0 =
     (let s = set_org_context org s0 in
      case own_definition org i s of
        None \<Rightarrow> (Inl UnknownWorkflow, s)
      | Some d \<Rightarrow>
          (let agents = length (filter is_agent (compile_program (dl_steps (wd_dsl d))));
               r0 = \<lparr>sm_workflow_key = wd_workflow_key d, sm_window_days = window_days, sm_candidates = 0, sm_condition_filtered = 0,
                 sm_condition_passed = 0, sm_would_have_fired = 0, sm_guard_blocks = [], sm_agent_steps_per_fire = agents,
                 sm_estimated_cost_minor = 0, sm_samples = 0\<rparr> in
           case jget_null (wd_trigger_spec d) ''event_type'' of
             JStr et \<Rightarrow>
               (if et = [] then (Inr r0, s)
                else if parse_refs (wd_guards d) = None then (Inl GuardFailed, s)
                else (let ps = past_events org et (now s - days window_days) s in
                  case sim_events cel org (wd_trigger_spec d) (wd_guards d) ps s (r0\<lparr>sm_candidates := length ps\<rparr>) of
                    None \<Rightarrow> (Inl GuardFailed, s)
                  | Some r \<Rightarrow> (Inr (r\<lparr>sm_estimated_cost_minor := int (sm_would_have_fired r) * int agents * cost_per_message org s\<rparr>), s)))
           | _ \<Rightarrow> (Inr r0, s)))"

subsection \<open>Activation\<close>

definition ACTIVATE_ACTION :: string where "ACTIVATE_ACTION = ''workflow.activate''"
definition ACTIVATE_TIER :: int where "ACTIVATE_TIER = 2"
definition TRUST_THRESHOLD :: nat where "TRUST_THRESHOLD = 50"

record trust_status =
  tu_clean_runs :: nat
  tu_threshold :: nat
  tu_earned :: bool
  tu_tier_floor :: "int option"

definition trust_of :: "nat \<Rightarrow> trust_status" where
  "trust_of clean = \<lparr>tu_clean_runs = clean, tu_threshold = TRUST_THRESHOLD, tu_earned = (TRUST_THRESHOLD \<le> clean),
     tu_tier_floor = (if TRUST_THRESHOLD \<le> clean then None else Some ACTIVATE_TIER)\<rparr>"

definition clean_runs :: "uuid \<Rightarrow> uuid \<Rightarrow> 'a wf_db_scheme \<Rightarrow> nat" where
  "clean_runs org i s = length (filter (\<lambda>r. rls_visible s (wr_org_id r) \<and> wr_org_id r = org \<and> wr_definition_id r = i \<and>
     wr_status r = ''completed'') (workflow_runs s))"

definition owner_trust_status :: "uuid \<Rightarrow> uuid \<Rightarrow> 'a wf_db_scheme \<Rightarrow> trust_status" where
  "owner_trust_status org i s0 = trust_of (clean_runs org i (set_org_context org s0))"

definition trust_json :: "trust_status \<Rightarrow> json" where
  "trust_json t = JObj [(''clean_runs'', JInt (int (tu_clean_runs t))), (''threshold'', JInt (int (tu_threshold t))),
     (''earned'', JBool (tu_earned t)), (''tier_floor'', case tu_tier_floor t of None \<Rightarrow> JNull | Some n \<Rightarrow> JInt n)]"

definition sim_json :: "sim_report \<Rightarrow> json" where
  "sim_json r = JObj [(''candidates'', JInt (int (sm_candidates r))), (''would_have_fired'', JInt (int (sm_would_have_fired r))),
     (''guard_blocks'', JObj (map (\<lambda>(g, n). (g, JInt (int n))) (sm_guard_blocks r))),
     (''estimated_cost_minor'', JInt (sm_estimated_cost_minor r))]"

datatype activation_error = NoSuchDefinition | NotActivatable string | SimulationFailed sim_error | ApprovalFailed approval_error

definition request_activation :: "wf_cel \<Rightarrow> uuid \<Rightarrow> uuid \<Rightarrow> int \<Rightarrow> (activation_error, uuid \<times> sim_report \<times> trust_status, 'a flow_db_scheme) op" where
  "request_activation cel org i window_days s0 =
     (let s = set_org_context org s0 in
      case own_definition org i s of
        None \<Rightarrow> (Inl NoSuchDefinition, s)
      | Some d \<Rightarrow>
          if wd_origin d \<noteq> ''owner_built'' then (Inl (NotActivatable ''only owner-built definitions use the activation flow''), s)
          else if wd_status d = ''active'' then (Inl (NotActivatable ''definition is already active''), s)
          else (case simulate cel org i window_days s of
              (Inl e, s1) \<Rightarrow> (Inl (SimulationFailed e), s1)
            | (Inr report, s1) \<Rightarrow>
                (let trust = owner_trust_status org i s1 in
                 case create_approval org ACTIVATE_ACTION ACTIVATE_TIER
                     [(''definition_id'', JId i), (''workflow_key'', JStr (wd_workflow_key d)), (''simulation'', sim_json report),
                      (''trust'', trust_json trust)] None None [] None DEFAULT_EXPIRES_S s1 of
                   (Inl e, s2) \<Rightarrow> (Inl (ApprovalFailed e), s2)
                 | (Inr a, s2) \<Rightarrow> (Inr (a, report, trust), s2))))"

definition apply_activation_decision :: "uuid \<Rightarrow> uuid \<Rightarrow> bool \<Rightarrow> 'a wf_db_scheme \<Rightarrow> 'a wf_db_scheme" where
  "apply_activation_decision org i approved s = (if approved then activate org i s else s)"

text \<open>The consumer of a resolved \<open>workflow.activate\<close> approval; \<open>False\<close> when it raises.\<close>

definition on_activation_resolved :: "json \<Rightarrow> 'a wf_db_scheme \<Rightarrow> bool \<times> 'a wf_db_scheme" where
  "on_activation_resolved env s0 =
     (case py_uuid (jget_null env ''subject'') of
        Inl _ \<Rightarrow> (False, s0)
      | Inr org \<Rightarrow>
          (let s = set_org_context org s0;
               data = (let d = jget_null env ''data'' in if truthy d then d else JObj []); a = jget_null data ''approval_id'' in
           if \<not> truthy a then (True, s0)
           else (case py_uuid a of
               Inl _ \<Rightarrow> (False, s0)
             | Inr ap \<Rightarrow>
                 (case find (\<lambda>r. rls_visible s (ar_org_id r) \<and> ar_id r = ap) (approvals s) of
                    None \<Rightarrow> (True, s)
                  | Some r \<Rightarrow>
                      if ar_action_type r \<noteq> ACTIVATE_ACTION then (True, s)
                      else (let i = jget_null (ar_payload r) ''definition_id'' in
                        if \<not> truthy i then (True, s)
                        else (case py_uuid i of
                            Inl _ \<Rightarrow> (False, s0)
                          | Inr di \<Rightarrow> (True, apply_activation_decision org di (jget_null data ''decision'' = JStr ''approved'') s)))))))"

end
