(* ===== verification/OwnerWorkflows.thy ===== *)
theory OwnerWorkflows
  imports Authoring Progress
begin

text \<open>
  What the rules for owner-built definitions guarantee, and what they do not: a document that is
  accepted can be compiled, and the compiled program emits no platform event; but saving it may
  overwrite the steps of a pack's workflow.
\<close>

lemma any_of_False_iff: "any_of bs = Some False \<longleftrightarrow> (\<forall>b \<in> set bs. b = Some False)"
  by (induction bs) (auto split: option.splits bool.splits)

lemma any_sub_False:
  "any_sub f d k = Some False \<longleftrightarrow> (\<exists>xs. sub_items d k = Some xs \<and> (\<forall>x \<in> set xs. f x = Some False))"
  by (auto simp: any_sub_def any_of_False_iff split: option.split)

lemma map_eq_map_Some: "map f xs = map Some ys \<longleftrightarrow> list_all2 (\<lambda>x y. f x = Some y) xs ys"
  by (induction xs arbitrary: ys) (auto simp: list_all2_Cons1 map_eq_Cons_conv Cons_eq_map_conv)

lemma map_sub_rel: "map_sub f d k = Some ys \<longleftrightarrow> (\<exists>xs. sub_items d k = Some xs \<and> list_all2 (\<lambda>x y. f x = Some y) xs ys)"
  by (simp add: map_sub_Some map_eq_map_Some)

lemma map_sub_exists:
  "sub_items d k = Some xs \<Longrightarrow> (\<And>x. x \<in> set xs \<Longrightarrow> \<exists>y. f x = Some y) \<Longrightarrow> \<exists>ys. map_sub f d k = Some ys"
proof -
  assume "sub_items d k = Some xs" and "\<And>x. x \<in> set xs \<Longrightarrow> \<exists>y. f x = Some y"
  then have "map f xs = map Some (map (\<lambda>x. the (f x)) xs)" by fastforce
  with \<open>sub_items d k = Some xs\<close> show ?thesis by (auto simp: map_sub_Some simp del: map_map)
qed

lemma sub_items_put [simp]:
  "sub_items (dict_put k (JArr xs) d) k' = (if k' = k then Some xs else sub_items d k')"
  by (simp add: sub_items_def items_of_def py_iter_def)

subsection \<open>An accepted document can be read\<close>

lemma all_subD: "all_sub p d k \<Longrightarrow> \<exists>xs. sub_items d k = Some xs \<and> (\<forall>x \<in> set xs. p x)"
  using sub_arr_items by (auto simp: all_sub_def list_all_iff split: option.splits)

lemma optional_subD: "map_of d k \<noteq> None \<longrightarrow> all_sub p d k \<Longrightarrow> \<exists>xs. sub_items d k = Some xs \<and> (\<forall>x \<in> set xs. p x)"
  using all_subD [of p d k] by (cases "map_of d k") (auto simp: sub_items_def)

lemma json_obj_case: "(case c of JObj c' \<Rightarrow> P c' | _ \<Rightarrow> False) \<longleftrightarrow> (\<exists>c'. c = JObj c' \<and> P c')"
  by (cases c) auto

lemma json_obj_Some: "(case c of JObj c' \<Rightarrow> g c' | _ \<Rightarrow> None) = Some y \<longleftrightarrow> (\<exists>c'. c = JObj c' \<and> g c' = Some y)"
  by (cases c) auto

lemma step_ok_shape:
  assumes "step_ok step"
  obtains verb b where "step = JObj [(verb, JObj b)]"
proof (cases step)
  case (JObj st)
  show ?thesis
  proof (cases st)
    case (Cons kv r)
    obtain verb v where kv: "kv = (verb, v)" by (cases kv)
    show ?thesis using assms that JObj Cons kv by (cases r; cases v) (simp_all add: step_ok.simps)
  qed (use assms JObj in \<open>simp add: step_ok.simps\<close>)
qed (use assms in \<open>simp_all add: step_ok.simps\<close>)

lemma step_ok_branch:
  "step_ok (JObj [(''branch'', JObj b)]) \<longleftrightarrow>
     props [''cases'', ''default''] [''cases''] b \<and>
     all_sub (\<lambda>c. case c of JObj c' \<Rightarrow> props [''when'', ''steps''] [''when'', ''steps''] c' \<and>
       prop_ok ''when'' is_str c' \<and> all_sub step_ok c' ''steps'' | _ \<Rightarrow> False) b ''cases'' \<and>
     (map_of b ''default'' \<noteq> None \<longrightarrow> all_sub step_ok b ''default'')"
  by (simp add: step_ok.simps)

lemma step_ok_loop: "step_ok (JObj [(''loop'', JObj b)]) \<Longrightarrow> map_of b ''steps'' \<noteq> None \<longrightarrow> all_sub step_ok b ''steps''"
  by (simp add: step_ok.simps)

lemma step_ok_verb:
  "step_ok (JObj [(verb, JObj b)]) \<Longrightarrow> verb \<in> {''branch'', ''loop'', ''agent_task'', ''tool_call'', ''human_task'', ''wait'', ''emit'', ''set''}"
  by (simp add: step_ok.simps split: if_splits)

lemma step_ok_decodes: "step_ok step \<Longrightarrow> \<exists>st. decode_step step = Some st"
proof (induction step rule: measure_induct_rule [of size])
  case (less step)
  obtain verb b where step: "step = JObj [(verb, JObj b)]" using less.prems by (rule step_ok_shape)
  have sm: "size x < size (JObj b) \<Longrightarrow> step_ok x \<Longrightarrow> \<exists>st. decode_step x = Some st" for x
    using less.IH [of x] step by simp
  have subs: "\<exists>ys. map_sub decode_step d k = Some ys"
    if it: "sub_items d k = Some xs" and sz: "size (JObj d) \<le> size (JObj b)" and st: "\<And>x. x \<in> set xs \<Longrightarrow> step_ok x" for d k xs
  proof (rule map_sub_exists [OF it])
    fix x
    assume x: "x \<in> set xs"
    have "size x < size (JObj b)" using sub_items_size [OF it x] sz by (rule less_le_trans)
    then show "\<exists>y. decode_step x = Some y" using st [OF x] by (rule sm)
  qed
  consider "verb = ''branch''" | "verb = ''loop''"
    | "verb \<in> {''agent_task'', ''tool_call'', ''human_task'', ''wait'', ''emit'', ''set''}"
    using step_ok_verb [of verb b] less.prems step by (simp only: insert_iff simp_thms) metis
  then show ?case
  proof cases
    case 1
    let ?q = "\<lambda>c. case c of JObj c' \<Rightarrow> map_option (Pair (get_text c' ''when'')) (map_sub decode_step c' ''steps'') | _ \<Rightarrow> None"
    obtain cs where cs: "sub_items b ''cases'' = Some cs" and c: "\<And>c. c \<in> set cs \<Longrightarrow> \<exists>c'. c = JObj c' \<and> all_sub step_ok c' ''steps''"
    proof -
      have "all_sub (\<lambda>c. case c of JObj c' \<Rightarrow> props [''when'', ''steps''] [''when'', ''steps''] c' \<and>
         prop_ok ''when'' is_str c' \<and> all_sub step_ok c' ''steps'' | _ \<Rightarrow> False) b ''cases''"
        using less.prems step 1 step_ok_branch by simp
      from all_subD [OF this] show ?thesis using that by (fastforce simp: json_obj_case)
    qed
    have "\<exists>y. ?q c = Some y" if cin: "c \<in> set cs" for c
    proof -
      obtain c' where c': "c = JObj c'" "all_sub step_ok c' ''steps''" using c [OF cin] by blast
      moreover have "size (JObj c') < size (JObj b)" using sub_items_size [OF cs cin] c'(1) by simp
      moreover obtain ss where "sub_items c' ''steps'' = Some ss" "\<forall>x \<in> set ss. step_ok x"
        using all_subD [OF c'(2)] by blast
      ultimately have "\<exists>ys. map_sub decode_step c' ''steps'' = Some ys" using subs less_imp_le by blast
      then show ?thesis using c'(1) by auto
    qed
    with cs have "\<exists>ys. map_sub ?q b ''cases'' = Some ys" by (rule map_sub_exists)
    moreover obtain ds where "sub_items b ''default'' = Some ds" "\<forall>d \<in> set ds. step_ok d"
      using less.prems step 1 step_ok_branch [of b] optional_subD [of b "''default''" step_ok] by blast
    then have "\<exists>ys. map_sub decode_step b ''default'' = Some ys" using subs by blast
    ultimately show ?thesis using 1 by (auto simp: step decode_step.simps)
  next
    case 2
    obtain ds where "sub_items b ''steps'' = Some ds" "\<forall>d \<in> set ds. step_ok d"
      using less.prems step 2 step_ok_loop [of b] optional_subD [of b "''steps''" step_ok] by blast
    then have "\<exists>ys. map_sub decode_step b ''steps'' = Some ys" using subs by blast
    then show ?thesis using 2 by (auto simp: step decode_step.simps)
  next
    case 3
    then show ?thesis by (auto simp: step decode_step.simps)
  qed
qed

lemma valid_dsl_decodes:
  assumes v: "validate_dsl d" and g: "map_of d' = (map_of d)(''guards'' \<mapsto> gs)"
  shows "\<exists>w. decode_dsl d' = Some w"
proof -
  have dec: "\<exists>steps. decode_steps x = Some steps" if x_ok: "steps_ok x" for x
  proof -
    obtain xs where x: "x = JArr xs" "\<And>s. s \<in> set xs \<Longrightarrow> step_ok s"
      using x_ok by (cases x) (auto simp: steps_ok_def list_all_iff)
    then have "map decode_step xs = map Some (map (\<lambda>s. the (decode_step s)) xs)" using step_ok_decodes by fastforce
    then have "those (map decode_step xs) = Some (map (\<lambda>s. the (decode_step s)) xs)" by (simp only: those_Some_iff)
    then show ?thesis using x(1) by (simp add: decode_steps_def items_of_def py_iter_def)
  qed
  obtain steps where st: "map_of d ''steps'' = Some steps" "steps_ok steps"
  proof -
    have "map_of d ''steps'' \<noteq> None" "prop_ok ''steps'' (\<lambda>v. steps_ok v \<and> v \<noteq> JArr []) d"
      using v by (simp_all add: validate_dsl_def props_def)
    then show ?thesis using that by (auto simp: prop_ok_def)
  qed
  have comp: "\<exists>fs. decode_steps (jget_null (JObj c) ''on_failure'') = Some fs"
    if "map_of d ''compensation'' = Some (JObj c)" for c
  proof -
    have "prop_ok ''compensation'' compensation_ok d" using v by (simp add: validate_dsl_def)
    then have "map_of c ''on_failure'' \<noteq> None" "prop_ok ''on_failure'' steps_ok c"
      using that by (simp_all add: prop_ok_def compensation_ok_def props_def)
    then show ?thesis using dec by (auto simp: prop_ok_def)
  qed
  from st dec obtain ws where "decode_steps steps = Some ws" by blast
  moreover have "\<exists>block. (case map_of d ''compensation'' of
       Some (JObj c) \<Rightarrow> map_option (\<lambda>fs. Some (fs, get_str c ''alert'')) (decode_steps (jget_null (JObj c) ''on_failure''))
     | _ \<Rightarrow> Some None) = Some block"
    using comp by (auto split: option.split json.split simp del: jget_null_Obj)
  ultimately show ?thesis using st(1) by (auto simp: decode_dsl_def g simp del: jget_null_Obj)
qed

subsection \<open>An owner's program emits nothing\<close>

fun emits :: "wf_step \<Rightarrow> bool" and emits_any :: "wf_step list \<Rightarrow> bool" and emits_cases :: "(string \<times> wf_step list) list \<Rightarrow> bool" where
  "emits (EmitStep e m) = True"
| "emits (BranchStep cases dflt) = (emits_cases cases \<or> emits_any dflt)"
| "emits _ = False"
| "emits_any [] = False"
| "emits_any (s # ss) = (emits s \<or> emits_any ss)"
| "emits_cases [] = False"
| "emits_cases ((when, steps) # cs) = (emits_any steps \<or> emits_cases cs)"

lemma emits_any_iff: "emits_any ss \<longleftrightarrow> (\<exists>s \<in> set ss. emits s)"
  by (induction ss) auto

lemma emits_cases_iff: "emits_cases cs \<longleftrightarrow> (\<exists>c \<in> set cs. emits_any (snd c))"
  by (induction cs) auto

lemma comp_emits:
  "EMIT e m \<in> set (comp_step n s) \<Longrightarrow> emits s"
  "EMIT e m \<in> set (comp_steps n ss) \<Longrightarrow> emits_any ss"
  "EMIT e m \<in> set (comp_cases n d cs) \<Longrightarrow> emits_cases cs"
  by (induction s and ss and cs arbitrary: n and n and n d rule: emits_emits_any_emits_cases.induct) (auto simp: Let_def)

lemma compile_emits: "\<not> emits_any steps \<Longrightarrow> EMIT e m \<notin> set (compile_program steps)"
  using comp_emits(2) by (fastforce simp: compile_program_comp)

lemma list_all2_in: "list_all2 R xs ys \<Longrightarrow> y \<in> set ys \<Longrightarrow> \<exists>x \<in> set xs. R x y"
  by (induction rule: list_all2_induct) auto

text \<open>Two maps in a row over the items of one property.\<close>

lemma map_sub_twice:
  assumes "sub_items d k = Some xs" "list_all2 (\<lambda>x y. f x = Some y) xs ys" "list_all2 (\<lambda>y z. g y = Some z) ys zs" "z \<in> set zs"
  obtains x y where "x \<in> set xs" "f x = Some y" "g y = Some z"
proof -
  obtain y where "y \<in> set ys" "g y = Some z" using list_all2_in [OF assms(3,4)] by blast
  moreover obtain x where "x \<in> set xs" "f x = Some y" using list_all2_in [OF assms(2) calculation(1)] by blast
  ultimately show ?thesis using that by blast
qed

lemma desugar_branch:
  "desugar_step (JObj ((''branch'', v) # kvs)) = Some s' \<longleftrightarrow> (\<exists>b cs ds. v = JObj b \<and>
     map_sub (\<lambda>c. case c of JObj c' \<Rightarrow> map_option (\<lambda>ss. JObj (dict_put ''steps'' (JArr ss) c')) (map_sub desugar_step c' ''steps'')
        | _ \<Rightarrow> None) b ''cases'' = Some cs \<and>
     map_sub desugar_step b ''default'' = Some ds \<and>
     s' = JObj [(''branch'', JObj (dict_put ''default'' (JArr ds) (dict_put ''cases'' (JArr cs) b)))])"
  by (cases v) (simp_all add: desugar_step.simps SUGAR_AGENT_def split: option.split, metis)

lemma decode_branch:
  "decode_step (JObj ((''branch'', JObj b) # kvs)) = Some w \<longleftrightarrow> (\<exists>cs ds.
     map_sub (\<lambda>c. case c of JObj c' \<Rightarrow> map_option (Pair (get_text c' ''when'')) (map_sub decode_step c' ''steps'') | _ \<Rightarrow> None)
       b ''cases'' = Some cs \<and> map_sub decode_step b ''default'' = Some ds \<and> w = BranchStep cs ds)"
  by (simp add: decode_step.simps) (auto split: option.splits)

lemma has_emit_branch:
  "has_emit (JObj ((''branch'', JObj b) # kvs)) = Some False \<Longrightarrow>
     any_sub (\<lambda>c. case c of JObj c' \<Rightarrow> any_sub has_emit c' ''steps'' | _ \<Rightarrow> None) b ''cases'' = Some False \<and>
     any_sub has_emit b ''default'' = Some False"
  by (simp add: has_emit.simps split: if_splits option.splits bool.splits)

lemma desugared_emits:
  "desugar_step s = Some s' \<Longrightarrow> has_emit s = Some False \<Longrightarrow> decode_step s' = Some w \<Longrightarrow> \<not> emits w"
proof (induction s arbitrary: s' w rule: measure_induct_rule [of size])
  case (less s)
  obtain verb v kvs where s: "s = JObj ((verb, v) # kvs)"
    using less.prems(1) by (cases s) (auto simp: desugar_step.simps split: list.splits)
  have subs: "\<not> emits_any ws"
    if it: "sub_items d k = Some xs" and sz: "size (JObj d) < size s" and ys: "list_all2 (\<lambda>x y. desugar_step x = Some y) xs ys"
      and ws: "list_all2 (\<lambda>y z. decode_step y = Some z) ys ws" and e: "\<forall>x \<in> set xs. has_emit x = Some False" for d k xs ys ws
  proof
    assume "emits_any ws"
    then obtain z where z: "z \<in> set ws" "emits z" by (auto simp: emits_any_iff)
    obtain x y where x: "x \<in> set xs" "desugar_step x = Some y" "decode_step y = Some z"
      using map_sub_twice [OF it ys ws z(1)] by blast
    have "size x < size s" using sub_items_size [OF it x(1)] sz by (rule less_trans)
    then show False using less.IH x e z(2) by blast
  qed
  consider "verb \<in> set SUGAR_AGENT" | "verb = ''approval_gate''" | "verb = ''loop''" | "verb = ''branch''"
    | "verb \<notin> set SUGAR_AGENT" "verb \<notin> {''approval_gate'', ''loop'', ''branch''}" by blast
  then show ?case
  proof cases
    case 1
    then obtain b where "s' = JObj [(''agent_task'', JObj b)]"
      using less.prems(1) s by (auto simp: desugar_step.simps json_obj_Some)
    then show ?thesis using less.prems(3) by (auto simp: decode_step.simps)
  next
    case 2
    then obtain b where "s' = JObj [(''human_task'', JObj b)]"
      using less.prems(1) s by (auto simp: desugar_step.simps SUGAR_AGENT_def json_obj_Some approval_gate_def)
    then show ?thesis using less.prems(3) by (auto simp: decode_step.simps)
  next
    case 3
    then obtain b where "s' = JObj [(''loop'', JObj b)]"
      using less.prems(1) s by (auto simp: desugar_step.simps SUGAR_AGENT_def json_obj_Some)
    then show ?thesis using less.prems(3) by (auto simp: decode_step.simps)
  next
    case 4
    obtain b cs ds where v: "v = JObj b" and
        cs: "map_sub (\<lambda>c. case c of JObj c' \<Rightarrow> map_option (\<lambda>ss. JObj (dict_put ''steps'' (JArr ss) c')) (map_sub desugar_step c' ''steps'')
          | _ \<Rightarrow> None) b ''cases'' = Some cs" and
        ds: "map_sub desugar_step b ''default'' = Some ds" and
        s': "s' = JObj [(''branch'', JObj (dict_put ''default'' (JArr ds) (dict_put ''cases'' (JArr cs) b)))]"
      using less.prems(1) s 4 desugar_branch by blast
    have sb: "size (JObj b) < size s" by (simp add: s v)
    obtain ws zs where ws: "list_all2 (\<lambda>c w. (case c of JObj c' \<Rightarrow>
          map_option (Pair (get_text c' ''when'')) (map_sub decode_step c' ''steps'') | _ \<Rightarrow> None) = Some w) cs ws"
        and zs: "list_all2 (\<lambda>y z. decode_step y = Some z) ds zs" and w: "w = BranchStep ws zs"
      using less.prems(3) by (auto simp: s' decode_branch map_sub_rel)
    have e: "any_sub (\<lambda>c. case c of JObj c' \<Rightarrow> any_sub has_emit c' ''steps'' | _ \<Rightarrow> None) b ''cases'' = Some False"
        "any_sub has_emit b ''default'' = Some False"
      using less.prems(2) has_emit_branch by (auto simp: s v 4)
    have "\<not> emits_any zs"
      using ds e(2) sb zs subs by (fastforce simp: map_sub_rel any_sub_False)
    moreover have "\<not> emits_any (snd c)" if c: "c \<in> set ws" for c
    proof -
      obtain xs where xs: "sub_items b ''cases'' = Some xs" "list_all2 (\<lambda>c y. (case c of JObj c' \<Rightarrow>
            map_option (\<lambda>ss. JObj (dict_put ''steps'' (JArr ss) c')) (map_sub desugar_step c' ''steps'') | _ \<Rightarrow> None) = Some y) xs cs"
        using cs by (auto simp: map_sub_rel)
      obtain x y where x: "x \<in> set xs" and
          y: "(case x of JObj c' \<Rightarrow> map_option (\<lambda>ss. JObj (dict_put ''steps'' (JArr ss) c')) (map_sub desugar_step c' ''steps'')
              | _ \<Rightarrow> None) = Some y" and
          yc: "(case y of JObj c' \<Rightarrow> map_option (Pair (get_text c' ''when'')) (map_sub decode_step c' ''steps'') | _ \<Rightarrow> None) = Some c"
        using map_sub_twice [OF xs ws c] by blast
      obtain x' ss where x': "x = JObj x'" "map_sub desugar_step x' ''steps'' = Some ss" "y = JObj (dict_put ''steps'' (JArr ss) x')"
        using y by (auto simp: json_obj_Some)
      have ss: "list_all2 (\<lambda>y z. decode_step y = Some z) ss (snd c)"
        using yc x'(3) by (auto simp: map_sub_rel)
      obtain its where its: "sub_items x' ''steps'' = Some its" "list_all2 (\<lambda>x y. desugar_step x = Some y) its ss"
        using x'(2) by (auto simp: map_sub_rel)
      have "any_sub has_emit x' ''steps'' = Some False" using e(1) xs(1) x x'(1) by (fastforce simp: any_sub_False)
      then have "\<forall>x \<in> set its. has_emit x = Some False" using its(1) by (auto simp: any_sub_False)
      moreover have "size (JObj x') < size s" using sub_items_size [OF xs(1) x] sb x'(1) by simp
      ultimately show ?thesis using subs its ss by blast
    qed
    ultimately show ?thesis by (auto simp: w emits_cases_iff)
  next
    case 5
    then have "s' = s" using less.prems(1) s by (simp add: desugar_step.simps)
    moreover have "verb \<noteq> ''emit''" using less.prems(2) s by (auto simp: has_emit.simps)
    ultimately show ?thesis using less.prems(3) s 5 by (auto simp: decode_step.simps json_obj_Some split: if_splits)
  qed
qed

lemma desugared_steps_emit:
  assumes "Option.bind (items_of v) desugar_steps = Some ss" and "items_of v = Some xs" and "\<forall>x \<in> set xs. has_emit x = Some False"
    and "decode_steps (JArr ss) = Some ws"
  shows "\<not> emits_any ws"
proof -
  have d: "list_all2 (\<lambda>x y. desugar_step x = Some y) xs ss"
    using assms(1,2) by (simp add: desugar_steps_def those_Some_iff map_eq_map_Some)
  have w: "list_all2 (\<lambda>x y. decode_step x = Some y) ss ws"
    using assms(4) by (simp add: decode_steps_def items_of_def py_iter_def those_Some_iff map_eq_map_Some)
  have "\<not> emits z" if z: "z \<in> set ws" for z
  proof -
    obtain y where "y \<in> set ss" "decode_step y = Some z" using list_all2_in [OF w z] by blast
    moreover obtain x where "x \<in> set xs" "desugar_step x = Some y" using list_all2_in [OF d calculation(1)] by blast
    ultimately show ?thesis using desugared_emits assms(3) by blast
  qed
  then show ?thesis by (simp add: emits_any_iff)
qed

lemma desugar_cases:
  assumes "desugar d = Some d'" and "map_of d' ''steps'' \<noteq> None"
  obtains v ss where "map_of d ''steps'' = Some v" "Option.bind (items_of v) desugar_steps = Some ss" "map_of d' ''steps'' = Some (JArr ss)"
    and "\<And>c'. map_of d' ''compensation'' = Some (JObj c') \<Longrightarrow> map_of c' ''on_failure'' \<noteq> None \<Longrightarrow>
      \<exists>c f fs. map_of d ''compensation'' = Some (JObj c) \<and> map_of c ''on_failure'' = Some f \<and>
        Option.bind (items_of f) desugar_steps = Some fs \<and> map_of c' ''on_failure'' = Some (JArr fs)"
proof -
  obtain v where v: "map_of d ''steps'' = Some v" using assms by (cases "map_of d ''steps''") (auto simp: desugar_def)
  obtain ss where ss: "Option.bind (items_of v) desugar_steps = Some ss"
    using assms(1) v by (cases "Option.bind (items_of v) desugar_steps") (simp_all add: desugar_def)
  let ?r = "dict_put ''steps'' (JArr ss) d"
  consider (same) "d' = ?r" "\<And>c. map_of d ''compensation'' = Some (JObj c) \<Longrightarrow> map_of c ''on_failure'' = None"
    | (comp) c f fs where "map_of d ''compensation'' = Some (JObj c)" "map_of c ''on_failure'' = Some f"
        "Option.bind (items_of f) desugar_steps = Some fs" "d' = dict_put ''compensation'' (JObj (dict_put ''on_failure'' (JArr fs) c)) ?r"
    using assms(1) v ss by (auto simp: desugar_def Let_def split: option.splits json.splits)
  then show ?thesis
    by cases (rule that [OF v ss]; auto)+
qed

lemma those_sum_member: "those_sum (map f xs) = Inr ys \<Longrightarrow> y \<in> set ys \<Longrightarrow> \<exists>x. f x = Inr y"
proof (induction xs arbitrary: ys)
  case (Cons a xs)
  then obtain b bs where "f a = Inr b" "those_sum (map f xs) = Inr bs" "ys = b # bs"
    by (cases "f a"; cases "those_sum (map f xs)") auto
  then show ?case using Cons by auto
qed simp

lemma parse_guards_member: "parse_guards v = Inr gs \<Longrightarrow> g \<in> set gs \<Longrightarrow> \<exists>e. parse_guard_ref e = Inr g"
  by (auto simp: parse_guards_def split: json.splits dest: those_sum_member)

lemma parse_cases:
  assumes "parse cel_ok mandated raw = Inr p"
  obtains d gs where "desugar raw = Some d" "validate_dsl d" "pw_dsl p = dict_put ''guards'' (JArr gs) d"
    and "\<forall>m \<in> set mandated. \<exists>g \<in> set (pw_guards p). gr_name g = gr_name m"
    and "\<forall>g \<in> set (pw_guards p). g \<in> set mandated \<or> (\<exists>e. parse_guard_ref e = Inr g)"
proof -
  obtain d declared where d: "desugar raw = Some d" "validate_dsl d"
      "parse_guards (jget_null (JObj d) ''guards'') = Inr declared"
      "p = \<lparr>pw_workflow_key = pw_workflow_key p, pw_version = pw_version p,
           pw_dsl = dict_put ''guards'' (JArr (map (JStr \<circ> render_guard) (inject_mandated_guards declared mandated))) d,
           pw_trigger_spec = pw_trigger_spec p, pw_guards = inject_mandated_guards declared mandated\<rparr>"
    using assms by (auto simp: parse_def Let_def split: option.splits if_splits sum.splits)
  show ?thesis
  proof (rule that [OF d(1,2)])
    show "pw_dsl p = dict_put ''guards'' (JArr (map (JStr \<circ> render_guard) (inject_mandated_guards declared mandated))) d"
      by (subst d(4)) simp
    have g: "pw_guards p = inject_mandated_guards declared mandated" by (subst d(4)) simp
    then show "\<forall>m \<in> set mandated. \<exists>g \<in> set (pw_guards p). gr_name g = gr_name m" using mandated_guard_kept by metis
    show "\<forall>g \<in> set (pw_guards p). g \<in> set mandated \<or> (\<exists>e. parse_guard_ref e = Inr g)"
      using parse_guards_member [OF d(3)] by (auto simp: g inject_mandated_guards_def)
  qed
qed

lemma accepted_dsl_decodes: "parse cel_ok mandated raw = Inr p \<Longrightarrow> \<exists>w. decode_dsl (pw_dsl p) = Some w"
  by (erule parse_cases) (use valid_dsl_decodes in auto)

text \<open>
  C17: owners cannot forge platform events. Whatever document an owner submits, if it is accepted then
  what the executor will run for it, the compiled steps and the compiled compensation, contains no
  emit instruction. The check looks at the document as submitted, the program comes from the desugared one.
\<close>

theorem owner_program_emits_nothing:
  assumes v: "validate_owner_dsl cel_ok d = Inr p"
  shows "\<exists>w. decode_dsl (pw_dsl p) = Some w \<and>
    (\<forall>e m. EMIT e m \<notin> set (compile_program (dl_steps w)) \<and>
      (\<forall>steps alert. dl_compensation w = Some (steps, alert) \<longrightarrow> EMIT e m \<notin> set (compile_program steps)))"
proof -
  have p: "parse cel_ok OWNER_MANDATED_GUARDS d = Inr p"
    and e: "any_sub has_emit d ''steps'' = Some False" "any_sub has_emit (get_obj d ''compensation'') ''on_failure'' = Some False"
    using v by (auto simp: validate_owner_dsl_def split: sum.splits option.splits if_splits bool.splits)
  obtain w where w: "decode_dsl (pw_dsl p) = Some w" using accepted_dsl_decodes [OF p] by blast
  obtain d' gs where d': "desugar d = Some d'" "validate_dsl d'" "pw_dsl p = dict_put ''guards'' (JArr gs) d'"
    using parse_cases [OF p] by metis
  have "map_of d' ''steps'' \<noteq> None" using d'(2) by (simp add: validate_dsl_def props_def)
  from d'(1) this obtain v ss where v: "map_of d ''steps'' = Some v" "Option.bind (items_of v) desugar_steps = Some ss"
      "map_of d' ''steps'' = Some (JArr ss)"
    and c: "\<And>c'. map_of d' ''compensation'' = Some (JObj c') \<Longrightarrow> map_of c' ''on_failure'' \<noteq> None \<Longrightarrow>
      \<exists>c f fs. map_of d ''compensation'' = Some (JObj c) \<and> map_of c ''on_failure'' = Some f \<and>
        Option.bind (items_of f) desugar_steps = Some fs \<and> map_of c' ''on_failure'' = Some (JArr fs)"
    by (rule desugar_cases) blast
  obtain xs where "items_of v = Some xs" "\<forall>x \<in> set xs. has_emit x = Some False"
    using e(1) v(1) by (auto simp: any_sub_False sub_items_def)
  moreover have "decode_steps (JArr ss) = Some (dl_steps w)"
    using w v(3) by (auto simp: decode_dsl_def d'(3) split: option.splits)
  ultimately have "\<not> emits_any (dl_steps w)" using desugared_steps_emit [OF v(2)] by blast
  moreover have "\<not> emits_any steps" if s: "dl_compensation w = Some (steps, alert)" for steps alert
  proof -
    obtain c' where c': "map_of d' ''compensation'' = Some (JObj c')" "decode_steps (jget_null (JObj c') ''on_failure'') = Some steps"
      using w s by (auto simp: decode_dsl_def d'(3) simp del: jget_null_Obj split: option.splits json.splits)
    then have "map_of c' ''on_failure'' \<noteq> None"
      by (cases "map_of c' ''on_failure''") (simp_all add: decode_steps_def items_of_def py_iter_def)
    from c [OF c'(1) this] obtain c f fs where f: "map_of d ''compensation'' = Some (JObj c)" "map_of c ''on_failure'' = Some f"
        "Option.bind (items_of f) desugar_steps = Some fs" "map_of c' ''on_failure'' = Some (JArr fs)" by blast
    obtain xs where "items_of f = Some xs" "\<forall>x \<in> set xs. has_emit x = Some False"
      using e(2) f(1,2) by (auto simp: any_sub_False sub_items_def get_obj_def)
    moreover have "decode_steps (JArr fs) = Some steps" using c'(2) f(4) by simp
    ultimately show ?thesis using desugared_steps_emit [OF f(3)] by blast
  qed
  ultimately show ?thesis using w compile_emits by blast
qed

lemma owner_accepted_decodes: "validate_owner_dsl cel_ok d = Inr p \<Longrightarrow> \<exists>w. decode_dsl (pw_dsl p) = Some w"
  by (rule accepted_dsl_decodes) (auto simp: validate_owner_dsl_def split: sum.splits option.splits if_splits bool.splits)

definition example_document :: jobj where
  "example_document =
     [(''workflow'', JStr ''win_back''), (''version'', JInt 1),
      (''trigger'', JObj [(''event'', JObj [(''type'', JStr ''lead.went_silent.v1'')])]),
      (''steps'', JArr [
        JObj [(''diagnose'', JObj [(''archetype'', JStr ''nurture''), (''task'', JStr ''diagnose'')])],
        JObj [(''branch'', JObj [(''cases'', JArr [JObj [(''when'', JStr ''diagnose.abstain''),
          (''steps'', JArr [JObj [(''set'', JObj [(''vars'', JObj [(''x'', JInt 1)])])]])]])])]])]"

lemma example_document_valid:
  "case validate_owner_dsl (\<lambda>_. True) example_document of Inl _ \<Rightarrow> False
   | Inr p \<Rightarrow> map render_guard (pw_guards p) = [''not_suppressed''] \<and> pw_workflow_key p = ''win_back'' \<and> pw_version p = 1"
  by code_simp

lemma example_document_accepted:
  obtains p where "validate_owner_dsl (\<lambda>_. True) example_document = Inr p" "map render_guard (pw_guards p) = [''not_suppressed'']"
    "pw_workflow_key p = ''win_back''" "pw_version p = 1"
  using example_document_valid by (cases "validate_owner_dsl (\<lambda>_. True) example_document") auto

theorem owner_program_emits_nothing_witness:
  "\<exists>p w. validate_owner_dsl (\<lambda>_. True) example_document = Inr p \<and> decode_dsl (pw_dsl p) = Some w \<and>
     EMIT ''lead.qualified.v1'' [] \<notin> set (compile_program (dl_steps w))"
  using owner_program_emits_nothing by (metis example_document_accepted)

subsection \<open>The store\<close>

text \<open>The constraints of the table.\<close>

definition wf_definitions :: "'a wf_db_scheme \<Rightarrow> bool" where
  "wf_definitions s \<longleftrightarrow> distinct (map wd_id (workflow_definitions s)) \<and>
     distinct (map (\<lambda>d. (wd_org_id d, wd_workflow_key d, wd_version d)) (workflow_definitions s))"

lemma find_sole:
  assumes "r \<in> set rows" "q r" and "\<And>y. y \<in> set rows \<Longrightarrow> q y \<Longrightarrow> y = r"
  shows "find q rows = Some r"
proof (cases "find q rows")
  case None
  then show ?thesis using assms(1,2) by (auto simp: find_None_iff_ball)
next
  case (Some y)
  then show ?thesis using assms(3) [of y] find_Some_set by fastforce
qed

lemma wf_definitions_id: "wf_definitions s \<Longrightarrow> inj_on wd_id (set (workflow_definitions s))"
  by (simp add: wf_definitions_def distinct_map)

lemma wf_definitions_key:
  assumes "wf_definitions s" "r \<in> set (workflow_definitions s)" "same_version org key v r"
  shows "find (same_version org key v) (workflow_definitions s) = Some r"
proof (rule find_sole [where q = "same_version org key v", OF assms(2,3)])
  fix y
  assume y: "y \<in> set (workflow_definitions s)" "same_version org key v y"
  have "inj_on (\<lambda>d. (wd_org_id d, wd_workflow_key d, wd_version d)) (set (workflow_definitions s))"
    using assms(1) by (simp add: wf_definitions_def distinct_map)
  then show "y = r" using y assms(2,3) by (auto simp: same_version_def dest!: inj_onD)
qed

text \<open>
  An owner's draft can take over a pack's workflow. If the document carries the key and the version of
  a definition the tenant has installed, saving the draft replaces the steps of that definition and keeps
  its identifier and its origin, so a parked run of the certified workflow goes on with the owner's
  steps, and the tool steps among them are resolved to the pack's internal worker.
\<close>

theorem owner_draft_overwrites_pack:
  assumes wf: "wf_definitions s" and ctx: "org_ctx s = Some org"
    and v: "validate_owner_dsl cel_ok d = Inr p" "decode_dsl (pw_dsl p) = Some w"
    and r: "r \<in> set (workflow_definitions s)" "same_version org (pw_workflow_key p) (pw_version p) r"
    and n: "owner_count org s < MAX_OWNER_DEFINITIONS"
  shows "\<exists>s1. create_owner_definition cel_ok org d s = (Inr (wd_id r), s1) \<and>
    (\<forall>run q dsl. load_run org run s = Some (q, dsl) \<and> wr_definition_id q = wd_id r \<longrightarrow>
       load_run org run s1 = Some (q, w) \<and> map_option wd_origin (run_definition org run s1) = Some (wd_origin r))"
proof -
  have s: "set_org_context org s = s" using ctx by (simp add: set_org_context_def)
  have o: "rls_visible s org" using ctx by (simp add: rls_visible_def)
  let ?key = "same_version org (pw_workflow_key p) (pw_version p)"
  let ?f = "\<lambda>d. d\<lparr>wd_dsl := w, wd_trigger_spec := pw_trigger_spec p, wd_guards := map render_guard (pw_guards p), wd_status := ''draft''\<rparr>"
  let ?s1 = "s\<lparr>workflow_definitions := update_where ?key ?f (workflow_definitions s)\<rparr>"
  have "create_owner_definition cel_ok org d s = (Inr (wd_id r), ?s1)"
    using v n o wf_definitions_key [OF wf r] by (simp add: create_owner_definition_def s seed_definition_def op_error_def Let_def)
  moreover have "load_run org run ?s1 = Some (q, w) \<and> map_option wd_origin (run_definition org run ?s1) = Some (wd_origin r)"
    if l: "load_run org run s = Some (q, dsl)" "wr_definition_id q = wd_id r" for run q dsl
  proof -
    have q: "find (own_run org run s) (workflow_runs s) = Some q"
      using l(1) by (auto simp: load_run_def split: option.splits)
    let ?p = "\<lambda>d. rls_visible s (wd_org_id d) \<and> wd_id d = wd_id r"
    have "find ?p (workflow_definitions s) = Some r"
    proof (rule find_sole)
      show "r \<in> set (workflow_definitions s)" by (rule r(1))
      show "rls_visible s (wd_org_id r) \<and> wd_id r = wd_id r" using r(2) o by (simp add: same_version_def)
      show "y = r" if "y \<in> set (workflow_definitions s)" "rls_visible s (wd_org_id y) \<and> wd_id y = wd_id r" for y
        using that r(1) wf_definitions_id [OF wf] by (auto dest: inj_onD)
    qed
    then have "find ?p (update_where ?key ?f (workflow_definitions s)) = Some (?f r)"
      using r(2) by (simp add: find_update_where)
    moreover have "rls_visible ?s1 = rls_visible s" "own_run org run ?s1 = own_run org run s"
      by (simp_all add: fun_eq_iff rls_visible_def own_run_def)
    ultimately show ?thesis using q l(2) by (simp add: load_run_def run_definition_def)
  qed
  ultimately show ?thesis by blast
qed

definition example_pack_db :: wf_db where
  "example_pack_db = example_wf_db\<lparr>org_ctx := Some 7,
     workflow_definitions := [example_definition\<lparr>wd_workflow_key := ''win_back''\<rparr>]\<rparr>"

lemma example_pack_load:
  "load_run 7 71 example_pack_db = Some (example_workflow_run 71 ''running'', wd_dsl example_definition)"
  "wr_definition_id (example_workflow_run 71 ''running'') = 70"
  by (simp_all add: load_run_def own_run_def rls_visible_def example_pack_db_def example_workflow_run_def example_definition_def)

theorem owner_draft_overwrites_pack_witness:
  "\<exists>s1 w. create_owner_definition (\<lambda>_. True) 7 example_document example_pack_db = (Inr 70, s1) \<and>
     load_run 7 71 s1 = Some (example_workflow_run 71 ''running'', w) \<and>
     map_option wd_origin (run_definition 7 71 s1) = Some ''pack''"
proof -
  obtain p where p: "validate_owner_dsl (\<lambda>_. True) example_document = Inr p" "pw_workflow_key p = ''win_back''" "pw_version p = 1"
    by (rule example_document_accepted)
  obtain w where w: "decode_dsl (pw_dsl p) = Some w" using owner_accepted_decodes [OF p(1)] by blast
  let ?r = "example_definition\<lparr>wd_workflow_key := ''win_back''\<rparr>"
  have "\<exists>s1. create_owner_definition (\<lambda>_. True) 7 example_document example_pack_db = (Inr (wd_id ?r), s1) \<and>
    (\<forall>run q dsl. load_run 7 run example_pack_db = Some (q, dsl) \<and> wr_definition_id q = wd_id ?r \<longrightarrow>
       load_run 7 run s1 = Some (q, w) \<and> map_option wd_origin (run_definition 7 run s1) = Some (wd_origin ?r))"
    by (rule owner_draft_overwrites_pack [OF _ _ p(1) w])
      (simp_all add: p(2,3) wf_definitions_def same_version_def example_pack_db_def example_definition_def owner_count_def MAX_OWNER_DEFINITIONS_def)
  then obtain s1 where s1: "create_owner_definition (\<lambda>_. True) 7 example_document example_pack_db = (Inr (wd_id ?r), s1)"
      "load_run 7 71 s1 = Some (example_workflow_run 71 ''running'', w) \<and> map_option wd_origin (run_definition 7 71 s1) = Some (wd_origin ?r)"
    using example_pack_load by (auto simp: example_definition_def)
  then show ?thesis by (auto simp: example_definition_def)
qed

end
