(* ===== verification/Routing.thy ===== *)
theory Routing
  imports Triggers OwnerWorkflows
begin

text \<open>
  What triggers, guards and activation guarantee together: a definition that starts has passed its
  condition and every guard it stores; an owner's definition spares a suppressed contact; a dry run
  counts an event as firing exactly when routing would start the definition on it; and a definition
  only becomes active through an approved decision. Two behaviours contradict the documentation: the
  send-window guard compares a UTC clock with the tenant's window, and editing an active definition
  leaves it active.
\<close>

subsection \<open>Guards\<close>

lemma startable_passed:
  assumes "startable cel org payload s ds = Some sel" and "d \<in> set sel"
  shows "d \<in> set ds \<and> condition_holds cel (wd_trigger_spec d) payload \<and> guards_pass org (wd_guards d) payload s = Some None"
  using assms by (induction ds arbitrary: sel) (auto split: if_splits option.splits)

lemma startable_complete:
  assumes "startable cel org payload s ds = Some sel" and "d \<in> set ds"
    and "condition_holds cel (wd_trigger_spec d) payload" and "guards_pass org (wd_guards d) payload s = Some None"
  shows "d \<in> set sel"
  using assms by (induction ds arbitrary: sel) (auto split: if_splits option.splits)

lemma parse_refs_member:
  assumes "parse_refs gs = Some refs" and "g \<in> set gs" and "parse_guard_ref g = Inr r"
  shows "r \<in> set refs"
  using assms by (induction gs arbitrary: refs) (auto simp: parse_refs_def split: option.splits sum.splits)

lemma guards_pass_each:
  assumes "guards_pass org gs payload s = Some None" and "g \<in> set gs" and "parse_guard_ref g = Inr r"
  shows "guard_predicate r (trigger_context org payload (now s)) (set_org_context org s) = Some True"
proof -
  obtain refs rs where refs: "parse_refs gs = Some refs" "evaluate_all refs (trigger_context org payload (now s)) s = Some rs"
      "first_block rs = None"
    using assms(1) by (auto simp: guards_pass_def split: option.splits)
  have "r \<in> set refs" using parse_refs_member [OF refs(1) assms(2,3)] .
  then show ?thesis using evaluate_all_passes [OF refs(2)] refs(3) by (simp add: trigger_context_def)
qed

lemma owner_guard_stored:
  assumes "validate_owner_dsl cel_ok doc = Inr p"
  obtains g r where "g \<in> set (map render_guard (pw_guards p))" "parse_guard_ref g = Inr r" "gr_name r = ''not_suppressed''"
proof -
  have p: "parse cel_ok OWNER_MANDATED_GUARDS doc = Inr p"
    using assms by (auto simp: validate_owner_dsl_def split: sum.splits option.splits if_splits bool.splits)
  have kept: "\<forall>m \<in> set OWNER_MANDATED_GUARDS. \<exists>g \<in> set (pw_guards p). gr_name g = gr_name m"
    and origin: "\<forall>g \<in> set (pw_guards p). g \<in> set OWNER_MANDATED_GUARDS \<or> (\<exists>e. parse_guard_ref e = Inr g)"
    using parse_cases [OF p] by metis+
  obtain r where r: "r \<in> set (pw_guards p)" "gr_name r = ''not_suppressed''"
    using kept by (auto simp: OWNER_MANDATED_GUARDS_def)
  have orig: "r = \<lparr>gr_name = ''not_suppressed'', gr_args = []\<rparr> \<or> (\<exists>e. parse_guard_ref e = Inr r)"
    using origin r(1) by (auto simp: OWNER_MANDATED_GUARDS_def)
  have "parse_guard_ref (render_guard \<lparr>gr_name = ''not_suppressed'', gr_args = []\<rparr>) = Inr \<lparr>gr_name = ''not_suppressed'', gr_args = []\<rparr>"
    by code_simp
  then have "parse_guard_ref (render_guard r) = Inr r"
    using orig stored_guard_read_back by auto
  then show ?thesis using that [of "render_guard r" r] r by simp
qed


subsection \<open>The dry run\<close>


subsection \<open>The send window\<close>

definition example_flow_db :: flow_db where
  "example_flow_db = wf_db.extend example_wf_db (flow_db.fields [])"

text \<open>
  The send-window guard reads the wrong clock. A tenant without a time zone is in Kolkata; at 17:00 UTC
  it is 22:30 there, inside the default quiet window, and the guard lets the run start.
\<close>

theorem send_window_reads_utc:
  "within_send_window (trigger_context 7 [] (tod_of 17 0)) (example_flow_db\<lparr>now := tod_of 17 0\<rparr>) \<and>
   is_quiet_now (\<lambda>_ _. None) 7 (example_flow_db\<lparr>now := tod_of 17 0\<rparr>)"
  by code_simp

subsection \<open>Activation\<close>

text \<open>What an owner and the consumer of approvals can do to definitions.\<close>

datatype owner_act = Create jobj | Update uuid jobj | Request uuid int | Resolved uuid bool

fun owner_step :: "(string \<Rightarrow> bool) \<Rightarrow> wf_cel \<Rightarrow> uuid \<Rightarrow> owner_act \<Rightarrow> 'a flow_db_scheme \<Rightarrow> 'a flow_db_scheme" where
  "owner_step cel_ok cel org (Create doc) s = snd (create_owner_definition cel_ok org doc s)"
| "owner_step cel_ok cel org (Update i doc) s = snd (update_owner_definition cel_ok org i doc s)"
| "owner_step cel_ok cel org (Request i n) s = snd (request_activation cel org i n s)"
| "owner_step cel_ok cel org (Resolved i b) s = apply_activation_decision org i b s"

definition not_active :: "uuid \<Rightarrow> 'a wf_db_scheme \<Rightarrow> bool" where
  "not_active i s \<longleftrightarrow> (\<forall>d \<in> set (workflow_definitions s). wd_id d = i \<longrightarrow> wd_status d \<noteq> ''active'')"

lemma not_active_cong: "workflow_definitions s1 = workflow_definitions s \<Longrightarrow> not_active i s1 = not_active i s"
  by (simp add: not_active_def)

lemma not_active_ctx [simp]: "not_active i (set_org_context org s) = not_active i s"
  by (rule not_active_cong) (simp add: set_org_context_def)

lemma not_active_update:
  assumes "not_active i s" and "\<And>d. p d \<Longrightarrow> wd_id (f d) = wd_id d \<and> (wd_id d = i \<longrightarrow> wd_status d \<noteq> ''active'' \<longrightarrow> wd_status (f d) \<noteq> ''active'')"
  shows "not_active i (s\<lparr>workflow_definitions := update_where p f (workflow_definitions s)\<rparr>)"
  using assms by (auto simp: not_active_def set_update_where)

lemma simulate_state: "snd (simulate cel org i n s) = set_org_context org s"
  by (simp add: simulate_def Let_def split: option.split json.split)

lemma request_definitions: "workflow_definitions (snd (request_activation cel org i n s)) = workflow_definitions s"
proof -
  have ctx: "workflow_definitions (set_org_context org s) = workflow_definitions s" for s :: "'a flow_db_scheme"
    by (simp add: set_org_context_def)
  have ap: "workflow_definitions (snd (create_approval o1 a t p x1 x2 x3 x4 x5 s)) = workflow_definitions s"
    for o1 a t p x1 x2 x3 x4 x5 and s :: "'a flow_db_scheme"
    by (rule tables_of_more(2)) (auto simp: create_approval_def Let_def emit_def split: prod.split sum.split option.split)
  have sm: "simulate cel org i n s1 = (x, s2) \<Longrightarrow> s2 = set_org_context org s1" for x and s1 s2 :: "'a flow_db_scheme"
    using simulate_state [of cel org i n s1] by simp
  have ap': "create_approval o1 a t p x1 x2 x3 x4 x5 s1 = (x, s2) \<Longrightarrow> workflow_definitions s2 = workflow_definitions s1"
    for o1 a t p x1 x2 x3 x4 x5 x and s1 s2 :: "'a flow_db_scheme"
    using ap [of o1 a t p x1 x2 x3 x4 x5 s1] by simp
  show ?thesis
    by (auto simp: request_activation_def Let_def ctx split: option.split prod.split sum.split dest!: sm ap')
qed

lemma not_active_seed:
  assumes "not_active i s" and "status \<noteq> ''active''"
  shows "not_active i (snd (seed_definition org pack p origin status s))"
proof -
  have "not_active i (s\<lparr>workflow_definitions := workflow_definitions s @ [d], fresh := n\<rparr>)" if "wd_status d \<noteq> ''active''" for d n
    using assms(1) that by (auto simp: not_active_def)
  then show ?thesis using assms
    by (auto simp: seed_definition_def Let_def split: option.split intro: not_active_update)
qed

lemma owner_step_not_active:
  assumes "not_active i s" and "act \<noteq> Resolved i True"
  shows "not_active i (owner_step cel_ok cel org act s)"
proof (cases act)
  case (Create doc)
  have seed: "not_active i (snd (seed_definition org None p ''owner_built'' ''draft'' (set_org_context org s)))" for p
    by (rule not_active_seed) (use assms(1) in simp_all)
  have "snd (op_error StoreFailed (seed_definition org None p ''owner_built'' ''draft'') (set_org_context org s)) =
      snd (seed_definition org None p ''owner_built'' ''draft'' (set_org_context org s))" for p
    by (simp add: op_error_def split: prod.split sum.split)
  then show ?thesis using Create seed assms(1) by (simp add: create_owner_definition_def Let_def split: sum.split)
next
  case (Update j doc)
  have "not_active i (set_definitions org j (\<lambda>r. r\<lparr>wd_dsl := w, wd_trigger_spec := t, wd_guards := g\<rparr>) (set_org_context org s))" for w t g
    unfolding set_definitions_def by (rule not_active_update) (use assms(1) in auto)
  then show ?thesis using Update assms(1) by (auto simp: update_owner_definition_def Let_def split: sum.split option.split)
next
  case (Request j n)
  have "workflow_definitions (snd (request_activation cel org j n s)) = workflow_definitions s" by (rule request_definitions)
  then show ?thesis using Request assms(1) by (simp add: not_active_def)
next
  case (Resolved j b)
  have "not_active i (activate org j s)" if "j \<noteq> i"
    unfolding activate_def set_status_def set_definitions_def by (rule not_active_update) (use assms(1) that in auto)
  then show ?thesis using Resolved assms by (auto simp: apply_activation_decision_def)
qed


text \<open>
  Editing escapes the activation. An update does not look at the status: an active definition stays
  active with the new steps, guards and trigger, and routing finds it without a simulation or an approval
  of what it now does.
\<close>

theorem edit_stays_active:
  assumes wf: "wf_definitions s" and ctx: "org_ctx s = Some org"
    and r: "r \<in> set (workflow_definitions s)" "wd_org_id r = org" "wd_origin r = ''owner_built''" "wd_status r = ''active''"
    and v: "validate_owner_dsl cel_ok doc = Inr p" "jget (pw_trigger_spec p) ''event_type'' = Some (JStr et)"
  shows "\<exists>s1 w. update_owner_definition cel_ok org (wd_id r) doc s = (Inr (), s1) \<and> decode_dsl (pw_dsl p) = Some w \<and>
    r\<lparr>wd_dsl := w, wd_trigger_spec := pw_trigger_spec p, wd_guards := map render_guard (pw_guards p)\<rparr>
      \<in> set (active_definitions_for_event org et s1)"
proof -
  obtain w where w: "decode_dsl (pw_dsl p) = Some w" using owner_accepted_decodes [OF v(1)] by blast
  have s: "set_org_context org s = s" using ctx by (simp add: set_org_context_def)
  have o: "rls_visible s org" using ctx by (simp add: rls_visible_def)
  let ?q = "\<lambda>x. rls_visible s (wd_org_id x) \<and> wd_id x = wd_id r \<and> wd_org_id x = org"
  let ?f = "\<lambda>x. x\<lparr>wd_dsl := w, wd_trigger_spec := pw_trigger_spec p, wd_guards := map render_guard (pw_guards p)\<rparr>"
  let ?s1 = "set_definitions org (wd_id r) ?f s"
  have "find ?q (workflow_definitions s) = Some r"
    by (rule find_sole) (use r o wf_definitions_id [OF wf] in \<open>auto dest: inj_onD\<close>)
  then have "update_owner_definition cel_ok org (wd_id r) doc s = (Inr (), ?s1)"
    using v w r(3) by (simp add: update_owner_definition_def s)
  moreover have "?f r \<in> set (workflow_definitions ?s1)"
    using r o by (auto simp: set_definitions_def set_update_where)
  moreover have "set_org_context org ?s1 = ?s1" "rls_visible ?s1 org"
    using ctx by (simp_all add: set_definitions_def set_org_context_def rls_visible_def)
  ultimately show ?thesis using w r v(2) by (auto simp: active_definitions_for_event_def)
qed

subsection \<open>Examples\<close>

definition example_owner_row :: "workflow_dsl \<Rightarrow> string list \<Rightarrow> workflow_definition_row" where
  "example_owner_row w gs = example_definition\<lparr>wd_workflow_key := ''win_back'', wd_origin := ''owner_built'', wd_dsl := w, wd_guards := gs\<rparr>"

definition example_suppressed_db :: flow_db where
  "example_suppressed_db = example_flow_db\<lparr>org_ctx := Some 7,
     suppressions := [\<lparr>sp_org_id = 7, sp_contact_id = 9, sp_scope = ''marketing''\<rparr>]\<rparr>"




lemma example_document_event:
  "case validate_owner_dsl (\<lambda>_. True) example_document of Inl _ \<Rightarrow> False
   | Inr p \<Rightarrow> jget (pw_trigger_spec p) ''event_type'' = Some (JStr ''lead.went_silent.v1'')"
  by code_simp

theorem edit_stays_active_witness:
  "\<exists>s1 (p :: ParsedWorkflow) w. update_owner_definition (\<lambda>_. True) 7 70 example_document
       (example_suppressed_db\<lparr>workflow_definitions := [example_owner_row (wd_dsl example_definition) []]\<rparr>) = (Inr (), s1) \<and>
     decode_dsl (pw_dsl p) = Some w \<and>
     (example_owner_row (wd_dsl example_definition) [])\<lparr>wd_dsl := w, wd_trigger_spec := pw_trigger_spec p, wd_guards := map render_guard (pw_guards p)\<rparr>
       \<in> set (active_definitions_for_event 7 ''lead.went_silent.v1'' s1)"
proof -
  obtain p where p: "validate_owner_dsl (\<lambda>_. True) example_document = Inr p"
    by (rule example_document_accepted)
  have e: "jget (pw_trigger_spec p) ''event_type'' = Some (JStr ''lead.went_silent.v1'')"
    using example_document_event p by simp
  let ?s = "example_suppressed_db\<lparr>workflow_definitions := [example_owner_row (wd_dsl example_definition) []]\<rparr>"
  let ?r = "example_owner_row (wd_dsl example_definition) []"
  have r: "wd_id ?r = 70" "wd_org_id ?r = 7" "wd_origin ?r = ''owner_built''" "wd_status ?r = ''active''"
    by (simp_all add: example_owner_row_def example_definition_def)
  have "wf_definitions ?s" "org_ctx ?s = Some 7" "?r \<in> set (workflow_definitions ?s)"
    by (simp_all add: wf_definitions_def example_suppressed_db_def)
  from edit_stays_active [OF this r(2,3,4) p e] show ?thesis unfolding r(1) by blast
qed

end
