(* ===== verification/Decimals.thy ===== *)
theory Decimals
  imports Text Complex_Main
begin

text \<open>
  Python's \<open>decimal\<close> as the pricing engine uses it (\<open>core/pricing/functions.py\<close>): a finite number is a
  coefficient and an exponent, and arithmetic is done in the default context, so every result is
  rounded half-even to 28 significant digits. The limits on the exponent (\<open>Emax\<close>, \<open>Emin\<close>) and the sign
  of zero are left out. \<open>dval\<close> is the number a decimal stands for.
\<close>

subsection \<open>Rounding integers\<close>

datatype rounding = HalfEven | HalfUp | Down | Up

definition rounds_away :: "rounding \<Rightarrow> int \<Rightarrow> int \<Rightarrow> int \<Rightarrow> bool" where
  "rounds_away m q r d =
     (case m of
        HalfEven \<Rightarrow> d < 2 * r \<or> (2 * r = d \<and> odd q)
      | HalfUp \<Rightarrow> d \<le> 2 * r
      | Down \<Rightarrow> False
      | Up \<Rightarrow> 0 < r)"

text \<open>\<open>c / d\<close> rounded to an integer, for \<open>d > 0\<close>.\<close>

definition rounded :: "rounding \<Rightarrow> int \<Rightarrow> int \<Rightarrow> int" where
  "rounded m c d = (let q = \<bar>c\<bar> div d; r = \<bar>c\<bar> mod d in sgn c * (if rounds_away m q r d then q + 1 else q))"

lemma rounded_zero [simp]: "rounded m 0 d = 0"
  by (simp add: rounded_def)

lemma rounded_minus [simp]: "rounded m (- c) d = - rounded m c d"
  by (simp add: rounded_def Let_def)

lemma rounded_one [simp]: "rounded m c 1 = c"
  by (cases m) (auto simp: rounded_def rounds_away_def Let_def sgn_if)

lemma rounded_pos_bounds:
  assumes "0 \<le> c" "0 < d"
  shows "\<bar>rounded m c d * d - c\<bar> < d"
    and "m = HalfEven \<or> m = HalfUp \<Longrightarrow> 2 * \<bar>rounded m c d * d - c\<bar> \<le> d"
    and "m = Down \<Longrightarrow> rounded m c d * d \<le> c"
proof -
  define q r where "q = c div d" and "r = c mod d"
  have c: "c = q * d + r" and r: "0 \<le> r" "r < d"
    using assms by (simp_all add: q_def r_def)
  have z: "c = 0 \<Longrightarrow> q = 0 \<and> r = 0" by (simp add: q_def r_def)
  have w: "rounded m c d = (if rounds_away m q r d then q + 1 else q)"
  proof (cases "c = 0")
    case True
    with z assms show ?thesis by (cases m) (auto simp: rounded_def rounds_away_def)
  next
    case False
    with assms show ?thesis by (simp add: rounded_def q_def r_def Let_def)
  qed
  have e: "rounded m c d * d - c = (if rounds_away m q r d then d - r else - r)"
    unfolding w by (subst c) (simp add: algebra_simps)
  show "\<bar>rounded m c d * d - c\<bar> < d"
    using r e by (cases m) (auto simp: rounds_away_def split: if_splits)
  show "m = HalfEven \<or> m = HalfUp \<Longrightarrow> 2 * \<bar>rounded m c d * d - c\<bar> \<le> d"
    using r e by (auto simp: rounds_away_def split: if_splits)
  show "m = Down \<Longrightarrow> rounded m c d * d \<le> c"
    using r e by (auto simp: rounds_away_def)
qed

lemma rounded_bounds:
  assumes "0 < d"
  shows "\<bar>rounded m c d * d - c\<bar> < d"
    and "m = HalfEven \<or> m = HalfUp \<Longrightarrow> 2 * \<bar>rounded m c d * d - c\<bar> \<le> d"
    and "m = Down \<Longrightarrow> \<bar>rounded m c d * d\<bar> \<le> \<bar>c\<bar>"
proof -
  consider "0 \<le> c" | "0 \<le> - c" by linarith
  then have "\<bar>rounded m c d * d - c\<bar> < d \<and>
      (m = HalfEven \<or> m = HalfUp \<longrightarrow> 2 * \<bar>rounded m c d * d - c\<bar> \<le> d) \<and>
      (m = Down \<longrightarrow> \<bar>rounded m c d * d\<bar> \<le> \<bar>c\<bar>)"
  proof cases
    case 1
    have nn: "0 \<le> rounded m c d" using 1 assms
      by (auto simp: rounded_def Let_def sgn_if pos_imp_zdiv_nonneg_iff)
    then have "0 \<le> rounded m c d * d" using assms by simp
    then show ?thesis using rounded_pos_bounds [OF 1 assms] 1 by auto
  next
    case 2
    have nn: "0 \<le> rounded m (- c) d" using 2 assms
      by (auto simp: rounded_def Let_def sgn_if pos_imp_zdiv_nonneg_iff)
    then have "0 \<le> - rounded m c d * d" using assms by (simp add: mult_nonpos_nonneg)
    moreover have "\<bar>- rounded m c d * d - (- c)\<bar> = \<bar>rounded m c d * d - c\<bar>" by linarith
    ultimately show ?thesis using rounded_pos_bounds [OF 2 assms, of m] 2 unfolding rounded_minus by auto
  qed
  then show "\<bar>rounded m c d * d - c\<bar> < d"
    and "m = HalfEven \<or> m = HalfUp \<Longrightarrow> 2 * \<bar>rounded m c d * d - c\<bar> \<le> d"
    and "m = Down \<Longrightarrow> \<bar>rounded m c d * d\<bar> \<le> \<bar>c\<bar>" by auto
qed

subsection \<open>Decimals\<close>

datatype dec = Dec (coef: int) (expo: int)

definition PREC :: nat where "PREC = 28"

text \<open>The number of digits of \<open>n\<close>, found by comparing with the powers of ten from \<open>p = 10 ^ k\<close> on.\<close>

function digits_from :: "nat \<Rightarrow> int \<Rightarrow> int \<Rightarrow> nat" where
  "digits_from k p n = (if n < p \<or> p \<le> 0 then k else digits_from (Suc k) (10 * p) n)"
  by pat_completeness auto
termination by (relation "measure (\<lambda>(k, p, n). nat (n + 1 - p))") auto

declare digits_from.simps [simp del]

definition digit_count :: "int \<Rightarrow> nat" where
  "digit_count n = digits_from 1 10 n"

definition ndigits :: "int \<Rightarrow> nat" where
  "ndigits c = digit_count \<bar>c\<bar>"

definition dval :: "dec \<Rightarrow> rat" where
  "dval x = of_int (coef x) * (if 0 \<le> expo x then 10 ^ nat (expo x) else 1 / 10 ^ nat (- expo x))"

text \<open>Rounding to the precision of the context (\<open>Decimal._fix\<close>).\<close>

definition dfix :: "dec \<Rightarrow> dec" where
  "dfix x =
     (let n = ndigits (coef x) in
      if n \<le> PREC then x
      else (let c = rounded HalfEven (coef x) (10 ^ (n - PREC)); e = expo x + int (n - PREC) in
            if ndigits c \<le> PREC then Dec c e else Dec (c div 10) (e + 1)))"

text \<open>The coefficients of two numbers over their common exponent.\<close>

definition aligned :: "dec \<Rightarrow> dec \<Rightarrow> int \<times> int \<times> int" where
  "aligned x y = (let e = min (expo x) (expo y) in
     (coef x * 10 ^ nat (expo x - e), coef y * 10 ^ nat (expo y - e), e))"

definition dadd :: "dec \<Rightarrow> dec \<Rightarrow> dec" where
  "dadd x y = (case aligned x y of (a, b, e) \<Rightarrow> dfix (Dec (a + b) e))"

definition dminus :: "dec \<Rightarrow> dec" where
  "dminus x = Dec (- coef x) (expo x)"

definition dsub :: "dec \<Rightarrow> dec \<Rightarrow> dec" where
  "dsub x y = dadd x (dminus y)"

definition dneg :: "dec \<Rightarrow> dec" where
  "dneg x = dfix (dminus x)"

definition dabs :: "dec \<Rightarrow> dec" where
  "dabs x = dfix (Dec \<bar>coef x\<bar> (expo x))"

definition dmul :: "dec \<Rightarrow> dec \<Rightarrow> dec" where
  "dmul x y = dfix (Dec (coef x * coef y) (expo x + expo y))"

text \<open>
  Division by a non-zero number: the quotient to one digit more than the precision, its last digit
  made odd-like (not a multiple of five) when a remainder was cut off, then rounded.
\<close>

definition ddiv :: "dec \<Rightarrow> dec \<Rightarrow> dec" where
  "ddiv x y =
     (let a = \<bar>coef x\<bar>; b = \<bar>coef y\<bar>;
          shift = int (ndigits b) - int (ndigits a) + int PREC + 1;
          num = (if 0 \<le> shift then a * 10 ^ nat shift else a);
          den = (if 0 \<le> shift then b else b * 10 ^ nat (- shift));
          q = num div den;
          q' = (if num mod den \<noteq> 0 \<and> q mod 5 = 0 then q + 1 else q)
      in dfix (Dec (sgn (coef x) * sgn (coef y) * q') (expo x - expo y - shift)))"

definition deq :: "dec \<Rightarrow> dec \<Rightarrow> bool" where
  "deq x y = (case aligned x y of (a, b, _) \<Rightarrow> a = b)"

definition dless :: "dec \<Rightarrow> dec \<Rightarrow> bool" where
  "dless x y = (case aligned x y of (a, b, _) \<Rightarrow> a < b)"

definition dle :: "dec \<Rightarrow> dec \<Rightarrow> bool" where
  "dle x y = (case aligned x y of (a, b, _) \<Rightarrow> a \<le> b)"

text \<open>\<open>int(x)\<close>, \<open>x == x.to_integral_value()\<close> and \<open>x.quantize(Decimal(1), rounding=m)\<close>.\<close>

definition dtrunc :: "dec \<Rightarrow> int" where
  "dtrunc x = (if 0 \<le> expo x then coef x * 10 ^ nat (expo x) else rounded Down (coef x) (10 ^ nat (- expo x)))"

definition integral :: "dec \<Rightarrow> bool" where
  "integral x \<longleftrightarrow> 0 \<le> expo x \<or> coef x mod 10 ^ nat (- expo x) = 0"

definition quantize :: "rounding \<Rightarrow> dec \<Rightarrow> int option" where
  "quantize m x =
     (let v = (if 0 \<le> expo x then coef x * 10 ^ nat (expo x) else rounded m (coef x) (10 ^ nat (- expo x)))
      in if ndigits v \<le> PREC then Some v else None)"

subsection \<open>Literals\<close>

text \<open>\<open>Decimal(s)\<close>: a number, one of the special values, or \<open>InvalidOperation\<close>.\<close>

datatype literal = Num dec | Infinite bool | NotANumber | Malformed

definition split_sign :: "string \<Rightarrow> bool \<times> string" where
  "split_sign s = (case s of [] \<Rightarrow> (False, [])
     | c # cs \<Rightarrow> if c = CHR ''-'' then (True, cs) else if c = CHR ''+'' then (False, cs) else (False, s))"

definition parse_exponent :: "string \<Rightarrow> int option" where
  "parse_exponent s = (case s of [] \<Rightarrow> Some 0
     | c # cs \<Rightarrow> if lower_char c = CHR ''e''
         then (case split_sign cs of (neg, ds) \<Rightarrow>
             map_option (\<lambda>n. if neg then - int n else int n) (parse_nat ds))
         else None)"

definition parse_number :: "bool \<Rightarrow> string \<Rightarrow> literal" where
  "parse_number neg s =
     (let whole = takeWhile is_digit s; r = dropWhile is_digit s;
          point = (r \<noteq> [] \<and> hd r = CHR ''.'');
          frac = (if point then takeWhile is_digit (tl r) else []);
          rest = (if point then dropWhile is_digit (tl r) else r);
          n = int (digits_val (whole @ frac))
      in if whole @ frac = [] then Malformed
         else case parse_exponent rest of None \<Rightarrow> Malformed
           | Some e \<Rightarrow> Num (Dec (if neg then - n else n) (e - int (length frac))))"

definition parse_decimal :: "string \<Rightarrow> literal" where
  "parse_decimal s =
     (case split_sign (filter (\<lambda>c. c \<noteq> CHR ''_'') (py_strip s)) of (neg, r) \<Rightarrow>
        (let w = py_lower r; d = (\<lambda>k. list_all is_digit (drop k w)) in
         if w = ''inf'' \<or> w = ''infinity'' then Infinite neg
         else if (starts_with ''nan'' w \<and> d 3) \<or> (starts_with ''snan'' w \<and> d 4) then NotANumber
         else parse_number neg r))"

subsection \<open>What they denote\<close>

lemma dval_zero [simp]: "dval (Dec 0 e) = 0"
  by (simp add: dval_def)

lemma dval_int [simp]: "dval (Dec i 0) = of_int i"
  by (simp add: dval_def)

lemma dval_minus [simp]: "dval (dminus x) = - dval x"
  by (simp add: dval_def dminus_def)

lemma dval_shift: "dval (Dec (c * 10 ^ k) (e - int k)) = dval (Dec c e)"
proof (cases "int k \<le> e")
  case True
  then have "nat e = nat (e - int k) + k" by linarith
  with True show ?thesis by (simp add: dval_def power_add)
next
  case False
  show ?thesis
  proof (cases "0 \<le> e")
    case True
    with False have k: "k = nat e + nat (- (e - int k))" by linarith
    have "(10::rat) ^ k = 10 ^ nat e * 10 ^ nat (- (e - int k))" by (subst k) (simp add: power_add)
    with True False show ?thesis by (simp add: dval_def)
  next
    case neg: False
    with False have "nat (- (e - int k)) = nat (- e) + k" by linarith
    with neg False show ?thesis by (simp add: dval_def power_add)
  qed
qed

lemma dval_aligned:
  assumes "aligned x y = (a, b, e)"
  shows "dval x = dval (Dec a e)" "dval y = dval (Dec b e)"
proof -
  let ?m = "min (expo x) (expo y)"
  have "dval (Dec (coef z * 10 ^ nat (expo z - ?m)) ?m) = dval z" if "?m \<le> expo z" for z
    using dval_shift [of "coef z" "nat (expo z - ?m)" "expo z"] that by (cases z) simp
  from this [of x] this [of y] assms show "dval x = dval (Dec a e)" "dval y = dval (Dec b e)"
    by (auto simp: aligned_def Let_def)
qed

lemma dval_add_same: "dval (Dec (a + b) e) = dval (Dec a e) + dval (Dec b e)"
  by (simp add: dval_def algebra_simps add_divide_distrib)

definition unit_of :: "int \<Rightarrow> rat" where
  "unit_of e = (if 0 \<le> e then 10 ^ nat e else 1 / 10 ^ nat (- e))"

lemma unit_of_pos [simp]: "0 < unit_of e"
  by (simp add: unit_of_def)

lemma dval_unit: "dval (Dec a e) = of_int a * unit_of e"
  by (simp add: dval_def unit_of_def)

lemma dcompare [simp]:
  "deq x y \<longleftrightarrow> dval x = dval y" "dless x y \<longleftrightarrow> dval x < dval y" "dle x y \<longleftrightarrow> dval x \<le> dval y"
proof -
  obtain a b e where al: "aligned x y = (a, b, e)" by (cases "aligned x y") auto
  have v: "dval x = of_int a * unit_of e" "dval y = of_int b * unit_of e"
    using dval_aligned [OF al] by (simp_all add: dval_unit)
  show "deq x y \<longleftrightarrow> dval x = dval y" "dless x y \<longleftrightarrow> dval x < dval y" "dle x y \<longleftrightarrow> dval x \<le> dval y"
    using less_imp_neq [OF unit_of_pos [of e]] by (auto simp: deq_def dless_def dle_def al v)
qed

lemma dfix_small [simp]: "ndigits (coef x) \<le> PREC \<Longrightarrow> dfix x = x"
  by (simp add: dfix_def)

lemma dadd_exact:
  assumes "aligned x y = (a, b, e)" "ndigits (a + b) \<le> PREC"
  shows "dval (dadd x y) = dval x + dval y"
  using assms dval_aligned [OF assms(1)] by (simp add: dadd_def dval_add_same)

lemma integral_dtrunc: "integral x \<Longrightarrow> of_int (dtrunc x) = dval x"
proof (cases "0 \<le> expo x")
  case False
  assume "integral x"
  with False obtain q where q: "coef x = 10 ^ nat (- expo x) * q" by (auto simp: integral_def elim: dvdE [OF mod_0_imp_dvd])
  have "\<bar>10 ^ nat (- expo x) * q\<bar> = 10 ^ nat (- expo x) * \<bar>q\<bar>" by (simp add: abs_mult)
  then have "rounded Down (coef x) (10 ^ nat (- expo x)) = q"
    by (simp add: rounded_def q rounds_away_def sgn_mult sgn_mult_abs)
  with False q show ?thesis by (simp add: dtrunc_def dval_def)
qed (simp add: dtrunc_def dval_def)

text \<open>How far \<open>quantize\<close> moves a number.\<close>

lemma quantize_bounds:
  assumes "quantize m x = Some n"
  shows "\<bar>of_int n - dval x\<bar> < 1"
    and "m = HalfEven \<or> m = HalfUp \<Longrightarrow> \<bar>of_int n - dval x\<bar> \<le> 1 / 2"
    and "m = Down \<Longrightarrow> \<bar>of_int n\<bar> \<le> \<bar>dval x\<bar>"
proof -
  have "\<bar>of_int n - dval x\<bar> < 1 \<and> (m = HalfEven \<or> m = HalfUp \<longrightarrow> \<bar>of_int n - dval x\<bar> \<le> 1 / 2) \<and>
      (m = Down \<longrightarrow> \<bar>of_int n\<bar> \<le> \<bar>dval x\<bar>)"
  proof (cases "0 \<le> expo x")
    case True
    then have "of_int n = dval x" using assms by (auto simp: quantize_def dval_def Let_def split: if_splits)
    then show ?thesis by simp
  next
    case False
    let ?d = "10 ^ nat (- expo x) :: int"
    have n: "n = rounded m (coef x) ?d" using assms False by (auto simp: quantize_def Let_def split: if_splits)
    have d: "0 < ?d" by simp
    have dr: "(0::rat) < of_int ?d" by simp
    have dv: "dval x = of_int (coef x) / of_int ?d" using False by (simp add: dval_def)
    have ax: "\<bar>dval x\<bar> = of_int \<bar>coef x\<bar> / of_int ?d"
      using dr unfolding dv by (simp only: abs_divide of_int_abs abs_of_pos)
    from dv have "of_int n - dval x = of_int (n * ?d - coef x) / of_int ?d"
      using dr by (simp add: field_simps)
    then have diff: "\<bar>of_int n - dval x\<bar> = of_int \<bar>n * ?d - coef x\<bar> / of_int ?d"
      using dr by (simp only: abs_divide of_int_abs abs_of_pos)
    have "\<bar>of_int n - dval x\<bar> < 1"
      using rounded_bounds(1) [OF d, of m "coef x", folded n] dr unfolding diff
      by (simp only: divide_less_eq_1_pos of_int_less_iff)
    moreover have "\<bar>of_int n - dval x\<bar> \<le> 1 / 2" if h: "m = HalfEven \<or> m = HalfUp"
    proof -
      have "of_int (2 * \<bar>n * ?d - coef x\<bar>) \<le> (of_int ?d :: rat)"
        using rounded_bounds(2) [OF d h, of "coef x"] unfolding n by (simp only: of_int_le_iff)
      then show ?thesis unfolding diff using dr by (simp add: pos_divide_le_eq)
    qed
    moreover have "\<bar>of_int n\<bar> \<le> \<bar>dval x\<bar>" if h: "m = Down"
    proof -
      have "of_int (\<bar>n * ?d\<bar>) \<le> (of_int \<bar>coef x\<bar> :: rat)"
        using rounded_bounds(3) [OF d h, of "coef x"] unfolding n by (simp only: of_int_le_iff)
      then show ?thesis unfolding ax using dr by (simp add: pos_le_divide_eq abs_mult)
    qed
    ultimately show ?thesis by blast
  qed
  then show "\<bar>of_int n - dval x\<bar> < 1"
    and "m = HalfEven \<or> m = HalfUp \<Longrightarrow> \<bar>of_int n - dval x\<bar> \<le> 1 / 2"
    and "m = Down \<Longrightarrow> \<bar>of_int n\<bar> \<le> \<bar>dval x\<bar>" by auto
qed

subsection \<open>Relative errors\<close>

lemma digits_from_ge: "k \<le> digits_from k p n"
proof (induction k p n rule: digits_from.induct)
  case (1 k p n)
  then show ?case by (subst digits_from.simps) auto
qed

lemma digits_from_le: "p = 10 ^ k \<Longrightarrow> k \<le> m \<Longrightarrow> digits_from k p n \<le> m \<longleftrightarrow> n < 10 ^ m"
proof (induction k p n rule: digits_from.induct)
  case (1 k p n)
  have p: "\<not> p \<le> 0" using 1 by (simp add: not_le)
  show ?case
  proof (cases "n < p")
    case True
    also have "p \<le> 10 ^ m" using 1 by (simp add: power_increasing)
    finally have "n < 10 ^ m" .
    with True 1 show ?thesis by (simp add: digits_from.simps [of k])
  next
    case False
    with p have r: "digits_from k p n = digits_from (Suc k) (10 * p) n" by (simp add: digits_from.simps [of k])
    show ?thesis
    proof (cases "k = m")
      case True
      with False 1(2) r digits_from_ge [of "Suc k" "10 * p" n] show ?thesis by simp
    next
      case neq: False
      with False 1 r p show ?thesis by simp
    qed
  qed
qed

lemma digit_count_le: "digit_count n \<le> Suc k \<longleftrightarrow> n < 10 ^ Suc k"
  unfolding digit_count_def by (rule digits_from_le) simp_all

lemma ndigits_le: "0 < k \<Longrightarrow> ndigits c \<le> k \<longleftrightarrow> \<bar>c\<bar> < 10 ^ k"
  using digit_count_le [of "\<bar>c\<bar>" "k - 1"] by (simp add: ndigits_def)

lemma ndigits_pos: "0 < ndigits c"
  using digits_from_ge [of 1 10 "\<bar>c\<bar>"] by (simp add: ndigits_def digit_count_def)

lemma ndigits_lower: "c \<noteq> 0 \<Longrightarrow> 10 ^ (ndigits c - 1) \<le> \<bar>c\<bar>"
proof (cases "ndigits c = 1")
  case False
  then have "\<not> ndigits c \<le> ndigits c - 1" using ndigits_pos [of c] by linarith
  moreover have "0 < ndigits c - 1" using False ndigits_pos [of c] by linarith
  ultimately show ?thesis using ndigits_le [of "ndigits c - 1" c] by linarith
qed simp

lemma ndigits_upper: "\<bar>c\<bar> < 10 ^ ndigits c"
  using ndigits_le [OF ndigits_pos, of c c] by simp

lemma abs_diff_bound: "\<bar>c\<bar> < a \<Longrightarrow> 2 * \<bar>t - c\<bar> \<le> d \<Longrightarrow> 2 * \<bar>t\<bar> < 2 * a + (d :: int)"
  using abs_triangle_ineq [of "t - c" c] by simp

lemma scaled_bound: "m * d \<le> c \<Longrightarrow> 2 * t \<le> d \<Longrightarrow> 0 \<le> m \<Longrightarrow> 2 * m * t \<le> (c :: int)"
  using mult_left_mono [of "2 * t" d m] by (simp add: mult.assoc mult.left_commute)

lemma rounded_precision:
  assumes "PREC < ndigits c"
  shows "\<bar>rounded HalfEven c (10 ^ (ndigits c - PREC))\<bar> \<le> 10 ^ PREC"
proof -
  let ?d = "10 ^ (ndigits c - PREC) :: int" and ?r = "rounded HalfEven c (10 ^ (ndigits c - PREC))"
  have "\<bar>c\<bar> < 10 ^ PREC * ?d"
    using ndigits_upper [of c] assms by (simp add: power_add [symmetric])
  moreover have "2 * \<bar>?r * ?d - c\<bar> \<le> ?d" by (rule rounded_bounds(2)) simp_all
  ultimately have "2 * \<bar>?r * ?d\<bar> < 2 * (10 ^ PREC * ?d) + ?d" by (rule abs_diff_bound)
  then have "(2 * \<bar>?r\<bar>) * ?d < (2 * 10 ^ PREC + 1) * ?d"
    by (simp add: abs_mult algebra_simps)
  then have "2 * \<bar>?r\<bar> < 2 * 10 ^ PREC + 1" by (simp only: mult_less_cancel_right) auto
  then show ?thesis by linarith
qed

lemma dval_dfix_round:
  assumes "PREC < ndigits (coef x)"
  shows "dval (dfix x) = dval (Dec (rounded HalfEven (coef x) (10 ^ (ndigits (coef x) - PREC)) * 10 ^ (ndigits (coef x) - PREC)) (expo x))"
proof -
  let ?k = "ndigits (coef x) - PREC"
  let ?r = "rounded HalfEven (coef x) (10 ^ ?k)"
  have s: "dval (Dec (?r * 10 ^ ?k) (expo x)) = dval (Dec ?r (expo x + int ?k))"
    using dval_shift [of ?r ?k "expo x + int ?k"] by simp
  show ?thesis
  proof (cases "ndigits ?r \<le> PREC")
    case True
    with assms s show ?thesis by (simp add: dfix_def Let_def)
  next
    case False
    then have "\<bar>?r\<bar> = 10 ^ PREC"
      using rounded_precision [OF assms] ndigits_le [of PREC ?r] by (simp add: PREC_def)
    then have r: "?r = 10 ^ PREC \<or> ?r = - (10 ^ PREC)" by linarith
    then have "?r div 10 * 10 = ?r" by (auto simp: PREC_def)
    then have "dval (Dec (?r div 10) (expo x + int ?k + 1)) = dval (Dec ?r (expo x + int ?k))"
      using dval_shift [of "?r div 10" 1 "expo x + int ?k + 1"] by simp
    with False assms s show ?thesis by (simp add: dfix_def Let_def)
  qed
qed

lemma dfix_relative: "\<bar>dval (dfix x) - dval x\<bar> \<le> \<bar>dval x\<bar> / (2 * 10 ^ 27)"
proof (cases "ndigits (coef x) \<le> PREC")
  case False
  let ?k = "ndigits (coef x) - PREC"
  let ?r = "rounded HalfEven (coef x) (10 ^ ?k)"
  let ?u = "unit_of (expo x)"
  have v: "dval x = of_int (coef x) * ?u" by (cases x) (simp add: dval_unit)
  have "dval (dfix x) - dval x = of_int (?r * 10 ^ ?k - coef x) * ?u"
    using dval_dfix_round [of x] False by (simp add: v dval_unit algebra_simps)
  then have d: "\<bar>dval (dfix x) - dval x\<bar> = of_int \<bar>?r * 10 ^ ?k - coef x\<bar> * ?u"
    by (simp only: abs_mult of_int_abs abs_of_pos [OF unit_of_pos])
  have a: "\<bar>dval x\<bar> = of_int \<bar>coef x\<bar> * ?u"
    unfolding v by (simp only: abs_mult of_int_abs abs_of_pos [OF unit_of_pos])
  have "coef x \<noteq> 0" using False ndigits_le [of PREC 0] by (auto simp: PREC_def)
  then have "10 ^ (ndigits (coef x) - 1) \<le> \<bar>coef x\<bar>" by (rule ndigits_lower)
  moreover have "ndigits (coef x) - 1 = 27 + ?k" using False by (simp add: PREC_def)
  ultimately have "10 ^ 27 * 10 ^ ?k \<le> \<bar>coef x\<bar>" by (simp only: power_add)
  moreover have "2 * \<bar>?r * 10 ^ ?k - coef x\<bar> \<le> 10 ^ ?k" by (rule rounded_bounds(2)) simp_all
  ultimately have "2 * 10 ^ 27 * \<bar>?r * 10 ^ ?k - coef x\<bar> \<le> \<bar>coef x\<bar>" by (rule scaled_bound) simp
  then have "of_int (2 * 10 ^ 27 * \<bar>?r * 10 ^ ?k - coef x\<bar>) \<le> (of_int \<bar>coef x\<bar> :: rat)"
    by (simp only: of_int_le_iff)
  then have "2 * 10 ^ 27 * of_int \<bar>?r * 10 ^ ?k - coef x\<bar> \<le> (of_int \<bar>coef x\<bar> :: rat)"
    by (simp only: of_int_mult of_int_power of_int_numeral)
  then have "2 * 10 ^ 27 * of_int \<bar>?r * 10 ^ ?k - coef x\<bar> * ?u \<le> (of_int \<bar>coef x\<bar> :: rat) * ?u"
    by (rule mult_right_mono) (simp add: less_imp_le)
  then show ?thesis unfolding d a by (simp add: field_simps)
qed simp

text \<open>A quotient and a product of positive numbers are hardly below the exact ones.\<close>

lemma dfix_lower:
  assumes "0 \<le> dval x"
  shows "dval x * (1 - 1 / (2 * 10 ^ 27)) \<le> dval (dfix x)"
proof -
  have "dval x - dval (dfix x) \<le> dval x / (2 * 10 ^ 27)"
    using dfix_relative [of x] abs_ge_minus_self [of "dval (dfix x) - dval x"] assms by (simp only: abs_of_nonneg)
  then show ?thesis by (simp add: algebra_simps)
qed

lemma dval_pos [simp]: "0 < dval x \<longleftrightarrow> 0 < coef x"
  by (cases x) (auto simp: dval_unit zero_less_mult_iff dest: order.asym [OF unit_of_pos])

lemma unit_of_add: "unit_of (e + f) = unit_of e * unit_of f"
proof -
  have u: "unit_of e = 10 powi e" for e
    by (simp add: unit_of_def power_int_def inverse_eq_divide power_one_over)
  show ?thesis by (simp add: u power_int_add)
qed

text \<open>The integer quotient of the division has at least 29 digits.\<close>

lemma quotient_size:
  assumes "0 < a" "0 < b" and s: "shift = int (ndigits b) - int (ndigits a) + int PREC + 1"
  shows "10 ^ PREC * (if 0 \<le> shift then b else b * 10 ^ nat (- shift)) \<le> (if 0 \<le> shift then a * 10 ^ nat shift else a)"
proof -
  have a: "10 ^ (ndigits a - 1) \<le> a" using ndigits_lower [of a] assms by simp
  have b: "b \<le> 10 ^ ndigits b" using ndigits_upper [of b] assms by simp
  have n: "0 < ndigits a" by (rule ndigits_pos)
  show ?thesis
  proof (cases "0 \<le> shift")
    case True
    then have "PREC + ndigits b = (ndigits a - 1) + nat shift" using s n by linarith
    then have "(10::int) ^ PREC * 10 ^ ndigits b = 10 ^ (ndigits a - 1) * 10 ^ nat shift" by (simp only: power_add [symmetric])
    moreover have "10 ^ PREC * b \<le> 10 ^ PREC * 10 ^ ndigits b" using b by simp
    moreover have "10 ^ (ndigits a - 1) * 10 ^ nat shift \<le> a * 10 ^ nat shift" by (rule mult_right_mono [OF a]) simp
    ultimately have "10 ^ PREC * b \<le> a * 10 ^ nat shift" by linarith
    then show ?thesis using True by simp
  next
    case False
    then have "PREC + (ndigits b + nat (- shift)) = ndigits a - 1" using s n by linarith
    then have "(10::int) ^ PREC * (10 ^ ndigits b * 10 ^ nat (- shift)) = 10 ^ (ndigits a - 1)" by (simp only: power_add [symmetric])
    moreover have "10 ^ PREC * (b * 10 ^ nat (- shift)) \<le> 10 ^ PREC * (10 ^ ndigits b * 10 ^ nat (- shift))" using b by simp
    ultimately show ?thesis using False a by simp
  qed
qed

lemma floor_lower:
  fixes num den :: int
  assumes "0 < den" "10 ^ PREC * den \<le> num"
  shows "of_int num / of_int den * (1 - 1 / 10 ^ 28) \<le> (of_int (num div den) :: rat)"
proof -
  define q where "q = num div den"
  have "num = q * den + num mod den" "num mod den < den" using assms by (simp_all add: q_def)
  then have "num - den \<le> q * den" by linarith
  then have "of_int (num - den) \<le> (of_int (q * den) :: rat)" by (simp only: of_int_le_iff)
  then have q: "of_int num / of_int den - 1 \<le> (of_int q :: rat)"
    using assms(1) by (simp add: field_simps)
  have "of_int (10 ^ PREC * den) \<le> (of_int num :: rat)" using assms(2) by (simp only: of_int_le_iff)
  then have "(10 ^ 28 :: rat) \<le> of_int num / of_int den" using assms(1) by (simp add: PREC_def pos_le_divide_eq)
  with q show ?thesis unfolding q_def [symmetric] by (simp add: algebra_simps)
qed

lemma ddiv_lower:
  assumes "0 < coef x" "0 < coef y"
  shows "dval x / dval y * (1 - 1 / 10 ^ 27) \<le> dval (ddiv x y)"
proof -
  define shift where "shift = int (ndigits (coef y)) - int (ndigits (coef x)) + int PREC + 1"
  define num where "num = (if 0 \<le> shift then coef x * 10 ^ nat shift else coef x)"
  define den where "den = (if 0 \<le> shift then coef y else coef y * 10 ^ nat (- shift))"
  define q where "q = (if num mod den \<noteq> 0 \<and> num div den mod 5 = 0 then num div den + 1 else num div den)"
  define e where "e = expo x - expo y - shift"
  have d: "ddiv x y = dfix (Dec q e)"
    unfolding ddiv_def Let_def abs_of_pos [OF assms(1)] abs_of_pos [OF assms(2)] sgn_pos [OF assms(1)]
      sgn_pos [OF assms(2)] mult_1_left q_def num_def den_def shift_def e_def ..
  have den: "0 < den" using assms by (simp add: den_def)
  have size: "10 ^ PREC * den \<le> num"
    unfolding num_def den_def by (rule quotient_size [OF assms(1,2) shift_def])
  have "of_int num / of_int den = of_int (coef x) / of_int (coef y) * unit_of shift"
    by (simp add: num_def den_def unit_of_def)
  moreover have "unit_of (expo x) = unit_of shift * unit_of e * unit_of (expo y)"
    by (simp add: unit_of_add [symmetric] e_def)
  moreover have "dval x = of_int (coef x) * unit_of (expo x)" "dval y = of_int (coef y) * unit_of (expo y)"
    by (cases x; cases y; simp add: dval_unit)+
  ultimately have ratio: "of_int num / of_int den * unit_of e = dval x / dval y"
    using assms less_imp_neq [OF unit_of_pos [of "expo y"]] by simp
  have "of_int (num div den) \<le> (of_int q :: rat)" by (simp add: q_def)
  with floor_lower [OF den size] have "of_int num / of_int den * (1 - 1 / 10 ^ 28) \<le> (of_int q :: rat)" by linarith
  then have "of_int num / of_int den * (1 - 1 / 10 ^ 28) * unit_of e \<le> of_int q * unit_of e"
    by (rule mult_right_mono) (simp add: less_imp_le)
  then have lower: "dval x / dval y * (1 - 1 / 10 ^ 28) \<le> dval (Dec q e)"
    unfolding ratio [symmetric] dval_unit by (simp only: mult_ac)
  have p: "0 < dval x / dval y" using assms by simp
  have "(0::rat) \<le> 1 - 1 / 10 ^ 28" by simp
  then have "0 \<le> dval x / dval y * (1 - 1 / 10 ^ 28)" by (rule mult_nonneg_nonneg [OF less_imp_le [OF p]])
  then have nn: "0 \<le> dval (Dec q e)" using lower by (rule order_trans)
  have c: "(1 - 1 / 10 ^ 27 :: rat) \<le> (1 - 1 / 10 ^ 28) * (1 - 1 / (2 * 10 ^ 27))" by simp
  have "dval x / dval y * (1 - 1 / 10 ^ 27) \<le> dval x / dval y * (1 - 1 / 10 ^ 28) * (1 - 1 / (2 * 10 ^ 27))"
    unfolding mult.assoc by (rule mult_left_mono [OF c less_imp_le [OF p]])
  also have "\<dots> \<le> dval (Dec q e) * (1 - 1 / (2 * 10 ^ 27))"
    using lower by (rule mult_right_mono) simp
  also have "\<dots> \<le> dval (ddiv x y)" unfolding d by (rule dfix_lower [OF nn])
  finally show ?thesis .
qed

lemma dmul_lower:
  assumes "0 \<le> dval x" "0 \<le> dval y"
  shows "dval x * dval y * (1 - 1 / (2 * 10 ^ 27)) \<le> dval (dmul x y)"
proof -
  have "dval (Dec (coef x * coef y) (expo x + expo y)) = dval x * dval y"
    by (cases x, cases y) (simp add: dval_unit unit_of_add)
  then show ?thesis using dfix_lower [of "Dec (coef x * coef y) (expo x + expo y)"] assms by (simp add: dmul_def)
qed

end
