(* ===== verification/Formula.thy ===== *)
theory Formula
  imports Decimals
begin

text \<open>
  The formula language of the pricing engine: the functions a formula may call
  (\<open>core/pricing/functions.py\<close>) and the interpreter of its syntax trees (\<open>core/pricing/engine.py\<close>).

  A value is one of Python's that a formula can reach. A \<open>DotItem\<close> is \<open>VObj\<close>, its data already wrapped;
  a float is only ever refused, so \<open>VFloat\<close> has no content. \<open>ast.parse\<close> is an argument (\<open>Syntax\<close>
  below computes the text it is given). The pinned snapshots are threaded through the evaluation.
  \<open>PyError\<close> is any exception that is not a \<open>PricingError\<close>. \<open>Outside\<close> marks what the model does not
  follow: the special decimals (infinities, NaN), the identity of objects, and Python's own attributes
  of a value, which the interpreter does not block.
\<close>

subsection \<open>Values\<close>

datatype val =
    VNone
  | VBool bool
  | VInt int
  | VDec dec
  | VFloat
  | VStr string
  | VList "val list"
  | VObj "(string \<times> val) list"
  | VTax dec

type_synonym jdict = "(string \<times> json) list"

datatype pricing_error = PricingError string | PyError | Outside

definition config_violation :: pricing_error where
  "config_violation = PricingError ''config_schema_violation''"

text \<open>\<open>dot\<close> of stored data, and \<open>dot\<close> again when a field is read: only a float is refused.\<close>

fun val_of_json :: "json \<Rightarrow> val" where
  "val_of_json JNull = VNone"
| "val_of_json (JBool b) = VBool b"
| "val_of_json (JInt i) = VInt i"
| "val_of_json (JStr t) = VStr t"
| "val_of_json (JArr xs) = VList (map val_of_json xs)"
| "val_of_json (JObj kvs) = VObj (map (\<lambda>(k, v). (k, val_of_json v)) kvs)"

fun has_float :: "val \<Rightarrow> bool" where
  "has_float VFloat = True"
| "has_float (VList xs) = list_ex has_float xs"
| "has_float _ = False"

definition dot :: "val \<Rightarrow> pricing_error + val" where
  "dot v = (if has_float v then Inl config_violation else Inr v)"

definition to_decimal :: "val \<Rightarrow> pricing_error + dec" where
  "to_decimal v =
     (case v of
        VBool b \<Rightarrow> Inl config_violation
      | VFloat \<Rightarrow> Inl config_violation
      | VDec d \<Rightarrow> Inr d
      | VInt i \<Rightarrow> Inr (Dec i 0)
      | VStr t \<Rightarrow> (case parse_decimal t of Num d \<Rightarrow> Inr d | Malformed \<Rightarrow> Inl PyError | _ \<Rightarrow> Inl Outside)
      | _ \<Rightarrow> Inl PyError)"

text \<open>Binding with errors, and its congruence rule for recursion.\<close>

definition sbind :: "'e + 'a \<Rightarrow> ('a \<Rightarrow> 'e + 'b) \<Rightarrow> 'e + 'b" where
  "sbind m f = (case m of Inl e \<Rightarrow> Inl e | Inr x \<Rightarrow> f x)"

lemma sbind_simps [simp]: "sbind (Inl e) f = Inl e" "sbind (Inr x) f = f x"
  by (simp_all add: sbind_def)

lemma sbind_Inr: "sbind m f = Inr y \<longleftrightarrow> (\<exists>x. m = Inr x \<and> f x = Inr y)"
  by (cases m) auto

lemma sbind_cong [fundef_cong]: "m = m' \<Longrightarrow> (\<And>x. m' = Inr x \<Longrightarrow> f x = g x) \<Longrightarrow> sbind m f = sbind m' g"
  by (cases m') auto

fun smap :: "('a \<Rightarrow> 'e + 'b) \<Rightarrow> 'a list \<Rightarrow> 'e + 'b list" where
  "smap f [] = Inr []"
| "smap f (x # xs) = sbind (f x) (\<lambda>y. sbind (smap f xs) (\<lambda>ys. Inr (y # ys)))"

subsection \<open>The functions of formulas\<close>

definition ROUND_MODES :: "(string \<times> rounding) list" where
  "ROUND_MODES = [(''half_even'', HalfEven), (''half_up'', HalfUp), (''down'', Down), (''up'', Up)]"

definition fn_round :: "val \<Rightarrow> val \<Rightarrow> pricing_error + int" where
  "fn_round v mode = sbind (to_decimal v) (\<lambda>d.
     case mode of
       VStr m \<Rightarrow> (case map_of ROUND_MODES m of None \<Rightarrow> Inl PyError
         | Some r \<Rightarrow> (case quantize r d of None \<Rightarrow> Inl PyError | Some n \<Rightarrow> Inr n))
     | _ \<Rightarrow> Inl PyError)"

text \<open>Iteration: a list, the characters of a text; a \<open>DotItem\<close> is asked for its field \<open>0\<close>.\<close>

definition iter_items :: "val \<Rightarrow> pricing_error + val list" where
  "iter_items v =
     (case v of VList xs \<Rightarrow> Inr xs | VStr t \<Rightarrow> Inr (map (\<lambda>c. VStr [c]) t) | VObj d \<Rightarrow> Inl config_violation | _ \<Rightarrow> Inl PyError)"

definition fn_sum :: "val \<Rightarrow> pricing_error + int" where
  "fn_sum vs = sbind (iter_items vs) (\<lambda>xs. sbind (smap to_decimal xs) (\<lambda>ds.
     Inr (dtrunc (fold (\<lambda>d t. dadd t d) ds (Dec 0 0)))))"

text \<open>\<open>min(values, key=to_decimal)\<close> and \<open>max\<close>: the first best value, as it was given.\<close>

fun best :: "(dec \<Rightarrow> dec \<Rightarrow> bool) \<Rightarrow> val \<times> dec \<Rightarrow> (val \<times> dec) list \<Rightarrow> val" where
  "best better x [] = fst x"
| "best better x (y # ys) = best better (if better (snd y) (snd x) then y else x) ys"

definition fn_extreme :: "(dec \<Rightarrow> dec \<Rightarrow> bool) \<Rightarrow> val list \<Rightarrow> pricing_error + val" where
  "fn_extreme better vs = sbind (smap (\<lambda>v. sbind (to_decimal v) (\<lambda>d. Inr (v, d))) vs)
     (\<lambda>ps. case ps of [] \<Rightarrow> Inl PyError | p # r \<Rightarrow> Inr (best better p r))"

definition fn_min :: "val list \<Rightarrow> pricing_error + val" where
  "fn_min = fn_extreme dless"

definition fn_max :: "val list \<Rightarrow> pricing_error + val" where
  "fn_max = fn_extreme (\<lambda>x y. dless y x)"

text \<open>\<open>TaxRule.apply\<close>\<close>

definition tax_apply :: "dec \<Rightarrow> val \<Rightarrow> pricing_error + int" where
  "tax_apply pct base = sbind (to_decimal base) (\<lambda>b.
     fn_round (VDec (ddiv (dmul b pct) (Dec 100 0))) (VStr ''half_even''))"

subsection \<open>Operators\<close>

fun val_truthy :: "val \<Rightarrow> pricing_error + bool" where
  "val_truthy VNone = Inr False"
| "val_truthy (VBool b) = Inr b"
| "val_truthy (VInt i) = Inr (i \<noteq> 0)"
| "val_truthy (VDec d) = Inr (coef d \<noteq> 0)"
| "val_truthy VFloat = Inl Outside"
| "val_truthy (VStr t) = Inr (t \<noteq> [])"
| "val_truthy (VList xs) = Inr (xs \<noteq> [])"
| "val_truthy (VObj d) = Inr True"
| "val_truthy (VTax d) = Inr True"

definition num_of :: "val \<Rightarrow> dec option" where
  "num_of v = (case v of VBool b \<Rightarrow> Some (Dec (if b then 1 else 0) 0) | VInt i \<Rightarrow> Some (Dec i 0) | VDec d \<Rightarrow> Some d | _ \<Rightarrow> None)"

definition is_object :: "val \<Rightarrow> bool" where
  "is_object v = (case v of VObj d \<Rightarrow> True | VTax d \<Rightarrow> True | _ \<Rightarrow> False)"

text \<open>\<open>==\<close>; numbers of any kind by value, lists item by item, two objects by identity (\<open>Outside\<close>).\<close>

definition flat_eq :: "val \<Rightarrow> val \<Rightarrow> pricing_error + bool" where
  "flat_eq v w =
     (if v = VFloat \<and> w = VFloat \<or> v = VFloat \<and> num_of w \<noteq> None \<or> w = VFloat \<and> num_of v \<noteq> None \<or>
         is_object v \<and> is_object w then Inl Outside
      else (case (num_of v, num_of w) of
          (Some a, Some b) \<Rightarrow> Inr (deq a b)
        | _ \<Rightarrow> Inr (case v of VStr t \<Rightarrow> w = VStr t | VNone \<Rightarrow> w = VNone | _ \<Rightarrow> False)))"

fun same_items :: "(val \<Rightarrow> pricing_error + bool) list \<Rightarrow> val list \<Rightarrow> pricing_error + bool" where
  "same_items (p # ps) (y # ys) = sbind (p y) (\<lambda>b. if b then same_items ps ys else Inr False)"
| "same_items _ _ = Inr True"

primrec val_eq :: "val \<Rightarrow> val \<Rightarrow> pricing_error + bool" where
  "val_eq (VList xs) = (\<lambda>w. case w of
       VList ys \<Rightarrow> (if length xs = length ys then same_items (map val_eq xs) ys else Inr False) | _ \<Rightarrow> Inr False)"
| "val_eq VNone = flat_eq VNone"
| "val_eq (VBool b) = flat_eq (VBool b)"
| "val_eq (VInt i) = flat_eq (VInt i)"
| "val_eq (VDec d) = flat_eq (VDec d)"
| "val_eq VFloat = flat_eq VFloat"
| "val_eq (VStr t) = flat_eq (VStr t)"
| "val_eq (VObj kvs) = flat_eq (VObj kvs)"
| "val_eq (VTax d) = flat_eq (VTax d)"

fun any_eq :: "val \<Rightarrow> val list \<Rightarrow> pricing_error + bool" where
  "any_eq v [] = Inr False"
| "any_eq v (x # xs) = sbind (val_eq x v) (\<lambda>b. if b then Inr True else any_eq v xs)"

fun infix_of :: "string \<Rightarrow> string \<Rightarrow> bool" where
  "infix_of s [] \<longleftrightarrow> s = []"
| "infix_of s (c # cs) \<longleftrightarrow> starts_with s (c # cs) \<or> infix_of s cs"

definition val_in :: "val \<Rightarrow> val \<Rightarrow> pricing_error + bool" where
  "val_in v w =
     (case w of
        VList xs \<Rightarrow> any_eq v xs
      | VStr t \<Rightarrow> (case v of VStr s \<Rightarrow> Inr (infix_of s t) | _ \<Rightarrow> Inl PyError)
      | VObj d \<Rightarrow> Inl config_violation
      | _ \<Rightarrow> Inl PyError)"

datatype arith = Add | Sub | Mult | Div | BadArith
datatype cmpop = Lt | LtE | Gt | GtE | Eq | NotEq | In | NotIn | BadCmp

definition both_int :: "val \<Rightarrow> val \<Rightarrow> bool" where
  "both_int v w = (case (v, w) of (VInt a, VInt b) \<Rightarrow> True | _ \<Rightarrow> False)"

definition exact_int :: "bool \<Rightarrow> dec \<Rightarrow> val" where
  "exact_int b d = (if b then VInt (dtrunc d) else VDec d)"

definition binop :: "arith \<Rightarrow> val \<Rightarrow> val \<Rightarrow> pricing_error + val" where
  "binop oper v w = sbind (to_decimal v) (\<lambda>a. sbind (to_decimal w) (\<lambda>b.
     case oper of
       Add \<Rightarrow> Inr (exact_int (both_int v w) (dadd a b))
     | Sub \<Rightarrow> Inr (exact_int (both_int v w) (dsub a b))
     | Mult \<Rightarrow> Inr (VDec (dmul a b))
     | Div \<Rightarrow> (if coef b = 0 then Inl config_violation else Inr (VDec (ddiv a b)))
     | BadArith \<Rightarrow> Inl config_violation))"

definition compare_vals :: "cmpop \<Rightarrow> val \<Rightarrow> val \<Rightarrow> pricing_error + bool" where
  "compare_vals oper v w =
     (case oper of
        In \<Rightarrow> val_in v w
      | NotIn \<Rightarrow> sbind (val_in v w) (\<lambda>b. Inr (\<not> b))
      | Eq \<Rightarrow> val_eq v w
      | NotEq \<Rightarrow> sbind (val_eq v w) (\<lambda>b. Inr (\<not> b))
      | _ \<Rightarrow> sbind (to_decimal v) (\<lambda>a. sbind (to_decimal w) (\<lambda>b.
           case oper of Lt \<Rightarrow> Inr (dless a b) | LtE \<Rightarrow> Inr (dle a b) | Gt \<Rightarrow> Inr (dless b a)
             | GtE \<Rightarrow> Inr (dle b a) | _ \<Rightarrow> Inl PyError)))"

subsection \<open>Syntax trees\<close>

text \<open>
  Python's expression nodes that the whitelist admits; any other node is \<open>Other\<close>. A comparison and a
  comprehension carry all their operators and generators although the interpreter reads the first.
\<close>

datatype expr =
    Constant val
  | Name string
  | Attribute expr string
  | Subscript expr expr
  | UNot expr
  | USub expr
  | BoolAnd "expr list"
  | BoolOr "expr list"
  | Compare expr "(cmpop \<times> expr) list"
  | BinOp arith expr expr
  | IfExp expr expr expr
  | ListComp expr "(expr \<times> expr \<times> expr list) list"
  | EList "expr list"
  | Call expr "expr list" "(string option \<times> expr) list"
  | Other string

primrec allowed :: "expr \<Rightarrow> bool" where
  "allowed (Constant v) = True"
| "allowed (Name x) = True"
| "allowed (Attribute e a) = allowed e"
| "allowed (Subscript e i) = (allowed e \<and> allowed i)"
| "allowed (UNot e) = allowed e"
| "allowed (USub e) = allowed e"
| "allowed (BoolAnd es) = list_all id (map allowed es)"
| "allowed (BoolOr es) = list_all id (map allowed es)"
| "allowed (Compare e cs) = (allowed e \<and> list_all (\<lambda>(c, b). c \<noteq> BadCmp \<and> b) (map (map_prod id allowed) cs))"
| "allowed (BinOp oper a b) = (oper \<noteq> BadArith \<and> allowed a \<and> allowed b)"
| "allowed (IfExp c a b) = (allowed c \<and> allowed a \<and> allowed b)"
| "allowed (ListComp e gs) = (allowed e \<and> list_all (\<lambda>(t, i, cs). t \<and> i \<and> list_all id cs)
     (map (map_prod allowed (map_prod allowed (map allowed))) gs))"
| "allowed (EList es) = list_all id (map allowed es)"
| "allowed (Call f es ks) = (allowed f \<and> list_all id (map allowed es) \<and> list_all snd (map (map_prod id allowed) ks))"
| "allowed (Other n) = False"

end
