(* ===== verification/Pricing.thy ===== *)
theory Pricing
  imports Formula
begin

text \<open>
  The interpreter and \<open>compute\<close> of \<open>core/pricing/engine.py\<close>: a strategy's stages evaluated in order to a
  breakdown, a total and the rate snapshots that were used.
\<close>

subsection \<open>Evaluation that records snapshots\<close>

type_synonym 'a ev = "uuid list \<Rightarrow> pricing_error + 'a \<times> uuid list"

fun tmap :: "('a \<Rightarrow> 'b ev) \<Rightarrow> 'a list \<Rightarrow> 'b list ev" where
  "tmap f [] t = Inr ([], t)"
| "tmap f (x # xs) t = sbind (f x t) (\<lambda>p. sbind (tmap f xs (snd p)) (\<lambda>q. Inr (fst p # fst q, snd q)))"

text \<open>\<open>all(...)\<close> over a generator stops at the first false value.\<close>

fun tall :: "('a \<Rightarrow> bool ev) \<Rightarrow> 'a list \<Rightarrow> bool ev" where
  "tall f [] t = Inr (True, t)"
| "tall f (x # xs) t = sbind (f x t) (\<lambda>p. if fst p then tall f xs (snd p) else Inr (False, snd p))"

lemma tmap_cong [fundef_cong]:
  "xs = ys \<Longrightarrow> t = t' \<Longrightarrow> (\<And>x u. x \<in> set ys \<Longrightarrow> f x u = g x u) \<Longrightarrow> tmap f xs t = tmap g ys t'"
proof (induction xs arbitrary: ys t t')
  case (Cons x xs)
  then show ?case by (cases ys) (auto intro!: sbind_cong)
qed simp

lemma tall_cong [fundef_cong]:
  "xs = ys \<Longrightarrow> t = t' \<Longrightarrow> (\<And>x u. x \<in> set ys \<Longrightarrow> f x u = g x u) \<Longrightarrow> tall f xs t = tall g ys t'"
proof (induction xs arbitrary: ys t t')
  case (Cons x xs)
  then show ?case by (cases ys) (auto intro!: sbind_cong)
qed simp

definition pure_ev :: "pricing_error + 'a \<Rightarrow> 'a ev" where
  "pure_ev m t = sbind m (\<lambda>x. Inr (x, t))"

subsection \<open>Names and functions\<close>

record price_funcs =
  pf_rate :: "val \<Rightarrow> val \<Rightarrow> pricing_error + int \<times> uuid option"
  pf_tax_rules :: "(string \<times> dec) list"
  pf_source_for :: "(val \<Rightarrow> pricing_error + val) option"
  pf_item :: "(val \<Rightarrow> pricing_error + (string \<times> json) list) option"
  pf_offer :: "(val \<Rightarrow> pricing_error + val) option"

type_synonym env = "(string \<times> val) list"

text \<open>Binding of positional and keyword arguments to a signature; \<open>None\<close> is \<open>TypeError\<close>.\<close>

definition bind_params :: "string list \<Rightarrow> val list \<Rightarrow> env \<Rightarrow> val option list option" where
  "bind_params ps vs kv =
     (let free = drop (length vs) ps in
      if length ps < length vs \<or> list_ex (\<lambda>p. fst p \<notin> set free) kv then None
      else Some (map Some vs @ map (map_of kv) free))"

definition one_arg :: "string \<Rightarrow> val list \<Rightarrow> env \<Rightarrow> (val \<Rightarrow> pricing_error + 'a) \<Rightarrow> pricing_error + 'a" where
  "one_arg p vs kv f = (case bind_params [p] vs kv of
       Some [Some v] \<Rightarrow> f v | _ \<Rightarrow> Inl PyError)"

definition pin :: "uuid option \<Rightarrow> uuid list \<Rightarrow> uuid list" where
  "pin snap t = (case snap of None \<Rightarrow> t | Some u \<Rightarrow> if u \<in> set t then t else t @ [u])"

definition tax_rule :: "(string \<times> dec) list \<Rightarrow> val \<Rightarrow> pricing_error + val" where
  "tax_rule rules v =
     (case v of VStr r \<Rightarrow> (case map_of rules r of None \<Rightarrow> Inl config_violation | Some p \<Rightarrow> Inr (VTax p))
      | VList xs \<Rightarrow> Inl PyError | _ \<Rightarrow> Inl config_violation)"

text \<open>The functions of \<open>compute\<close> that pin nothing.\<close>

definition plain_function :: "price_funcs \<Rightarrow> string \<Rightarrow> val list \<Rightarrow> env \<Rightarrow> pricing_error + val" where
  "plain_function F g vs kv =
     (if g = ''round'' then
        (case bind_params [''value'', ''mode''] vs kv of
           Some [Some v, m] \<Rightarrow> sbind (fn_round v (case m of None \<Rightarrow> VStr ''half_even'' | Some w \<Rightarrow> w)) (\<lambda>n. Inr (VInt n))
         | _ \<Rightarrow> Inl PyError)
      else if g = ''sum'' then one_arg ''values'' vs kv (\<lambda>v. sbind (fn_sum v) (\<lambda>n. Inr (VInt n)))
      else if g = ''min'' then (if kv = [] then fn_min vs else Inl PyError)
      else if g = ''max'' then (if kv = [] then fn_max vs else Inl PyError)
      else if g = ''tax_rule'' then one_arg ''rule_id'' vs kv (tax_rule (pf_tax_rules F))
      else if g = ''source_for'' then one_arg ''p'' vs kv (case pf_source_for F of None \<Rightarrow> Inr | Some f \<Rightarrow> f)
      else if g = ''item'' then
        (case pf_item F of None \<Rightarrow> Inl config_violation
         | Some f \<Rightarrow> one_arg ''i'' vs kv (\<lambda>v. sbind (f v) (\<lambda>d. Inr (val_of_json (JObj d)))))
      else if g = ''offer_discount'' then
        (case pf_offer F of None \<Rightarrow> one_arg ''line'' vs kv (\<lambda>v. Inr (VInt 0))
         | Some f \<Rightarrow> (case (vs, kv) of ([v], []) \<Rightarrow> f v | _ \<Rightarrow> Inl PyError))
      else Inl config_violation)"

definition rate_function :: "price_funcs \<Rightarrow> val list \<Rightarrow> env \<Rightarrow> val ev" where
  "rate_function F vs kv t =
     (case bind_params [''source'', ''key''] vs kv of
        Some [Some s, Some k] \<Rightarrow>
          sbind (pf_rate F s k) (\<lambda>p. Inr (VObj [(''per_g_minor'', VInt (fst p))], pin (snd p) t))
      | _ \<Rightarrow> Inl PyError)"

definition call_function :: "price_funcs \<Rightarrow> string \<Rightarrow> val list \<Rightarrow> env \<Rightarrow> val ev" where
  "call_function F g vs kv t = (if g = ''rate'' then rate_function F vs kv t else pure_ev (plain_function F g vs kv) t)"

text \<open>\<open>getattr\<close>: the data of a \<open>DotItem\<close>; Python's own attributes of a value are not followed.\<close>

definition get_field :: "env \<Rightarrow> string \<Rightarrow> pricing_error + val" where
  "get_field d a = (case map_of d a of None \<Rightarrow> Inl config_violation | Some v \<Rightarrow> dot v)"

definition get_attr :: "val \<Rightarrow> string \<Rightarrow> pricing_error + val" where
  "get_attr v a =
     (case v of
        VObj d \<Rightarrow> (if a \<in> {''get'', ''_data''} \<or> starts_with ''__'' a then Inl Outside else get_field d a)
      | _ \<Rightarrow> Inl Outside)"

definition get_default :: "env \<Rightarrow> val \<Rightarrow> val \<Rightarrow> pricing_error + val" where
  "get_default d k dflt =
     (case k of VStr a \<Rightarrow> (case map_of d a of None \<Rightarrow> Inr dflt | Some v \<Rightarrow> dot v)
      | VList xs \<Rightarrow> Inl PyError | _ \<Rightarrow> Inr dflt)"

definition call_method :: "val \<Rightarrow> string \<Rightarrow> val list \<Rightarrow> env \<Rightarrow> pricing_error + val" where
  "call_method r a vs kv =
     (case r of
        VTax p \<Rightarrow> (if a = ''apply'' then one_arg ''base'' vs kv (\<lambda>v. sbind (tax_apply p v) (\<lambda>n. Inr (VInt n))) else Inl Outside)
      | VObj d \<Rightarrow>
          (if a = ''get'' then
             (case bind_params [''key'', ''default''] vs kv of
                Some [Some k, dflt] \<Rightarrow> get_default d k (case dflt of None \<Rightarrow> VNone | Some w \<Rightarrow> w)
              | _ \<Rightarrow> Inl PyError)
           else sbind (get_attr r a) (\<lambda>_. Inl PyError))
      | _ \<Rightarrow> Inl Outside)"

text \<open>\<open>value[index]\<close>; negative indices count from the end.\<close>

definition index_of :: "nat \<Rightarrow> val \<Rightarrow> nat option" where
  "index_of n v =
     (case v of
        VInt i \<Rightarrow> (if 0 \<le> i \<and> i < int n then Some (nat i) else if i < 0 \<and> - i \<le> int n then Some (nat (int n + i)) else None)
      | VBool b \<Rightarrow> (let i = (if b then 1 else 0) in if i < n then Some i else None)
      | _ \<Rightarrow> None)"

definition subscript :: "val \<Rightarrow> val \<Rightarrow> pricing_error + val" where
  "subscript v i =
     (case v of
        VObj d \<Rightarrow> (case i of VStr a \<Rightarrow> get_field d a | VList xs \<Rightarrow> Inl PyError | _ \<Rightarrow> Inl config_violation)
      | VList xs \<Rightarrow> (case index_of (length xs) i of None \<Rightarrow> Inl PyError | Some n \<Rightarrow> Inr (xs ! n))
      | VStr t \<Rightarrow> (case index_of (length t) i of None \<Rightarrow> Inl PyError | Some n \<Rightarrow> Inr (VStr [t ! n]))
      | _ \<Rightarrow> Inl PyError)"

definition lookup_name :: "env \<Rightarrow> env \<Rightarrow> string \<Rightarrow> pricing_error + val" where
  "lookup_name names loc x =
     (case map_of loc x of Some v \<Rightarrow> Inr v
      | None \<Rightarrow> (case map_of names x of Some v \<Rightarrow> Inr v | None \<Rightarrow> Inl config_violation))"

subsection \<open>The interpreter\<close>

lemma size_kws: "(k, e) \<in> set ks \<Longrightarrow> size e \<le> size_list (size_prod (\<lambda>x. 0) size) ks"
  by (induction ks) auto

lemma size_args: "x \<in> set es \<Longrightarrow> size (x :: expr) \<le> size_list size es"
  by (induction es) auto

text \<open>
  \<open>_Interpreter._node\<close>. All operands of \<open>and\<close>, \<open>or\<close> are evaluated; of a comparison only the first operator,
  of a comprehension only the first generator is read. The arguments of a call come before its
  receiver, and a keyword without a name (\<open>**\<close>) is dropped.
\<close>

function eval :: "price_funcs \<Rightarrow> env \<Rightarrow> env \<Rightarrow> expr \<Rightarrow> val ev" where
  "eval F N l (Constant v) t = Inr (v, t)"
| "eval F N l (Name x) t = pure_ev (lookup_name N l x) t"
| "eval F N l (Attribute e a) t = sbind (eval F N l e t) (\<lambda>p. pure_ev (get_attr (fst p) a) (snd p))"
| "eval F N l (Subscript e i) t = sbind (eval F N l e t) (\<lambda>p. sbind (eval F N l i (snd p)) (\<lambda>q.
     pure_ev (subscript (fst p) (fst q)) (snd q)))"
| "eval F N l (UNot e) t = sbind (eval F N l e t) (\<lambda>p. pure_ev (sbind (val_truthy (fst p)) (\<lambda>b. Inr (VBool (\<not> b)))) (snd p))"
| "eval F N l (USub e) t = sbind (eval F N l e t) (\<lambda>p. pure_ev (sbind (to_decimal (fst p)) (\<lambda>d. Inr (VDec (dneg d)))) (snd p))"
| "eval F N l (BoolAnd es) t = sbind (tmap (\<lambda>e. eval F N l e) es t) (\<lambda>p.
     pure_ev (sbind (smap val_truthy (fst p)) (\<lambda>bs. Inr (VBool (list_all id bs)))) (snd p))"
| "eval F N l (BoolOr es) t = sbind (tmap (\<lambda>e. eval F N l e) es t) (\<lambda>p.
     pure_ev (sbind (smap val_truthy (fst p)) (\<lambda>bs. Inr (VBool (list_ex id bs)))) (snd p))"
| "eval F N l (Compare e cs) t =
     (case cs of [] \<Rightarrow> Inl PyError
      | c # _ \<Rightarrow> sbind (eval F N l e t) (\<lambda>p. sbind (eval F N l (snd c) (snd p)) (\<lambda>q.
          pure_ev (sbind (compare_vals (fst c) (fst p) (fst q)) (\<lambda>b. Inr (VBool b))) (snd q))))"
| "eval F N l (BinOp oper a b) t = sbind (eval F N l a t) (\<lambda>p. sbind (eval F N l b (snd p)) (\<lambda>q.
     pure_ev (binop oper (fst p) (fst q)) (snd q)))"
| "eval F N l (IfExp c a b) t = sbind (eval F N l c t) (\<lambda>p. sbind (val_truthy (fst p)) (\<lambda>h.
     if h then eval F N l a (snd p) else eval F N l b (snd p)))"
| "eval F N l (ListComp e gs) t =
     (case gs of [] \<Rightarrow> Inl PyError
      | g # _ \<Rightarrow>
         (case fst g of
            Name x \<Rightarrow>
              sbind (eval F N l (fst (snd g)) t) (\<lambda>p. sbind (iter_items (fst p)) (\<lambda>items.
                sbind (tmap (\<lambda>v u.
                    sbind (tall (\<lambda>c w. sbind (eval F N ((x, v) # l) c w) (\<lambda>r. pure_ev (val_truthy (fst r)) (snd r))) (snd (snd g)) u) (\<lambda>q.
                      if fst q then sbind (eval F N ((x, v) # l) e (snd q)) (\<lambda>r. Inr ([fst r], snd r)) else Inr ([], snd q)))
                  items (snd p)) (\<lambda>q. Inr (VList (concat (fst q)), snd q))))
          | _ \<Rightarrow> Inl PyError))"
| "eval F N l (EList es) t = sbind (tmap (\<lambda>e. eval F N l e) es t) (\<lambda>p. Inr (VList (fst p), snd p))"
| "eval F N l (Call f es ks) t =
     sbind (tmap (\<lambda>e. eval F N l e) es t) (\<lambda>p.
     sbind (tmap (\<lambda>k u. case fst k of None \<Rightarrow> Inr ([], u)
         | Some n \<Rightarrow> sbind (eval F N l (snd k) u) (\<lambda>r. Inr ([(n, fst r)], snd r))) ks (snd p)) (\<lambda>q.
     case f of
       Attribute e a \<Rightarrow> sbind (eval F N l e (snd q)) (\<lambda>r. pure_ev (call_method (fst r) a (fst p) (concat (fst q))) (snd r))
     | Name g \<Rightarrow> call_function F g (fst p) (concat (fst q)) (snd q)
     | _ \<Rightarrow> Inl config_violation))"
| "eval F N l (Other n) t = Inl config_violation"
  by pat_completeness auto
termination
proof (relation "measure (\<lambda>(F, N, l, e, t). size e)", goal_cases)
qed (auto dest!: size_args size_kws)

end
