(* ===== verification/Rewriting.thy ===== *)
theory Rewriting
  imports Formula
begin

text \<open>
  The rewriting of a formula to Python source in \<open>core/pricing/engine.py\<close> (\<open>to_python\<close>): operators,
  projections \<open>xs[].f\<close>, \<open>map(seq, var, expr)\<close> and the ternary. Word characters are the ASCII ones. The
  rewriting of \<open>map\<close> calls itself on a part of the formula and then on the text it has built; it
  terminates because no step leaves more opening parentheses than it found.
\<close>

subsection \<open>Operators and projections\<close>

fun replace_pair :: "char \<Rightarrow> string \<Rightarrow> string \<Rightarrow> string" where
  "replace_pair c w (x # y # r) = (if x = c \<and> y = c then w @ replace_pair c w r else x # replace_pair c w (y # r))"
| "replace_pair c w s = s"

fun rewrite_not :: "string \<Rightarrow> string" where
  "rewrite_not [] = []"
| "rewrite_not (c # cs) =
     (if c = CHR ''!'' \<and> (cs = [] \<or> hd cs \<noteq> CHR ''='') then '' not '' @ rewrite_not cs else c # rewrite_not cs)"

definition is_alpha :: "char \<Rightarrow> bool" where
  "is_alpha c = (let n = (of_char c :: int) in (97 \<le> n \<and> n \<le> 122) \<or> (65 \<le> n \<and> n \<le> 90) \<or> n = 95)"

definition is_word :: "char \<Rightarrow> bool" where
  "is_word c = (is_alpha c \<or> (let n = (of_char c :: int) in 48 \<le> n \<and> n \<le> 57))"

text \<open>\<open>([A-Za-z_][\w.]*)\[\]\.(\w+)\<close> at the front: the path, the field and the rest.\<close>

definition match_projection :: "string \<Rightarrow> (string \<times> string \<times> string) option" where
  "match_projection s =
     (let path = takeWhile (\<lambda>c. is_word c \<or> c = CHR ''.'') s;
          r = dropWhile (\<lambda>c. is_word c \<or> c = CHR ''.'') s;
          fld = takeWhile is_word (drop 3 r)
      in if path \<noteq> [] \<and> is_alpha (hd path) \<and> starts_with ''[].'' r \<and> fld \<noteq> []
         then Some (path, fld, dropWhile is_word (drop 3 r)) else None)"

lemma match_projection_shorter: "match_projection s = Some (p, f, r) \<Longrightarrow> length r < length s"
proof -
  assume "match_projection s = Some (p, f, r)"
  then have r: "r = dropWhile is_word (drop 3 (dropWhile (\<lambda>c. is_word c \<or> c = CHR ''.'') s))"
    and p: "takeWhile (\<lambda>c. is_word c \<or> c = CHR ''.'') s \<noteq> []"
    by (auto simp: match_projection_def Let_def split: if_splits)
  have "length r \<le> length (dropWhile (\<lambda>c. is_word c \<or> c = CHR ''.'') s)"
    unfolding r by (rule le_trans [OF length_dropWhile_le]) simp
  also have "\<dots> < length s" using p by (cases s) (auto simp: le_imp_less_Suc length_dropWhile_le split: if_splits)
  finally show ?thesis .
qed

function rewrite_projections :: "string \<Rightarrow> string" where
  "rewrite_projections s =
     (case s of [] \<Rightarrow> []
      | c # cs \<Rightarrow>
         (case match_projection s of
            Some p \<Rightarrow> ''[__p.'' @ fst (snd p) @ '' for __p in '' @ fst p @ '']'' @ rewrite_projections (snd (snd p))
          | None \<Rightarrow> c # rewrite_projections cs))"
  by pat_completeness auto
termination
  by (relation "measure length") (auto dest: match_projection_shorter)

subsection \<open>Calls of map\<close>

fun split_go :: "int \<Rightarrow> string \<Rightarrow> char option \<Rightarrow> string \<Rightarrow> string list" where
  "split_go depth buf q [] = (if buf = [] then [] else [py_strip buf])"
| "split_go depth buf q (c # cs) =
     (case q of
        Some k \<Rightarrow> split_go depth (buf @ [c]) (if c = k then None else q) cs
      | None \<Rightarrow>
          if c = CHR 0x27 \<or> c = CHR 0x22 then split_go depth (buf @ [c]) (Some c) cs
          else if c = CHR ''('' \<or> c = CHR ''['' then split_go (depth + 1) (buf @ [c]) None cs
          else if c = CHR '')'' \<or> c = CHR '']'' then split_go (depth - 1) (buf @ [c]) None cs
          else if c = CHR '','' \<and> depth = 0 then py_strip buf # split_go depth [] None cs
          else split_go depth (buf @ [c]) None cs)"

definition split_args :: "string \<Rightarrow> string list" where
  "split_args s = split_go 0 [] None s"

text \<open>\<open>\bname\(\<close>: the text before and the text after the opening parenthesis.\<close>

fun find_name :: "string \<Rightarrow> bool \<Rightarrow> string \<Rightarrow> (string \<times> string) option" where
  "find_name name inside [] = None"
| "find_name name inside (c # cs) =
     (if \<not> inside \<and> starts_with (name @ ''('') (c # cs) then Some ([], drop (length name + 1) (c # cs))
      else map_option (\<lambda>p. (c # fst p, snd p)) (find_name name (is_word c) cs))"

fun close_paren :: "nat \<Rightarrow> string \<Rightarrow> (string \<times> string) option" where
  "close_paren d [] = None"
| "close_paren d (c # cs) =
     (if c = CHR '')'' \<and> d = 0 then Some ([], cs)
      else map_option (\<lambda>p. (c # fst p, snd p))
        (close_paren (if c = CHR ''('' then d + 1 else if c = CHR '')'' then d - 1 else d) cs))"

definition find_call :: "string \<Rightarrow> string \<Rightarrow> pricing_error + (string \<times> string \<times> string) option" where
  "find_call name src =
     (case find_name name False src of
        None \<Rightarrow> Inr None
      | Some (pre, r) \<Rightarrow> (case close_paren 0 r of None \<Rightarrow> Inl config_violation
          | Some (inner, post) \<Rightarrow> Inr (Some (pre, inner, post))))"

abbreviation opens :: "string \<Rightarrow> nat" where
  "opens s \<equiv> count_list s CHR ''(''"

lemma find_name_split: "find_name name b src = Some (pre, r) \<Longrightarrow> src = pre @ name @ ''('' @ r"
proof (induction src arbitrary: b pre)
  case (Cons c cs)
  show ?case
  proof (cases "\<not> b \<and> starts_with (name @ ''('') (c # cs)")
    case True
    then have "take (length (name @ ''('')) (c # cs) = name @ ''(''" by (simp add: starts_with_def)
    then have "c # cs = (name @ ''('') @ drop (length (name @ ''('')) (c # cs)" by (metis append_take_drop_id)
    with True Cons.prems show ?thesis by auto
  next
    case False
    with Cons show ?thesis by (auto split: if_splits)
  qed
qed simp

lemma close_paren_split: "close_paren d r = Some (inner, post) \<Longrightarrow> r = inner @ '')'' @ post"
  by (induction r arbitrary: d inner) (auto split: if_splits)

lemma opens_strip: "opens (py_strip s) \<le> opens s"
proof -
  have dw: "opens (dropWhile is_space t) \<le> opens t" for t by (induction t) auto
  show ?thesis
    unfolding py_strip_def using dw [of "rev (dropWhile is_space s)"] dw [of s] by (simp add: count_list_rev)
qed

lemma if_sum_le:
  "(P \<Longrightarrow> sum_list (map f a) \<le> n) \<Longrightarrow> (\<not> P \<Longrightarrow> sum_list (map f b) \<le> n) \<Longrightarrow>
   sum_list (map f (if P then a else b)) \<le> (n :: nat)"
  by simp

lemma opens_split_go: "sum_list (map opens (split_go d buf q s)) \<le> opens buf + opens s"
proof (induction s arbitrary: d buf q)
  case Nil
  then show ?case by (simp add: opens_strip)
next
  case (Cons c cs)
  have k: "sum_list (map opens (split_go d' (buf @ [c]) q' cs)) \<le> opens buf + opens (c # cs)" for d' q'
    using Cons.IH [of d' "buf @ [c]" q'] by (cases "c = CHR ''(''") simp_all
  have n: "opens (py_strip buf) + sum_list (map opens (split_go d [] None cs)) \<le> opens buf + opens (c # cs)"
    using Cons.IH [of d "[]" None] opens_strip [of buf] by simp
  show ?case
  proof (cases q)
    case (Some w)
    show ?thesis unfolding Some split_go.simps option.case by (rule k)
  next
    case None
    show ?thesis unfolding None split_go.simps option.case by (intro if_sum_le k) (use n in simp)
  qed
qed

lemma split_args_opens: "split_args s = [a, b, c] \<Longrightarrow> opens a + opens b + opens c \<le> opens s"
  using opens_split_go [of 0 "[]" None s] by (simp add: split_args_def)

lemma find_call_opens:
  "find_call name src = Inr (Some (pre, inner, post)) \<Longrightarrow> opens pre + opens inner + opens post < opens src"
  by (auto simp: find_call_def split: option.splits dest!: find_name_split close_paren_split)

function rewrite_map :: "string \<Rightarrow> pricing_error + string" where
  "rewrite_map src = sbind (find_call ''map'' src) (\<lambda>found.
     case found of None \<Rightarrow> Inr src
     | Some p \<Rightarrow>
         (case split_args (fst (snd p)) of
            [items, x, e] \<Rightarrow> sbind (rewrite_map e) (\<lambda>e'.
              rewrite_map (fst p @ ''['' @ e' @ '' for '' @ x @ '' in '' @ items @ '']'' @ snd (snd p)))
          | _ \<Rightarrow> Inl PyError))"
  by pat_completeness auto

lemma rewrite_map_opens: "rewrite_map_dom src \<Longrightarrow> rewrite_map src = Inr out \<Longrightarrow> opens out \<le> opens src"
proof (induction src arbitrary: out rule: rewrite_map.pinduct)
  case (1 src)
  from "1.prems" "1.hyps" obtain found where f: "find_call ''map'' src = Inr found"
    by (auto simp: rewrite_map.psimps sbind_Inr)
  show ?case
  proof (cases found)
    case None
    with 1 f show ?thesis by (simp add: rewrite_map.psimps)
  next
    case (Some p)
    obtain pre inner post where p: "p = (pre, inner, post)" by (cases p)
    from "1.prems" "1.hyps" f Some p obtain items x e where s: "split_args inner = [items, x, e]"
      by (auto simp: rewrite_map.psimps split: list.splits)
    from "1.prems" "1.hyps" f Some p s obtain e' where e: "rewrite_map e = Inr e'"
        "rewrite_map (pre @ ''['' @ e' @ '' for '' @ x @ '' in '' @ items @ '']'' @ post) = Inr out"
      by (auto simp: rewrite_map.psimps sbind_Inr)
    have s': "split_args (fst (snd p)) = [items, x, e]" using s p by simp
    have "opens e' \<le> opens e"
      by (rule "1.IH"(1) [OF f Some s']) (simp_all add: e)
    moreover have "opens out \<le> opens (fst p @ ''['' @ e' @ '' for '' @ x @ '' in '' @ items @ '']'' @ snd (snd p))"
      by (rule "1.IH"(2) [OF f Some s' refl refl refl e(1)]) (use e(2) p in simp)
    ultimately show ?thesis
      using split_args_opens [OF s] find_call_opens [of "''map''" src pre inner post] f Some p by simp
  qed
qed

termination rewrite_map
proof (relation "measure opens", goal_cases)
  case (2 src found p a l b m e r)
  then have "opens (fst p) + opens (fst (snd p)) + opens (snd (snd p)) < opens src"
    by (intro find_call_opens [of "''map''"]) simp
  with 2 split_args_opens [of "fst (snd p)" a b e] show ?case by simp
next
  case (3 src found p a l b m e r e')
  then have "opens (fst p) + opens (fst (snd p)) + opens (snd (snd p)) < opens src"
    by (intro find_call_opens [of "''map''"]) simp
  moreover have "opens e' \<le> opens e" using 3 by (intro rewrite_map_opens) simp_all
  ultimately show ?case using 3 split_args_opens [of "fst (snd p)" a b e] by simp
qed simp

declare rewrite_map.simps [simp del] rewrite_projections.simps [simp del]

lemma rewrite_map_none_left: "rewrite_map src = Inr out \<Longrightarrow> find_name ''map'' False out = None"
proof (induction src arbitrary: out rule: rewrite_map.induct)
  case (1 src)
  from "1.prems" obtain found where f: "find_call ''map'' src = Inr found"
    by (auto simp: rewrite_map.simps [of src] sbind_Inr)
  show ?case
  proof (cases found)
    case None
    with "1.prems" f have "out = src" by (simp add: rewrite_map.simps [of src])
    with f None show ?thesis by (auto simp: find_call_def split: option.splits)
  next
    case (Some p)
    from "1.prems" f Some obtain items x e where s: "split_args (fst (snd p)) = [items, x, e]"
      by (auto simp: rewrite_map.simps [of src] split: list.splits)
    from "1.prems" f Some s obtain e' where e: "rewrite_map e = Inr e'"
        "rewrite_map (fst p @ ''['' @ e' @ '' for '' @ x @ '' in '' @ items @ '']'' @ snd (snd p)) = Inr out"
      by (auto simp: rewrite_map.simps [of src] sbind_Inr)
    show ?thesis by (rule "1.IH"(2) [OF f Some s refl refl refl e(1)]) (rule e(2))
  qed
qed

subsection \<open>The ternary\<close>

fun find_colon :: "int \<Rightarrow> string \<Rightarrow> (string \<times> string) option" where
  "find_colon d [] = None"
| "find_colon d (c # cs) =
     (if c = CHR ''('' \<or> c = CHR ''['' then map_option (\<lambda>p. (c # fst p, snd p)) (find_colon (d + 1) cs)
      else if c = CHR '')'' \<or> c = CHR '']'' then map_option (\<lambda>p. (c # fst p, snd p)) (find_colon (d - 1) cs)
      else if c = CHR '':'' \<and> d = 0 then Some ([], cs)
      else map_option (\<lambda>p. (c # fst p, snd p)) (find_colon d cs))"

definition rewrite_ternary :: "string \<Rightarrow> string" where
  "rewrite_ternary src =
     (if CHR ''?'' \<notin> set src then src
      else (case find_colon 0 (py_after CHR ''?'' src) of
          None \<Rightarrow> src
        | Some (a, b) \<Rightarrow> ''(('' @ py_strip a @ '') if ('' @ py_strip (py_before CHR ''?'' src) @ '') else ('' @ py_strip b @ ''))''))"

definition to_python :: "string \<Rightarrow> pricing_error + string" where
  "to_python formula = sbind (rewrite_map (rewrite_projections (rewrite_not
       (replace_pair CHR ''|'' '' or '' (replace_pair CHR ''&'' '' and '' formula)))))
     (\<lambda>src. Inr (py_strip (rewrite_ternary src)))"

end
