(* ===== verification/Quotes.thy ===== *)
theory Quotes
  imports Pricing Rewriting Figures Entitlements
begin

text \<open>
  Quotes: \<open>compute\<close> of \<open>core/pricing/engine.py\<close>, the strategies of \<open>core/pricing/registry.py\<close> and the
  compute and replay of \<open>core/pricing/service.py\<close>. A strategy is the data of the pack's YAML; the Python
  parser is an argument. Rows keep the columns the program reads.
\<close>

subsection \<open>Computing a strategy\<close>

record stage =
  st_id :: string
  st_formula :: string
  st_guards :: "string list"
  st_guard_error :: "string option"

record Quote =
  q_breakdown :: "(string \<times> int) list"
  q_total_minor :: int
  q_rate_snapshot_ids :: "uuid list"

record computing = Quote +
  cg_stage_vals :: env

type_synonym py_parser = "string \<Rightarrow> expr option"

definition run_formula :: "py_parser \<Rightarrow> price_funcs \<Rightarrow> env \<Rightarrow> string \<Rightarrow> val ev" where
  "run_formula parse F N f t = sbind (to_python f) (\<lambda>src.
     case parse src of None \<Rightarrow> Inl PyError
     | Some e \<Rightarrow> if allowed e then eval F N [] e t else Inl config_violation)"

fun check_guards :: "py_parser \<Rightarrow> price_funcs \<Rightarrow> env \<Rightarrow> string \<Rightarrow> string list \<Rightarrow> unit ev" where
  "check_guards parse F N code [] t = Inr ((), t)"
| "check_guards parse F N code (g # gs) t = sbind (run_formula parse F N g t) (\<lambda>p.
     sbind (val_truthy (fst p)) (\<lambda>h.
       if h then check_guards parse F N code gs (snd p) else Inl (PricingError code)))"

definition is_money :: "val \<Rightarrow> bool" where
  "is_money v = (case v of VInt i \<Rightarrow> True | VDec d \<Rightarrow> True | _ \<Rightarrow> False)"

definition stage_int :: "val \<Rightarrow> pricing_error + int" where
  "stage_int v = sbind (to_decimal v) (\<lambda>d.
     if integral d then Inr (dtrunc d) else Inl (PricingError ''unledgered_figure''))"

definition formula_names :: "jdict \<Rightarrow> jdict \<Rightarrow> env \<Rightarrow> env" where
  "formula_names inputs params vals =
     [(''inputs'', val_of_json (JObj inputs)), (''params'', val_of_json (JObj params)), (''stage'', VObj vals)]"

text \<open>A number is a money line; anything else is kept for later stages only.\<close>

definition stage_result :: "string \<Rightarrow> val \<Rightarrow> uuid list \<Rightarrow> computing \<Rightarrow> pricing_error + computing" where
  "stage_result sid v t c =
     (if is_money v then
        sbind (stage_int v) (\<lambda>n. Inr (c\<lparr>q_breakdown := q_breakdown c @ [(sid, n)], q_total_minor := n,
          q_rate_snapshot_ids := t, cg_stage_vals := (sid, VInt n) # cg_stage_vals c\<rparr>))
      else Inr (c\<lparr>q_rate_snapshot_ids := t, cg_stage_vals := (sid, v) # cg_stage_vals c\<rparr>))"

definition run_stage :: "py_parser \<Rightarrow> price_funcs \<Rightarrow> jdict \<Rightarrow> jdict \<Rightarrow> stage \<Rightarrow> computing \<Rightarrow> pricing_error + computing" where
  "run_stage parse F inputs params st c =
     (let N = formula_names inputs params (cg_stage_vals c) in
      sbind (check_guards parse F N (case st_guard_error st of None \<Rightarrow> ''config_schema_violation'' | Some g \<Rightarrow> g)
               (st_guards st) (q_rate_snapshot_ids c)) (\<lambda>p.
      sbind (run_formula parse F N (st_formula st) (snd p)) (\<lambda>q. stage_result (st_id st) (fst q) (snd q) c)))"

fun run_stages :: "py_parser \<Rightarrow> price_funcs \<Rightarrow> jdict \<Rightarrow> jdict \<Rightarrow> stage list \<Rightarrow> computing \<Rightarrow> pricing_error + computing" where
  "run_stages parse F inputs params [] c = Inr c"
| "run_stages parse F inputs params (st # sts) c =
     sbind (run_stage parse F inputs params st c) (run_stages parse F inputs params sts)"

definition no_stage :: computing where
  "no_stage = \<lparr>q_breakdown = [], q_total_minor = 0, q_rate_snapshot_ids = [], cg_stage_vals = []\<rparr>"

definition compute :: "py_parser \<Rightarrow> price_funcs \<Rightarrow> stage list \<Rightarrow> jdict \<Rightarrow> jdict \<Rightarrow> pricing_error + Quote" where
  "compute parse F stages inputs params =
     sbind (run_stages parse F inputs params stages no_stage) (\<lambda>c. Inr (Quote.truncate c))"

subsection \<open>Strategies\<close>

record strategy =
  sg_strategy_key :: string
  sg_engine :: string
  sg_stages :: "stage list"
  sg_rate_sources :: "(string \<times> string list) list"
  sg_tax_rules :: "(string \<times> string) list"
  sg_breakdown_labels :: "(string \<times> string) list"

record strategy_row =
  sr_id :: uuid
  sr_strategy_key :: string
  sr_pack_id :: "uuid option"
  sr_engine :: string
  sr_rules :: strategy

record rate_source_row =
  rt_id :: uuid
  rt_pack_id :: uuid
  rt_source_key :: string
  rt_fetch_spec :: json
  rt_staleness_max :: time

record snapshot_row =
  ss_id :: uuid
  ss_source_id :: uuid
  ss_value :: "(string \<times> int) list"
  ss_captured_at :: time

record quote_row =
  qt_id :: uuid
  qt_org_id :: uuid
  qt_lead_id :: "uuid option"
  qt_conversation_id :: "uuid option"
  qt_strategy_id :: uuid
  qt_inputs :: jdict
  qt_params :: jdict
  qt_breakdown :: "(string \<times> int) list"
  qt_rate_snapshot_ids :: "uuid list"
  qt_total_minor :: int
  qt_valid_until :: time

record price_db = entitlement_db +
  pricing_strategies :: "strategy_row list"
  rate_sources :: "rate_source_row list"
  rate_snapshots :: "snapshot_row list"
  quotes :: "quote_row list"

text \<open>\<open>ON CONFLICT (strategy_key) DO UPDATE\<close> keeps the identifier, the pack and the engine of the row.\<close>

definition load_strategy :: "uuid \<Rightarrow> strategy \<Rightarrow> 'a price_db_scheme \<Rightarrow> (pricing_error + uuid) \<times> 'a price_db_scheme" where
  "load_strategy pack g s =
     (if sg_engine g \<notin> {''rules_v1'', ''wasm''} then (Inl PyError, s)
      else (case find (\<lambda>r. sr_strategy_key r = sg_strategy_key g) (pricing_strategies s) of
          Some r \<Rightarrow> (Inr (sr_id r), s\<lparr>pricing_strategies :=
              update_where (\<lambda>r. sr_strategy_key r = sg_strategy_key g) (\<lambda>r. r\<lparr>sr_rules := g\<rparr>) (pricing_strategies s)\<rparr>)
        | None \<Rightarrow> (Inr (fresh s), s\<lparr>fresh := fresh s + 1, pricing_strategies := pricing_strategies s @
              [\<lparr>sr_id = fresh s, sr_strategy_key = sg_strategy_key g, sr_pack_id = Some pack,
                sr_engine = sg_engine g, sr_rules = g\<rparr>]\<rparr>)))"

definition get_strategy :: "string \<Rightarrow> 'a price_db_scheme \<Rightarrow> strategy_row option" where
  "get_strategy key s = find (\<lambda>r. sr_strategy_key r = key) (pricing_strategies s)"

text \<open>A dict built in a loop: the last entry of a key counts.\<close>

definition built_dict :: "('k \<times> 'v) list \<Rightarrow> 'k \<Rightarrow> 'v option" where
  "built_dict kvs = map_of (rev kvs)"

definition build_source_for :: "(string \<times> string list) list \<Rightarrow> val \<Rightarrow> pricing_error + val" where
  "build_source_for sources v =
     (case v of
        VStr purity \<Rightarrow> (case built_dict (concat (map (\<lambda>(src, keys). map (\<lambda>k. (k, src)) keys) sources)) purity of
            None \<Rightarrow> Inl config_violation | Some src \<Rightarrow> Inr (VStr src))
      | VList xs \<Rightarrow> Inl PyError
      | _ \<Rightarrow> Inl config_violation)"

definition build_tax_rules :: "(string \<times> string) list \<Rightarrow> pricing_error + (string \<times> dec) list" where
  "build_tax_rules rules = sbind (smap (\<lambda>r. case parse_decimal (snd r) of
        Num d \<Rightarrow> Inr (fst r, d) | Malformed \<Rightarrow> Inl PyError | _ \<Rightarrow> Inl Outside) rules) (\<lambda>ps. Inr (rev ps))"

subsection \<open>Rate lookups\<close>

definition stale_rate :: pricing_error where
  "stale_rate = PricingError ''stale_rate''"

definition latest_snapshot :: "uuid \<Rightarrow> 'a price_db_scheme \<Rightarrow> snapshot_row option" where
  "latest_snapshot src s = order_first (\<lambda>r. - ss_captured_at r) (filter (\<lambda>r. ss_source_id r = src) (rate_snapshots s))"

definition source_of_pack :: "uuid option \<Rightarrow> string \<Rightarrow> 'a price_db_scheme \<Rightarrow> rate_source_row option" where
  "source_of_pack pack key s = find (\<lambda>r. Some (rt_pack_id r) = pack \<and> rt_source_key r = key) (rate_sources s)"

text \<open>\<open>_fresh_rate_lookup\<close>: the latest snapshot of the pack's source, inside its staleness window.\<close>

definition fresh_rate :: "uuid option \<Rightarrow> 'a price_db_scheme \<Rightarrow> val \<Rightarrow> val \<Rightarrow> pricing_error + int \<times> uuid option" where
  "fresh_rate pack s source key =
     (case source of
        VStr src \<Rightarrow>
          (case source_of_pack pack src s of None \<Rightarrow> Inl stale_rate
           | Some r \<Rightarrow> (case latest_snapshot (rt_id r) s of None \<Rightarrow> Inl stale_rate
               | Some sn \<Rightarrow>
                  if \<not> now s - rt_staleness_max r < ss_captured_at sn then Inl stale_rate
                  else (case key of
                      VStr k \<Rightarrow> (case map_of (ss_value sn) k of None \<Rightarrow> Inl stale_rate | Some n \<Rightarrow> Inr (n, Some (ss_id sn)))
                    | VList xs \<Rightarrow> Inl PyError | _ \<Rightarrow> Inl stale_rate)))
      | VList xs \<Rightarrow> Inl PyError
      | _ \<Rightarrow> Inl stale_rate)"

text \<open>\<open>_pinned_rate_lookup\<close>: exactly the snapshots of a quote; a missing one is a \<open>KeyError\<close>.\<close>

definition pinned_rows :: "uuid list \<Rightarrow> 'a price_db_scheme \<Rightarrow> (string \<times> snapshot_row) list" where
  "pinned_rows ids s = concat (map (\<lambda>sn.
     if ss_id sn \<in> set ids
     then map (\<lambda>r. (rt_source_key r, sn)) (filter (\<lambda>r. rt_id r = ss_source_id sn) (rate_sources s)) else [])
     (rate_snapshots s))"

definition pinned_rate :: "uuid list \<Rightarrow> 'a price_db_scheme \<Rightarrow> val \<Rightarrow> val \<Rightarrow> pricing_error + int \<times> uuid option" where
  "pinned_rate ids s source key =
     (case (source, key) of
        (VStr src, VStr k) \<Rightarrow>
          (case built_dict (pinned_rows ids s) src of None \<Rightarrow> Inl PyError
           | Some sn \<Rightarrow> (case map_of (ss_value sn) k of None \<Rightarrow> Inl PyError | Some n \<Rightarrow> Inr (n, Some (ss_id sn))))
      | _ \<Rightarrow> Inl PyError)"

definition run_strategy :: "py_parser \<Rightarrow> strategy \<Rightarrow> jdict \<Rightarrow> jdict \<Rightarrow> (val \<Rightarrow> val \<Rightarrow> pricing_error + int \<times> uuid option)
    \<Rightarrow> pricing_error + Quote" where
  "run_strategy parse g inputs params rate = sbind (build_tax_rules (sg_tax_rules g)) (\<lambda>tax.
     compute parse \<lparr>pf_rate = rate, pf_tax_rules = tax, pf_source_for = Some (build_source_for (sg_rate_sources g)),
       pf_item = None, pf_offer = None\<rparr> (sg_stages g) inputs params)"

subsection \<open>Quotes\<close>

text \<open>\<open>_per_gram_rate_minor\<close>; every arithmetic error is caught.\<close>

definition per_gram_rate :: "jdict \<Rightarrow> (string \<times> int) list \<Rightarrow> int option" where
  "per_gram_rate inputs breakdown =
     (case find (\<lambda>l. fst l = ''metal_value'') breakdown of None \<Rightarrow> None
      | Some l \<Rightarrow>
         (let usable = (\<lambda>g. if coef g \<le> 0 then None else Some (dtrunc (ddiv (Dec (snd l) 0) g))) in
          case jget_null (JObj inputs) ''net_weight_g'' of
            JInt i \<Rightarrow> usable (Dec i 0)
          | JStr t \<Rightarrow> (case parse_decimal t of Num g \<Rightarrow> usable g | Infinite neg \<Rightarrow> (if neg then None else Some 0) | _ \<Rightarrow> None)
          | _ \<Rightarrow> None))"

definition metal_rate_figure :: "jdict \<Rightarrow> (string \<times> int) list \<Rightarrow> Figure list" where
  "metal_rate_figure inputs breakdown =
     (case per_gram_rate inputs breakdown of None \<Rightarrow> []
      | Some r \<Rightarrow> [\<lparr>fg_figure_type = ''metal_rate'', fg_amount_minor = Some (r div 100 * 100), fg_value_text = None\<rparr>])"

definition fits_bigint :: "int \<Rightarrow> bool" where
  "fits_bigint n \<longleftrightarrow> - (2 ^ 63) \<le> n \<and> n < 2 ^ 63"

definition quote_figures :: "jdict \<Rightarrow> Quote \<Rightarrow> Figure list" where
  "quote_figures inputs q = figures_from_breakdown (q_breakdown q) (q_total_minor q) @ metal_rate_figure inputs (q_breakdown q)"

definition compute_quote :: "py_parser \<Rightarrow> uuid \<Rightarrow> string \<Rightarrow> jdict \<Rightarrow> jdict \<Rightarrow> uuid option \<Rightarrow> uuid option \<Rightarrow> int
    \<Rightarrow> (pricing_error, uuid, 'a price_db_scheme) op" where
  "compute_quote parse org key inputs params lead conv valid_hours s0 =
     (let s = set_org_context org s0 in
      case get_strategy key s of None \<Rightarrow> (Inl config_violation, s)
      | Some st \<Rightarrow>
         (case run_strategy parse (sr_rules st) inputs params (fresh_rate (sr_pack_id st) s) of
            Inl e \<Rightarrow> (Inl e, s)
          | Inr q \<Rightarrow>
             (let until = now s + hours valid_hours; figures = quote_figures inputs q;
                  s1 = s\<lparr>fresh := fresh s + 1, quotes := quotes s @
                    [\<lparr>qt_id = fresh s, qt_org_id = org, qt_lead_id = lead, qt_conversation_id = conv,
                      qt_strategy_id = sr_id st, qt_inputs = inputs, qt_params = params, qt_breakdown = q_breakdown q,
                      qt_rate_snapshot_ids = q_rate_snapshot_ids q, qt_total_minor = q_total_minor q,
                      qt_valid_until = until\<rparr>]\<rparr>
              in if list_ex (\<lambda>f. case fg_amount_minor f of None \<Rightarrow> False | Some n \<Rightarrow> \<not> fits_bigint n) figures
                 then (Inl PyError, s1)
                 else (Inr (fresh s), snd (ledger_write org figures (fresh s) (Some until) s1)))))"

record ReplayReport =
  rr_matches :: bool
  rr_stored_total :: int
  rr_recomputed_total :: int

text \<open>\<open>replay_quote\<close>: the strategy is read as it is stored now.\<close>

definition replay_quote :: "py_parser \<Rightarrow> uuid \<Rightarrow> uuid \<Rightarrow> (pricing_error, ReplayReport, 'a price_db_scheme) op" where
  "replay_quote parse org qid s0 =
     (let s = set_org_context org s0 in
      case find (\<lambda>r. rls_visible s (qt_org_id r) \<and> qt_id r = qid) (quotes s) of None \<Rightarrow> (Inl config_violation, s)
      | Some r \<Rightarrow>
         (case find (\<lambda>st. sr_id st = qt_strategy_id r) (pricing_strategies s) of None \<Rightarrow> (Inl config_violation, s)
          | Some st \<Rightarrow>
             (case run_strategy parse (sr_rules st) (qt_inputs r) (qt_params r) (pinned_rate (qt_rate_snapshot_ids r) s) of
                Inl e \<Rightarrow> (Inl e, s)
              | Inr q \<Rightarrow> (Inr \<lparr>rr_matches = (q_breakdown q = qt_breakdown r \<and> q_total_minor q = qt_total_minor r),
                    rr_stored_total = qt_total_minor r, rr_recomputed_total = q_total_minor q\<rparr>, s))))"

subsection \<open>Rounding and residues\<close>

lemma fn_round_Inr:
  "fn_round v mode = Inr n \<longleftrightarrow> (\<exists>d m r. to_decimal v = Inr d \<and> mode = VStr m \<and> map_of ROUND_MODES m = Some r \<and> quantize r d = Some n)"
  by (cases mode; cases "to_decimal v") (auto simp: fn_round_def split: option.splits)

text \<open>
  C31: rounding moves an amount by less than one minor unit, and by at most half of one in the two modes that
  round to the nearest; the stage that keeps it as a money line then changes nothing.
\<close>

theorem round_bound:
  assumes "fn_round v mode = Inr n"
  shows "\<exists>d. to_decimal v = Inr d \<and> \<bar>of_int n - dval d\<bar> < 1 \<and>
      (mode \<in> {VStr ''half_even'', VStr ''half_up''} \<longrightarrow> \<bar>of_int n - dval d\<bar> \<le> 1 / 2) \<and>
      stage_int (VInt n) = Inr n"
proof -
  from assms [unfolded fn_round_Inr] obtain d m r where d: "to_decimal v = Inr d"
      and m: "mode = VStr m" "map_of ROUND_MODES m = Some r" and n: "quantize r d = Some n" by blast
  have "r = HalfEven \<or> r = HalfUp" if "mode \<in> {VStr ''half_even'', VStr ''half_up''}"
    using that m by (auto simp: ROUND_MODES_def)
  moreover have "stage_int (VInt n) = Inr n"
    by (simp add: stage_int_def to_decimal_def integral_def dtrunc_def)
  ultimately show ?thesis using quantize_bounds [OF n] d by blast
qed

theorem round_bound_witness:
  "\<exists>d. to_decimal (VStr ''12.5'') = Inr d \<and> \<bar>12 - dval d\<bar> \<le> 1 / 2"
proof -
  have "fn_round (VStr ''12.5'') (VStr ''half_even'') = Inr 12" by code_simp
  from round_bound [OF this] show ?thesis by auto
qed

text \<open>A money line is the value of its formula: a residue is an error, never a silent rounding.\<close>

lemma stage_int_exact: "stage_int v = Inr n \<Longrightarrow> \<exists>d. to_decimal v = Inr d \<and> of_int n = dval d"
  by (auto simp: stage_int_def sbind_Inr integral_dtrunc split: if_splits)

lemma run_stages_total:
  "run_stages parse F inputs params sts c = Inr c' \<Longrightarrow>
   q_total_minor c = (if q_breakdown c = [] then 0 else snd (last (q_breakdown c))) \<Longrightarrow>
   q_total_minor c' = (if q_breakdown c' = [] then 0 else snd (last (q_breakdown c')))"
proof (induction sts arbitrary: c)
  case (Cons st sts)
  from Cons.prems(1) obtain c1 where c1: "run_stage parse F inputs params st c = Inr c1"
      and r: "run_stages parse F inputs params sts c1 = Inr c'" by (auto simp: sbind_Inr)
  have "q_total_minor c1 = (if q_breakdown c1 = [] then 0 else snd (last (q_breakdown c1)))"
    using c1 Cons.prems(2) by (auto simp: run_stage_def stage_result_def Let_def sbind_Inr split: if_splits)
  with Cons.IH [OF r] show ?case by simp
qed simp

text \<open>The total is the last money line, whatever its name.\<close>

lemma compute_total:
  "compute parse F sts inputs params = Inr q \<Longrightarrow>
   q_total_minor q = (if q_breakdown q = [] then 0 else snd (last (q_breakdown q)))"
  by (auto simp: compute_def sbind_Inr Quote.truncate_def no_stage_def dest!: run_stages_total)

subsection \<open>A guard that does not short-circuit\<close>

definition PICKUP_GUARD :: string where
  "PICKUP_GUARD = ''!inputs.delivery || inputs.distance_km <= params.delivery_radius_km''"

definition pickup_tree :: expr where
  "pickup_tree = BoolOr [UNot (Attribute (Name ''inputs'') ''delivery''),
     Compare (Attribute (Name ''inputs'') ''distance_km'') [(LtE, Attribute (Name ''params'') ''delivery_radius_km'')]]"

lemma map_of_vals: "map_of (map (\<lambda>(k, v). (k, val_of_json v)) kvs) k = map_option val_of_json (map_of kvs k)"
  by (induction kvs) auto

text \<open>
  The kirana strategy refuses an order for pickup. Its delivery stage is guarded by "not a delivery, or
  within the radius", but both sides of \<open>or\<close> are evaluated: an order without delivery and without a distance
  (the input schema requires neither) fails with an unknown field instead of passing the guard.
\<close>

theorem pickup_without_distance_refused:
  assumes "parse ''not inputs.delivery  or  inputs.distance_km <= params.delivery_radius_km'' = Some pickup_tree"
    and "map_of inputs ''delivery'' = Some (JBool False)" and "map_of inputs ''distance_km'' = None"
  shows "run_stage parse F inputs params \<lparr>st_id = ''delivery_fee'', st_formula = f, st_guards = [PICKUP_GUARD],
     st_guard_error = Some ''delivery_out_of_radius''\<rparr> c = Inl config_violation"
proof -
  have py: "to_python PICKUP_GUARD = Inr ''not inputs.delivery  or  inputs.distance_km <= params.delivery_radius_km''"
    by code_simp
  have "run_formula parse F (formula_names inputs params vals) PICKUP_GUARD t = Inl config_violation" for vals t
    using assms
    by (simp add: run_formula_def py pickup_tree_def lookup_name_def formula_names_def pure_ev_def get_attr_def
        get_field_def map_of_vals starts_with_def dot_def)
  then show ?thesis by (simp add: run_stage_def Let_def)
qed

theorem pickup_without_distance_refused_witness:
  "\<forall>F. run_stage (\<lambda>_. Some pickup_tree) F [(''lines'', JArr []), (''delivery'', JBool False)]
     [(''delivery_radius_km'', JInt 5)]
     \<lparr>st_id = ''delivery_fee'', st_formula = ''params.delivery_fee_minor'', st_guards = [PICKUP_GUARD],
      st_guard_error = Some ''delivery_out_of_radius''\<rparr> no_stage = Inl config_violation"
  by (intro allI pickup_without_distance_refused) simp_all

end
