(* ===== verification/Replay.thy ===== *)
theory Replay
  imports Quotes
begin

text \<open>
  What pinning buys. \<open>replays\<close> relates an evaluation to one with another rate lookup: the first only ever
  adds snapshots its lookup served, and the second gives the same result if its lookup agrees on the
  snapshots that end up pinned. The properties are about quotes and their replay.
\<close>

subsection \<open>Evaluations that can be replayed\<close>

definition served :: "(val \<Rightarrow> val \<Rightarrow> pricing_error + int \<times> uuid option) \<Rightarrow> uuid \<Rightarrow> bool" where
  "served R u \<longleftrightarrow> (\<exists>a k n. R a k = Inr (n, Some u))"

definition agrees :: "(val \<Rightarrow> val \<Rightarrow> pricing_error + int \<times> uuid option) \<Rightarrow> uuid set
    \<Rightarrow> (val \<Rightarrow> val \<Rightarrow> pricing_error + int \<times> uuid option) \<Rightarrow> bool" where
  "agrees R S R' \<longleftrightarrow> (\<forall>a k n sn. R a k = Inr (n, sn) \<longrightarrow> (\<exists>u. sn = Some u \<and> (u \<in> S \<longrightarrow> R' a k = Inr (n, Some u))))"

definition pins_grow :: "(val \<Rightarrow> val \<Rightarrow> pricing_error + int \<times> uuid option) \<Rightarrow> uuid list \<Rightarrow> uuid list \<Rightarrow> bool" where
  "pins_grow R t u \<longleftrightarrow> set t \<subseteq> set u \<and> (distinct t \<longrightarrow> distinct u) \<and> (\<forall>x \<in> set u. x \<in> set t \<or> served R x)"

lemma pins_grow_refl [simp]: "pins_grow R t t"
  by (simp add: pins_grow_def)

lemma pins_grow_trans: "pins_grow R t u \<Longrightarrow> pins_grow R u v \<Longrightarrow> pins_grow R t v"
  by (auto simp: pins_grow_def)

lemma pins_grow_subset: "pins_grow R t u \<Longrightarrow> set u \<subseteq> S \<Longrightarrow> set t \<subseteq> S"
  by (auto simp: pins_grow_def)

definition replays :: "(val \<Rightarrow> val \<Rightarrow> pricing_error + int \<times> uuid option) \<Rightarrow> uuid set \<Rightarrow> 'a ev \<Rightarrow> 'a ev \<Rightarrow> bool" where
  "replays R S m m' \<longleftrightarrow> (\<forall>t x u. m t = Inr (x, u) \<longrightarrow> pins_grow R t u \<and> (set u \<subseteq> S \<longrightarrow> m' t = Inr (x, u)))"

lemma replaysI:
  "(\<And>t x u. m t = Inr (x, u) \<Longrightarrow> pins_grow R t u) \<Longrightarrow>
   (\<And>t x u. m t = Inr (x, u) \<Longrightarrow> set u \<subseteq> S \<Longrightarrow> m' t = Inr (x, u)) \<Longrightarrow> replays R S m m'"
  by (simp add: replays_def)

lemma replaysD:
  "replays R S m m' \<Longrightarrow> m t = Inr (x, u) \<Longrightarrow> pins_grow R t u"
  "replays R S m m' \<Longrightarrow> m t = Inr (x, u) \<Longrightarrow> set u \<subseteq> S \<Longrightarrow> m' t = Inr (x, u)"
  by (auto simp: replays_def)

lemma replays_pure: "replays R S (pure_ev p) (pure_ev p)"
  by (auto simp: replays_def pure_ev_def sbind_Inr)

lemma replays_Inl: "replays R S (\<lambda>t. Inl e) (\<lambda>t. Inl e)"
  by (simp add: replays_def)

lemma replays_Inr: "replays R S (\<lambda>t. Inr (x, t)) (\<lambda>t. Inr (x, t))"
  by (auto simp: replays_def)

lemma replays_bind:
  assumes "replays R S m m'" and "\<And>x. replays R S (\<lambda>u. k (x, u)) (\<lambda>u. k' (x, u))"
  shows "replays R S (\<lambda>t. sbind (m t) k) (\<lambda>t. sbind (m' t) k')"
proof (rule replaysI)
  fix t y v assume "sbind (m t) k = Inr (y, v)"
  then obtain x u where m: "m t = Inr (x, u)" and k: "k (x, u) = Inr (y, v)" by (auto simp: sbind_Inr)
  show "pins_grow R t v"
    using replaysD(1) [OF assms(1) m] replaysD(1) [OF assms(2) k] by (rule pins_grow_trans)
  show "sbind (m' t) k' = Inr (y, v)" if "set v \<subseteq> S"
    using replaysD(2) [OF assms(2) k that]
      replaysD(2) [OF assms(1) m pins_grow_subset [OF replaysD(1) [OF assms(2) k] that]] by simp
qed

lemma replays_sbind: "(\<And>x. replays R S (k x) (k' x)) \<Longrightarrow> replays R S (\<lambda>t. sbind p (\<lambda>x. k x t)) (\<lambda>t. sbind p (\<lambda>x. k' x t))"
  by (cases p) (auto simp: replays_Inl)

lemma replays_if:
  "replays R S a a' \<Longrightarrow> replays R S b b' \<Longrightarrow> replays R S (\<lambda>t. if c then a t else b t) (\<lambda>t. if c then a' t else b' t)"
  by (cases c) simp_all

lemma replays_tmap:
  "(\<And>x. x \<in> set xs \<Longrightarrow> replays R S (f x) (f' x)) \<Longrightarrow> replays R S (tmap f xs) (tmap f' xs)"
proof (induction xs)
  case Nil
  then show ?case by (simp add: replays_def)
next
  case (Cons x xs)
  have "replays R S (\<lambda>t. sbind (f x t) (\<lambda>p. sbind (tmap f xs (snd p)) (\<lambda>q. Inr (fst p # fst q, snd q))))
      (\<lambda>t. sbind (f' x t) (\<lambda>p. sbind (tmap f' xs (snd p)) (\<lambda>q. Inr (fst p # fst q, snd q))))"
    using Cons by - (rule replays_bind, simp, simp only: fst_conv snd_conv, rule replays_bind, simp, simp add: replays_Inr)
  then show ?case by (simp add: replays_def)
qed

lemma replays_tall:
  "(\<And>x. x \<in> set xs \<Longrightarrow> replays R S (f x) (f' x)) \<Longrightarrow> replays R S (tall f xs) (tall f' xs)"
proof (induction xs)
  case Nil
  then show ?case by (simp add: replays_def)
next
  case (Cons x xs)
  have "replays R S (\<lambda>t. sbind (f x t) (\<lambda>p. if fst p then tall f xs (snd p) else Inr (False, snd p)))
      (\<lambda>t. sbind (f' x t) (\<lambda>p. if fst p then tall f' xs (snd p) else Inr (False, snd p)))"
    using Cons by - (rule replays_bind, simp, simp only: fst_conv snd_conv, rule replays_if, simp_all add: replays_Inr)
  then show ?case by (simp add: replays_def)
qed

lemma pins_grow_pin: "served R u \<Longrightarrow> pins_grow R t (pin (Some u) t)"
  by (auto simp: pins_grow_def pin_def)

lemma in_pin: "u \<in> set (pin (Some u) t)"
  by (simp add: pin_def)

lemma replays_rate:
  assumes agree: "agrees (pf_rate F) S R'"
  shows "replays (pf_rate F) S (rate_function F vs kv) (rate_function (F\<lparr>pf_rate := R'\<rparr>) vs kv)"
proof (rule replaysI)
  fix t x u assume a: "rate_function F vs kv t = Inr (x, u)"
  obtain s k where b: "bind_params [''source'', ''key''] vs kv = Some [Some s, Some k]"
    by (rule that [of "the (the (bind_params [''source'', ''key''] vs kv) ! 0)" "the (the (bind_params [''source'', ''key''] vs kv) ! 1)"])
      (use a in \<open>auto simp: rate_function_def split: option.splits list.splits\<close>)
  with a obtain n sn where r: "pf_rate F s k = Inr (n, sn)" and x: "x = VObj [(''per_g_minor'', VInt n)]" "u = pin sn t"
    by (auto simp: rate_function_def sbind_Inr)
  from agree r obtain w where w: "sn = Some w" "w \<in> S \<Longrightarrow> R' s k = Inr (n, Some w)"
    unfolding agrees_def by blast
  show "pins_grow (pf_rate F) t u"
    using r w x pins_grow_pin [of "pf_rate F" w t] by (auto simp: served_def)
  show "rate_function (F\<lparr>pf_rate := R'\<rparr>) vs kv t = Inr (x, u)" if "set u \<subseteq> S"
  proof -
    have "w \<in> S" using that in_pin [of w t] w x by blast
    then show ?thesis using b r w x by (simp add: rate_function_def)
  qed
qed

lemma plain_function_rate [simp]: "plain_function (F\<lparr>pf_rate := R'\<rparr>) g vs kv = plain_function F g vs kv"
  by (simp add: plain_function_def)

lemma replays_call:
  "agrees (pf_rate F) S R' \<Longrightarrow>
   replays (pf_rate F) S (\<lambda>t. call_function F g vs kv t) (\<lambda>t. call_function (F\<lparr>pf_rate := R'\<rparr>) g vs kv t)"
  using replays_rate [of F S R' vs kv] replays_pure [of "pf_rate F" S "plain_function F g vs kv"]
  by (simp add: call_function_def replays_def pure_ev_def)

lemma replays_eval:
  assumes agree: "agrees (pf_rate F) S R'"
  shows "replays (pf_rate F) S (\<lambda>t. eval F N l e t) (\<lambda>t. eval (F\<lparr>pf_rate := R'\<rparr>) N l e t)"
proof (induction e arbitrary: l rule: measure_induct_rule [of size])
  case (less e)
  note IH = less.IH
  note rs = replays_bind replays_pure replays_Inl replays_Inr replays_sbind replays_call [OF agree] replays_if
  have args: "replays (pf_rate F) S (\<lambda>t. tmap (\<lambda>e. eval F N l e) es t) (\<lambda>t. tmap (\<lambda>e. eval (F\<lparr>pf_rate := R'\<rparr>) N l e) es t)"
    if "\<And>x. x \<in> set es \<Longrightarrow> size x < size e" for es l
    by (rule replays_tmap) (use IH that in simp)
  show ?case
  proof (cases e)
    case (Constant x)
    then show ?thesis by (simp only: eval.simps) (rule rs)
  next
    case (Name x)
    then show ?thesis by (simp only: eval.simps) (rule rs)
  next
    case (Attribute a x)
    then show ?thesis by (simp only: eval.simps) (rule rs IH | simp only: fst_conv snd_conv | simp)+
  next
    case (Subscript a b)
    then show ?thesis by (simp only: eval.simps) (rule rs IH | simp only: fst_conv snd_conv | simp)+
  next
    case (UNot a)
    then show ?thesis by (simp only: eval.simps) (rule rs IH | simp only: fst_conv snd_conv | simp)+
  next
    case (USub a)
    then show ?thesis by (simp only: eval.simps) (rule rs IH | simp only: fst_conv snd_conv | simp)+
  next
    case (BoolAnd es)
    then show ?thesis by (simp only: eval.simps) (rule rs args | simp only: fst_conv snd_conv | simp add: less_Suc_eq_le size_args)+
  next
    case (BoolOr es)
    then show ?thesis by (simp only: eval.simps) (rule rs args | simp only: fst_conv snd_conv | simp add: less_Suc_eq_le size_args)+
  next
    case (Compare a cs)
    show ?thesis
    proof (cases cs)
      case Nil
      with Compare show ?thesis by (simp add: rs)
    next
      case (Cons c r)
      with Compare show ?thesis
        by (simp only: eval.simps list.case) (rule rs IH | simp only: fst_conv snd_conv | (cases c; simp))+
    qed
  next
    case (BinOp x a b)
    then show ?thesis by (simp only: eval.simps) (rule rs IH | simp only: fst_conv snd_conv | simp)+
  next
    case (IfExp c a b)
    then show ?thesis by (simp only: eval.simps) (rule rs IH | simp only: fst_conv snd_conv | simp)+
  next
    case (EList es)
    then show ?thesis by (simp only: eval.simps) (rule rs args | simp only: fst_conv snd_conv | simp add: less_Suc_eq_le size_args)+
  next
    case (Other n)
    then show ?thesis by (simp only: eval.simps) (rule rs)
  next
    case (ListComp a gs)
    show ?thesis
    proof (cases gs)
      case Nil
      with ListComp show ?thesis by (simp add: rs)
    next
      case (Cons g r)
      obtain x i ifs where g: "g = (x, i, ifs)" by (cases g)
      have i: "size i < size e" and a: "size a < size e" using ListComp Cons g by simp_all
      have ifs: "size c < size e" if "c \<in> set ifs" for c
        using size_args [OF that] ListComp Cons g by simp
      show ?thesis
      proof (cases "\<exists>y. x = Name y")
        case True
        then obtain y where y: "x = Name y" by blast
        show ?thesis
          unfolding ListComp Cons g y eval.simps list.case fst_conv snd_conv expr.case
          by (rule rs IH [OF i] IH [OF a] IH [OF ifs] replays_tmap replays_tall | assumption | simp only: fst_conv snd_conv)+
      next
        case False
        then have "eval F' N l e t = Inl PyError" for F' t
          using ListComp Cons g by (cases x) simp_all
        then show ?thesis by (simp add: rs)
      qed
    qed
  next
    case (Call f es ks)
    have es: "size x < size e" if "x \<in> set es" for x using size_args [OF that] Call by simp
    have ks: "size (snd k) < size e" if "k \<in> set ks" for k
      using size_kws [of "fst k" "snd k" ks] that Call by simp
    have kws: "replays (pf_rate F) S (\<lambda>t. tmap (\<lambda>k u. case fst k of None \<Rightarrow> Inr ([], u)
         | Some n \<Rightarrow> sbind (eval F N l (snd k) u) (\<lambda>r. Inr ([(n, fst r)], snd r))) ks t)
       (\<lambda>t. tmap (\<lambda>k u. case fst k of None \<Rightarrow> Inr ([], u)
         | Some n \<Rightarrow> sbind (eval (F\<lparr>pf_rate := R'\<rparr>) N l (snd k) u) (\<lambda>r. Inr ([(n, fst r)], snd r))) ks t)"
    proof (rule replays_tmap)
      fix k assume k: "k \<in> set ks"
      show "replays (pf_rate F) S (\<lambda>u. case fst k of None \<Rightarrow> Inr ([], u)
           | Some n \<Rightarrow> sbind (eval F N l (snd k) u) (\<lambda>r. Inr ([(n, fst r)], snd r)))
         (\<lambda>u. case fst k of None \<Rightarrow> Inr ([], u)
           | Some n \<Rightarrow> sbind (eval (F\<lparr>pf_rate := R'\<rparr>) N l (snd k) u) (\<lambda>r. Inr ([(n, fst r)], snd r)))"
        by (cases "fst k"; simp only: option.case; (rule rs IH [OF ks [OF k]] | simp only: fst_conv snd_conv)+)
    qed
    have rest: "replays (pf_rate F) S
       (\<lambda>t. case f of Attribute b a \<Rightarrow> sbind (eval F N l b t) (\<lambda>r. pure_ev (call_method (fst r) a vs kv) (snd r))
          | Name g \<Rightarrow> call_function F g vs kv t | _ \<Rightarrow> Inl config_violation)
       (\<lambda>t. case f of Attribute b a \<Rightarrow> sbind (eval (F\<lparr>pf_rate := R'\<rparr>) N l b t) (\<lambda>r. pure_ev (call_method (fst r) a vs kv) (snd r))
          | Name g \<Rightarrow> call_function (F\<lparr>pf_rate := R'\<rparr>) g vs kv t | _ \<Rightarrow> Inl config_violation)" for vs kv
    proof (cases f)
      case (Attribute b a)
      then have b: "size b < size e" using Call by simp
      show ?thesis unfolding Attribute expr.case
        by (rule rs IH [OF b] | simp only: fst_conv snd_conv)+
    qed (simp_all add: rs)
    show ?thesis
      unfolding Call eval.simps
      by (rule replays_bind args es kws rest | assumption | simp only: fst_conv snd_conv)+
  qed
qed


subsection \<open>Stages\<close>

lemma replays_formula:
  assumes "agrees (pf_rate F) S R'"
  shows "replays (pf_rate F) S (\<lambda>t. run_formula parse F N f t) (\<lambda>t. run_formula parse (F\<lparr>pf_rate := R'\<rparr>) N f t)"
proof -
  have "replays (pf_rate F) S
      (\<lambda>t. case parse src of None \<Rightarrow> Inl PyError | Some e \<Rightarrow> if allowed e then eval F N [] e t else Inl config_violation)
      (\<lambda>t. case parse src of None \<Rightarrow> Inl PyError | Some e \<Rightarrow> if allowed e then eval (F\<lparr>pf_rate := R'\<rparr>) N [] e t else Inl config_violation)" for src
    by (cases "parse src"; simp only: option.case) (rule replays_if replays_eval [OF assms] replays_Inl)+
  then show ?thesis unfolding run_formula_def by (rule replays_sbind)
qed

lemma replays_guards:
  assumes "agrees (pf_rate F) S R'"
  shows "replays (pf_rate F) S (\<lambda>t. check_guards parse F N code gs t) (\<lambda>t. check_guards parse (F\<lparr>pf_rate := R'\<rparr>) N code gs t)"
proof (induction gs)
  case Nil
  then show ?case by (simp add: replays_Inr)
next
  case (Cons g gs)
  show ?case
    unfolding check_guards.simps
    by (rule replays_bind replays_formula [OF assms] replays_sbind replays_if Cons.IH replays_Inl
        | simp only: fst_conv snd_conv)+
qed

lemma run_stage_Inr:
  "run_stage parse F inputs params st c = Inr c' \<longleftrightarrow>
     (\<exists>t v u. check_guards parse F (formula_names inputs params (cg_stage_vals c))
          (case st_guard_error st of None \<Rightarrow> ''config_schema_violation'' | Some g \<Rightarrow> g)
          (st_guards st) (q_rate_snapshot_ids c) = Inr ((), t) \<and>
        run_formula parse F (formula_names inputs params (cg_stage_vals c)) (st_formula st) t = Inr (v, u) \<and>
        stage_result (st_id st) v u c = Inr c')"
  by (auto simp: run_stage_def Let_def sbind_Inr)

lemma stage_result_pins: "stage_result sid v t c = Inr c' \<Longrightarrow> q_rate_snapshot_ids c' = t"
  by (auto simp: stage_result_def sbind_Inr split: if_splits)

lemma run_stage_replays:
  assumes agree: "agrees (pf_rate F) S R'" and run: "run_stage parse F inputs params st c = Inr c'"
  shows "pins_grow (pf_rate F) (q_rate_snapshot_ids c) (q_rate_snapshot_ids c')"
    and "set (q_rate_snapshot_ids c') \<subseteq> S \<Longrightarrow> run_stage parse (F\<lparr>pf_rate := R'\<rparr>) inputs params st c = Inr c'"
proof -
  let ?N = "formula_names inputs params (cg_stage_vals c)"
  let ?g = "case st_guard_error st of None \<Rightarrow> ''config_schema_violation'' | Some g \<Rightarrow> g"
  from run obtain t v u where g: "check_guards parse F ?N ?g (st_guards st) (q_rate_snapshot_ids c) = Inr ((), t)"
      and f: "run_formula parse F ?N (st_formula st) t = Inr (v, u)" and c': "stage_result (st_id st) v u c = Inr c'"
    unfolding run_stage_Inr by blast
  note u = stage_result_pins [OF c']
  note pg = replaysD(1) [OF replays_guards [OF agree] g] and pf = replaysD(1) [OF replays_formula [OF agree] f]
  show "pins_grow (pf_rate F) (q_rate_snapshot_ids c) (q_rate_snapshot_ids c')"
    unfolding u by (rule pins_grow_trans [OF pg pf])
  show "run_stage parse (F\<lparr>pf_rate := R'\<rparr>) inputs params st c = Inr c'" if "set (q_rate_snapshot_ids c') \<subseteq> S"
  proof -
    have us: "set u \<subseteq> S" using that u by simp
    have "check_guards parse (F\<lparr>pf_rate := R'\<rparr>) ?N ?g (st_guards st) (q_rate_snapshot_ids c) = Inr ((), t)"
      by (rule replaysD(2) [OF replays_guards [OF agree] g pins_grow_subset [OF pf us]])
    moreover have "run_formula parse (F\<lparr>pf_rate := R'\<rparr>) ?N (st_formula st) t = Inr (v, u)"
      by (rule replaysD(2) [OF replays_formula [OF agree] f us])
    ultimately show ?thesis unfolding run_stage_Inr using c' by blast
  qed
qed

lemma run_stages_replays:
  assumes agree: "agrees (pf_rate F) S R'"
  shows "run_stages parse F inputs params sts c = Inr c' \<Longrightarrow>
    pins_grow (pf_rate F) (q_rate_snapshot_ids c) (q_rate_snapshot_ids c') \<and>
    (set (q_rate_snapshot_ids c') \<subseteq> S \<longrightarrow> run_stages parse (F\<lparr>pf_rate := R'\<rparr>) inputs params sts c = Inr c')"
proof (induction sts arbitrary: c)
  case (Cons st sts)
  from Cons.prems obtain c1 where s: "run_stage parse F inputs params st c = Inr c1"
      and r: "run_stages parse F inputs params sts c1 = Inr c'" by (auto simp: sbind_Inr)
  note h = run_stage_replays [OF agree s] and i = Cons.IH [OF r]
  show ?case
    using h i pins_grow_trans pins_grow_subset [of "pf_rate F" "q_rate_snapshot_ids c1" "q_rate_snapshot_ids c'" S]
    by (auto simp: sbind_Inr)
qed simp

lemma compute_replays:
  assumes "agrees (pf_rate F) S R'" "compute parse F sts inputs params = Inr q"
  shows "distinct (q_rate_snapshot_ids q)" "u \<in> set (q_rate_snapshot_ids q) \<Longrightarrow> served (pf_rate F) u"
    "set (q_rate_snapshot_ids q) \<subseteq> S \<Longrightarrow> compute parse (F\<lparr>pf_rate := R'\<rparr>) sts inputs params = Inr q"
proof -
  from assms(2) obtain c where c: "run_stages parse F inputs params sts no_stage = Inr c" and q: "q = Quote.truncate c"
    by (auto simp: compute_def sbind_Inr)
  have q': "q_rate_snapshot_ids q = q_rate_snapshot_ids c" by (simp add: q Quote.truncate_def)
  note h = run_stages_replays [OF assms(1) c]
  have p: "pins_grow (pf_rate F) [] (q_rate_snapshot_ids c)" using h by (simp add: no_stage_def)
  show "distinct (q_rate_snapshot_ids q)" "u \<in> set (q_rate_snapshot_ids q) \<Longrightarrow> served (pf_rate F) u"
    using p q' by (auto simp: pins_grow_def)
  show "compute parse (F\<lparr>pf_rate := R'\<rparr>) sts inputs params = Inr q" if "set (q_rate_snapshot_ids q) \<subseteq> S"
    using h that q' q by (simp add: compute_def)
qed

subsection \<open>Fresh and pinned lookups\<close>

text \<open>Primary keys and the unique key of a rate source, and identifiers still to come.\<close>

definition price_wf :: "'a price_db_scheme \<Rightarrow> bool" where
  "price_wf s \<longleftrightarrow> distinct (map qt_id (quotes s)) \<and> (\<forall>r \<in> set (quotes s). qt_id r < fresh s) \<and>
     distinct (map ss_id (rate_snapshots s)) \<and> distinct (map rt_id (rate_sources s)) \<and>
     distinct (map (\<lambda>r. (rt_pack_id r, rt_source_key r)) (rate_sources s)) \<and>
     distinct (map sr_id (pricing_strategies s))"

text \<open>What may have happened since: more quotes and more snapshots.\<close>

definition grown :: "'a price_db_scheme \<Rightarrow> 'a price_db_scheme \<Rightarrow> bool" where
  "grown s s' \<longleftrightarrow> price_wf s' \<and> (\<exists>qs. quotes s' = quotes s @ qs) \<and> (\<exists>sn. rate_snapshots s' = rate_snapshots s @ sn) \<and>
     rate_sources s' = rate_sources s \<and> pricing_strategies s' = pricing_strategies s"

lemma distinct_map_eq: "distinct (map f xs) \<Longrightarrow> x \<in> set xs \<Longrightarrow> y \<in> set xs \<Longrightarrow> f x = f y \<Longrightarrow> x = y"
  by (auto simp: distinct_map inj_on_def)

lemma find_only:
  assumes "x \<in> set xs" "p x" "\<And>y. y \<in> set xs \<Longrightarrow> p y \<Longrightarrow> y = x"
  shows "find p xs = Some x"
proof (cases "find p xs")
  case None
  with assms(1,2) show ?thesis by (simp add: find_None_iff_ball)
next
  case (Some y)
  from find_Some_set [OF Some] have "y = x" using assms(3) by blast
  with Some show ?thesis by simp
qed

lemma built_dict_unique:
  assumes "(k, x) \<in> set kvs" "\<And>y. (k, y) \<in> set kvs \<Longrightarrow> y = x"
  shows "built_dict kvs k = Some x"
proof -
  from assms(1) obtain y where y: "built_dict kvs k = Some y"
    by (cases "built_dict kvs k") (auto simp: built_dict_def map_of_eq_None_iff image_iff)
  then have "(k, y) \<in> set kvs" using map_of_SomeD [of "rev kvs" k y] by (simp add: built_dict_def)
  with assms(2) y show ?thesis by simp
qed

text \<open>A snapshot the fresh lookup may use.\<close>

definition current_snapshot :: "uuid option \<Rightarrow> 'a price_db_scheme \<Rightarrow> string \<Rightarrow> snapshot_row \<Rightarrow> bool" where
  "current_snapshot pack s src sn \<longleftrightarrow> (\<exists>r \<in> set (rate_sources s). Some (rt_pack_id r) = pack \<and> rt_source_key r = src \<and>
     sn \<in> set (rate_snapshots s) \<and> ss_source_id sn = rt_id r \<and> now s - rt_staleness_max r < ss_captured_at sn \<and>
     (\<forall>o' \<in> set (rate_snapshots s). ss_source_id o' = rt_id r \<longrightarrow> ss_captured_at o' \<le> ss_captured_at sn))"

lemma fresh_rate_Inr:
  assumes "fresh_rate pack s a k = Inr (n, w)"
  obtains src key r sn where "a = VStr src" "k = VStr key" "source_of_pack pack src s = Some r"
    "latest_snapshot (rt_id r) s = Some sn" "now s - rt_staleness_max r < ss_captured_at sn"
    "map_of (ss_value sn) key = Some n" "w = Some (ss_id sn)"
  using assms by (auto simp: fresh_rate_def stale_rate_def split: val.splits option.splits if_splits)

lemma fresh_rate_current:
  assumes "source_of_pack pack src s = Some r" "latest_snapshot (rt_id r) s = Some sn"
    "now s - rt_staleness_max r < ss_captured_at sn"
  shows "current_snapshot pack s src sn"
proof -
  have r: "r \<in> set (rate_sources s)" "Some (rt_pack_id r) = pack" "rt_source_key r = src"
    using find_Some_set [OF assms(1) [unfolded source_of_pack_def]] by auto
  have l: "sn \<in> set (filter (\<lambda>r'. ss_source_id r' = rt_id r) (rate_snapshots s)) \<and>
      (\<forall>y \<in> set (filter (\<lambda>r'. ss_source_id r' = rt_id r) (rate_snapshots s)). - ss_captured_at sn \<le> - ss_captured_at y)"
    using order_first_Some [OF assms(2) [unfolded latest_snapshot_def]] by simp
  show ?thesis unfolding current_snapshot_def
    by (rule bexI [of _ r]) (use r l assms(3) in auto)
qed

lemma served_current:
  assumes "served (fresh_rate pack s) u"
  shows "\<exists>src sn r. ss_id sn = u \<and> source_of_pack pack src s = Some r \<and> latest_snapshot (rt_id r) s = Some sn \<and>
    current_snapshot pack s src sn"
proof -
  from assms obtain a k n where "fresh_rate pack s a k = Inr (n, Some u)" by (auto simp: served_def)
  then show ?thesis
    by (rule fresh_rate_Inr) (use fresh_rate_current in blast)
qed

lemma fresh_agrees_itself: "agrees (fresh_rate pack s) UNIV (fresh_rate pack s)"
  unfolding agrees_def by (auto elim!: fresh_rate_Inr)

lemma pinned_agrees:
  assumes wf: "price_wf s" and wf2: "price_wf s2" and sn2: "rate_snapshots s2 = rate_snapshots s @ extra"
    and src2: "rate_sources s2 = rate_sources s"
    and ids: "\<And>u. u \<in> set ids \<Longrightarrow> served (fresh_rate pack s) u"
  shows "agrees (fresh_rate pack s) (set ids) (pinned_rate ids s2)"
  unfolding agrees_def
proof (intro allI impI)
  fix a k n w assume "fresh_rate pack s a k = Inr (n, w)"
  then obtain src key r sn where a: "a = VStr src" "k = VStr key" and r: "source_of_pack pack src s = Some r"
      and l: "latest_snapshot (rt_id r) s = Some sn" and f: "now s - rt_staleness_max r < ss_captured_at sn"
      and n: "map_of (ss_value sn) key = Some n" and w: "w = Some (ss_id sn)"
    by (rule fresh_rate_Inr)
  have rs: "r \<in> set (rate_sources s)" "Some (rt_pack_id r) = pack" "rt_source_key r = src"
    using find_Some_set [OF r [unfolded source_of_pack_def]] by auto
  have sn: "sn \<in> set (rate_snapshots s)" "ss_source_id sn = rt_id r"
    using order_first_Some [OF l [unfolded latest_snapshot_def]] by auto
  show "\<exists>u. w = Some u \<and> (u \<in> set ids \<longrightarrow> pinned_rate ids s2 a k = Inr (n, Some u))"
  proof (intro exI [of _ "ss_id sn"] conjI impI)
    assume u: "ss_id sn \<in> set ids"
    have "built_dict (pinned_rows ids s2) src = Some sn"
    proof (rule built_dict_unique)
      show "(src, sn) \<in> set (pinned_rows ids s2)"
        using rs sn u by (force simp: pinned_rows_def sn2 src2)
      fix y assume "(src, y) \<in> set (pinned_rows ids s2)"
      then obtain r2 where y: "y \<in> set (rate_snapshots s2)" "ss_id y \<in> set ids"
          and r2: "r2 \<in> set (rate_sources s)" "rt_id r2 = ss_source_id y" "rt_source_key r2 = src"
        by (auto simp: pinned_rows_def src2 split: if_splits)
      from served_current [OF ids [OF y(2)]] obtain src3 z r3 where z: "ss_id z = ss_id y"
          "source_of_pack pack src3 s = Some r3" "latest_snapshot (rt_id r3) s = Some z" by blast
      have r3: "r3 \<in> set (rate_sources s)" "Some (rt_pack_id r3) = pack" "rt_source_key r3 = src3"
        using find_Some_set [OF z(2) [unfolded source_of_pack_def]] by auto
      have zs: "z \<in> set (rate_snapshots s)" "ss_source_id z = rt_id r3"
        using order_first_Some [OF z(3) [unfolded latest_snapshot_def]] by auto
      have "y = z"
        by (rule distinct_map_eq [of ss_id "rate_snapshots s2"]) (use wf2 y zs z sn2 in \<open>auto simp: price_wf_def\<close>)
      then have "r2 = r3"
        using r2 r3 zs wf by (intro distinct_map_eq [of rt_id "rate_sources s"]) (auto simp: price_wf_def)
      moreover have "r3 = r" if "src3 = src" using that z(2) r by simp
      ultimately show "y = sn" using r2 r3 z(3) l \<open>y = z\<close> by simp
    qed
    then show "pinned_rate ids s2 a k = Inr (n, Some (ss_id sn))"
      using a n by (simp add: pinned_rate_def)
  qed (rule w)
qed

subsection \<open>A quote\<close>

lemma price_context [simp]:
  "quotes (set_org_context org s) = quotes s" "rate_snapshots (set_org_context org s) = rate_snapshots s"
  "rate_sources (set_org_context org s) = rate_sources s" "pricing_strategies (set_org_context org s) = pricing_strategies s"
  by (simp_all add: set_org_context_def)

lemma rows_context [simp]:
  "pinned_rows ids (set_org_context org s) = pinned_rows ids s"
  "source_of_pack p k (set_org_context org s) = source_of_pack p k s"
  "latest_snapshot r (set_org_context org s) = latest_snapshot r s"
  "get_strategy key (set_org_context org s) = get_strategy key s"
  by (simp_all add: pinned_rows_def source_of_pack_def latest_snapshot_def get_strategy_def cong: if_cong)

lemma lookups_context [simp]:
  "fresh_rate p (set_org_context org s) = fresh_rate p s" "pinned_rate ids (set_org_context org s) = pinned_rate ids s"
  by (simp_all add: fresh_rate_def [abs_def] pinned_rate_def [abs_def] cong: val.case_cong option.case_cong if_cong)

lemma compute_quote_Inr:
  assumes "compute_quote parse org key inputs params lead conv h s0 = (Inr qid, s1)"
  obtains st q where "get_strategy key s0 = Some st"
    "run_strategy parse (sr_rules st) inputs params (fresh_rate (sr_pack_id st) s0) = Inr q"
    "qid = fresh s0" "\<And>f n. f \<in> set (quote_figures inputs q) \<Longrightarrow> fg_amount_minor f = Some n \<Longrightarrow> fits_bigint n"
    "s1 = snd (ledger_write org (quote_figures inputs q) (fresh s0) (Some (now s0 + hours h))
       ((set_org_context org s0)\<lparr>fresh := fresh s0 + 1, quotes := quotes s0 @
          [\<lparr>qt_id = fresh s0, qt_org_id = org, qt_lead_id = lead, qt_conversation_id = conv,
            qt_strategy_id = sr_id st, qt_inputs = inputs, qt_params = params, qt_breakdown = q_breakdown q,
            qt_rate_snapshot_ids = q_rate_snapshot_ids q, qt_total_minor = q_total_minor q,
            qt_valid_until = now s0 + hours h\<rparr>]\<rparr>))"
proof -
  obtain st where st: "get_strategy key s0 = Some st"
    using assms by (cases "get_strategy key s0") (simp_all add: compute_quote_def Let_def)
  obtain q where q: "run_strategy parse (sr_rules st) inputs params (fresh_rate (sr_pack_id st) s0) = Inr q"
    using assms st by (cases "run_strategy parse (sr_rules st) inputs params (fresh_rate (sr_pack_id st) s0)")
      (simp_all add: compute_quote_def Let_def)
  show thesis
    by (rule that [OF st q])
      (use assms st q in \<open>auto simp: compute_quote_def Let_def list_ex_iff split: if_splits\<close>)
qed

subsection \<open>Properties\<close>

lemma ledger_write_price [simp]:
  "quotes (snd (ledger_write org fs src e s)) = quotes s"
  "rate_snapshots (snd (ledger_write org fs src e s)) = rate_snapshots s"
  "rate_sources (snd (ledger_write org fs src e s)) = rate_sources s"
  "pricing_strategies (snd (ledger_write org fs src e s)) = pricing_strategies s"
  "fresh (snd (ledger_write org fs src e s)) = fresh s"
  by (simp_all add: ledger_write_def Let_def set_org_context_def)

lemma compute_quote_wf:
  "price_wf s \<Longrightarrow> compute_quote parse org key inputs params lead conv h s = (Inr qid, s1) \<Longrightarrow> price_wf s1"
  by (erule compute_quote_Inr) (auto simp: price_wf_def less_Suc_eq)

lemma compute_quote_snapshots:
  "compute_quote parse org key inputs params lead conv h s = (Inr qid, s1) \<Longrightarrow> rate_snapshots s1 = rate_snapshots s"
  by (erule compute_quote_Inr) simp

lemma run_strategy_replays:
  assumes "run_strategy parse g inputs params R = Inr q" "agrees R S R'"
  shows "distinct (q_rate_snapshot_ids q)" "u \<in> set (q_rate_snapshot_ids q) \<Longrightarrow> served R u"
    "set (q_rate_snapshot_ids q) \<subseteq> S \<Longrightarrow> run_strategy parse g inputs params R' = Inr q"
proof -
  from assms(1) obtain tax where tax: "build_tax_rules (sg_tax_rules g) = Inr tax"
      and c: "compute parse \<lparr>pf_rate = R, pf_tax_rules = tax, pf_source_for = Some (build_source_for (sg_rate_sources g)),
         pf_item = None, pf_offer = None\<rparr> (sg_stages g) inputs params = Inr q"
    by (auto simp: run_strategy_def sbind_Inr)
  note h = compute_replays [of "\<lparr>pf_rate = R, pf_tax_rules = tax, pf_source_for = Some (build_source_for (sg_rate_sources g)),
         pf_item = None, pf_offer = None\<rparr>" S R', OF _ c]
  show "distinct (q_rate_snapshot_ids q)" using h(1) assms(2) by simp
  show "u \<in> set (q_rate_snapshot_ids q) \<Longrightarrow> served R u" using h(2) assms(2) by simp
  show "set (q_rate_snapshot_ids q) \<subseteq> S \<Longrightarrow> run_strategy parse g inputs params R' = Inr q"
    using h(3) assms(2) tax by (simp add: run_strategy_def)
qed

text \<open>
  C24: a quote can be audited. Whatever quotes and snapshots were added since, as long as the strategy and
  the rate sources are those of the quote, replaying it from its stored inputs and the snapshots it pinned
  recomputes the stored breakdown and total.
\<close>

theorem replay_matches:
  assumes "price_wf s" and "compute_quote parse org key inputs params lead conv h s = (Inr qid, s1)" and "grown s1 s2"
  shows "\<exists>t. fst (replay_quote parse org qid s2) = Inr \<lparr>rr_matches = True, rr_stored_total = t, rr_recomputed_total = t\<rparr>"
  using assms(2)
proof (rule compute_quote_Inr)
  fix st q
  assume st: "get_strategy key s = Some st" and q: "run_strategy parse (sr_rules st) inputs params (fresh_rate (sr_pack_id st) s) = Inr q"
    and qid: "qid = fresh s"
    and s1: "s1 = snd (ledger_write org (quote_figures inputs q) (fresh s) (Some (now s + hours h))
       ((set_org_context org s)\<lparr>fresh := fresh s + 1, quotes := quotes s @
          [\<lparr>qt_id = fresh s, qt_org_id = org, qt_lead_id = lead, qt_conversation_id = conv,
            qt_strategy_id = sr_id st, qt_inputs = inputs, qt_params = params, qt_breakdown = q_breakdown q,
            qt_rate_snapshot_ids = q_rate_snapshot_ids q, qt_total_minor = q_total_minor q,
            qt_valid_until = now s + hours h\<rparr>]\<rparr>))"
  define row where "row = \<lparr>qt_id = fresh s, qt_org_id = org, qt_lead_id = lead, qt_conversation_id = conv,
            qt_strategy_id = sr_id st, qt_inputs = inputs, qt_params = params, qt_breakdown = q_breakdown q,
            qt_rate_snapshot_ids = q_rate_snapshot_ids q, qt_total_minor = q_total_minor q,
            qt_valid_until = now s + hours h\<rparr>"
  have old: "quotes s1 = quotes s @ [row]" "rate_snapshots s1 = rate_snapshots s" "rate_sources s1 = rate_sources s"
      "pricing_strategies s1 = pricing_strategies s"
    by (simp_all add: s1 row_def)
  from assms(3) old obtain qs sn where new: "quotes s2 = quotes s @ row # qs" "rate_snapshots s2 = rate_snapshots s @ sn"
      "rate_sources s2 = rate_sources s" "pricing_strategies s2 = pricing_strategies s" and wf2: "price_wf s2"
    by (auto simp: grown_def)
  let ?s = "set_org_context org s2"
  have "find (\<lambda>r. rls_visible ?s (qt_org_id r) \<and> qt_id r = qid) (quotes s2) = Some row"
  proof (rule find_only)
    show "row \<in> set (quotes s2)" by (simp add: new)
    show "rls_visible ?s (qt_org_id row) \<and> qt_id row = qid" by (simp add: row_def qid)
    show "y = row" if "y \<in> set (quotes s2)" "rls_visible ?s (qt_org_id y) \<and> qt_id y = qid" for y
      by (rule distinct_map_eq [of qt_id "quotes s2"]) (use that wf2 qid in \<open>auto simp: new price_wf_def row_def\<close>)
  qed
  moreover have "find (\<lambda>r. sr_id r = sr_id st) (pricing_strategies s2) = Some st"
    using find_unique [of sr_id "pricing_strategies s2" st] find_Some_set [OF st [unfolded get_strategy_def]] wf2
    by (simp add: price_wf_def new)
  moreover have "run_strategy parse (sr_rules st) inputs params (pinned_rate (q_rate_snapshot_ids q) s2) = Inr q"
    by (rule run_strategy_replays(3) [OF q pinned_agrees [OF assms(1) wf2 new(2,3)]])
      (simp_all add: run_strategy_replays(2) [OF q fresh_agrees_itself])
  ultimately show ?thesis
    by (simp add: replay_quote_def Let_def row_def)
qed

text \<open>
  C25: no stale rate prices a quote. Every snapshot a stored quote names is the latest one of a source of
  the strategy's pack and was taken within that source's staleness window, and no snapshot is named twice.
\<close>

theorem quote_rates_fresh:
  assumes "compute_quote parse org key inputs params lead conv h s = (Inr qid, s1)"
  shows "\<exists>st row. get_strategy key s = Some st \<and> row \<in> set (quotes s1) \<and> qt_id row = qid \<and>
    distinct (qt_rate_snapshot_ids row) \<and>
    (\<forall>u \<in> set (qt_rate_snapshot_ids row). \<exists>src sn. ss_id sn = u \<and> current_snapshot (sr_pack_id st) s src sn)"
  using assms
proof (rule compute_quote_Inr)
  fix st q
  assume st: "get_strategy key s = Some st" and q: "run_strategy parse (sr_rules st) inputs params (fresh_rate (sr_pack_id st) s) = Inr q"
    and qid: "qid = fresh s"
    and s1: "s1 = snd (ledger_write org (quote_figures inputs q) (fresh s) (Some (now s + hours h))
       ((set_org_context org s)\<lparr>fresh := fresh s + 1, quotes := quotes s @
          [\<lparr>qt_id = fresh s, qt_org_id = org, qt_lead_id = lead, qt_conversation_id = conv,
            qt_strategy_id = sr_id st, qt_inputs = inputs, qt_params = params, qt_breakdown = q_breakdown q,
            qt_rate_snapshot_ids = q_rate_snapshot_ids q, qt_total_minor = q_total_minor q,
            qt_valid_until = now s + hours h\<rparr>]\<rparr>))"
  have "\<exists>src sn. ss_id sn = u \<and> current_snapshot (sr_pack_id st) s src sn" if "u \<in> set (q_rate_snapshot_ids q)" for u
    using served_current [OF run_strategy_replays(2) [OF q fresh_agrees_itself that]] by blast
  then show ?thesis
    using st qid run_strategy_replays(1) [OF q fresh_agrees_itself]
    by (intro exI [of _ st] exI [of _ "last (quotes s1)"]) (simp add: s1)
qed

lemma quote_ledgered:
  assumes "compute_quote parse org key inputs params lead conv h s = (Inr qid, s1)"
    and "n < now s + hours h" and "n - hours w < now s"
  shows "\<exists>row. row \<in> set (quotes s1) \<and> qt_id row = qid \<and>
    fst (ledger_match org (qt_total_minor row) w (s1\<lparr>now := n\<rparr>)) \<and>
    (\<forall>l \<in> set (qt_breakdown row). 0 < snd l \<longrightarrow> fst l \<noteq> ''total'' \<longrightarrow> fst (ledger_match org (snd l) w (s1\<lparr>now := n\<rparr>)))"
  using assms(1)
proof (rule compute_quote_Inr)
  fix st q
  assume qid: "qid = fresh s"
    and s1: "s1 = snd (ledger_write org (quote_figures inputs q) (fresh s) (Some (now s + hours h))
       ((set_org_context org s)\<lparr>fresh := fresh s + 1, quotes := quotes s @
          [\<lparr>qt_id = fresh s, qt_org_id = org, qt_lead_id = lead, qt_conversation_id = conv,
            qt_strategy_id = sr_id st, qt_inputs = inputs, qt_params = params, qt_breakdown = q_breakdown q,
            qt_rate_snapshot_ids = q_rate_snapshot_ids q, qt_total_minor = q_total_minor q,
            qt_valid_until = now s + hours h\<rparr>]\<rparr>))"
  have hit: "fst (ledger_match org a w (s1\<lparr>now := n\<rparr>))" if "Some a \<in> fg_amount_minor ` set (quote_figures inputs q)" for a
    using that assms(2,3) unfolding s1 ledger_match_after_write by simp
  have t: "Some (q_total_minor q) \<in> fg_amount_minor ` set (quote_figures inputs q)"
    by (simp add: quote_figures_def figures_from_breakdown_def)
  have l: "Some (snd l) \<in> fg_amount_minor ` set (quote_figures inputs q)"
    if "l \<in> set (q_breakdown q)" "0 < snd l" "fst l \<noteq> ''total''" for l
    using that by (force simp: quote_figures_def figures_from_breakdown_def)
  show ?thesis
    using qid hit [OF t] hit [OF l] by (intro exI [of _ "last (quotes s1)"]) (simp add: s1)
qed

lemma quote_total_ledgered:
  assumes "compute_quote parse org key inputs params lead conv h s = (Inr qid, s1)"
    and "n < now s + hours h" and "n - hours w < now s"
  shows "\<exists>row. row \<in> set (quotes s1) \<and> qt_id row = qid \<and> fst (ledger_match org (qt_total_minor row) w (s1\<lparr>now := n\<rparr>))"
  using quote_ledgered [OF assms] by blast


subsection \<open>A worked example\<close>

text \<open>One stage that reads a rate; the parser knows its formula.\<close>

definition example_parser :: py_parser where
  "example_parser src = (if src = ''rate(...)''
     then Some (Attribute (Call (Name ''rate'') [Constant (VStr ''ibja_gold'')] [(Some ''key'', Constant (VStr ''22K''))]) ''per_g_minor'')
     else None)"

definition example_price_db :: price_db where
  "example_price_db = entitlement_db.extend example_store (price_db.fields
     [\<lparr>sr_id = 60, sr_strategy_key = ''gold_v1'', sr_pack_id = Some 50, sr_engine = ''rules_v1'',
       sr_rules = \<lparr>sg_strategy_key = ''gold_v1'', sg_engine = ''rules_v1'',
         sg_stages = [\<lparr>st_id = ''total'', st_formula = ''rate(...)'', st_guards = [], st_guard_error = None\<rparr>],
         sg_rate_sources = [(''ibja_gold'', [''22K''])], sg_tax_rules = [], sg_breakdown_labels = []\<rparr>\<rparr>]
     [\<lparr>rt_id = 61, rt_pack_id = 50, rt_source_key = ''ibja_gold'', rt_fetch_spec = JNull, rt_staleness_max = hours 24\<rparr>]
     [\<lparr>ss_id = 62, ss_source_id = 61, ss_value = [(''22K'', 732000)], ss_captured_at = 40\<rparr>] [])"

lemma example_price_simps [simp]:
  "pricing_strategies example_price_db = [\<lparr>sr_id = 60, sr_strategy_key = ''gold_v1'', sr_pack_id = Some 50, sr_engine = ''rules_v1'',
     sr_rules = \<lparr>sg_strategy_key = ''gold_v1'', sg_engine = ''rules_v1'',
       sg_stages = [\<lparr>st_id = ''total'', st_formula = ''rate(...)'', st_guards = [], st_guard_error = None\<rparr>],
       sg_rate_sources = [(''ibja_gold'', [''22K''])], sg_tax_rules = [], sg_breakdown_labels = []\<rparr>\<rparr>]"
  "rate_sources example_price_db = [\<lparr>rt_id = 61, rt_pack_id = 50, rt_source_key = ''ibja_gold'', rt_fetch_spec = JNull, rt_staleness_max = hours 24\<rparr>]"
  "rate_snapshots example_price_db = [\<lparr>ss_id = 62, ss_source_id = 61, ss_value = [(''22K'', 732000)], ss_captured_at = 40\<rparr>]"
  "quotes example_price_db = []" "now example_price_db = 100" "fresh example_price_db = 4"
  by (simp_all add: example_price_db_def entitlement_db.defs price_db.defs example_store_def)

lemma example_quote:
  "fst (compute_quote example_parser 7 ''gold_v1'' [] [] None None 24 example_price_db) = Inr 4"
  by code_simp

definition example_quoted :: price_db where
  "example_quoted = snd (compute_quote example_parser 7 ''gold_v1'' [] [] None None 24 example_price_db)"

lemma example_quoted: "compute_quote example_parser 7 ''gold_v1'' [] [] None None 24 example_price_db = (Inr 4, example_quoted)"
  using example_quote by (simp add: example_quoted_def prod_eq_iff)

text \<open>A new snapshot has arrived since.\<close>

theorem replay_matches_witness:
  "\<exists>t. fst (replay_quote example_parser 7 4 (example_quoted\<lparr>rate_snapshots := rate_snapshots example_quoted @
     [\<lparr>ss_id = 63, ss_source_id = 61, ss_value = [(''22K'', 740000)], ss_captured_at = 90\<rparr>]\<rparr>)) =
     Inr \<lparr>rr_matches = True, rr_stored_total = t, rr_recomputed_total = t\<rparr>"
proof -
  have wf: "price_wf example_price_db" by (simp add: price_wf_def)
  have "rate_snapshots example_quoted = rate_snapshots example_price_db"
    by (rule compute_quote_snapshots [OF example_quoted])
  then have "grown example_quoted (example_quoted\<lparr>rate_snapshots := rate_snapshots example_quoted @
     [\<lparr>ss_id = 63, ss_source_id = 61, ss_value = [(''22K'', 740000)], ss_captured_at = 90\<rparr>]\<rparr>)"
    using compute_quote_wf [OF wf example_quoted] by (simp add: grown_def price_wf_def)
  from replay_matches [OF wf example_quoted this] show ?thesis .
qed

theorem quote_rates_fresh_witness:
  "\<exists>row. row \<in> set (quotes example_quoted) \<and> qt_id row = 4 \<and> distinct (qt_rate_snapshot_ids row)"
  using quote_rates_fresh [OF example_quoted] by blast


end
