(* ===== verification/Rates.thy ===== *)
theory Rates
  imports Replay Consumer
begin

text \<open>
  Rate ingestion and manual entry (\<open>core/pricing/rates.py\<close>). A fetcher is an argument; the simulated one is
  modelled. The IBJA response is parsed from floats and is left to the fetcher. A quarantine keeps the key
  that moved; the wording of its reason is left out.
\<close>

subsection \<open>Operations\<close>

type_synonym rate_value = "(string \<times> int) list"

definition load_source :: "string \<Rightarrow> 'a price_db_scheme \<Rightarrow> rate_source_row option" where
  "load_source key s = find (\<lambda>r. rt_source_key r = key) (rate_sources s)"

definition latest_value :: "uuid \<Rightarrow> 'a price_db_scheme \<Rightarrow> rate_value option" where
  "latest_value src s = map_option ss_value (latest_snapshot src s)"

text \<open>\<open>abs(Decimal(value) - Decimal(prev)) / Decimal(prev) * 100\<close>\<close>

definition step_pct :: "int \<Rightarrow> int \<Rightarrow> dec" where
  "step_pct v p = dmul (ddiv (dabs (dsub (Dec v 0) (Dec p 0))) (Dec p 0)) (Dec 100 0)"

definition jumps :: "rate_value \<Rightarrow> dec \<Rightarrow> string \<times> int \<Rightarrow> bool" where
  "jumps old max_step kv =
     (case map_of old (fst kv) of None \<Rightarrow> False | Some p \<Rightarrow> 0 < p \<and> dless max_step (step_pct (snd kv) p))"

definition out_of_bounds :: "rate_value \<Rightarrow> rate_value \<Rightarrow> dec \<Rightarrow> string option" where
  "out_of_bounds old new max_step = map_option fst (find (jumps old max_step) new)"

definition insert_snapshot :: "uuid \<Rightarrow> rate_value \<Rightarrow> 'a price_db_scheme \<Rightarrow> uuid \<times> 'a price_db_scheme" where
  "insert_snapshot src value s =
     (fresh s, s\<lparr>fresh := fresh s + 1, rate_snapshots := rate_snapshots s @
        [\<lparr>ss_id = fresh s, ss_source_id = src, ss_value = value, ss_captured_at = now s\<rparr>]\<rparr>)"

datatype IngestResult = Updated uuid | Quarantined string

text \<open>\<open>(fetch_spec or {}).get("bounds", {}).get("max_step_pct")\<close>; \<open>AttributeError\<close> where a level is no object.\<close>

definition max_step_pct :: "json \<Rightarrow> pricing_error + json" where
  "max_step_pct spec =
     (let field = (\<lambda>j k. case j of JObj d \<Rightarrow> Inr (map_of d k) | _ \<Rightarrow> Inl PyError) in
      sbind (field (if truthy spec then spec else JObj []) ''bounds'') (\<lambda>b.
      sbind (field (case b of None \<Rightarrow> JObj [] | Some j \<Rightarrow> j) ''max_step_pct'') (\<lambda>m.
        Inr (case m of None \<Rightarrow> JNull | Some j \<Rightarrow> j))))"

definition check_bounds :: "rate_source_row \<Rightarrow> rate_value \<Rightarrow> 'a price_db_scheme \<Rightarrow> pricing_error + string option" where
  "check_bounds src value s = sbind (max_step_pct (rt_fetch_spec src)) (\<lambda>m.
     case latest_value (rt_id src) s of
       None \<Rightarrow> Inr None
     | Some old \<Rightarrow>
         (if old = [] \<or> m = JNull then Inr None
          else (case parse_decimal (py_str m) of
              Num d \<Rightarrow> Inr (out_of_bounds old value d) | Malformed \<Rightarrow> Inl PyError | _ \<Rightarrow> Inl Outside)))"

definition ingest_rate :: "string \<Rightarrow> rate_value \<Rightarrow> bool \<Rightarrow> (pricing_error, IngestResult, 'a price_db_scheme) op" where
  "ingest_rate key value apply_bounds s =
     (case load_source key s of
        None \<Rightarrow> (Inl config_violation, s)
      | Some src \<Rightarrow>
         (case (if apply_bounds then check_bounds src value s else Inr None) of
            Inl e \<Rightarrow> (Inl e, s)
          | Inr (Some k) \<Rightarrow> (Inr (Quarantined k), s)
          | Inr None \<Rightarrow> (case insert_snapshot (rt_id src) value s of (u, s1) \<Rightarrow> (Inr (Updated u), s1))))"

text \<open>The envelope of a platform event; \<open>uuid4\<close> is drawn from the session's supply.\<close>

definition publish_platform_event :: "string \<Rightarrow> jdict \<Rightarrow> string \<Rightarrow> 'a price_db_scheme \<times> redis \<Rightarrow> 'a price_db_scheme \<times> redis" where
  "publish_platform_event event_type data severity w =
     (case w of (s, rd) \<Rightarrow>
        (s\<lparr>fresh := fresh s + 1\<rparr>,
         xadd (''gop:events:'' @ event_type) (JObj [(''specversion'', JStr ''1.0''), (''id'', JId (fresh s)),
           (''type'', JStr event_type), (''source'', JStr ''gop/rates''), (''time'', JStr (isoformat (now s))),
           (''data'', JObj ((''severity'', JStr severity) # data))]) rd))"

type_synonym rate_fetcher = "string \<Rightarrow> json \<Rightarrow> pricing_error + rate_value"

definition SIMULATED_RATES :: "(string \<times> rate_value) list" where
  "SIMULATED_RATES =
     [(''ibja_gold'', [(''24K'', 780000), (''22K'', 732000), (''18K'', 585000), (''14K'', 455000)]),
      (''ibja_silver'', [(''925'', 8900), (''950'', 9100)])]"

definition simulated_fetch :: "(string \<times> rate_value) list \<Rightarrow> rate_fetcher" where
  "simulated_fetch values key spec =
     (case map_of (if values = [] then SIMULATED_RATES else values) key of None \<Rightarrow> Inl config_violation | Some v \<Rightarrow> Inr v)"

definition fetch_and_store :: "rate_fetcher \<Rightarrow> string \<Rightarrow> 'a price_db_scheme \<times> redis
    \<Rightarrow> (pricing_error + IngestResult) \<times> 'a price_db_scheme \<times> redis" where
  "fetch_and_store fetch key w =
     (case w of (s, rd) \<Rightarrow>
        (case load_source key s of
           None \<Rightarrow> (Inl config_violation, s, rd)
         | Some src \<Rightarrow>
            (case fetch key (if truthy (rt_fetch_spec src) then rt_fetch_spec src else JObj []) of
               Inl e \<Rightarrow> (Inl e, s, rd)
             | Inr value \<Rightarrow>
                (case ingest_rate key value True s of
                   (Inl e, s1) \<Rightarrow> (Inl e, s1, rd)
                 | (Inr (Quarantined k), s1) \<Rightarrow> (Inr (Quarantined k), publish_platform_event ''alert.ops.v1''
                     [(''kind'', JStr ''rate_out_of_bounds''), (''source'', JStr key), (''reason'', JStr k)] ''error'' (s1, rd))
                 | (Inr (Updated u), s1) \<Rightarrow> (Inr (Updated u), publish_platform_event ''rate.updated.v1''
                     [(''source'', JStr key)] ''info'' (s1, rd))))))"

definition MANUAL_RATE_ACTION :: string where
  "MANUAL_RATE_ACTION = ''rate.manual_entry''"

datatype manual_rate_error = RateNotInPlan feature_error | UnknownSource

definition record_manual_rate :: "(string \<Rightarrow> string) \<Rightarrow> plan_codec \<Rightarrow> Capability list \<Rightarrow> string \<Rightarrow> rate_value \<Rightarrow> uuid \<Rightarrow> uuid
    \<Rightarrow> (manual_rate_error, uuid, 'a price_db_scheme) op" where
  "record_manual_rate hash cd pcaps key value org actor s =
     (case assert_vertical_entitled cd pcaps (Some org) ''rate_operations'' s of
        (Inl e, s1) \<Rightarrow> (Inl (RateNotInPlan e), s1)
      | (Inr _, s1) \<Rightarrow>
         (case load_source key s1 of
            None \<Rightarrow> (Inl UnknownSource, s1)
          | Some src \<Rightarrow>
             (case insert_snapshot (rt_id src) value s1 of (u, s2) \<Rightarrow>
                (Inr u, snd (audit_write hash \<lparr>ae_org_id = org, ae_actor_type = ''user'', ae_action = MANUAL_RATE_ACTION,
                   ae_actor_id = Some (nat_str actor), ae_resource = Some key,
                   ae_payload = JObj [(''source'', JStr key), (''keys'', JArr (map JStr (sort (map fst value))))],
                   ae_trace_id = None, ae_permission_manifest_hash = None\<rparr> s2)))))"

text \<open>\<open>rates_status\<close>: the freshness of every source of a pack.\<close>

definition rates_status :: "uuid \<Rightarrow> 'a price_db_scheme \<Rightarrow> (string \<times> time option \<times> bool option) list" where
  "rates_status pack s = map (\<lambda>r. case latest_snapshot (rt_id r) s of
       None \<Rightarrow> (rt_source_key r, None, None)
     | Some sn \<Rightarrow> (rt_source_key r, Some (ss_captured_at sn), Some (now s - rt_staleness_max r < ss_captured_at sn)))
     (filter (\<lambda>r. rt_pack_id r = pack) (rate_sources s))"

subsection \<open>What is proved\<close>

lemma dfix_zero: "dfix (Dec 0 e) = Dec 0 e"
  using ndigits_le [of PREC 0] by (simp add: PREC_def)

lemma step_pct_lower:
  assumes "0 < p" "\<bar>v - p\<bar> < 10 ^ 28"
  shows "of_int \<bar>v - p\<bar> / of_int p * 100 * (1 - 2 / 10 ^ 27) \<le> dval (step_pct v p)"
proof (cases "v = p")
  case True
  have "dabs (dsub (Dec p 0) (Dec p 0)) = Dec 0 0"
    by (simp add: dsub_def dadd_def aligned_def dminus_def dabs_def dfix_zero)
  moreover obtain e where "ddiv (Dec 0 0) (Dec p 0) = dfix (Dec 0 e)"
    by (simp only: ddiv_def Let_def dec.sel sgn_0 mult_zero_left)
  ultimately have "0 \<le> dval (step_pct p p)"
    by (simp add: step_pct_def dmul_def dfix_zero)
  with True show ?thesis by simp
next
  case False
  define d where "d = dabs (dsub (Dec v 0) (Dec p 0))"
  have n: "ndigits (v - p) \<le> PREC" "ndigits \<bar>v - p\<bar> \<le> PREC"
    using assms ndigits_le [of PREC "v - p"] ndigits_le [of PREC "\<bar>v - p\<bar>"] by (simp_all add: PREC_def)
  then have d: "d = Dec \<bar>v - p\<bar> 0"
    by (simp add: d_def dsub_def dadd_def aligned_def dminus_def dabs_def)
  have q: "of_int \<bar>v - p\<bar> / of_int p * (1 - 1 / 10 ^ 27) \<le> dval (ddiv d (Dec p 0))"
    using ddiv_lower [of d "Dec p 0"] assms False by (simp add: d)
  have r: "0 \<le> of_int \<bar>v - p\<bar> / (of_int p :: rat)" using assms by simp
  have c1: "(0 :: rat) \<le> 1 - 1 / 10 ^ 27" by simp
  have c2: "(0 :: rat) \<le> 100 * (1 - 1 / (2 * 10 ^ 27))" by simp
  have c3: "100 * (1 - 2 / 10 ^ 27) \<le> (1 - 1 / 10 ^ 27) * (100 * (1 - 1 / (2 * 10 ^ 27)) :: rat)" by simp
  have nn: "0 \<le> dval (ddiv d (Dec p 0))" by (rule order_trans [OF mult_nonneg_nonneg [OF r c1] q])
  have "of_int \<bar>v - p\<bar> / of_int p * (100 * (1 - 2 / 10 ^ 27) :: rat) \<le>
      of_int \<bar>v - p\<bar> / of_int p * ((1 - 1 / 10 ^ 27) * (100 * (1 - 1 / (2 * 10 ^ 27))))"
    by (rule mult_left_mono [OF c3 r])
  also have "\<dots> = of_int \<bar>v - p\<bar> / of_int p * (1 - 1 / 10 ^ 27) * (100 * (1 - 1 / (2 * 10 ^ 27)))"
    by (simp only: mult.assoc)
  also have "\<dots> \<le> dval (ddiv d (Dec p 0)) * (100 * (1 - 1 / (2 * 10 ^ 27)))"
    by (rule mult_right_mono [OF q c2])
  also have "\<dots> \<le> dval (dmul (ddiv d (Dec p 0)) (Dec 100 0))"
    using dmul_lower [OF nn, of "Dec 100 0"] by (simp add: mult.assoc)
  finally show ?thesis by (simp add: step_pct_def d_def mult.assoc)
qed

lemma out_of_bounds_None:
  "out_of_bounds old new m = None \<Longrightarrow> (k, v) \<in> set new \<Longrightarrow> map_of old k = Some p \<Longrightarrow> 0 < p \<Longrightarrow> dval (step_pct v p) \<le> dval m"
  by (force simp: out_of_bounds_def jumps_def find_None_iff_ball not_less)

text \<open>
  C27: an automated rate cannot jump. If a fetched value is stored and the source declares a maximal step, then
  no rate in it moved from the last stored one by more than that percentage (up to the rounding of
  28-digit arithmetic, a relative \<open>2 / 10 ^ 27\<close>).
\<close>

theorem stored_step_bounded:
  assumes "ingest_rate key fetched True s = (Inr (Updated u), s1)" and "load_source key s = Some src"
    and "max_step_pct (rt_fetch_spec src) = Inr m" "m \<noteq> JNull" "parse_decimal (py_str m) = Num step"
    and "latest_value (rt_id src) s = Some old" "map_of old k = Some p" "0 < p" "(k, v) \<in> set fetched" "\<bar>v - p\<bar> < 10 ^ 28"
  shows "of_int \<bar>v - p\<bar> / of_int p * 100 * (1 - 2 / 10 ^ 27) \<le> dval step"
proof -
  have "old \<noteq> []" using assms(7) by auto
  then have "check_bounds src fetched s = Inr (out_of_bounds old fetched step)"
    using assms(3-6) by (simp add: check_bounds_def)
  then have "out_of_bounds old fetched step = None"
    using assms(1,2) by (cases "out_of_bounds old fetched step") (auto simp: ingest_rate_def)
  then have "dval (step_pct v p) \<le> dval step" using assms(9,7,8) by (rule out_of_bounds_None)
  with step_pct_lower [OF assms(8,10)] show ?thesis by (rule order_trans)
qed

definition example_source :: rate_source_row where
  "example_source = \<lparr>rt_id = 61, rt_pack_id = 50, rt_source_key = ''ibja_gold'',
     rt_fetch_spec = JObj [(''bounds'', JObj [(''max_step_pct'', JInt 10)])], rt_staleness_max = hours 24\<rparr>"

definition example_bounded_db :: price_db where
  "example_bounded_db = example_price_db\<lparr>rate_sources := [example_source]\<rparr>"

theorem stored_step_bounded_witness:
  "of_int \<bar>740000 - 732000\<bar> / of_int 732000 * 100 * (1 - 2 / 10 ^ 27) \<le> dval (Dec 10 0)"
proof -
  have "fst (ingest_rate ''ibja_gold'' [(''22K'', 740000)] True example_bounded_db) = Inr (Updated 4)"
    by code_simp
  then obtain s1 where i: "ingest_rate ''ibja_gold'' [(''22K'', 740000)] True example_bounded_db = (Inr (Updated 4), s1)"
    by (cases "ingest_rate ''ibja_gold'' [(''22K'', 740000)] True example_bounded_db") simp
  have l: "parse_decimal (py_str (JInt 10)) = Num (Dec 10 0)" by code_simp
  show ?thesis
    by (rule stored_step_bounded [OF i, where src = example_source and m = "JInt 10" and old = "[(''22K'', 732000)]" and k = "''22K''"])
      (use l in \<open>simp_all add: load_source_def example_bounded_db_def example_source_def max_step_pct_def latest_value_def latest_snapshot_def\<close>)
qed

text \<open>A stored rate is what the next quote of its pack reads.\<close>

lemma ingested_rate_prices:
  assumes "ingest_rate key value b s = (Inr (Updated u), s1)" and "load_source key s = Some src"
    and "source_of_pack (Some (rt_pack_id src)) key s = Some src" and "0 < rt_staleness_max src"
    and "\<And>x. x \<in> set (rate_snapshots s) \<Longrightarrow> ss_captured_at x < now s" and "map_of value k = Some n"
  shows "fresh_rate (Some (rt_pack_id src)) s1 (VStr key) (VStr k) = Inr (n, Some u)"
proof -
  let ?sn = "\<lparr>ss_id = fresh s, ss_source_id = rt_id src, ss_value = value, ss_captured_at = now s\<rparr>"
  have s1: "s1 = s\<lparr>fresh := fresh s + 1, rate_snapshots := rate_snapshots s @ [?sn]\<rparr>" "u = fresh s"
    using assms(1,2) by (auto simp: ingest_rate_def insert_snapshot_def split: sum.splits option.splits)
  have "latest_snapshot (rt_id src) s1 = Some ?sn"
    using assms(5) by (auto simp: latest_snapshot_def s1 intro!: order_first_append_least)
  moreover have "source_of_pack (Some (rt_pack_id src)) key s1 = Some src"
    using assms(3) by (simp add: source_of_pack_def s1)
  ultimately show ?thesis using assms(4,6) by (simp add: fresh_rate_def s1)
qed

end
