(* ===== verification/Presentation.thy ===== *)
theory Presentation
  imports Replay
begin

text \<open>
  The texts of a quote (\<open>core/pricing/render.py\<close> and \<open>quote_presentation\<close> in \<open>core/pricing/service.py\<close>),
  as UTF-8 bytes. \<open>money\<close> divides by 100 in floating point for display; its text is the exact one while the
  amount is below \<open>2 ^ 53\<close> minor units, which is what is modelled. The date format is an argument.
\<close>

subsection \<open>Rendering\<close>

definition three_digits :: "nat \<Rightarrow> string" where
  "three_digits n = [digit_char (n div 100), digit_char (n div 10 mod 10), digit_char (n mod 10)]"

text \<open>\<open>f"{n:,}"\<close>: the groups of three digits, and their text.\<close>

fun digit_groups :: "nat \<Rightarrow> string list" where
  "digit_groups n = (if n < 1000 then [nat_str n] else digit_groups (n div 1000) @ [three_digits (n mod 1000)])"

declare digit_groups.simps [simp del]

definition join_groups :: "string list \<Rightarrow> string" where
  "join_groups gs = hd gs @ concat (map (\<lambda>g. CHR '','' # g) (tl gs))"

definition grouped :: "int \<Rightarrow> string" where
  "grouped n = (if n < 0 then ''-'' else []) @ join_groups (digit_groups (nat \<bar>n\<bar>))"

definition money :: "int \<Rightarrow> string \<Rightarrow> string" where
  "money minor currency =
     (let n = nat \<bar>minor\<bar>;
          t = (if minor < 0 then ''-'' else []) @ join_groups (digit_groups (n div 100)) @ ''.'' @ two_digits (n mod 100)
      in if currency = ''INR'' then RUPEE_SIGN @ t else t @ '' '' @ currency)"

definition upper_char :: "char \<Rightarrow> char" where
  "upper_char c = (let n = (of_char c :: int) in if 97 \<le> n \<and> n \<le> 122 then char_of (n - 32) else c)"

definition capitalize :: "string \<Rightarrow> string" where
  "capitalize s = (case s of [] \<Rightarrow> [] | c # cs \<Rightarrow> upper_char c # py_lower cs)"

definition humanized :: "string \<Rightarrow> string" where
  "humanized line = capitalize (map (\<lambda>c. if c = CHR ''_'' then CHR '' '' else c) line)"

text \<open>
  \<open>format_map\<close> with an empty text for an unknown field; \<open>None\<close> for a stray brace or a field that is not a
  plain name.
\<close>

function format_map :: "(string \<times> string) list \<Rightarrow> string \<Rightarrow> string option" where
  "format_map ctx s =
     (case s of [] \<Rightarrow> Some []
      | c # cs \<Rightarrow>
          if c = CHR ''{'' \<and> (cs = [] \<or> hd cs \<noteq> CHR ''{'') then
            (let fld = takeWhile (\<lambda>x. x \<noteq> CHR ''}'') cs; r = dropWhile (\<lambda>x. x \<noteq> CHR ''}'') cs in
             if r = [] \<or> fld = [] \<or> \<not> is_alpha (hd fld) \<or> \<not> list_all is_word fld then None
             else map_option ((@) (case map_of ctx fld of None \<Rightarrow> [] | Some v \<Rightarrow> v)) (format_map ctx (tl r)))
          else if c = CHR ''{'' then map_option ((#) c) (format_map ctx (tl cs))
          else if c = CHR ''}'' then
            (if cs \<noteq> [] \<and> hd cs = CHR ''}'' then map_option ((#) c) (format_map ctx (tl cs)) else None)
          else map_option ((#) c) (format_map ctx cs))"
  by pat_completeness auto
termination
proof (relation "measure (\<lambda>(ctx, s). length s)", goal_cases)
  case (2 ctx s c cs fld r)
  then show ?case using length_dropWhile_le [of "\<lambda>x. x \<noteq> CHR ''}''" cs] by simp
qed simp_all

declare format_map.simps [simp del]

fun collapse_spaces :: "string \<Rightarrow> string" where
  "collapse_spaces (a # b # r) =
     (if is_space a \<and> is_space b then collapse_spaces (b # r)
      else (if is_space a then CHR '' '' else a) # collapse_spaces (b # r))"
| "collapse_spaces [a] = [if is_space a then CHR '' '' else a]"
| "collapse_spaces [] = []"

definition line_label :: "(string \<times> string) list \<Rightarrow> (string \<times> string) list option \<Rightarrow> string \<Rightarrow> string option" where
  "line_label labels ctx line =
     (case map_of labels line of
        None \<Rightarrow> Some (humanized line)
      | Some label \<Rightarrow>
         (if label = [] then Some (humanized line)
          else if CHR ''{'' \<in> set label then
            (case ctx of None \<Rightarrow> Some (humanized line)
             | Some kvs \<Rightarrow> map_option (\<lambda>t. py_strip (collapse_spaces t)) (format_map kvs label))
          else Some label))"

definition render_price_line :: "int \<Rightarrow> string \<Rightarrow> string option \<Rightarrow> string" where
  "render_price_line total_minor currency valid_label =
     ''Total: '' @ money total_minor currency @
       (case valid_label of None \<Rightarrow> [] | Some v \<Rightarrow> if v = [] then [] else '' (valid till '' @ v @ '')'')"

definition MINUS_SIGN :: string where
  "MINUS_SIGN = [CHR 0xE2, CHR 0x88, CHR 0x92]"

definition NEGATIVE_IDS :: "string list" where
  "NEGATIVE_IDS = [''discount'']"

definition breakdown_line :: "(string \<times> string) list \<Rightarrow> (string \<times> string) list option \<Rightarrow> string \<Rightarrow> string \<times> int \<Rightarrow> string option" where
  "breakdown_line labels ctx currency l = map_option (\<lambda>label.
     label @ '': '' @ (if fst l \<in> set NEGATIVE_IDS \<or> snd l < 0 then MINUS_SIGN else []) @ money \<bar>snd l\<bar> currency)
     (line_label labels ctx (fst l))"

text \<open>The lines between the total and the validity; a line called \<open>total\<close> only sets the total.\<close>

definition shown_lines :: "(string \<times> int) list \<Rightarrow> (string \<times> int) list" where
  "shown_lines breakdown = filter (\<lambda>l. fst l \<noteq> ''total'' \<and> snd l \<noteq> 0) breakdown"

definition shown_total :: "(string \<times> int) list \<Rightarrow> int" where
  "shown_total breakdown = (case filter (\<lambda>l. fst l = ''total'') breakdown of [] \<Rightarrow> 0 | ls \<Rightarrow> snd (last ls))"

fun join_lines :: "string list \<Rightarrow> string" where
  "join_lines [] = []"
| "join_lines [l] = l"
| "join_lines (l # ls) = l @ CHR 0x0A # join_lines ls"

definition render_breakdown :: "(string \<times> int) list \<Rightarrow> (string \<times> string) list \<Rightarrow> string \<Rightarrow> string option
    \<Rightarrow> (string \<times> string) list option \<Rightarrow> string option" where
  "render_breakdown breakdown labels currency valid_label ctx =
     map_option (\<lambda>ls. join_lines (ls @ [''Total: '' @ money (shown_total breakdown) currency] @
         (case valid_label of None \<Rightarrow> [] | Some v \<Rightarrow> if v = [] then [] else [''Valid till '' @ v])))
       (those (map (breakdown_line labels ctx currency) (shown_lines breakdown)))"

subsection \<open>Presenting a stored quote\<close>

definition label_context :: "jdict \<Rightarrow> (string \<times> int) list \<Rightarrow> (string \<times> string) list" where
  "label_context inputs breakdown =
     (case per_gram_rate inputs breakdown of None \<Rightarrow> [] | Some r \<Rightarrow> [(''rate'', grouped (r div 100))]) @
     map (\<lambda>(k, v). (k, py_str v)) (filter (\<lambda>(k, v). case v of JArr xs \<Rightarrow> False | JObj d \<Rightarrow> False | _ \<Rightarrow> True) inputs)"

record QuotePresentation =
  qp_quote_id :: uuid
  qp_total_minor :: int
  qp_price_line :: string
  qp_breakdown_text :: string

definition quote_presentation :: "(time \<Rightarrow> string) \<Rightarrow> uuid \<Rightarrow> uuid \<Rightarrow> (pricing_error, QuotePresentation, 'a price_db_scheme) op" where
  "quote_presentation strftime org qid s0 =
     (let s = set_org_context org s0 in
      case find (\<lambda>r. rls_visible s (qt_org_id r) \<and> qt_id r = qid \<and> qt_org_id r = org) (quotes s) of None \<Rightarrow> (Inl config_violation, s)
      | Some r \<Rightarrow>
         (case find (\<lambda>st. sr_id st = qt_strategy_id r) (pricing_strategies s) of None \<Rightarrow> (Inl config_violation, s)
          | Some st \<Rightarrow>
             (case render_breakdown (qt_breakdown r) (sg_breakdown_labels (sr_rules st)) ''INR'' (Some (strftime (qt_valid_until r)))
                     (Some (label_context (qt_inputs r) (qt_breakdown r))) of
                None \<Rightarrow> (Inl Outside, s)
              | Some t \<Rightarrow> (Inr \<lparr>qp_quote_id = qid, qp_total_minor = qt_total_minor r,
                  qp_price_line = render_price_line (qt_total_minor r) ''INR'' (Some (strftime (qt_valid_until r))),
                  qp_breakdown_text = t\<rparr>, s))))"

subsection \<open>Reading amounts back\<close>

lemma after_lit_shorter: "after_lit lit s = Some r \<Longrightarrow> length r \<le> length s"
  by (auto simp: after_lit_def split: if_splits)

lemma match_currency_shorter: "match_currency s = Some r \<Longrightarrow> length r \<le> length s"
  by (auto simp: match_currency_def split: option.splits list.splits if_splits dest!: after_lit_shorter)

lemma skip_space_shorter: "length (skip_space s) \<le> length s"
  by (simp add: skip_space_def length_dropWhile_le)

lemma match_groups_shorter: "match_groups n s = (gs, r) \<Longrightarrow> length r \<le> length s"
proof (induction n arbitrary: s gs r)
  case (Suc n)
  then show ?case
    by (cases s) (fastforce simp: Let_def split: if_splits prod.splits)+
qed simp

lemma match_num_shorter: "match_num s = Some (num, r) \<Longrightarrow> length r < length s"
proof -
  assume a: "match_num s = Some (num, r)"
  then have "takeWhile is_digit s \<noteq> []" by (auto simp: match_num_def)
  then have "length (dropWhile is_digit s) < length s"
    by (metis length_greater_0_conv length_append less_add_same_cancel2 takeWhile_dropWhile_id)
  moreover have "length r \<le> length (dropWhile is_digit s)"
    using a by (auto simp: match_num_def Let_def split: if_splits prod.splits dest!: match_groups_shorter)
  ultimately show ?thesis by simp
qed

lemma match_frac_shorter: "length (snd (match_frac s)) \<le> length s"
  by (auto simp: match_frac_def Let_def split: list.split)

lemma first_magnitude_shorter: "first_magnitude ms s = Some (w, f, r) \<Longrightarrow> length r \<le> length s"
  by (induction ms) (auto split: option.splits dest: after_lit_shorter)

lemma match_at_shorter: "match_at s = Some m \<Longrightarrow> length (am_rest m) < length s"
proof -
  assume a: "match_at s = Some m"
  define s1 where "s1 = (case match_currency s of Some r \<Rightarrow> r | None \<Rightarrow> s)"
  have s1: "length s1 \<le> length s" by (auto simp: s1_def split: option.split dest: match_currency_shorter)
  from a obtain num s2 where n: "match_num (skip_space s1) = Some (num, s2)"
    by (auto simp: match_at_def s1_def split: option.splits)
  have s2: "length s2 < length s"
    using match_num_shorter [OF n] skip_space_shorter [of s1] s1 by linarith
  define s4 where "s4 = skip_space (snd (match_frac s2))"
  have s4: "length s4 \<le> length s2"
    using skip_space_shorter [of "snd (match_frac s2)"] match_frac_shorter [of s2] by (simp add: s4_def)
  define s5 where "s5 = (case first_magnitude MAGNITUDE s4 of Some (w, f, r) \<Rightarrow> skip_space r | None \<Rightarrow> s4)"
  have s5: "length s5 \<le> length s4"
  proof (cases "first_magnitude MAGNITUDE s4")
    case (Some p)
    obtain w f r where p: "p = (w, f, r)" by (cases p)
    have "length (skip_space r) \<le> length r" by (rule skip_space_shorter)
    also have "\<dots> \<le> length s4" using Some unfolding p by (rule first_magnitude_shorter)
    finally show ?thesis by (simp add: s5_def Some p)
  qed (simp add: s5_def)
  have "am_rest m = (case match_currency s5 of Some r \<Rightarrow> r | None \<Rightarrow> s5)"
    using a n by (auto simp: match_at_def s1_def s4_def s5_def Let_def split: option.splits prod.splits)
  then have "length (am_rest m) \<le> length s5" by (auto split: option.split dest: match_currency_shorter)
  with s2 s4 s5 show ?thesis by linarith
qed

lemma scan_fuel: "length s < n \<Longrightarrow> length s < k \<Longrightarrow> scan n s = scan k s"
proof (induction n arbitrary: k s)
  case (Suc n)
  then obtain j where k: "k = Suc j" by (cases k) auto
  show ?case
  proof (cases "match_at s")
    case None
    show ?thesis
    proof (cases s)
      case (Cons c cs)
      with Suc.prems k have "scan n cs = scan j cs" by (intro Suc.IH) auto
      with None Cons k show ?thesis by simp
    qed (use None k in simp)
  next
    case (Some m)
    from match_at_shorter [OF Some] Suc.prems k have "scan n (am_rest m) = scan j (am_rest m)"
      by (intro Suc.IH) auto
    with Some k show ?thesis by (simp split: option.split)
  qed
qed simp

subsection \<open>Grouped digits\<close>

lemma digits_val_append: "digits_val (a @ b) = digits_val a * 10 ^ length b + digits_val b"
proof -
  have f: "foldl (\<lambda>acc c. 10 * acc + digit_val c) x b = x * 10 ^ length b + foldl (\<lambda>acc c. 10 * acc + digit_val c) 0 b" for x b
  proof (induction b arbitrary: x)
    case (Cons c b)
    show ?case using Cons.IH [of "10 * x + digit_val c"] Cons.IH [of "digit_val c"] by (simp add: algebra_simps)
  qed simp
  show ?thesis using f [of "digits_val a" b] by (simp add: digits_val_def)
qed

lemma three_digits:
  assumes "n < 1000"
  shows "digits_val (three_digits n) = n" "list_all is_digit (three_digits n)" "length (three_digits n) = 3"
proof -
  have "n div 100 * 10 + n div 10 mod 10 = n div 10"
    using div_mult_mod_eq [of "n div 10" 10] by (simp add: div_mult2_eq [symmetric])
  moreover have "n div 10 * 10 + n mod 10 = n" by (rule div_mult_mod_eq)
  ultimately have digits: "100 * (n div 100) + 10 * (n div 10 mod 10) + n mod 10 = n" by linarith
  have "n div 100 < 10" using assms by (simp add: div_less_iff_less_mult)
  then show "digits_val (three_digits n) = n" "list_all is_digit (three_digits n)" "length (three_digits n) = 3"
    using digits by (simp_all add: three_digits_def digits_val_def)
qed

lemma digit_groups_val: "digits_val (concat (digit_groups n)) = n"
proof (induction n rule: digit_groups.induct)
  case (1 n)
  then show ?case
    by (cases "n < 1000") (simp_all add: digit_groups.simps [of n] digits_val_append three_digits)
qed

lemma nat_str_length: "n < 1000 \<Longrightarrow> length (nat_str n) \<le> 3"
proof -
  assume "n < 1000"
  then have "n div 10 div 10 < 10" by (simp add: div_less_iff_less_mult)
  then show ?thesis by (simp add: nat_str.simps [of n] nat_str.simps [of "n div 10"] nat_str.simps [of "n div 10 div 10"])
qed

lemma digit_groups_shape:
  "\<exists>g gs. digit_groups n = g # gs \<and> list_all is_digit g \<and> g \<noteq> [] \<and> length g \<le> 3 \<and>
     (\<forall>x \<in> set gs. list_all is_digit x \<and> length x = 3)"
proof (induction n rule: digit_groups.induct)
  case (1 n)
  show ?case
  proof (cases "n < 1000")
    case True
    then show ?thesis by (simp add: digit_groups.simps [of n] nat_str_digits nat_str_length)
  next
    case False
    with 1 obtain g gs where "digit_groups (n div 1000) = g # gs" "list_all is_digit g" "g \<noteq> []" "length g \<le> 3"
        "\<forall>x \<in> set gs. list_all is_digit x \<and> length x = 3" by auto
    with False show ?thesis by (simp add: digit_groups.simps [of n] three_digits)
  qed
qed

lemma match_groups_join:
  assumes "\<forall>x \<in> set gs. list_all is_digit x \<and> length x = 3" "length gs \<le> n"
  shows "match_groups n (concat (map (\<lambda>g. CHR '','' # g) gs) @ CHR ''.'' # t) = (gs, CHR ''.'' # t)"
  using assms
proof (induction gs arbitrary: n)
  case Nil
  then show ?case by (cases n) (simp_all add: Let_def)
next
  case (Cons g gs)
  then obtain m where n: "n = Suc m" by (cases n) auto
  have "takeWhile is_digit g = g" "length g = 3"
    using Cons.prems(1) by (simp_all add: takeWhile_eq_all_conv list_all_iff)
  then show ?case using Cons.IH [of m] Cons.prems n by (simp add: Let_def del: takeWhile_eq_all_conv)
qed

lemma match_num_grouped: "match_num (join_groups (digit_groups n) @ CHR ''.'' # t) = Some (digit_groups n, CHR ''.'' # t)"
proof -
  obtain g gs where d: "digit_groups n = g # gs" "list_all is_digit g" "g \<noteq> []" "length g \<le> 3"
      and gs: "\<forall>x \<in> set gs. list_all is_digit x \<and> length x = 3"
    using digit_groups_shape [of n] by blast
  let ?r = "concat (map (\<lambda>g. CHR '','' # g) gs) @ CHR ''.'' # t"
  have "takeWhile is_digit (g @ ?r) = g \<and> dropWhile is_digit (g @ ?r) = ?r"
    by (rule takeWhile_digits [OF d(2)]) (cases gs; simp)
  moreover have "length gs \<le> length ?r"
    by (rule order_trans [of _ "length (concat (map (\<lambda>g. CHR '','' # g) gs))"]) (induction gs; simp)+
  ultimately show ?thesis
    using match_groups_join [OF gs, of "length ?r" t] d
    by (simp add: match_num_def join_groups_def Let_def del: length_append length_concat)
qed

lemma match_at_money:
  assumes "p < 100" and "\<not> is_digit (hd (t @ ''x''))" and "first_magnitude MAGNITUDE (skip_space t) = None"
    and "match_currency (skip_space t) = None"
  shows "match_at (RUPEE_SIGN @ join_groups (digit_groups n) @ ''.'' @ two_digits p @ t) =
     Some \<lparr>am_num = digit_groups n, am_frac = two_digits p, am_mag = None, am_cur = True, am_rest = skip_space t\<rparr>"
proof -
  have c: "match_currency (RUPEE_SIGN @ x) = Some x" for x
    by (simp add: match_currency_def after_lit_def RUPEE_SIGN_def py_lower_def lower_char_def)
  obtain g gs where d: "digit_groups n = g # gs" "list_all is_digit g" "g \<noteq> []"
    using digit_groups_shape [of n] by blast
  have "skip_space (join_groups (digit_groups n) @ x) = join_groups (digit_groups n) @ x" for x
    using d by (intro skip_space_digit) (cases g; simp add: join_groups_def)+
  moreover have "match_frac (CHR ''.'' # two_digits p @ t) = (two_digits p, t)"
    using two_digits_digits [OF assms(1)] assms(2) by (simp add: match_frac_def two_digits_def)
  ultimately show ?thesis
    unfolding match_at_def c using match_num_grouped [of n] assms(3,4) by simp
qed

lemma money_read_back:
  assumes "0 \<le> m" and "\<not> is_digit (hd (t @ ''x''))" and "first_magnitude MAGNITUDE (skip_space t) = None"
    and "match_currency (skip_space t) = None"
  shows "map xf_minor (extract_amounts (money m ''INR'' @ t)) = nat m # map xf_minor (extract_amounts (skip_space t))"
proof -
  let ?n = "nat m div 100" and ?p = "nat m mod 100"
  let ?s = "RUPEE_SIGN @ join_groups (digit_groups ?n) @ ''.'' @ two_digits ?p @ t"
  have s: "money m ''INR'' @ t = ?s" using assms(1) by (simp add: money_def Let_def)
  have p: "?p < 100" by simp
  have f: "figure_of \<lparr>am_num = digit_groups ?n, am_frac = two_digits ?p, am_mag = None, am_cur = True, am_rest = skip_space t\<rparr>
      = Some (nat m)"
    using two_digits_val [OF p] by (simp add: figure_of_def to_minor_def digit_groups_val) (simp add: two_digits_def)
  have "length (skip_space t) < length ?s" using skip_space_shorter [of t] by (simp add: RUPEE_SIGN_def)
  then have "scan (length ?s) (skip_space t) = extract_amounts (skip_space t)"
    unfolding extract_amounts_def by (intro scan_fuel) simp_all
  then show ?thesis
    unfolding s extract_amounts_def [of ?s] scan.simps match_at_money [OF p assms(2-4)] by (simp only: option.case f list.map amount_match.simps ExtractedFigure.simps)
qed


lemma no_digits_no_amounts: "list_all (\<lambda>c. \<not> is_digit c) s \<Longrightarrow> extract_amounts s = []"
proof -
  have num: "match_num u = None" if "list_all (\<lambda>c. \<not> is_digit c) u" for u
    using that by (cases u) (simp_all add: match_num_def)
  have cur: "list_all (\<lambda>c. \<not> is_digit c) r" if "list_all (\<lambda>c. \<not> is_digit c) u" "match_currency u = Some r" for u r
    using that set_drop_subset [of "Suc (Suc 0)" u]
    by (auto simp: match_currency_def after_lit_def list_all_iff split: option.splits list.splits if_splits dest: in_set_dropD)
  have sk: "list_all (\<lambda>c. \<not> is_digit c) (skip_space u)" if "list_all (\<lambda>c. \<not> is_digit c) u" for u
    using that by (auto simp: skip_space_def list_all_iff dest: set_dropWhileD)
  have none: "match_at u = None" if "list_all (\<lambda>c. \<not> is_digit c) u" for u
    using num [OF sk [OF that]] num [OF sk [OF cur [OF that]]]
    by (cases "match_currency u") (simp_all add: match_at_def)
  have "scan n u = []" if "list_all (\<lambda>c. \<not> is_digit c) u" for n u
    using that by (induction u arbitrary: n) (case_tac n; simp add: none)+
  then show "list_all (\<lambda>c. \<not> is_digit c) s \<Longrightarrow> extract_amounts s = []" unfolding extract_amounts_def .
qed


lemma extract_total: "extract_amounts (''Total: '' @ RUPEE_SIGN @ x) = extract_amounts (RUPEE_SIGN @ x)"
proof -
  have none: "match_at (s @ RUPEE_SIGN @ x) = None"
    if "s \<in> {''Total: '', ''otal: '', ''tal: '', ''al: '', ''l: '', '': '', '' ''}" for s
    using that by (auto simp: match_at_def match_currency_def after_lit_def py_lower_def lower_char_def match_num_def
        skip_space_def is_space_def is_digit_def RUPEE_SIGN_def)
  have "scan (Suc (length (''Total: '' @ RUPEE_SIGN @ x))) (''Total: '' @ RUPEE_SIGN @ x) =
      scan (Suc (length (RUPEE_SIGN @ x))) (RUPEE_SIGN @ x)"
    using none [of "''Total: ''"] none [of "''otal: ''"] none [of "''tal: ''"] none [of "''al: ''"] none [of "''l: ''"]
      none [of "'': ''"] none [of "'' ''"]
    by (simp del: scan.simps(2) add: scan.simps(2) [of _ "CHR ''T'' # _"] scan.simps(2) [of _ "CHR ''o'' # _"]
        scan.simps(2) [of _ "CHR ''t'' # _"] scan.simps(2) [of _ "CHR ''a'' # _"] scan.simps(2) [of _ "CHR ''l'' # _"]
        scan.simps(2) [of _ "CHR '':'' # _"] scan.simps(2) [of _ "CHR '' '' # _"])
  then show ?thesis by (simp add: extract_amounts_def)
qed

text \<open>
  The price line of a quote can be sent. Every amount the extractor finds in the price line of a computed
  quote whose total is not negative is in the ledger until the quote expires; the date is one the extractor
  finds no amount in.
\<close>

theorem price_line_sendable:
  assumes "compute_quote parse org key inputs params lead conv h s = (Inr qid, s1)"
    and "n < now s + hours h" and "n - hours w < now s" and "v \<noteq> []" and "extract_amounts (''(valid till '' @ v @ '')'') = []"
  shows "\<exists>row. row \<in> set (quotes s1) \<and> qt_id row = qid \<and> (0 \<le> qt_total_minor row \<longrightarrow>
    (\<forall>f \<in> set (extract_amounts (render_price_line (qt_total_minor row) ''INR'' (Some v))).
       fst (ledger_match org (int (xf_minor f)) w (s1\<lparr>now := n\<rparr>))))"
proof -
  obtain row where row: "row \<in> set (quotes s1)" "qt_id row = qid"
      and hit: "fst (ledger_match org (qt_total_minor row) w (s1\<lparr>now := n\<rparr>))"
    using quote_total_ledgered [OF assms(1-3)] by blast
  have "int (xf_minor f) = qt_total_minor row"
    if "0 \<le> qt_total_minor row" "f \<in> set (extract_amounts (render_price_line (qt_total_minor row) ''INR'' (Some v)))" for f
  proof -
    let ?t = "'' (valid till '' @ v @ '')''"
    have sk: "skip_space ?t = ''(valid till '' @ v @ '')''" by (simp add: skip_space_def is_space_def)
    have t: "\<not> is_digit (hd (?t @ ''x''))" "first_magnitude MAGNITUDE (skip_space ?t) = None" "match_currency (skip_space ?t) = None"
      unfolding sk by (simp_all add: is_digit_def MAGNITUDE_def after_lit_def py_lower_def lower_char_def match_currency_def RUPEE_SIGN_def)
    have "render_price_line (qt_total_minor row) ''INR'' (Some v) = ''Total: '' @ money (qt_total_minor row) ''INR'' @ ?t"
      using assms(4) by (simp add: render_price_line_def)
    moreover have "extract_amounts (''Total: '' @ money (qt_total_minor row) ''INR'' @ ?t) = extract_amounts (money (qt_total_minor row) ''INR'' @ ?t)"
      using extract_total by (simp add: money_def Let_def)
    ultimately have "map xf_minor (extract_amounts (render_price_line (qt_total_minor row) ''INR'' (Some v))) = [nat (qt_total_minor row)]"
      using money_read_back [OF that(1) t, unfolded sk] assms(5) by (simp only: list.map)
    then have "xf_minor f = nat (qt_total_minor row)" using that(2) by (cases "extract_amounts (render_price_line (qt_total_minor row) ''INR'' (Some v))") auto
    with that(1) show ?thesis by simp
  qed
  with row hit show ?thesis by auto
qed

theorem price_line_sendable_witness:
  "\<exists>row. row \<in> set (quotes example_quoted) \<and> qt_id row = 4"
proof -
  have "extract_amounts (''(valid till '' @ ''tomorrow'' @ '')'') = []"
    by (rule no_digits_no_amounts) (simp add: is_digit_def)
  from price_line_sendable [OF example_quoted _ _ _ this, of "hours 1" 48] show ?thesis by auto
qed

end
