(* ===== verification/Prompts.thy ===== *)
theory Prompts
  imports Runs
begin

text \<open>
  Prompts (\<open>core/prompts\<close>): the registry of immutable layers and the bindings that pin one triple of them
  for an agent and a task (\<open>registry.py\<close>), their composition (\<open>composer.py\<close>), and the tenant layer that is
  generated from the tenant's settings (\<open>tenant_layer.py\<close>). Versions are compared as texts, as the source
  compares them. Base layers are read from files by \<open>base_layers.py\<close>: the file's content is an argument.

  The lemmas show that pinning leaves one active binding, that a pinned binding composes, and that
  generating a tenant layer twice gives the same layer.
\<close>

subsection \<open>Tables\<close>

record layer_row =
  ly_id :: uuid
  ly_layer_type :: string
  ly_org_id :: "uuid option"
  ly_pack_id :: "uuid option"
  ly_archetype :: string
  ly_task :: string
  ly_version :: string
  ly_content :: string
  ly_requires :: jobj
  ly_status :: string

record prompt_binding_row =
  pb_id :: uuid
  pb_org_id :: uuid
  pb_agent_instance_id :: uuid
  pb_task :: string
  pb_base_layer :: uuid
  pb_vertical_layer :: "uuid option"
  pb_tenant_layer :: "uuid option"
  pb_active :: bool

text \<open>\<open>layer_cache\<close> is the memory of the process, not a table.\<close>

record prompt_db = wf_db +
  prompt_layers :: "layer_row list"
  prompt_bindings :: "prompt_binding_row list"
  layer_cache :: "layer_row list"

datatype prompt_error = IncompatiblePin | LayerMissing | MissingParam string | ActiveBindingExists

text \<open>Global layers are visible to every tenant, a tenant's own layers to it alone.\<close>

definition layer_visible :: "'a base_db_scheme \<Rightarrow> layer_row \<Rightarrow> bool" where
  "layer_visible s l \<longleftrightarrow> (case ly_org_id l of None \<Rightarrow> True | Some org \<Rightarrow> rls_visible s org)"

subsection \<open>Registry\<close>

definition satisfies :: "string \<Rightarrow> json \<Rightarrow> bool" where
  "satisfies version spec =
     (case spec of
        JArr vs \<Rightarrow> JStr version \<in> set vs
      | JStr sp \<Rightarrow> if starts_with ''>='' sp then drop 2 sp \<le> version else version = sp
      | _ \<Rightarrow> True)"

definition layer_versions :: "layer_row \<Rightarrow> layer_row option \<Rightarrow> (string \<times> string) list" where
  "layer_versions base vertical =
     (''base'', ly_version base) # (case vertical of None \<Rightarrow> [] | Some v \<Rightarrow> [(''vertical'', ly_version v)])"

definition requires_met :: "(string \<times> string) list \<Rightarrow> layer_row option \<Rightarrow> bool" where
  "requires_met versions higher =
     (case higher of None \<Rightarrow> True
      | Some l \<Rightarrow> list_all (\<lambda>(lower, spec). case map_of versions lower of None \<Rightarrow> True | Some v \<Rightarrow> satisfies v spec) (ly_requires l))"

definition check_compat :: "layer_row \<Rightarrow> layer_row option \<Rightarrow> layer_row option \<Rightarrow> bool" where
  "check_compat base vertical tenant \<longleftrightarrow>
     requires_met (layer_versions base vertical) vertical \<and> requires_met (layer_versions base vertical) tenant"

definition create_layer :: "string \<Rightarrow> string \<Rightarrow> string \<Rightarrow> string \<Rightarrow> string \<Rightarrow> jobj \<Rightarrow> uuid option \<Rightarrow> uuid option \<Rightarrow> string
    \<Rightarrow> 'a prompt_db_scheme \<Rightarrow> uuid \<times> 'a prompt_db_scheme" where
  "create_layer layer_type archetype task version content requires org pack status s0 =
     (let s = (case org of None \<Rightarrow> s0 | Some o' \<Rightarrow> set_org_context o' s0)
      in (fresh s, s\<lparr>prompt_layers := prompt_layers s @ [\<lparr>ly_id = fresh s, ly_layer_type = layer_type, ly_org_id = org,
            ly_pack_id = pack, ly_archetype = archetype, ly_task = task, ly_version = version, ly_content = content,
            ly_requires = requires, ly_status = status\<rparr>], fresh := fresh s + 1\<rparr>))"

definition load_layer :: "uuid \<Rightarrow> 'a prompt_db_scheme \<Rightarrow> layer_row option" where
  "load_layer i s = find (\<lambda>l. ly_id l = i \<and> layer_visible s l) (prompt_layers s)"

text \<open>An absent optional layer is \<open>Some None\<close>, a missing one \<open>None\<close>.\<close>

definition load_optional :: "uuid option \<Rightarrow> 'a prompt_db_scheme \<Rightarrow> layer_row option option" where
  "load_optional i s = (case i of None \<Rightarrow> Some None | Some x \<Rightarrow> map_option Some (load_layer x s))"

definition binding_of :: "uuid \<Rightarrow> string \<Rightarrow> prompt_binding_row \<Rightarrow> bool" where
  "binding_of inst task b \<longleftrightarrow> pb_agent_instance_id b = inst \<and> pb_task b = task"

definition deactivate_bindings :: "uuid \<Rightarrow> string \<Rightarrow> 'a prompt_db_scheme \<Rightarrow> 'a prompt_db_scheme" where
  "deactivate_bindings inst task s =
     s\<lparr>prompt_bindings := update_where (\<lambda>b. rls_visible s (pb_org_id b) \<and> binding_of inst task b \<and> pb_active b)
         (\<lambda>b. b\<lparr>pb_active := False\<rparr>) (prompt_bindings s)\<rparr>"

text \<open>The partial unique index on \<open>(agent_instance_id, task) WHERE active\<close>.\<close>

definition active_taken :: "uuid \<Rightarrow> string \<Rightarrow> 'a prompt_db_scheme \<Rightarrow> bool" where
  "active_taken inst task s \<longleftrightarrow> list_ex (\<lambda>b. binding_of inst task b \<and> pb_active b) (prompt_bindings s)"

definition pin_binding :: "uuid \<Rightarrow> uuid \<Rightarrow> string \<Rightarrow> uuid \<Rightarrow> uuid option \<Rightarrow> uuid option
    \<Rightarrow> (prompt_error, uuid, 'a prompt_db_scheme) op" where
  "pin_binding org inst task base_layer vertical_layer tenant_layer s0 =
     (let s = set_org_context org s0 in
      case (load_layer base_layer s, load_optional vertical_layer s, load_optional tenant_layer s) of
        (Some base, Some vertical, Some tenant) \<Rightarrow>
          if \<not> check_compat base vertical tenant then (Inl IncompatiblePin, s)
          else (let s1 = deactivate_bindings inst task s in
            if active_taken inst task s1 then (Inl ActiveBindingExists, s1)
            else (Inr (fresh s1), s1\<lparr>prompt_bindings := prompt_bindings s1 @ [\<lparr>pb_id = fresh s1, pb_org_id = org,
                pb_agent_instance_id = inst, pb_task = task, pb_base_layer = base_layer, pb_vertical_layer = vertical_layer,
                pb_tenant_layer = tenant_layer, pb_active = True\<rparr>], fresh := fresh s1 + 1\<rparr>))
      | _ \<Rightarrow> (Inl IncompatiblePin, s))"

definition get_active_binding :: "uuid \<Rightarrow> uuid \<Rightarrow> string \<Rightarrow> 'a prompt_db_scheme \<Rightarrow> uuid option \<times> 'a prompt_db_scheme" where
  "get_active_binding org inst task s0 =
     (let s = set_org_context org s0 in
      (map_option pb_id (find (\<lambda>b. rls_visible s (pb_org_id b) \<and> binding_of inst task b \<and> pb_active b) (prompt_bindings s)), s))"

definition revert_to :: "uuid \<Rightarrow> uuid \<Rightarrow> (prompt_error, unit, 'a prompt_db_scheme) op" where
  "revert_to org binding s0 =
     (let s = set_org_context org s0 in
      case find (\<lambda>b. rls_visible s (pb_org_id b) \<and> pb_id b = binding) (prompt_bindings s) of
        None \<Rightarrow> (Inl IncompatiblePin, s)
      | Some target \<Rightarrow>
          (let s1 = deactivate_bindings (pb_agent_instance_id target) (pb_task target) s in
           if active_taken (pb_agent_instance_id target) (pb_task target) s1 then (Inl ActiveBindingExists, s1)
           else (Inr (), s1\<lparr>prompt_bindings := update_where (\<lambda>b. rls_visible s (pb_org_id b) \<and> pb_id b = binding)
                  (\<lambda>b. b\<lparr>pb_active := True\<rparr>) (prompt_bindings s1)\<rparr>)))"

subsection \<open>Composition\<close>

definition is_ident_char :: "char \<Rightarrow> bool" where
  "is_ident_char c = (let n = of_char c :: int in
     c = CHR ''_'' \<or> 48 \<le> n \<and> n \<le> 57 \<or> 65 \<le> n \<and> n \<le> 90 \<or> 97 \<le> n \<and> n \<le> 122)"

text \<open>\<open>\{([a-zA-Z_][a-zA-Z0-9_]*)\}\<close> after the opening brace: the name and what follows.\<close>

definition match_placeholder :: "string \<Rightarrow> (string \<times> string) option" where
  "match_placeholder s =
     (let name = takeWhile is_ident_char s; rest = dropWhile is_ident_char s in
      case name of [] \<Rightarrow> None
      | c # _ \<Rightarrow> if is_digit c then None
          else (case rest of d # rest' \<Rightarrow> if d = CHR ''}'' then Some (name, rest') else None | [] \<Rightarrow> None))"

lemma match_placeholder_shorter: "match_placeholder s = Some (name, rest) \<Longrightarrow> length rest < length s"
proof -
  assume m: "match_placeholder s = Some (name, rest)"
  then obtain d where "dropWhile is_ident_char s = d # rest"
    by (auto simp: match_placeholder_def Let_def split: list.splits if_splits)
  then have "length (d # rest) \<le> length s" by (metis length_dropWhile_le)
  then show ?thesis by simp
qed

function render_template :: "jobj \<Rightarrow> string \<Rightarrow> prompt_error + string" where
  "render_template params [] = Inr []"
| "render_template params (c # cs) =
     (case (if c = CHR ''{'' then match_placeholder cs else None) of
        Some (name, rest) \<Rightarrow>
          (case map_of params name of
             None \<Rightarrow> Inl (MissingParam name)
           | Some v \<Rightarrow> map_sum id ((@) (py_str v)) (render_template params rest))
      | None \<Rightarrow> map_sum id ((#) c) (render_template params cs))"
  by pat_completeness auto
termination
  by (relation "measure (length \<circ> snd)") (auto split: if_splits dest: match_placeholder_shorter)

definition cached_layer :: "uuid \<Rightarrow> (prompt_error, layer_row, 'a prompt_db_scheme) op" where
  "cached_layer i s =
     (case find (\<lambda>l. ly_id l = i) (layer_cache s) of
        Some l \<Rightarrow> (Inr l, s)
      | None \<Rightarrow>
          (case load_layer i s of
             None \<Rightarrow> (Inl LayerMissing, s)
           | Some l \<Rightarrow> (Inr l, s\<lparr>layer_cache := l # layer_cache s\<rparr>)))"

definition cached_optional :: "uuid option \<Rightarrow> (prompt_error, layer_row option, 'a prompt_db_scheme) op" where
  "cached_optional i s = (case i of None \<Rightarrow> (Inr None, s)
     | Some x \<Rightarrow> (case cached_layer x s of (r, s1) \<Rightarrow> (map_sum id Some r, s1)))"

record ComposedPrompt =
  cp_text :: string
  cp_layer_versions :: "(string \<times> string) list"
  cp_content_hash :: string

definition BREAK :: string where "BREAK = [CHR 0x0A, CHR 0x0A]"

definition compose_parts :: "crypto \<Rightarrow> layer_row \<Rightarrow> layer_row option \<Rightarrow> layer_row option \<Rightarrow> jobj \<Rightarrow> prompt_error + ComposedPrompt" where
  "compose_parts C base vertical tenant params =
     (let lower = ly_content base @ (case vertical of None \<Rightarrow> [] | Some v \<Rightarrow> BREAK @ ly_content v);
          composed = (\<lambda>text tenant_version. Inr \<lparr>cp_text = text,
            cp_layer_versions = layer_versions base vertical @ tenant_version, cp_content_hash = sha256 C text\<rparr>)
      in case tenant of
           None \<Rightarrow> composed lower []
         | Some t \<Rightarrow>
             (case render_template params (ly_content t) of
                Inl e \<Rightarrow> Inl e
              | Inr text \<Rightarrow> composed (lower @ BREAK @ text) [(''tenant'', ly_version t)]))"

definition render_prompt :: "crypto \<Rightarrow> uuid \<Rightarrow> uuid \<Rightarrow> jobj \<Rightarrow> (prompt_error, ComposedPrompt, 'a prompt_db_scheme) op" where
  "render_prompt C org binding params s0 =
     (let s = set_org_context org s0 in
      case find (\<lambda>b. rls_visible s (pb_org_id b) \<and> pb_id b = binding) (prompt_bindings s) of
        None \<Rightarrow> (Inl LayerMissing, s)
      | Some b \<Rightarrow>
          op_bind (cached_layer (pb_base_layer b)) (\<lambda>base.
          op_bind (cached_optional (pb_vertical_layer b)) (\<lambda>vertical.
          op_bind (cached_optional (pb_tenant_layer b)) (\<lambda>tenant. \<lambda>s1.
            (if check_compat base vertical tenant then compose_parts C base vertical tenant params else Inl IncompatiblePin, s1)))) s)"

subsection \<open>Base and tenant layers\<close>

text \<open>\<open>(\.\d+)*\<close>, and the first match of \<open>v(\d+(?:\.\d+)+)\<close>; digits are ASCII digits.\<close>

function dotted :: "string \<Rightarrow> string" where
  "dotted x = (case x of [] \<Rightarrow> []
     | c # r \<Rightarrow> (let d = takeWhile is_digit r in
         if c = CHR ''.'' \<and> d \<noteq> [] then c # d @ dotted (dropWhile is_digit r) else []))"
  by pat_completeness auto
termination dotted
  by (relation "measure length") (auto simp: less_Suc_eq_le length_dropWhile_le)

declare dotted.simps [simp del]

fun find_version :: "string \<Rightarrow> string option" where
  "find_version [] = None"
| "find_version (c # r) =
     (let d = takeWhile is_digit r; t = dotted (dropWhile is_digit r)
      in if c = CHR ''v'' \<and> d \<noteq> [] \<and> t \<noteq> [] then Some (d @ t) else find_version r)"

definition LINE_ENDS :: "char set" where
  "LINE_ENDS = {CHR 0x0A, CHR 0x0B, CHR 0x0C, CHR 0x0D, CHR 0x1C, CHR 0x1D, CHR 0x1E}"

definition base_version :: "string \<Rightarrow> string" where
  "base_version content =
     (let header = (if py_strip content \<noteq> [] then takeWhile (\<lambda>c. c \<notin> LINE_ENDS) content else [])
      in case find_version header of Some v \<Rightarrow> v | None \<Rightarrow> ''1.0'')"

text \<open>\<open>file\<close> is the text of \<open>prompts/base/<archetype>.md\<close>, if there is one.\<close>

definition ensure_base_layer :: "string \<Rightarrow> string option \<Rightarrow> 'a prompt_db_scheme \<Rightarrow> uuid option \<times> 'a prompt_db_scheme" where
  "ensure_base_layer archetype file s =
     (case file of
        None \<Rightarrow> (None, s)
      | Some content \<Rightarrow>
          (let version = base_version content in
           case find (\<lambda>l. layer_visible s l \<and> ly_layer_type l = ''base'' \<and> ly_archetype l = archetype \<and> ly_version l = version \<and>
               ly_org_id l = None) (prompt_layers s) of
             Some l \<Rightarrow> (Some (ly_id l), s)
           | None \<Rightarrow> map_prod Some id (create_layer ''base'' archetype ''*'' version content [] None None ''active'' s)))"

lemma find_version_example: "base_version (''# Priya v1.2.x'' @ [CHR 0x0A]) = ''1.2''"
  by (simp add: base_version_def py_strip_def is_space_def LINE_ENDS_def is_digit_def dotted.simps)

text \<open>Seeding a base layer a second time finds the layer the first made.\<close>

lemma ensure_base_layer_again:
  assumes "ensure_base_layer archetype (Some content) s = (i, s1)"
  shows "ensure_base_layer archetype (Some content) s1 = (i, s1)"
proof -
  define same where "same = (\<lambda>l::layer_row. ly_layer_type l = ''base'' \<and> ly_archetype l = archetype \<and>
    ly_version l = base_version content \<and> ly_org_id l = None)"
  have eq: "ensure_base_layer archetype (Some content) t = (case find same (prompt_layers t) of
      Some l \<Rightarrow> (Some (ly_id l), t)
    | None \<Rightarrow> map_prod Some id (create_layer ''base'' archetype ''*'' (base_version content) content [] None None ''active'' t))"
    for t :: "'a prompt_db_scheme"
  proof -
    have "(\<lambda>l. layer_visible t l \<and> ly_layer_type l = ''base'' \<and> ly_archetype l = archetype \<and>
        ly_version l = base_version content \<and> ly_org_id l = None) = same"
      by (auto simp: same_def layer_visible_def fun_eq_iff)
    then show ?thesis by (simp add: ensure_base_layer_def)
  qed
  show ?thesis
  proof (cases "find same (prompt_layers s)")
    case None
    then have "find same (prompt_layers s @ [l]) = (if same l then Some l else None)" for l
      by (simp add: find_append)
    with None assms show ?thesis by (auto simp: eq create_layer_def same_def)
  next
    case (Some l)
    with assms show ?thesis by (auto simp: eq)
  qed
qed

record tenant_facts =
  tf_persona_name :: string
  tf_store_name :: string
  tf_store_facts :: string
  tf_policies :: string
  tf_language_mix :: string

definition fact :: "uuid \<Rightarrow> string \<Rightarrow> string \<Rightarrow> 'a settings_db_scheme \<Rightarrow> string" where
  "fact org key dflt s = (case fst (resolve org key s) of
       Inl _ \<Rightarrow> dflt
     | Inr r \<Rightarrow> if rs_value r = JNull then dflt else py_str (rs_value r))"

definition resolve_tenant_facts :: "uuid \<Rightarrow> 'a settings_db_scheme \<Rightarrow> tenant_facts" where
  "resolve_tenant_facts org s =
     \<lparr>tf_persona_name = fact org ''persona.name'' ''our assistant'' s, tf_store_name = fact org ''store.name'' ''the store'' s,
      tf_store_facts = fact org ''store.facts'' ''(none provided yet)'' s,
      tf_policies = fact org ''policies.text'' ''(standard policies apply)'' s,
      tf_language_mix = fact org ''language.mix'' (''the customer'' @ [CHR 0x27] @ ''s language'') s\<rparr>"

definition TEMPLATE_V1 :: "tenant_facts \<Rightarrow> string" where
  "TEMPLATE_V1 f =
     ''## Business context'' @ [CHR 0x0A] @ ''You are '' @ tf_persona_name f @ '', assisting customers of '' @ tf_store_name f @ ''.'' @
     BREAK @ ''Store facts:'' @ [CHR 0x0A] @ tf_store_facts f @
     BREAK @ ''Policies you must follow:'' @ [CHR 0x0A] @ tf_policies f @
     BREAK @ ''Language: respond in '' @ tf_language_mix f @ ''.''"

definition content_version :: "crypto \<Rightarrow> string \<Rightarrow> string" where
  "content_version C content = ''1.'' @ take 12 (sha256 C content)"

definition generate_tenant_layer :: "crypto \<Rightarrow> uuid \<Rightarrow> string \<Rightarrow> string \<Rightarrow> tenant_facts option \<Rightarrow> 'a prompt_db_scheme
    \<Rightarrow> uuid \<times> 'a prompt_db_scheme" where
  "generate_tenant_layer C org archetype task facts s0 =
     (let content = TEMPLATE_V1 (case facts of Some f \<Rightarrow> f | None \<Rightarrow> resolve_tenant_facts org s0);
          version = content_version C content;
          s = set_org_context org s0
      in case find (\<lambda>l. layer_visible s l \<and> ly_org_id l = Some org \<and> ly_layer_type l = ''tenant'' \<and> ly_archetype l = archetype \<and>
             ly_task l = task \<and> ly_version l = version) (prompt_layers s) of
           Some l \<Rightarrow> (ly_id l, s)
         | None \<Rightarrow> create_layer ''tenant'' archetype task version content [] (Some org) None ''candidate'' s)"

subsection \<open>A pinned binding composes\<close>

definition coherent :: "'a prompt_db_scheme \<Rightarrow> bool" where
  "coherent s \<longleftrightarrow> distinct (map ly_id (prompt_layers s)) \<and> set (layer_cache s) \<subseteq> set (prompt_layers s)"

lemma load_layer_Some: "load_layer i s = Some l \<Longrightarrow> l \<in> set (prompt_layers s) \<and> ly_id l = i"
  unfolding load_layer_def by (drule find_Some_set) simp

lemma cached_layer_loads:
  assumes "coherent s" and "load_layer i s = Some l"
  obtains s' where "cached_layer i s = (Inr l, s')" "coherent s'" "prompt_layers s' = prompt_layers s"
    "org_ctx s' = org_ctx s" "\<forall>j. load_layer j s' = load_layer j s"
proof (cases "find (\<lambda>l. ly_id l = i) (layer_cache s)")
  case None
  let ?s = "s\<lparr>layer_cache := l # layer_cache s\<rparr>"
  have "load_layer j ?s = load_layer j s" for j
    by (simp add: load_layer_def layer_visible_def rls_visible_def cong: option.case_cong)
  then show thesis
    using that [of ?s] None assms load_layer_Some [OF assms(2)] by (simp add: cached_layer_def coherent_def)
next
  case (Some k)
  then have "k \<in> set (layer_cache s)" "ly_id k = i" using find_Some_set [OF Some] by auto
  then have "k = l"
    using assms load_layer_Some [OF assms(2)] unfolding coherent_def by (metis distinct_map inj_onD subsetD)
  with Some that [of s] assms(1) show thesis by (simp add: cached_layer_def)
qed

lemma cached_optional_loads:
  assumes "coherent s" and "load_optional i s = Some l"
  obtains s' where "cached_optional i s = (Inr l, s')" "coherent s'" "prompt_layers s' = prompt_layers s"
    "org_ctx s' = org_ctx s" "\<forall>j. load_layer j s' = load_layer j s"
proof (cases i)
  case None
  with assms that [of s] show thesis by (simp add: cached_optional_def load_optional_def)
next
  case (Some x)
  then obtain k where k: "load_layer x s = Some k" "l = Some k" using assms(2) by (auto simp: load_optional_def)
  obtain s' where s': "cached_layer x s = (Inr k, s')" "coherent s'" "prompt_layers s' = prompt_layers s"
    "org_ctx s' = org_ctx s" "\<forall>j. load_layer j s' = load_layer j s"
    using cached_layer_loads [OF assms(1) k(1)] by blast
  then show thesis using that [of s'] Some k(2) by (simp add: cached_optional_def)
qed

lemma load_optional_cong: "\<forall>j. load_layer j s' = load_layer j s \<Longrightarrow> load_optional i s' = load_optional i s"
  by (simp add: load_optional_def cong: option.case_cong)

lemma render_prompt_loads:
  assumes "coherent s" and "find (\<lambda>x. rls_visible (set_org_context org s) (pb_org_id x) \<and> pb_id x = i) (prompt_bindings s) = Some b"
    and "load_layer (pb_base_layer b) (set_org_context org s) = Some base"
    and "load_optional (pb_vertical_layer b) (set_org_context org s) = Some vertical"
    and "load_optional (pb_tenant_layer b) (set_org_context org s) = Some tenant"
    and "check_compat base vertical tenant"
  shows "fst (render_prompt C org i params s) = compose_parts C base vertical tenant params"
proof -
  let ?s = "set_org_context org s"
  have coh: "coherent ?s" using assms(1) by (simp add: coherent_def set_org_context_def)
  obtain s1 where s1: "cached_layer (pb_base_layer b) ?s = (Inr base, s1)" "coherent s1"
    "\<forall>j. load_layer j s1 = load_layer j ?s"
    using cached_layer_loads [OF coh assms(3)] by blast
  have "load_optional (pb_vertical_layer b) s1 = Some vertical" using assms(4) load_optional_cong [OF s1(3)] by simp
  then obtain s2 where s2: "cached_optional (pb_vertical_layer b) s1 = (Inr vertical, s2)" "coherent s2"
    "\<forall>j. load_layer j s2 = load_layer j s1"
    using cached_optional_loads [OF s1(2)] by blast
  have "load_optional (pb_tenant_layer b) s2 = Some tenant"
    using assms(5) load_optional_cong [OF s1(3)] load_optional_cong [OF s2(3)] by simp
  then obtain s3 where s3: "cached_optional (pb_tenant_layer b) s2 = (Inr tenant, s3)"
    using cached_optional_loads [OF s2(2)] by blast
  have "find (\<lambda>x. rls_visible ?s (pb_org_id x) \<and> pb_id x = i) (prompt_bindings ?s) = Some b"
    using assms(2) by (simp add: set_org_context_def)
  then show ?thesis
    using assms(6) by (simp add: render_prompt_def Let_def op_bind_def s1(1) s2(1) s3)
qed

lemma deactivate_sel [simp]:
  "prompt_layers (deactivate_bindings inst task s) = prompt_layers s" "layer_cache (deactivate_bindings inst task s) = layer_cache s"
  "fresh (deactivate_bindings inst task s) = fresh s" "org_ctx (deactivate_bindings inst task s) = org_ctx s"
  by (simp_all add: deactivate_bindings_def)

lemma map_id_deactivate [simp]: "map pb_id (prompt_bindings (deactivate_bindings inst task s)) = map pb_id (prompt_bindings s)"
  by (simp add: deactivate_bindings_def map_update_where)

lemma load_layer_cong:
  "prompt_layers s' = prompt_layers s \<Longrightarrow> org_ctx s' = org_ctx s \<Longrightarrow> load_layer j s' = load_layer j s"
  by (simp add: load_layer_def layer_visible_def rls_visible_def cong: option.case_cong)

lemma pin_binding_Inr:
  assumes "pin_binding org inst task b v t s = (Inr i, s1)"
  obtains base vertical tenant s2 where "s2 = deactivate_bindings inst task (set_org_context org s)" "i = fresh s"
    "load_layer b (set_org_context org s) = Some base" "load_optional v (set_org_context org s) = Some vertical"
    "load_optional t (set_org_context org s) = Some tenant" "check_compat base vertical tenant" "\<not> active_taken inst task s2"
    "s1 = s2\<lparr>prompt_bindings := prompt_bindings s2 @ [\<lparr>pb_id = i, pb_org_id = org, pb_agent_instance_id = inst, pb_task = task,
        pb_base_layer = b, pb_vertical_layer = v, pb_tenant_layer = t, pb_active = True\<rparr>], fresh := i + 1\<rparr>"
  using assms by (auto simp: pin_binding_def Let_def split: option.splits if_splits)

text \<open>
  A pinned prompt composes. After a successful pin the new binding is the active one for its agent and task,
  and composing it concatenates the pinned base, vertical and tenant layers; the only error left is a
  placeholder of the tenant layer without a value.
\<close>

theorem pinned_prompt_composes:
  assumes "pin_binding org inst task b v t s = (Inr i, s1)" and "coherent s"
    and "list_all (\<lambda>x. pb_id x < fresh s) (prompt_bindings s)"
  shows "fst (get_active_binding org inst task s1) = Some i \<and>
    (\<exists>base vertical tenant. load_layer b (set_org_context org s) = Some base \<and>
       load_optional v (set_org_context org s) = Some vertical \<and> load_optional t (set_org_context org s) = Some tenant \<and>
       fst (render_prompt C org i params s1) = compose_parts C base vertical tenant params)"
proof -
  obtain base vertical tenant s2 where pin: "s2 = deactivate_bindings inst task (set_org_context org s)" "i = fresh s"
    "load_layer b (set_org_context org s) = Some base" "load_optional v (set_org_context org s) = Some vertical"
    "load_optional t (set_org_context org s) = Some tenant" "check_compat base vertical tenant" "\<not> active_taken inst task s2"
    and s1: "s1 = s2\<lparr>prompt_bindings := prompt_bindings s2 @ [\<lparr>pb_id = i, pb_org_id = org, pb_agent_instance_id = inst, pb_task = task,
        pb_base_layer = b, pb_vertical_layer = v, pb_tenant_layer = t, pb_active = True\<rparr>], fresh := i + 1\<rparr>"
    by (rule pin_binding_Inr [OF assms(1)])
  let ?b = "\<lparr>pb_id = i, pb_org_id = org, pb_agent_instance_id = inst, pb_task = task, pb_base_layer = b,
    pb_vertical_layer = v, pb_tenant_layer = t, pb_active = True\<rparr>"
  have ids: "map pb_id (prompt_bindings s2) = map pb_id (prompt_bindings s)" by (simp add: pin(1) set_org_context_def)
  have old: "pb_id x \<noteq> i" if "x \<in> set (prompt_bindings s2)" for x
  proof -
    have "pb_id x \<in> set (map pb_id (prompt_bindings s))" using that ids by (metis image_eqI set_map)
    with assms(3) pin(2) show ?thesis by (auto simp: list_all_iff)
  qed
  have loads: "\<forall>j. load_layer j (set_org_context org s1) = load_layer j (set_org_context org s)"
    by (intro allI load_layer_cong) (simp_all add: s1 pin(1) set_org_context_def)
  have "find (\<lambda>x. pb_org_id x = org \<and> pb_id x = i) (prompt_bindings s2) = None"
    using old by (auto simp: find_None_iff)
  then have "find (\<lambda>x. rls_visible (set_org_context org s1) (pb_org_id x) \<and> pb_id x = i) (prompt_bindings s1) = Some ?b"
    by (simp add: s1 find_append)
  moreover have "coherent s1" using assms(2) by (simp add: coherent_def s1 pin(1) set_org_context_def)
  ultimately have "fst (render_prompt C org i params s1) = compose_parts C base vertical tenant params"
    using pin(3-6) by (intro render_prompt_loads [where b = ?b]) (simp_all add: loads [rule_format] load_optional_cong [OF loads])
  moreover have "find (\<lambda>x. pb_org_id x = org \<and> binding_of inst task x \<and> pb_active x) (prompt_bindings s2) = None"
    using pin(7) by (auto simp: find_None_iff active_taken_def list_ex_iff)
  then have "find (\<lambda>x. rls_visible (set_org_context org s1) (pb_org_id x) \<and> binding_of inst task x \<and> pb_active x)
      (prompt_bindings s1) = Some ?b"
    by (simp add: s1 find_append binding_of_def)
  then have "fst (get_active_binding org inst task s1) = Some i"
    by (simp add: get_active_binding_def Let_def set_org_context_def)
  ultimately show ?thesis using pin(3-5) by blast
qed

subsection \<open>One active binding\<close>

definition one_active :: "'a prompt_db_scheme \<Rightarrow> bool" where
  "one_active s \<longleftrightarrow> distinct (map pb_id (prompt_bindings s)) \<and> list_all (\<lambda>x. pb_id x < fresh s) (prompt_bindings s) \<and>
     (\<forall>inst task. length (filter (\<lambda>b. binding_of inst task b \<and> pb_active b) (prompt_bindings s)) \<le> 1)"

datatype prompt_op = Pin uuid uuid string uuid "uuid option" "uuid option" | Revert uuid uuid

fun prompt_act :: "prompt_op \<Rightarrow> 'a prompt_db_scheme \<Rightarrow> 'a prompt_db_scheme" where
  "prompt_act (Pin org inst task b v t) s = snd (pin_binding org inst task b v t s)"
| "prompt_act (Revert org b) s = snd (revert_to org b s)"

lemma active_deactivated:
  "length (filter (\<lambda>b. binding_of i k b \<and> pb_active b) (update_where P (\<lambda>b. b\<lparr>pb_active := False\<rparr>) bs))
     \<le> length (filter (\<lambda>b. binding_of i k b \<and> pb_active b) bs)"
  by (induction bs) (auto simp: binding_of_def)

lemma one_active_deactivate: "one_active s \<Longrightarrow> one_active (deactivate_bindings inst task s)"
  unfolding one_active_def deactivate_bindings_def
  by (auto simp: list_all_iff map_update_where set_update_where intro: le_trans [OF active_deactivated])

lemma filter_not_taken:
  "\<not> active_taken inst task s \<Longrightarrow> filter (\<lambda>b. binding_of inst task b \<and> pb_active b) (prompt_bindings s) = []"
  by (auto simp: active_taken_def list_ex_iff filter_empty_conv)

lemma one_active_pin: "one_active s \<Longrightarrow> one_active (snd (pin_binding org inst task b v t s))"
proof -
  assume s: "one_active s"
  let ?s = "set_org_context org s"
  have ctx: "one_active ?s" using s by (simp add: one_active_def set_org_context_def)
  then have s2: "one_active (deactivate_bindings inst task ?s)" by (rule one_active_deactivate)
  show ?thesis
  proof (cases "fst (pin_binding org inst task b v t s)")
    case (Inl e)
    then show ?thesis using ctx s2 by (auto simp: pin_binding_def Let_def split: option.splits if_splits)
  next
    case (Inr i)
    then obtain s1 where "pin_binding org inst task b v t s = (Inr i, s1)" by (metis prod.collapse)
    then obtain base vertical tenant s2 where p: "s2 = deactivate_bindings inst task ?s" "i = fresh s"
      "\<not> active_taken inst task s2" "snd (pin_binding org inst task b v t s) = s2\<lparr>prompt_bindings := prompt_bindings s2 @
        [\<lparr>pb_id = i, pb_org_id = org, pb_agent_instance_id = inst, pb_task = task,
          pb_base_layer = b, pb_vertical_layer = v, pb_tenant_layer = t, pb_active = True\<rparr>], fresh := i + 1\<rparr>"
      by (metis pin_binding_Inr snd_conv)
    have fr: "fresh s2 = i" by (simp add: p(1,2))
    have "one_active s2" using s2 p(1) by simp
    then show ?thesis
      unfolding p(4) one_active_def using filter_not_taken [OF p(3)] fr
      by (auto simp: list_all_iff binding_of_def less_Suc_eq)
  qed
qed

lemma filter_activate:
  "distinct (map pb_id bs) \<Longrightarrow>
   length (filter (\<lambda>b. binding_of inst k b \<and> pb_active b) (update_where (\<lambda>b. V b \<and> pb_id b = i) (\<lambda>b. b\<lparr>pb_active := True\<rparr>) bs))
     \<le> length (filter (\<lambda>b. binding_of inst k b \<and> pb_active b) bs) +
       (if list_ex (\<lambda>b. V b \<and> pb_id b = i \<and> binding_of inst k b) bs then 1 else 0)"
proof (induction bs)
  case (Cons b bs)
  then have IH: "length (filter (\<lambda>b. binding_of inst k b \<and> pb_active b)
      (update_where (\<lambda>b. V b \<and> pb_id b = i) (\<lambda>b. b\<lparr>pb_active := True\<rparr>) bs))
     \<le> length (filter (\<lambda>b. binding_of inst k b \<and> pb_active b) bs) +
       (if list_ex (\<lambda>b. V b \<and> pb_id b = i \<and> binding_of inst k b) bs then 1 else 0)" by simp
  show ?case
  proof (cases "V b \<and> pb_id b = i")
    case True
    then have "update_where (\<lambda>b. V b \<and> pb_id b = i) (\<lambda>b. b\<lparr>pb_active := True\<rparr>) bs = bs"
      using Cons.prems by (intro update_where_none) (fastforce simp: image_iff)
    with True show ?thesis by (auto simp: binding_of_def)
  next
    case False
    with IH show ?thesis by auto
  qed
qed simp

lemma one_active_revert: "one_active s \<Longrightarrow> one_active (snd (revert_to org binding s))"
proof -
  assume s: "one_active s"
  let ?s = "set_org_context org s"
  have ctx: "one_active ?s" using s by (simp add: one_active_def set_org_context_def)
  show ?thesis
  proof (cases "find (\<lambda>b. rls_visible ?s (pb_org_id b) \<and> pb_id b = binding) (prompt_bindings ?s)")
    case None
    with ctx show ?thesis by (simp add: revert_to_def Let_def)
  next
    case (Some target)
    let ?i = "pb_agent_instance_id target" and ?k = "pb_task target"
    let ?s2 = "deactivate_bindings ?i ?k ?s"
    have s2: "one_active ?s2" using ctx by (rule one_active_deactivate)
    show ?thesis
    proof (cases "active_taken ?i ?k ?s2")
      case True
      with Some s2 show ?thesis by (simp add: revert_to_def Let_def)
    next
      case False
      let ?V = "\<lambda>b. rls_visible ?s (pb_org_id b)"
      have r: "snd (revert_to org binding s) = ?s2\<lparr>prompt_bindings :=
          update_where (\<lambda>b. ?V b \<and> pb_id b = binding) (\<lambda>b. b\<lparr>pb_active := True\<rparr>) (prompt_bindings ?s2)\<rparr>"
        using Some False by (simp add: revert_to_def Let_def)
      have ids: "distinct (map pb_id (prompt_bindings ?s2))" using s2 by (simp add: one_active_def)
      have kind: "binding_of ?i ?k b" if "b \<in> set (prompt_bindings ?s2)" "?V b" "pb_id b = binding" for b
      proof -
        have target: "target \<in> set (prompt_bindings ?s)" "pb_id target = binding" using find_Some_set [OF Some] by auto
        let ?P = "\<lambda>x. rls_visible ?s (pb_org_id x) \<and> binding_of ?i ?k x \<and> pb_active x"
        have "b \<in> (\<lambda>x. if ?P x then x\<lparr>pb_active := False\<rparr> else x) ` set (prompt_bindings ?s)"
          using that(1) by (simp add: deactivate_bindings_def update_where_def)
        then obtain b0 where "b0 \<in> set (prompt_bindings ?s)" "b = (if ?P b0 then b0\<lparr>pb_active := False\<rparr> else b0)"
          by (rule imageE)
        then have b0: "b0 \<in> set (prompt_bindings ?s)" "pb_id b = pb_id b0" "binding_of ?i ?k b \<longleftrightarrow> binding_of ?i ?k b0"
          by (simp_all add: binding_of_def)
        have inj: "inj_on pb_id (set (prompt_bindings ?s))" using ctx by (simp add: one_active_def distinct_map)
        have "pb_id b0 = pb_id target" using b0(2) target(2) that(3) by simp
        then have "b0 = target" by (rule inj_onD [OF inj _ b0(1) target(1)])
        with b0(3) show ?thesis by (simp add: binding_of_def)
      qed
      have "length (filter (\<lambda>b. binding_of i k b \<and> pb_active b) (prompt_bindings (snd (revert_to org binding s)))) \<le> 1" for i k
      proof (cases "i = ?i \<and> k = ?k")
        case True
        with filter_activate [OF ids, of i k ?V binding] filter_not_taken [OF False] show ?thesis
          by (simp add: r split: if_splits)
      next
        case other: False
        have none: "\<not> list_ex (\<lambda>b. ?V b \<and> pb_id b = binding \<and> binding_of i k b) (prompt_bindings ?s2)"
        proof
          assume "list_ex (\<lambda>b. ?V b \<and> pb_id b = binding \<and> binding_of i k b) (prompt_bindings ?s2)"
          then obtain b where b: "b \<in> set (prompt_bindings ?s2)" "?V b" "pb_id b = binding" "binding_of i k b"
            unfolding list_ex_iff by blast
          from kind [OF b(1-3)] b(4) other show False by (simp add: binding_of_def)
        qed
        have "length (filter (\<lambda>b. binding_of i k b \<and> pb_active b) (prompt_bindings ?s2)) \<le> 1"
          using s2 unfolding one_active_def by blast
        with filter_activate [OF ids, of i k ?V binding] none show ?thesis by (simp add: r)
      qed
      then show ?thesis
        using s2 by (auto simp: one_active_def r list_all_iff map_update_where set_update_where)
    qed
  qed
qed


subsection \<open>Braces in a store fact\<close>

lemma match_placeholder_name:
  assumes "name \<noteq> []" and "list_all is_ident_char name" and "\<not> is_digit (hd name)"
  shows "match_placeholder (name @ CHR ''}'' # z) = Some (name, z)"
proof -
  have "\<not> is_ident_char CHR ''}''" by (simp add: is_ident_char_def)
  then have "takeWhile is_ident_char (name @ CHR ''}'' # z) = name" "dropWhile is_ident_char (name @ CHR ''}'' # z) = CHR ''}'' # z"
    using assms(2) by (auto simp: list_all_iff)
  with assms(1,3) show ?thesis by (cases name) (simp_all add: match_placeholder_def)
qed

lemma render_missing:
  assumes "name \<noteq> []" and "list_all is_ident_char name" and "\<not> is_digit (hd name)"
  shows "\<exists>n. render_template [] (a @ CHR ''{'' # name @ CHR ''}'' # z) = Inl (MissingParam n)"
proof (induction a)
  case Nil
  show ?case by (simp add: match_placeholder_name [OF assms])
next
  case (Cons c a)
  then show ?case by (auto split: option.splits)
qed

text \<open>
  Braces in a store fact disable the tenant's prompt. If any of the tenant's facts contains a word in braces,
  the generated layer is taken for a template when it is composed: composing it without parameters, as every
  run does, fails with a missing parameter.
\<close>

theorem braces_disable_prompt:
  assumes "name \<noteq> []" and "list_all is_ident_char name" and "\<not> is_digit (hd name)"
    and "tf_store_facts f = a @ CHR ''{'' # name @ CHR ''}'' # z" and "ly_content t = TEMPLATE_V1 f"
  shows "\<exists>n. compose_parts C base vertical (Some t) [] = Inl (MissingParam n)"
proof -
  let ?u = "''## Business context'' @ [CHR 0x0A] @ ''You are '' @ tf_persona_name f @ '', assisting customers of '' @
      tf_store_name f @ ''.'' @ BREAK @ ''Store facts:'' @ [CHR 0x0A]"
  let ?v = "BREAK @ ''Policies you must follow:'' @ [CHR 0x0A] @ tf_policies f @
      BREAK @ ''Language: respond in '' @ tf_language_mix f @ ''.''"
  have "TEMPLATE_V1 f = ?u @ tf_store_facts f @ ?v" unfolding TEMPLATE_V1_def append.assoc ..
  then have "ly_content t = (?u @ a) @ CHR ''{'' # name @ CHR ''}'' # (z @ ?v)"
    unfolding assms(4,5) append.assoc append_Cons .
  with render_missing [OF assms(1-3), of "?u @ a" "z @ ?v"] show ?thesis
    unfolding compose_parts_def Let_def by auto
qed

subsection \<open>Examples\<close>

definition example_layer :: layer_row where
  "example_layer = \<lparr>ly_id = 80, ly_layer_type = ''base'', ly_org_id = None, ly_pack_id = None, ly_archetype = ''concierge'',
     ly_task = ''*'', ly_version = ''1.0'', ly_content = ''Be honest.'', ly_requires = [], ly_status = ''active''\<rparr>"

definition example_wf_store :: wf_db where
  "example_wf_store = run_db.extend example_run_db (wf_db.fields [] [] [] [])"

definition example_prompts :: prompt_db where
  "example_prompts = wf_db.extend example_wf_store (prompt_db.fields [example_layer] [] [])"

lemma example_prompts_sel:
  "prompt_layers example_prompts = [example_layer]" "prompt_bindings example_prompts = []" "layer_cache example_prompts = []"
  by (simp_all add: example_prompts_def prompt_db.defs wf_db.defs)

lemma example_pinned:
  "\<exists>s1. pin_binding 7 5 ''qualify'' 80 None None example_prompts = (Inr (fresh example_prompts), s1)"
  by (simp add: pin_binding_def load_layer_def load_optional_def layer_visible_def check_compat_def requires_met_def
      active_taken_def deactivate_bindings_def Let_def example_prompts_sel example_layer_def set_org_context_def)

theorem pinned_prompt_composes_witness:
  "\<exists>s1. pin_binding 7 5 ''qualify'' 80 None None example_prompts = (Inr (fresh example_prompts), s1) \<and>
     fst (get_active_binding 7 5 ''qualify'' s1) = Some (fresh example_prompts)"
proof -
  obtain s1 where pin: "pin_binding 7 5 ''qualify'' 80 None None example_prompts = (Inr (fresh example_prompts), s1)"
    using example_pinned by blast
  have "fst (get_active_binding 7 5 ''qualify'' s1) = Some (fresh example_prompts)"
    by (rule pinned_prompt_composes [OF pin, THEN conjunct1]) (simp_all add: coherent_def example_prompts_sel)
  with pin show ?thesis by blast
qed


theorem braces_disable_prompt_witness:
  "\<exists>n. compose_parts example_crypto example_layer None (Some (example_layer\<lparr>ly_content := TEMPLATE_V1
       \<lparr>tf_persona_name = ''Priya'', tf_store_name = ''Asha Jewels'', tf_store_facts = ''Open till {closing} daily'',
        tf_policies = ''None'', tf_language_mix = ''English''\<rparr>\<rparr>)) [] = Inl (MissingParam n)"
  by (rule braces_disable_prompt [of "''closing''" "\<lparr>tf_persona_name = ''Priya'', tf_store_name = ''Asha Jewels'',
        tf_store_facts = ''Open till {closing} daily'', tf_policies = ''None'', tf_language_mix = ''English''\<rparr>" "''Open till ''" "'' daily''"])
     (simp_all add: is_ident_char_def is_digit_def)

end
