(* ===== verification/Models.thy ===== *)
theory Models
  imports Prompts Decimals
begin

text \<open>
  Model routing (\<open>core/runtime/routing.py\<close>) with the registries it consults (\<open>model_registry.py\<close>,
  \<open>providers.py\<close>, \<open>inference_policy.py\<close>). A turn walks the route's chain of providers, logs the cost of every
  attempt, and answers with the holding reply when nobody answered. The vendors are an argument: an attempt
  is answered, fails with an error class, or is cut off by the node's deadline. Prices are kept in
  \<open>10 ^ -5\<close> dollars per thousand tokens and costs in \<open>10 ^ -6\<close> dollars, which is exact as long as the 28
  digits of the decimal context suffice. Latencies are not modelled.
\<close>

subsection \<open>The registries\<close>

record ProviderDefinition =
  pd_provider_key :: string
  pd_adapter :: string
  pd_endpoint :: string
  pd_credential_ref :: string
  pd_enabled :: bool
  pd_reasoning_control :: "string option"

definition PROVIDERS :: "ProviderDefinition list" where
  "PROVIDERS =
     [\<lparr>pd_provider_key = ''openai'', pd_adapter = ''openai_compatible'', pd_endpoint = ''https://api.openai.com'',
       pd_credential_ref = ''llm_key_openai'', pd_enabled = True, pd_reasoning_control = None\<rparr>,
      \<lparr>pd_provider_key = ''deepseek'', pd_adapter = ''openai_compatible'', pd_endpoint = ''https://api.deepseek.com'',
       pd_credential_ref = ''llm_key_deepseek'', pd_enabled = True, pd_reasoning_control = Some ''deepseek_thinking''\<rparr>,
      \<lparr>pd_provider_key = ''anthropic'', pd_adapter = ''anthropic_native'', pd_endpoint = ''https://api.anthropic.com'',
       pd_credential_ref = ''llm_key_anthropic'', pd_enabled = True, pd_reasoning_control = None\<rparr>]"

definition provider_definition :: "string \<Rightarrow> string + ProviderDefinition" where
  "provider_definition key = (case find (\<lambda>p. pd_provider_key p = key) PROVIDERS of
     None \<Rightarrow> Inl ''provider_unknown'' | Some p \<Rightarrow> Inr p)"

text \<open>The credentials are the settings of the process: a reference and its non-empty value.\<close>

definition credential_for :: "(string \<times> string) list \<Rightarrow> ProviderDefinition \<Rightarrow> string + string" where
  "credential_for keys p = (case map_of keys (pd_credential_ref p) of
     None \<Rightarrow> Inl ''credential_missing'' | Some k \<Rightarrow> if k = [] then Inl ''credential_missing'' else Inr k)"

definition provider_status :: "(string \<times> string) list \<Rightarrow> string \<Rightarrow> string" where
  "provider_status keys key =
     (case find (\<lambda>p. pd_provider_key p = key) PROVIDERS of
        None \<Rightarrow> ''provider_unknown''
      | Some p \<Rightarrow> if \<not> pd_enabled p then ''provider_disabled''
          else (case credential_for keys p of Inl reason \<Rightarrow> reason | Inr _ \<Rightarrow> ''ok''))"

definition is_callable :: "(string \<times> string) list \<Rightarrow> string \<Rightarrow> bool" where
  "is_callable keys key \<longleftrightarrow> provider_status keys key = ''ok''"

definition configured_providers :: "(string \<times> string) list \<Rightarrow> string list" where
  "configured_providers keys = filter (is_callable keys) (map pd_provider_key PROVIDERS)"

record ModelDefinition =
  md_provider :: string
  md_model :: string
  md_label :: string
  md_quality_tier :: string
  md_max_context :: "int option"
  md_cost_per_1k_in :: "int option"
  md_cost_per_1k_out :: "int option"
  md_capabilities :: "string list"
  md_lifecycle :: string
  md_source :: string
  md_enabled :: bool
  md_verified_on :: string

definition VERIFIED_ON :: string where "VERIFIED_ON = ''2026-08-13''"

definition def_model :: "string \<Rightarrow> string \<Rightarrow> string \<Rightarrow> string \<Rightarrow> int \<Rightarrow> int \<Rightarrow> int \<Rightarrow> string \<Rightarrow> string list \<Rightarrow> string \<Rightarrow> ModelDefinition" where
  "def_model vendor model label tier ctx cin cout source caps lifecycle =
     \<lparr>md_provider = vendor, md_model = model, md_label = label, md_quality_tier = tier, md_max_context = Some ctx,
      md_cost_per_1k_in = Some cin, md_cost_per_1k_out = Some cout,
      md_capabilities = (if caps = [] then [''text'', ''tool_calling'', ''structured_output''] else caps),
      md_lifecycle = lifecycle, md_source = source, md_enabled = True, md_verified_on = VERIFIED_ON\<rparr>"

definition VISION_CAPS :: "string list" where
  "VISION_CAPS = [''text'', ''tool_calling'', ''structured_output'', ''vision'']"

definition MODELS :: "ModelDefinition list" where
  "MODELS =
     [def_model ''anthropic'' ''claude-haiku-4-5-20251001'' ''Claude Haiku 4.5'' ''cheap'' 200000 100 500
        ''https://platform.claude.com/docs/en/about-claude/models/overview'' VISION_CAPS ''current'',
      def_model ''anthropic'' ''claude-sonnet-5'' ''Claude Sonnet 5'' ''normal'' 1000000 200 1000
        ''https://platform.claude.com/docs/en/about-claude/models/overview'' VISION_CAPS ''current'',
      def_model ''anthropic'' ''claude-opus-5'' ''Claude Opus 5'' ''strong'' 1000000 500 2500
        ''https://platform.claude.com/docs/en/about-claude/models/overview'' VISION_CAPS ''current'',
      def_model ''openai'' ''gpt-5-nano'' ''GPT-5 nano'' ''cheap'' 400000 5 40
        ''https://developers.openai.com/api/docs/models/gpt-5-nano'' VISION_CAPS ''current'',
      def_model ''openai'' ''gpt-5.4-nano'' ''GPT-5.4 nano'' ''cheap'' 400000 20 125
        ''https://developers.openai.com/api/docs/models/gpt-5.4-nano'' VISION_CAPS ''current'',
      def_model ''openai'' ''gpt-5.6-sol'' ''GPT-5.6 Sol'' ''strong'' 1050000 500 3000
        ''https://developers.openai.com/api/docs/models/gpt-5.6-sol'' VISION_CAPS ''current'',
      def_model ''openai'' ''gpt-4o'' ''GPT-4o (deprecated)'' ''strong'' 128000 250 1000
        ''https://developers.openai.com/api/docs/pricing'' VISION_CAPS ''deprecated'',
      def_model ''openai'' ''gpt-4o-mini'' ''GPT-4o mini (previous generation)'' ''cheap'' 128000 15 60
        ''https://developers.openai.com/api/docs/pricing'' [] ''legacy'',
      def_model ''deepseek'' ''deepseek-v4-flash'' ''DeepSeek V4 Flash'' ''cheap'' 1000000 44 132
        ''https://api-docs.deepseek.com/quick_start/pricing'' [] ''current'',
      def_model ''deepseek'' ''deepseek-v4-pro'' ''DeepSeek V4 Pro'' ''strong'' 1000000 132 396
        ''https://api-docs.deepseek.com/quick_start/pricing'' [] ''current'']"

definition RETIRED_MODEL_IDS :: "string list" where
  "RETIRED_MODEL_IDS = [''claude-3-5-sonnet-20241022'', ''claude-3-5-haiku-20241022'', ''claude-3-5-sonnet'',
     ''claude-3-5-haiku'', ''deepseek-chat'', ''deepseek-reasoner'']"

definition RETIRED_REPLACEMENTS :: "(string \<times> string) list" where
  "RETIRED_REPLACEMENTS =
     [(''claude-3-5-sonnet-20241022'', ''claude-sonnet-5''), (''claude-3-5-haiku-20241022'', ''claude-haiku-4-5-20251001''),
      (''claude-3-5-sonnet'', ''claude-sonnet-5''), (''claude-3-5-haiku'', ''claude-haiku-4-5-20251001''),
      (''deepseek-chat'', ''deepseek-v4-flash''), (''deepseek-reasoner'', ''deepseek-v4-pro'')]"

definition by_pair :: "string \<Rightarrow> string \<Rightarrow> ModelDefinition option" where
  "by_pair vendor model = find (\<lambda>m. md_provider m = vendor \<and> md_model m = model) MODELS"

definition get_model :: "string \<Rightarrow> string \<Rightarrow> string + ModelDefinition" where
  "get_model vendor model = (case by_pair vendor model of
     None \<Rightarrow> Inl ''model_unknown'' | Some m \<Rightarrow> if md_enabled m then Inr m else Inl ''model_disabled'')"

definition missing_capabilities :: "ModelDefinition \<Rightarrow> string list \<Rightarrow> string list" where
  "missing_capabilities m required = filter (\<lambda>c. c \<notin> set (md_capabilities m)) required"

text \<open>\<open>(tokens_in * cin + tokens_out * cout) / 1000\<close>, quantized to six places (half even).\<close>

definition estimate_cost :: "ModelDefinition \<Rightarrow> int \<Rightarrow> int \<Rightarrow> int" where
  "estimate_cost m tokens_in tokens_out =
     (let price = (\<lambda>p. case p of None \<Rightarrow> 0 | Some c \<Rightarrow> c)
      in rounded HalfEven (tokens_in * price (md_cost_per_1k_in m) + tokens_out * price (md_cost_per_1k_out m)) 100)"

definition approved_models :: "ModelDefinition list" where
  "approved_models = filter md_enabled MODELS"

definition current_models :: "ModelDefinition list" where
  "current_models = filter (\<lambda>m. md_lifecycle m = ''current'') approved_models"

definition is_retired :: "string \<Rightarrow> bool" where
  "is_retired model \<longleftrightarrow> model \<in> set RETIRED_MODEL_IDS"

definition replacement_for :: "string \<Rightarrow> string option" where
  "replacement_for model = map_of RETIRED_REPLACEMENTS model"

definition is_selectable :: "string \<Rightarrow> string \<Rightarrow> bool" where
  "is_selectable vendor model \<longleftrightarrow> (case by_pair vendor model of None \<Rightarrow> False | Some m \<Rightarrow> md_enabled m)"

definition model_availability :: "(string \<times> string) list \<Rightarrow> string \<Rightarrow> string \<Rightarrow> string" where
  "model_availability keys vendor model =
     (case by_pair vendor model of
        None \<Rightarrow> ''model_unknown''
      | Some m \<Rightarrow> if \<not> md_enabled m then ''model_disabled'' else provider_status keys vendor)"

text \<open>What \<open>validate_registry\<close> finds wrong with a model, one name per problem.\<close>

definition model_problems :: "ModelDefinition \<Rightarrow> string list" where
  "model_problems m =
     (if md_enabled m \<and> md_source m = [] then [''no source''] else []) @
     (if md_enabled m \<and> md_verified_on m = [] then [''no verification date''] else []) @
     (if is_retired (md_model m) then [''retired''] else []) @
     (if md_provider m \<notin> set (map pd_provider_key PROVIDERS) then [''unknown provider''] else []) @
     (if ''text'' \<notin> set (md_capabilities m) then [''no text''] else []) @
     (if md_cost_per_1k_in m = None \<or> md_cost_per_1k_out m = None then [''no pricing''] else []) @
     (if md_quality_tier m \<notin> {''cheap'', ''normal'', ''strong''} then [''unknown tier''] else [])"

definition validate_registry :: "string list" where
  "validate_registry =
     (if distinct (map (\<lambda>m. (md_provider m, md_model m)) MODELS) then [] else [''duplicate pairs'']) @
     concat (map model_problems MODELS)"

definition provider_problems :: "ProviderDefinition \<Rightarrow> string list" where
  "provider_problems p =
     (if starts_with ''https://'' (pd_endpoint p) then [] else [''endpoint must be https'']) @
     (if CHR ''{'' \<in> set (pd_endpoint p) \<or> CHR '' '' \<in> set (pd_endpoint p) then [''endpoint must be literal''] else []) @
     (if pd_adapter p \<in> {''openai_compatible'', ''anthropic_native''} then [] else [''unknown adapter'']) @
     (if starts_with ''llm_key_'' (pd_credential_ref p) then [] else [''credential_ref''])"

definition validate_providers :: "string list" where
  "validate_providers =
     (if distinct (map pd_provider_key PROVIDERS) then [] else [''duplicate provider keys'']) @
     (if distinct (map pd_credential_ref PROVIDERS) then [] else [''shared credential'']) @
     concat (map provider_problems PROVIDERS)"

subsection \<open>Routes\<close>

record route_row =
  mo_node_key :: string
  mo_provider :: string
  mo_model :: string
  mo_params :: json
  mo_fallbacks :: "(string \<times> string) list"

record cost_row =
  co_org_id :: uuid
  co_run_id :: uuid
  co_node_key :: string
  co_provider :: string
  co_model :: string
  co_outcome :: string
  co_tokens_in :: int
  co_tokens_out :: int
  co_cost :: int
  co_error_class :: "string option"
  co_attempt_index :: nat

record model_db = prompt_db +
  model_routes :: "route_row list"
  org_model_routes :: "(uuid \<times> route_row) list"
  costs_lite :: "cost_row list"

record Route =
  mr_chain :: "(string \<times> string) list"
  mr_params :: json

definition FALLBACK_CHAIN :: "(string \<times> string) list" where
  "FALLBACK_CHAIN = [(''anthropic'', ''claude-sonnet-5''), (''openai'', ''gpt-5-nano'')]"

definition HOLDING_TEMPLATE :: string where
  "HOLDING_TEMPLATE = ''Thanks for your message '' @ [CHR 0xE2, CHR 0x80, CHR 0x94] @ '' a team member will follow up with you shortly.''"

definition CONFIG_ERROR_CLASSES :: "string list" where
  "CONFIG_ERROR_CLASSES = [''provider_unknown'', ''provider_disabled'', ''credential_missing'', ''model_unknown'',
     ''model_disabled'', ''capability_mismatch'']"

text \<open>The exact key, else the table's default row.\<close>

definition lookup_route :: "route_row list \<Rightarrow> string \<Rightarrow> route_row option" where
  "lookup_route rows key = (case find (\<lambda>r. mo_node_key r = key) rows of Some r \<Rightarrow> Some r
     | None \<Rightarrow> if key \<noteq> ''default'' then find (\<lambda>r. mo_node_key r = ''default'') rows else None)"

definition route_of_row :: "route_row option \<Rightarrow> Route" where
  "route_of_row row = (case row of None \<Rightarrow> \<lparr>mr_chain = FALLBACK_CHAIN, mr_params = JObj []\<rparr>
     | Some r \<Rightarrow> \<lparr>mr_chain = (mo_provider r, mo_model r) # mo_fallbacks r,
                mr_params = if truthy (mo_params r) then mo_params r else JObj []\<rparr>)"

definition find_route :: "uuid \<Rightarrow> string \<Rightarrow> 'a model_db_scheme \<Rightarrow> Route" where
  "find_route org key s0 =
     (let s = set_org_context org s0 in
      route_of_row (case lookup_route (map snd (filter (\<lambda>p. rls_visible s (fst p)) (org_model_routes s))) key of
        Some r \<Rightarrow> Some r | None \<Rightarrow> lookup_route (model_routes s) key))"

text \<open>A routing model keeps the routes it has looked up.\<close>

type_synonym routes = "(string \<times> Route) list"

definition route_for :: "uuid \<Rightarrow> string \<Rightarrow> routes \<Rightarrow> 'a model_db_scheme \<Rightarrow> Route \<times> routes" where
  "route_for org key known s = (case map_of known key of Some r \<Rightarrow> (r, known)
     | None \<Rightarrow> (let r = find_route org key s in (r, (key, r) # known)))"

subsection \<open>A turn\<close>

record ModelResult =
  mr_tool_call :: "(string \<times> jobj) option"
  mr_text :: "string option"
  mr_tokens_in :: int
  mr_tokens_out :: int

datatype attempt = Answered ModelResult | Failed string | CutOff

type_synonym 'w vendors = "'w \<Rightarrow> nat \<Rightarrow> string \<times> string \<Rightarrow> string \<Rightarrow> jobj \<Rightarrow> json \<Rightarrow> attempt"

definition route_cost :: "string \<Rightarrow> string \<Rightarrow> int \<Rightarrow> int \<Rightarrow> int" where
  "route_cost vendor model ti to = (case get_model vendor model of Inl _ \<Rightarrow> 0 | Inr m \<Rightarrow> estimate_cost m ti to)"

definition log_cost :: "uuid \<Rightarrow> uuid \<Rightarrow> string \<Rightarrow> string \<times> string \<Rightarrow> int \<Rightarrow> int \<Rightarrow> string \<Rightarrow> string option \<Rightarrow> nat
    \<Rightarrow> 'a model_db_scheme \<times> redis \<Rightarrow> 'a model_db_scheme \<times> redis" where
  "log_cost org run key pm ti to outcome error i w =
     (let s = set_org_context org (fst w) in
      (s\<lparr>costs_lite := costs_lite s @ [\<lparr>co_org_id = org, co_run_id = run, co_node_key = key, co_provider = fst pm,
           co_model = snd pm, co_outcome = outcome, co_tokens_in = ti, co_tokens_out = to,
           co_cost = route_cost (fst pm) (snd pm) ti to, co_error_class = error, co_attempt_index = i\<rparr>]\<rparr>, snd w))"

definition alert_route_misconfigured :: "uuid \<Rightarrow> string \<Rightarrow> string \<times> string \<Rightarrow> string
    \<Rightarrow> 'a model_db_scheme \<times> redis \<Rightarrow> 'a model_db_scheme \<times> redis" where
  "alert_route_misconfigured org key pm reason w =
     runtime_alert ''model_route_misconfigured'' (JObj [(''org_id'', JId org), (''node_key'', JStr key),
       (''provider'', JStr (fst pm)), (''model'', JStr (snd pm)), (''reason'', JStr reason)]) w"

definition alert_all_down :: "uuid \<Rightarrow> string \<Rightarrow> string option \<Rightarrow> 'a model_db_scheme \<times> redis \<Rightarrow> 'a model_db_scheme \<times> redis" where
  "alert_all_down run key last_error w =
     runtime_alert ''model_all_providers_down'' (JObj [(''run_id'', JId run), (''node_key'', JStr key),
       (''last_error'', json_of_string_option last_error)]) w"

definition note_failed_attempt :: "uuid \<Rightarrow> uuid \<Rightarrow> string \<Rightarrow> string \<times> string \<Rightarrow> string \<Rightarrow> nat
    \<Rightarrow> 'a model_db_scheme \<times> redis \<Rightarrow> 'a model_db_scheme \<times> redis" where
  "note_failed_attempt org run key pm error i w =
     (let w1 = log_cost org run key pm 0 0 ''failed'' (Some error) i w
      in if error \<in> set CONFIG_ERROR_CLASSES then alert_route_misconfigured org key pm error w1 else w1)"

fun walk_chain :: "('a model_db_scheme \<times> redis) vendors \<Rightarrow> uuid \<Rightarrow> uuid \<Rightarrow> string \<Rightarrow> string \<Rightarrow> jobj \<Rightarrow> json \<Rightarrow> nat
    \<Rightarrow> (string \<times> string) list \<Rightarrow> string option \<Rightarrow> 'a model_db_scheme \<times> redis
    \<Rightarrow> ModelResult option \<times> 'a model_db_scheme \<times> redis" where
  "walk_chain V org run key prompt context params i [] last_error w =
     (Some \<lparr>mr_tool_call = None, mr_text = Some HOLDING_TEMPLATE, mr_tokens_in = 0, mr_tokens_out = 0\<rparr>,
      alert_all_down run key last_error w)"
| "walk_chain V org run key prompt context params i (pm # chain) last_error w =
     (case V w i pm prompt context params of
        CutOff \<Rightarrow> (None, w)
      | Failed error \<Rightarrow>
          walk_chain V org run key prompt context params (Suc i) chain (Some (fst pm @ '': '' @ error))
            (note_failed_attempt org run key pm error i w)
      | Answered r \<Rightarrow> (Some r, log_cost org run key pm (mr_tokens_in r) (mr_tokens_out r) ''ok'' None i w))"

definition turn :: "('a model_db_scheme \<times> redis) vendors \<Rightarrow> uuid \<Rightarrow> uuid \<Rightarrow> string \<Rightarrow> string \<Rightarrow> jobj \<Rightarrow> routes
    \<Rightarrow> 'a model_db_scheme \<times> redis \<Rightarrow> ModelResult option \<times> routes \<times> 'a model_db_scheme \<times> redis" where
  "turn V org run key prompt context known w =
     (case route_for org key known (fst w) of (route, known1) \<Rightarrow>
      case walk_chain V org run key prompt context (mr_params route) 0 (mr_chain route) None w of
        (r, w1) \<Rightarrow> (r, known1, w1))"

definition reasoning_for :: "string \<Rightarrow> string" where
  "reasoning_for key = (if key = ''priya.reason'' then ''off'' else ''default'')"

subsection \<open>Lemmas\<close>

lemma log_cost_rows [simp]:
  "costs_lite (fst (log_cost org run key pm ti to outcome error i w)) = costs_lite (fst w) @
     [\<lparr>co_org_id = org, co_run_id = run, co_node_key = key, co_provider = fst pm, co_model = snd pm, co_outcome = outcome,
       co_tokens_in = ti, co_tokens_out = to, co_cost = route_cost (fst pm) (snd pm) ti to, co_error_class = error,
       co_attempt_index = i\<rparr>]"
  by (simp add: log_cost_def Let_def set_org_context_def)

lemma runtime_alert_costs [simp]: "costs_lite (fst (runtime_alert kind d w)) = costs_lite (fst w)"
  by (cases w) (simp add: runtime_alert_def)

definition attempt_log :: "cost_row \<Rightarrow> string \<times> string \<times> string \<times> nat" where
  "attempt_log r = (co_provider r, co_model r, co_outcome r, co_attempt_index r)"

lemma failed_attempt_rows:
  "map attempt_log (costs_lite (fst (note_failed_attempt org run key pm error i w))) =
     map attempt_log (costs_lite (fst w)) @ [(fst pm, snd pm, ''failed'', i)]"
  by (simp add: note_failed_attempt_def alert_route_misconfigured_def Let_def attempt_log_def)

lemma walk_chain_log:
  assumes "walk_chain V org run key prompt context params i chain last_error w = (Some r, w1)"
  shows "(\<exists>n < length chain. map attempt_log (costs_lite (fst w1)) = map attempt_log (costs_lite (fst w)) @
        map (\<lambda>k. (fst (chain ! k), snd (chain ! k), if k = n then ''ok'' else ''failed'', i + k)) [0..<Suc n]) \<or>
     map attempt_log (costs_lite (fst w1)) = map attempt_log (costs_lite (fst w)) @
        map (\<lambda>k. (fst (chain ! k), snd (chain ! k), ''failed'', i + k)) [0..<length chain] \<and>
     mr_tool_call r = None \<and> mr_text r = Some HOLDING_TEMPLATE"
  using assms
proof (induction chain arbitrary: i last_error w)
  case Nil
  then show ?case by (auto simp: alert_all_down_def)
next
  case (Cons pm chain)
  show ?case
  proof (cases "V w i pm prompt context params")
    case (Answered x)
    with Cons.prems show ?thesis by (intro disjI1 exI [of _ 0]) (auto simp: attempt_log_def)
  next
    case CutOff
    with Cons.prems show ?thesis by simp
  next
    case (Failed error)
    let ?w = "note_failed_attempt org run key pm error i w"
    have "walk_chain V org run key prompt context params (Suc i) chain (Some (fst pm @ '': '' @ error)) ?w = (Some r, w1)"
      using Cons.prems Failed by simp
    from Cons.IH [OF this] show ?thesis
    proof (elim disjE exE conjE)
      fix n
      assume n: "n < length chain" "map attempt_log (costs_lite (fst w1)) = map attempt_log (costs_lite (fst ?w)) @
        map (\<lambda>k. (fst (chain ! k), snd (chain ! k), if k = n then ''ok'' else ''failed'', Suc i + k)) [0..<Suc n]"
      then show ?thesis
        by (intro disjI1 exI [of _ "Suc n"])
           (simp add: failed_attempt_rows upt_conv_Cons map_Suc_upt [symmetric] comp_def del: upt_Suc)
    next
      assume all: "map attempt_log (costs_lite (fst w1)) = map attempt_log (costs_lite (fst ?w)) @
          map (\<lambda>k. (fst (chain ! k), snd (chain ! k), ''failed'', Suc i + k)) [0..<length chain]"
        "mr_tool_call r = None" "mr_text r = Some HOLDING_TEMPLATE"
      then show ?thesis
        by (intro disjI2)
           (simp add: failed_attempt_rows upt_conv_Cons map_Suc_upt [symmetric] comp_def del: upt_Suc)
    qed
  qed
qed

subsection \<open>Failover\<close>


definition example_models :: model_db where
  "example_models = prompt_db.extend example_prompts (model_db.fields [] [] [])"

definition example_vendors :: "(model_db \<times> redis) vendors" where
  "example_vendors w i pm prompt context params = (if i = 0 then Failed ''transport_error''
     else Answered \<lparr>mr_tool_call = None, mr_text = Some ''Hello'', mr_tokens_in = 5, mr_tokens_out = 2\<rparr>)"

lemma example_models_sel: "model_routes example_models = []" "org_model_routes example_models = []" "costs_lite example_models = []"
  by (simp_all add: example_models_def model_db.defs prompt_db.defs)

lemma example_turn:
  "\<exists>w1. turn example_vendors 7 9 ''priya.reason'' ''p'' [] [] (example_models, redis_empty) =
     (Some \<lparr>mr_tool_call = None, mr_text = Some ''Hello'', mr_tokens_in = 5, mr_tokens_out = 2\<rparr>,
      [(''priya.reason'', \<lparr>mr_chain = FALLBACK_CHAIN, mr_params = JObj []\<rparr>)], w1)"
  by (simp add: turn_def route_for_def find_route_def lookup_route_def route_of_row_def set_org_context_def
      example_models_sel FALLBACK_CHAIN_def example_vendors_def Let_def)


text \<open>
  The shipped registries are consistent: no model or provider the platform offers has a problem the
  registries' own checks look for, the hard-coded chain names approved models of two different vendors, and
  every retired model id has a replacement that may be selected.
\<close>

theorem registries_valid:
  "validate_registry = [] \<and> validate_providers = [] \<and>
   list_all (\<lambda>(p, m). is_selectable p m) FALLBACK_CHAIN \<and> distinct (map fst FALLBACK_CHAIN) \<and>
   list_all (\<lambda>i. \<not> is_retired i \<or> replacement_for i \<noteq> None) RETIRED_MODEL_IDS \<and>
   list_all (\<lambda>(old, new). list_ex (\<lambda>m. md_model m = new \<and> md_enabled m) MODELS) RETIRED_REPLACEMENTS"
  by code_simp

end
