(* ===== verification/Flags.thy ===== *)
theory Flags
  imports Settings
begin

text \<open>
  Feature flags (\<open>core/tenancy/flags.py\<close>): the snapshot built from the two tables, its evaluation for a
  context, and the file a cold start falls back on. The hash is an argument; a snapshot's age is the time
  it was loaded. The push over Redis publish/subscribe is not modelled.

  The lemmas show which rule decides a flag, and that the fallback file loses nothing.
\<close>

subsection \<open>Snapshots\<close>

record Ctx =
  cx_org_id :: uuid
  cx_user_id :: "uuid option"
  cx_pack :: "string option"

record Rule =
  rl_scope :: string
  rl_scope_ref :: "string option"
  rl_rollout_pct :: "int option"
  rl_value :: json
  rl_precedence :: int

record FlagDef =
  fd_key :: string
  fd_flag_type :: string
  fd_default_value :: json
  fd_tier :: int
  fd_rules :: "Rule list"

record Snapshot =
  sn_flags :: "(string \<times> FlagDef) list"
  sn_loaded_at :: time

record FlagValue =
  fv_value :: json
  fv_source :: string

text \<open>\<open>_SCOPE_RANK.get(scope, 99)\<close>\<close>

definition SCOPE_RANK :: "(string \<times> int) list" where
  "SCOPE_RANK = [(''user'', 0), (''tenant'', 1), (''pack'', 2), (''global'', 3)]"

definition scope_rank :: "string \<Rightarrow> int" where
  "scope_rank sc = (case map_of SCOPE_RANK sc of None \<Rightarrow> 99 | Some n \<Rightarrow> n)"

definition KILL_SWITCH_PREFIXES :: "string list" where
  "KILL_SWITCH_PREFIXES = [''agent.'', ''pack.'', ''channel.'']"

definition is_kill_switch :: "string \<Rightarrow> bool" where
  "is_kill_switch key \<longleftrightarrow> ends_with ''.enabled'' key \<and> list_ex (\<lambda>p. starts_with p key) KILL_SWITCH_PREFIXES"

definition fail_closed_default :: "string \<Rightarrow> json" where
  "fail_closed_default key = JBool False"

subsection \<open>Evaluation\<close>

text \<open>\<open>int(digest[:8], 16) % 100\<close> of \<open>sha256(f"{org_id}:{key}")\<close>\<close>

definition hex_digit :: "char \<Rightarrow> int" where
  "hex_digit c = (let n = of_char c :: int in if 97 \<le> n then n - 87 else n - 48)"

definition bucket :: "(string \<Rightarrow> string) \<Rightarrow> uuid \<Rightarrow> string \<Rightarrow> int" where
  "bucket h org key = foldl (\<lambda>a c. a * 16 + hex_digit c) 0 (take 8 (h (nat_str org @ '':'' @ key))) mod 100"

definition rule_matches :: "Rule \<Rightarrow> Ctx \<Rightarrow> bool" where
  "rule_matches r ctx =
     (if rl_scope r = ''global'' then True
      else if rl_scope r = ''tenant'' then rl_scope_ref r = Some (nat_str (cx_org_id ctx))
      else if rl_scope r = ''user'' then cx_user_id ctx \<noteq> None \<and> rl_scope_ref r = map_option nat_str (cx_user_id ctx)
      else if rl_scope r = ''pack'' then cx_pack ctx \<noteq> None \<and> rl_scope_ref r = cx_pack ctx
      else False)"

definition rollout_ok :: "(string \<Rightarrow> string) \<Rightarrow> Rule \<Rightarrow> Ctx \<Rightarrow> string \<Rightarrow> bool" where
  "rollout_ok h r ctx key = (case rl_rollout_pct r of None \<Rightarrow> True | Some p \<Rightarrow> bucket h (cx_org_id ctx) key < p)"

definition flag_eval :: "(string \<Rightarrow> string) \<Rightarrow> Snapshot \<Rightarrow> string \<Rightarrow> Ctx \<Rightarrow> FlagValue" where
  "flag_eval h sn key ctx =
     (case map_of (sn_flags sn) key of
        None \<Rightarrow> \<lparr>fv_value = fail_closed_default key, fv_source = ''fallback''\<rparr>
      | Some fd \<Rightarrow>
          (case find (\<lambda>r. rule_matches r ctx \<and> rollout_ok h r ctx key) (fd_rules fd) of
             Some r \<Rightarrow> \<lparr>fv_value = rl_value r, fv_source = rl_scope r\<rparr>
           | None \<Rightarrow> \<lparr>fv_value = fd_default_value fd, fv_source = ''default''\<rparr>))"

subsection \<open>Loading\<close>

text \<open>Sorting by scope rank and then precedence, as two stable sorts.\<close>

definition rule_of :: "flag_rule_row \<Rightarrow> Rule" where
  "rule_of r = \<lparr>rl_scope = fr_scope r, rl_scope_ref = fr_scope_ref r, rl_rollout_pct = fr_rollout_pct r,
     rl_value = fr_value r, rl_precedence = fr_precedence r\<rparr>"

definition sorted_rules :: "Rule list \<Rightarrow> Rule list" where
  "sorted_rules rs = sort_key (\<lambda>r. scope_rank (rl_scope r)) (sort_key rl_precedence rs)"

definition load_snapshot :: "'a settings_db_scheme \<Rightarrow> Snapshot" where
  "load_snapshot s =
     \<lparr>sn_flags = map (\<lambda>f. (ff_key f, \<lparr>fd_key = ff_key f, fd_flag_type = ff_flag_type f,
          fd_default_value = ff_default_value f, fd_tier = ff_tier f,
          fd_rules = sorted_rules (map rule_of (filter (\<lambda>r. fr_key r = ff_key f) (flag_rules s)))\<rparr>)) (feature_flags s),
      sn_loaded_at = now s\<rparr>"

subsection \<open>The fallback file\<close>

definition json_of_int_option :: "int option \<Rightarrow> json" where
  "json_of_int_option x = (case x of None \<Rightarrow> JNull | Some n \<Rightarrow> JInt n)"

definition rule_json :: "Rule \<Rightarrow> json" where
  "rule_json r = JObj [(''scope'', JStr (rl_scope r)), (''scope_ref'', json_of_string_option (rl_scope_ref r)),
     (''rollout_pct'', json_of_int_option (rl_rollout_pct r)), (''value'', rl_value r), (''precedence'', JInt (rl_precedence r))]"

definition persist_snapshot :: "Snapshot \<Rightarrow> json" where
  "persist_snapshot sn = JObj (map (\<lambda>(key, fd). (key,
     JObj [(''flag_type'', JStr (fd_flag_type fd)), (''default_value'', fd_default_value fd), (''tier'', JInt (fd_tier fd)),
           (''rules'', JArr (map rule_json (fd_rules fd)))])) (sn_flags sn))"

text \<open>A document of another form than the one written is \<open>None\<close> (the source raises).\<close>

definition as_string_option :: "json \<Rightarrow> string option option" where
  "as_string_option v = (case v of JNull \<Rightarrow> Some None | JStr x \<Rightarrow> Some (Some x) | _ \<Rightarrow> None)"

definition as_int_option :: "json \<Rightarrow> int option option" where
  "as_int_option v = (case v of JNull \<Rightarrow> Some None | JInt n \<Rightarrow> Some (Some n) | _ \<Rightarrow> None)"

definition read_rule :: "json \<Rightarrow> Rule option" where
  "read_rule v =
     (case (jget v ''scope'', Option.bind (jget v ''scope_ref'') as_string_option,
            Option.bind (jget v ''rollout_pct'') as_int_option, jget v ''value'', jget v ''precedence'') of
        (Some (JStr sc), Some ref, Some pct, Some val, Some (JInt p)) \<Rightarrow>
          Some \<lparr>rl_scope = sc, rl_scope_ref = ref, rl_rollout_pct = pct, rl_value = val, rl_precedence = p\<rparr>
      | _ \<Rightarrow> None)"

definition read_flag :: "string \<times> json \<Rightarrow> (string \<times> FlagDef) option" where
  "read_flag kv =
     (case (jget (snd kv) ''flag_type'', jget (snd kv) ''default_value'', jget (snd kv) ''tier'', jget (snd kv) ''rules'') of
        (Some (JStr ty), Some d, Some (JInt n), Some (JArr rs)) \<Rightarrow>
          map_option (\<lambda>rules. (fst kv, \<lparr>fd_key = fst kv, fd_flag_type = ty, fd_default_value = d, fd_tier = n, fd_rules = rules\<rparr>))
            (those (map read_rule rs))
      | _ \<Rightarrow> None)"

definition load_fallback :: "time \<Rightarrow> json option \<Rightarrow> Snapshot option" where
  "load_fallback t file =
     (case file of
        None \<Rightarrow> Some \<lparr>sn_flags = [], sn_loaded_at = 0\<rparr>
      | Some (JObj kvs) \<Rightarrow> map_option (\<lambda>fs. \<lparr>sn_flags = fs, sn_loaded_at = t\<rparr>) (those (map read_flag kvs))
      | Some _ \<Rightarrow> None)"

subsection \<open>Lemmas\<close>

lemma those_map_inverse: "(\<And>x. x \<in> set xs \<Longrightarrow> f (g x) = Some x) \<Longrightarrow> those (map f (map g xs)) = Some xs"
  by (induction xs) auto

lemma read_rule_json: "read_rule (rule_json r) = Some r"
  by (cases "rl_scope_ref r"; cases "rl_rollout_pct r")
     (simp_all add: read_rule_def rule_json_def as_string_option_def as_int_option_def json_of_string_option_def
        json_of_int_option_def)

lemma snapshot_roundtrip:
  assumes "\<And>k fd. (k, fd) \<in> set (sn_flags sn) \<Longrightarrow> fd_key fd = k"
  shows "load_fallback t (Some (persist_snapshot sn)) = Some (sn\<lparr>sn_loaded_at := t\<rparr>)"
proof -
  let ?doc = "\<lambda>(key, fd). (key, JObj [(''flag_type'', JStr (fd_flag_type fd)), (''default_value'', fd_default_value fd),
      (''tier'', JInt (fd_tier fd)), (''rules'', JArr (map rule_json (fd_rules fd)))])"
  have "read_flag (?doc kv) = Some kv" if "kv \<in> set (sn_flags sn)" for kv
    using assms [of "fst kv" "snd kv"] that those_map_inverse [of "fd_rules (snd kv)" read_rule rule_json] read_rule_json
    by (cases kv) (auto simp: read_flag_def)
  then have "those (map read_flag (map ?doc (sn_flags sn))) = Some (sn_flags sn)"
    by (rule those_map_inverse)
  then show ?thesis by (simp add: load_fallback_def persist_snapshot_def)
qed

lemma set_sorted_rules [simp]: "set (sorted_rules rs) = set rs"
  by (simp add: sorted_rules_def)

lemma sorted_rules_rank: "sorted (map (\<lambda>r. scope_rank (rl_scope r)) (sorted_rules rs))"
  by (simp add: sorted_rules_def)

lemma sorted_rules_precedence:
  "sorted (map rl_precedence (filter (\<lambda>r. scope_rank (rl_scope r) = n) (sorted_rules rs)))"
proof -
  have "filter (\<lambda>r. scope_rank (rl_scope r) = n) (sorted_rules rs) =
      filter (\<lambda>r. scope_rank (rl_scope r) = n) (sort_key rl_precedence rs)"
    unfolding sorted_rules_def by (rule sort_key_stable)
  then show ?thesis by (simp add: filter_sort)
qed

text \<open>The first element of a list that satisfies a predicate comes before any other that does.\<close>

lemma find_split:
  "find P xs = Some x \<Longrightarrow> \<exists>ys zs. xs = ys @ x # zs \<and> (\<forall>y \<in> set ys. \<not> P y) \<and> P x"
proof (induction xs)
  case (Cons a xs)
  show ?case
  proof (cases "P a")
    case True
    with Cons.prems show ?thesis by (intro exI [of _ "[]"] exI [of _ xs]) auto
  next
    case False
    with Cons obtain ys zs where "xs = ys @ x # zs" "\<forall>y \<in> set ys. \<not> P y" "P x" by auto
    with False show ?thesis by (intro exI [of _ "a # ys"] exI [of _ zs]) auto
  qed
qed simp

lemma deciding_rule_least:
  assumes "find P (sorted_rules rs) = Some r" and "q \<in> set rs" and "P q"
  shows "scope_rank (rl_scope r) < scope_rank (rl_scope q) \<or>
    scope_rank (rl_scope r) = scope_rank (rl_scope q) \<and> rl_precedence r \<le> rl_precedence q"
proof -
  obtain ys zs where split: "sorted_rules rs = ys @ r # zs" "\<forall>y \<in> set ys. \<not> P y"
    using find_split [OF assms(1)] by blast
  then have q: "q \<in> set (r # zs)" using assms(2,3) set_sorted_rules [of rs] by auto
  have rank: "scope_rank (rl_scope r) \<le> scope_rank (rl_scope q)"
    using sorted_rules_rank [of rs] q by (auto simp: split sorted_append)
  have "rl_precedence r \<le> rl_precedence q" if "scope_rank (rl_scope r) = scope_rank (rl_scope q)"
    using sorted_rules_precedence [of "scope_rank (rl_scope r)" rs] q that by (auto simp: split sorted_append)
  with rank show ?thesis by linarith
qed

subsection \<open>Which rule decides\<close>


definition example_flags :: settings_db where
  "example_flags = example_settings\<lparr>
     feature_flags := [\<lparr>ff_key = ''runtime.kill'', ff_flag_type = ''boolean'', ff_default_value = JBool False, ff_tier = 1\<rparr>],
     flag_rules := [\<lparr>fr_key = ''runtime.kill'', fr_scope = ''global'', fr_scope_ref = None, fr_rollout_pct = None,
         fr_precedence = 100, fr_value = JBool False\<rparr>,
       \<lparr>fr_key = ''runtime.kill'', fr_scope = ''tenant'', fr_scope_ref = Some (nat_str 7), fr_rollout_pct = None,
         fr_precedence = 100, fr_value = JBool True\<rparr>]\<rparr>"


text \<open>
  The fallback file loses nothing: a snapshot loaded from the database, written to the file and read
  back at a cold start differs only in the time it was loaded.
\<close>

theorem fallback_restores_snapshot:
  "load_fallback t (Some (persist_snapshot (load_snapshot s))) = Some (load_snapshot s\<lparr>sn_loaded_at := t\<rparr>)"
  by (rule snapshot_roundtrip) (auto simp: load_snapshot_def)

end
