(* ===== verification/Agent.thy ===== *)
theory Agent
  imports Models Flags
begin

text \<open>
  The agent runtime: the graph of nodes (\<open>core/runtime/graph.py\<close>) and the durable executor that drives it
  (\<open>core/runtime/executor.py\<close>). A run is a loop over nodes with a checkpoint after each; it ends by
  answering, or is interrupted by the kill switch, its step budget, a deadline, the circuit breaker or an
  approval, after which it may be resumed.

  The state of a run is the dict the nodes pass on, as a record: an absent key is \<open>None\<close>. The Redis keys
  \<open>gop:run:<id>\<close> hold checkpoints and are the component \<open>checkpoints\<close>; they are written outside the
  database's transactions. The deadline of the model node is part of the vendors' answer; the other nodes are
  taken to meet theirs. The dependencies of a run are a record of functions; \<open>agent_deps\<close> builds them as the
  executor does, so that every tool call goes through the mediation proxy.
\<close>

subsection \<open>The graph\<close>

datatype node = ROUTE | COMPOSE | MODEL_TURN | TOOL_CALL | RESPOND

definition MAX_TOOL_CALLS :: nat where "MAX_TOOL_CALLS = 4"

text \<open>What a tool call returned: the status dict of the executor's tool function.\<close>

datatype tool_output =
    ToolOk json
  | ToolError int "(string \<times> string) option"
  | ToolNeedsApproval jobj int
  | ToolAborted

record last_tool =
  lt_name :: string
  lt_input :: jobj
  lt_output :: tool_output

record RunState =
  as_input :: jobj
  as_route_name :: "string option"
  as_prompt :: "string option"
  as_composed_prompt_hash :: "string option"
  as_tool_calls_made :: nat
  as_last_tool :: "last_tool option"
  as_decision :: "string option"
  as_pending_tool :: "(string \<times> jobj) option"
  as_response :: "string option"
  as_tokens_in :: int
  as_tokens_out :: int
  as_awaiting_approval :: "(uuid \<times> string) option"

definition initial_state :: "jobj \<Rightarrow> RunState" where
  "initial_state inp = \<lparr>as_input = inp, as_route_name = None, as_prompt = None, as_composed_prompt_hash = None,
     as_tool_calls_made = 0, as_last_tool = None, as_decision = None, as_pending_tool = None, as_response = None,
     as_tokens_in = 0, as_tokens_out = 0, as_awaiting_approval = None\<rparr>"

definition or_else_text :: "string option \<Rightarrow> string" where
  "or_else_text x = (case x of None \<Rightarrow> [] | Some t \<Rightarrow> t)"

definition compose_prompt :: "crypto \<Rightarrow> string \<Rightarrow> RunState \<Rightarrow> string \<times> string" where
  "compose_prompt C persona st =
     (let prompt = ''[persona:'' @ persona @ ''] [route:'' @ or_else_text (as_route_name st) @ '']''
      in (prompt, sha256 C prompt))"

definition model_turn_branch :: "RunState \<Rightarrow> node" where
  "model_turn_branch st =
     (if as_decision st = Some ''tool'' \<and> as_tool_calls_made st < MAX_TOOL_CALLS then TOOL_CALL else RESPOND)"

fun next_node :: "node option \<Rightarrow> RunState \<Rightarrow> node option" where
  "next_node None st = Some ROUTE"
| "next_node (Some ROUTE) st = Some COMPOSE"
| "next_node (Some COMPOSE) st = Some MODEL_TURN"
| "next_node (Some MODEL_TURN) st = Some (model_turn_branch st)"
| "next_node (Some TOOL_CALL) st = Some MODEL_TURN"
| "next_node (Some RESPOND) st = None"

subsection \<open>Tables and outcomes\<close>

record agent_step_row =
  sp_org_id :: uuid
  sp_run_id :: uuid
  sp_seq :: nat
  sp_node :: node
  sp_tool :: "last_tool option"
  sp_state :: RunState

record checkpoint =
  ck_cursor :: "node option"
  ck_state :: RunState
  ck_seq :: nat
  ck_steps_taken :: nat

record agent_db = model_db +
  agent_steps :: "agent_step_row list"
  checkpoints :: "uuid \<Rightarrow> checkpoint option"

record RunOutcome =
  ro_run_id :: uuid
  ro_status :: string
  ro_response :: "string option"
  ro_steps_taken :: nat

datatype agent_exn = UnknownInstance | UnknownRun | BadBudget | ToolRaised proxy_exn | ParkRefused approval_error

type_synonym 'a aworld = "'a agent_db_scheme \<times> redis"

subsection \<open>Nodes\<close>

record 'w deps =
  dp_turn :: "string \<Rightarrow> jobj \<Rightarrow> routes \<Rightarrow> 'w \<Rightarrow> ModelResult option \<times> routes \<times> 'w"
  dp_compose :: "RunState \<Rightarrow> 'w \<Rightarrow> (string \<times> string) \<times> 'w"
  dp_execute_tool :: "string \<Rightarrow> jobj \<Rightarrow> 'w \<Rightarrow> (agent_exn + tool_output) \<times> 'w"

text \<open>The default terminal effect: the response is returned as it is.\<close>

definition default_respond :: "RunState \<Rightarrow> string" where
  "default_respond st = or_else_text (as_response st)"

definition route_node :: "RunState \<Rightarrow> RunState" where
  "route_node st = st\<lparr>as_route_name := Some ''concierge''\<rparr>"

definition compose_node :: "'w deps \<Rightarrow> RunState \<Rightarrow> 'w \<Rightarrow> RunState \<times> 'w" where
  "compose_node d st w = (case dp_compose d st w of ((prompt, digest), w1) \<Rightarrow>
     (st\<lparr>as_prompt := Some prompt, as_composed_prompt_hash := Some digest\<rparr>, w1))"

text \<open>\<open>None\<close> is the deadline of the node.\<close>

definition model_turn_node :: "'w deps \<Rightarrow> RunState \<Rightarrow> routes \<Rightarrow> 'w \<Rightarrow> RunState option \<times> routes \<times> 'w" where
  "model_turn_node d st known w =
     (case dp_turn d (or_else_text (as_prompt st))
             [(''tool_calls_made'', JInt (int (as_tool_calls_made st))), (''input'', JObj (as_input st))] known w of
        (None, known1, w1) \<Rightarrow> (None, known1, w1)
      | (Some r, known1, w1) \<Rightarrow>
          (let st1 = st\<lparr>as_tokens_in := as_tokens_in st + mr_tokens_in r, as_tokens_out := as_tokens_out st + mr_tokens_out r\<rparr>
           in (Some (case mr_tool_call r of
                 Some tc \<Rightarrow> st1\<lparr>as_decision := Some ''tool'', as_pending_tool := Some tc\<rparr>
               | None \<Rightarrow> st1\<lparr>as_decision := Some ''respond'', as_response := mr_text r, as_pending_tool := None\<rparr>), known1, w1)))"

definition tool_call_node :: "'w deps \<Rightarrow> RunState \<Rightarrow> 'w \<Rightarrow> (agent_exn + RunState) \<times> 'w" where
  "tool_call_node d st w =
     (case (case as_pending_tool st of None \<Rightarrow> ([], []) | Some tc \<Rightarrow> tc) of (name, args) \<Rightarrow>
      case dp_execute_tool d name args w of
        (Inl e, w1) \<Rightarrow> (Inl e, w1)
      | (Inr out, w1) \<Rightarrow>
          (Inr (st\<lparr>as_tool_calls_made := Suc (as_tool_calls_made st),
                   as_last_tool := Some \<lparr>lt_name = name, lt_input = args, lt_output = out\<rparr>, as_pending_tool := None\<rparr>), w1))"

definition respond_node :: "RunState \<Rightarrow> RunState" where
  "respond_node st = st\<lparr>as_response := Some (default_respond st)\<rparr>"

text \<open>\<open>NODE_FNS[node](state, deps)\<close>\<close>

fun run_node :: "'w deps \<Rightarrow> node \<Rightarrow> RunState \<Rightarrow> routes \<Rightarrow> 'w \<Rightarrow> (agent_exn + RunState option) \<times> routes \<times> 'w" where
  "run_node d ROUTE st known w = (Inr (Some (route_node st)), known, w)"
| "run_node d COMPOSE st known w = (case compose_node d st w of (st1, w1) \<Rightarrow> (Inr (Some st1), known, w1))"
| "run_node d MODEL_TURN st known w = (case model_turn_node d st known w of (r, known1, w1) \<Rightarrow> (Inr r, known1, w1))"
| "run_node d TOOL_CALL st known w = (case tool_call_node d st w of (r, w1) \<Rightarrow> (map_sum id Some r, known, w1))"
| "run_node d RESPOND st known w = (Inr (Some (respond_node st)), known, w)"

subsection \<open>Recording\<close>

definition DEFAULT_MAX_STEPS :: int where "DEFAULT_MAX_STEPS = 40"
definition KILL_SWITCH_FLAG :: string where "KILL_SWITCH_FLAG = ''runtime.kill''"
definition STEP_RETRY_LIMIT :: nat where "STEP_RETRY_LIMIT = 1"
definition HARD_FAILURE_CODES :: "string list" where "HARD_FAILURE_CODES = [''provider_unavailable'']"

definition SAFE_CLOSE_TEXT :: string where
  "SAFE_CLOSE_TEXT = ''Thank you '' @ [CHR 0xE2, CHR 0x80, CHR 0x94] @ '' I'' @ [CHR 0x27] @ ''ll have a team member follow up with you shortly.''"

definition set_agent_run :: "uuid \<Rightarrow> (agent_run_row \<Rightarrow> agent_run_row) \<Rightarrow> 'a run_db_scheme \<Rightarrow> 'a run_db_scheme" where
  "set_agent_run run f s = s\<lparr>agent_runs := update_where (\<lambda>r. rls_visible s (rn_org_id r) \<and> rn_id r = run) f (agent_runs s)\<rparr>"

definition finish_run :: "uuid \<Rightarrow> uuid \<Rightarrow> string \<Rightarrow> json \<Rightarrow> json \<Rightarrow> 'a run_db_scheme \<Rightarrow> 'a run_db_scheme" where
  "finish_run org run status out err s0 =
     (let s = set_org_context org s0 in
      set_agent_run run (\<lambda>r. r\<lparr>rn_status := status, rn_output := out, rn_error := err, rn_ended_at := Some (now s)\<rparr>) s)"

text \<open>\<open>INSERT ... ON CONFLICT (run_id, seq) DO NOTHING\<close>, and the totals of the run.\<close>

definition persist_step :: "uuid \<Rightarrow> uuid \<Rightarrow> nat \<Rightarrow> node \<Rightarrow> RunState \<Rightarrow> nat \<Rightarrow> 'a agent_db_scheme \<Rightarrow> 'a agent_db_scheme" where
  "persist_step org run sq nd st steps s0 =
     (let s = set_org_context org s0;
          s1 = (if list_ex (\<lambda>p. sp_run_id p = run \<and> sp_seq p = sq) (agent_steps s) then s
                else s\<lparr>agent_steps := agent_steps s @ [\<lparr>sp_org_id = org, sp_run_id = run, sp_seq = sq, sp_node = nd,
                   sp_tool = (if nd = TOOL_CALL then as_last_tool st else None), sp_state = st\<rparr>]\<rparr>)
      in set_agent_run run (\<lambda>r. r\<lparr>rn_steps_taken := steps, rn_tokens_in := as_tokens_in st, rn_tokens_out := as_tokens_out st\<rparr>) s1)"

definition write_checkpoint :: "uuid \<Rightarrow> node option \<Rightarrow> RunState \<Rightarrow> nat \<Rightarrow> nat \<Rightarrow> 'a agent_db_scheme \<Rightarrow> 'a agent_db_scheme" where
  "write_checkpoint run cur st sq steps s = s\<lparr>checkpoints := (checkpoints s)(run \<mapsto>
     \<lparr>ck_cursor = cur, ck_state = st, ck_seq = sq, ck_steps_taken = steps\<rparr>)\<rparr>"

definition kill_engaged :: "crypto \<Rightarrow> uuid \<Rightarrow> 'a settings_db_scheme \<Rightarrow> bool" where
  "kill_engaged C org s = truthy (fv_value (flag_eval (sha256 C) (load_snapshot s) KILL_SWITCH_FLAG
     \<lparr>cx_org_id = org, cx_user_id = None, cx_pack = None\<rparr>))"

subsection \<open>One iteration of the driver\<close>

text \<open>What stays fixed during a run, and what the loop carries.\<close>

record run_ids =
  ri_crypto :: crypto
  ri_org :: uuid
  ri_run :: uuid
  ri_instance :: uuid
  ri_conversation :: "uuid option"
  ri_max_steps :: int

record drive_state =
  dv_cursor :: "node option"
  dv_state :: RunState
  dv_seq :: nat
  dv_steps :: nat
  dv_retries :: nat
  dv_routes :: routes

datatype drive_next = Stop RunOutcome | Raise agent_exn | Continue drive_state

definition error_json :: "string \<Rightarrow> string \<Rightarrow> json" where
  "error_json code detail = JObj [(''code'', JStr code), (''detail'', JStr detail)]"

definition interrupt_run :: "run_ids \<Rightarrow> nat \<Rightarrow> json \<Rightarrow> json \<Rightarrow> 'a aworld \<Rightarrow> RunOutcome \<times> 'a aworld" where
  "interrupt_run c steps out err w =
     (\<lparr>ro_run_id = ri_run c, ro_status = ''interrupted'', ro_response = None, ro_steps_taken = steps\<rparr>,
      finish_run (ri_org c) (ri_run c) ''interrupted'' out err (fst w), snd w)"

definition interrupted :: "run_ids \<Rightarrow> nat \<Rightarrow> json \<Rightarrow> json \<Rightarrow> 'a aworld \<Rightarrow> drive_next \<times> 'a aworld" where
  "interrupted c steps out err w = (case interrupt_run c steps out err w of (r, w1) \<Rightarrow> (Stop r, w1))"

text \<open>A parked run: an approval for the call, the run interrupted, a checkpoint to resume from.\<close>

definition park_at :: "run_ids \<Rightarrow> node option \<Rightarrow> (uuid \<Rightarrow> RunState) \<Rightarrow> string \<Rightarrow> jobj \<Rightarrow> int \<Rightarrow> drive_state
    \<Rightarrow> 'a aworld \<Rightarrow> drive_next \<times> 'a aworld" where
  "park_at c cur parked tool args tier l w =
     (case create_approval (ri_org c) tool tier args (Some (ri_run c)) (Some (ri_instance c)) [] None DEFAULT_EXPIRES_S (fst w) of
        (Inl e, _) \<Rightarrow> (Raise (ParkRefused e), w)
      | (Inr a, s1) \<Rightarrow>
          (case interrupted c (dv_steps l) (JObj [(''awaiting_approval'', JId a)]) JNull (s1, snd w) of
             (r, s2, rd) \<Rightarrow> (r, write_checkpoint (ri_run c) cur (parked a) (dv_seq l) (dv_steps l) s2, rd)))"

definition park :: "run_ids \<Rightarrow> string \<Rightarrow> jobj \<Rightarrow> int \<Rightarrow> RunState \<Rightarrow> drive_state \<Rightarrow> 'a aworld \<Rightarrow> drive_next \<times> 'a aworld" where
  "park c tool args tier st l w =
     park_at c (dv_cursor l) (\<lambda>a. st\<lparr>as_awaiting_approval := Some (a, tool), as_pending_tool := Some (tool, args),
        as_decision := Some ''tool'', as_tool_calls_made := as_tool_calls_made st - 1\<rparr>) tool args tier l w"

definition park_send :: "run_ids \<Rightarrow> string \<Rightarrow> jobj \<Rightarrow> int \<Rightarrow> RunState \<Rightarrow> drive_state \<Rightarrow> 'a aworld \<Rightarrow> drive_next \<times> 'a aworld" where
  "park_send c tool args tier st l w =
     park_at c (Some MODEL_TURN) (\<lambda>a. st\<lparr>as_awaiting_approval := Some (a, tool), as_decision := Some ''respond''\<rparr>)
       tool args tier l w"

definition complete_node :: "run_ids \<Rightarrow> node \<Rightarrow> RunState \<Rightarrow> drive_state \<Rightarrow> 'a aworld \<Rightarrow> drive_next \<times> 'a aworld" where
  "complete_node c nd st l w =
     (Continue (l\<lparr>dv_cursor := Some nd, dv_state := st, dv_seq := Suc (dv_seq l), dv_steps := Suc (dv_steps l)\<rparr>),
      write_checkpoint (ri_run c) (Some nd) st (Suc (dv_seq l)) (Suc (dv_steps l))
        (persist_step (ri_org c) (ri_run c) (Suc (dv_seq l)) nd st (Suc (dv_steps l)) (fst w)), snd w)"

definition retry_state :: "last_tool \<Rightarrow> RunState \<Rightarrow> RunState" where
  "retry_state t st = st\<lparr>as_pending_tool := Some (lt_name t, lt_input t), as_decision := Some ''tool'',
     as_tool_calls_made := as_tool_calls_made st - 1\<rparr>"

text \<open>A hard failure feeds the circuit breaker; the step is tried once more.\<close>

definition hard_failure :: "run_ids \<Rightarrow> last_tool \<Rightarrow> int \<Rightarrow> string \<times> string \<Rightarrow> RunState \<Rightarrow> drive_state \<Rightarrow> 'a aworld
    \<Rightarrow> drive_next \<times> 'a aworld" where
  "hard_failure c t tier err st l w =
     (case note_failure (ri_org c) (ri_instance c) (Some (ri_run c)) (lt_name t) tier
             (JObj [(''code'', JStr (fst err)), (''message'', JStr (snd err))]) (set_org_context (ri_org c) (fst w), snd w) of
        (opened, w1) \<Rightarrow>
          if opened then interrupted c (dv_steps l) JNull (error_json ''circuit_open'' ''circuit tripped'') w1
          else if dv_retries l < STEP_RETRY_LIMIT then
            (Continue (l\<lparr>dv_cursor := Some MODEL_TURN, dv_state := retry_state t st, dv_retries := Suc (dv_retries l)\<rparr>), w1)
          else interrupted c (dv_steps l) JNull (error_json ''provider_unavailable'' ''step failed after retry'') w1)"

definition after_tool :: "run_ids \<Rightarrow> RunState \<Rightarrow> drive_state \<Rightarrow> 'a aworld \<Rightarrow> drive_next \<times> 'a aworld" where
  "after_tool c st l w =
     (case as_last_tool st of
        None \<Rightarrow> complete_node c TOOL_CALL st l w
      | Some t \<Rightarrow>
          (case lt_output t of
             ToolNeedsApproval args tier \<Rightarrow> park c (lt_name t) args tier st l w
           | ToolAborted \<Rightarrow> interrupted c (dv_steps l) JNull (error_json ''run_aborted'' ''manifest violations'') w
           | ToolError tier (Some err) \<Rightarrow>
               if fst err \<in> set HARD_FAILURE_CODES then hard_failure c t tier err st l w
               else complete_node c TOOL_CALL st l w
           | ToolError tier None \<Rightarrow> complete_node c TOOL_CALL st l w
           | ToolOk out \<Rightarrow> complete_node c TOOL_CALL st (l\<lparr>dv_retries := 0\<rparr>) (fst w, note_success (ri_instance c) (snd w))))"

text \<open>The reply goes out as a tool call of its own; only a demand for approval stops it.\<close>

definition reply_args :: "uuid \<Rightarrow> string \<Rightarrow> jobj" where
  "reply_args conv body =
     [(''body'', JStr body), (''conversation_id'', JId conv), (''message_class'', JStr ''transactional'')]"

definition after_respond :: "run_ids \<Rightarrow> 'a aworld deps \<Rightarrow> RunState \<Rightarrow> drive_state \<Rightarrow> 'a aworld \<Rightarrow> drive_next \<times> 'a aworld" where
  "after_respond c d st l w =
     (case ri_conversation c of
        None \<Rightarrow> complete_node c RESPOND st l w
      | Some conv \<Rightarrow>
          if or_else_text (as_response st) = [] then complete_node c RESPOND st l w
          else (case dp_execute_tool d ''messages.send'' (reply_args conv (or_else_text (as_response st))) w of
              (Inl e, w1) \<Rightarrow> (Raise e, w1)
            | (Inr (ToolNeedsApproval args tier), w1) \<Rightarrow> park_send c ''messages.send'' args tier st l w1
            | (Inr out, w1) \<Rightarrow> complete_node c RESPOND st l w1))"

definition drive_step :: "run_ids \<Rightarrow> 'a aworld deps \<Rightarrow> drive_state \<Rightarrow> 'a aworld \<Rightarrow> drive_next \<times> 'a aworld" where
  "drive_step c d l w =
     (case next_node (dv_cursor l) (dv_state l) of
        None \<Rightarrow>
          (Stop \<lparr>ro_run_id = ri_run c, ro_status = ''succeeded'', ro_response = as_response (dv_state l), ro_steps_taken = dv_steps l\<rparr>,
           finish_run (ri_org c) (ri_run c) ''succeeded''
             (JObj [(''response'', json_of_string_option (as_response (dv_state l)))]) JNull (fst w), snd w)
      | Some nd \<Rightarrow>
          if kill_engaged (ri_crypto c) (ri_org c) (set_org_context (ri_org c) (fst w)) then
            interrupted c (dv_steps l) JNull (error_json ''tenant_paused'' ''kill switch'') w
          else if ri_max_steps c \<le> int (dv_steps l) then
            interrupted c (dv_steps l) JNull (error_json ''budget_exceeded'' (''step cap '' @ int_str (ri_max_steps c))) w
          else (case run_node d nd (dv_state l) (dv_routes l) w of
              (Inl e, _, w1) \<Rightarrow> (Raise e, w1)
            | (Inr None, _, w1) \<Rightarrow>
                interrupted c (dv_steps l) JNull (error_json ''provider_unavailable'' (''model_turn timeout'')) w1
            | (Inr (Some st), known, w1) \<Rightarrow>
                (let l1 = l\<lparr>dv_routes := known\<rparr>
                 in case nd of
                      TOOL_CALL \<Rightarrow> after_tool c st l1 w1
                    | RESPOND \<Rightarrow> after_respond c d st l1 w1
                    | _ \<Rightarrow> complete_node c nd st l1 w1)))"

end
