(* ===== verification/AgentRuns.thy ===== *)
theory AgentRuns
  imports Agent
begin

text \<open>
  Driving, starting and resuming agent runs (\<open>core/runtime/executor.py\<close>), and the consumer that resumes a
  parked run when its approval is resolved (\<open>core/runtime/resume.py\<close>). The driver is a total function: a
  measure on the cursor, the tool calls made and the retries falls with every iteration.
\<close>

subsection \<open>The loop ends\<close>

text \<open>
  Every tool call the graph admits costs at most three iterations (the call, its retry, the model turn after
  it); the other positions of the cursor come before or after those.
\<close>

definition rank :: "drive_state \<Rightarrow> nat" where
  "rank l = (let tools = 3 * (MAX_TOOL_CALLS - as_tool_calls_made (dv_state l)) + (if dv_retries l = 0 then 1 else 0) in
     case dv_cursor l of
       None \<Rightarrow> tools + 5 | Some ROUTE \<Rightarrow> tools + 4 | Some COMPOSE \<Rightarrow> tools + 3 | Some TOOL_CALL \<Rightarrow> tools + 3
     | Some MODEL_TURN \<Rightarrow> tools + 2 | Some RESPOND \<Rightarrow> 0)"

lemma complete_node_Continue:
  "complete_node c nd st l w = (Continue l1, w1) \<longleftrightarrow>
     l1 = l\<lparr>dv_cursor := Some nd, dv_state := st, dv_seq := Suc (dv_seq l), dv_steps := Suc (dv_steps l)\<rparr> \<and>
     w1 = (write_checkpoint (ri_run c) (Some nd) st (Suc (dv_seq l)) (Suc (dv_steps l))
        (persist_step (ri_org c) (ri_run c) (Suc (dv_seq l)) nd st (Suc (dv_steps l)) (fst w)), snd w)"
  by (auto simp: complete_node_def)

lemma not_Continue [simp]:
  "interrupted c n out err w \<noteq> (Continue l1, w1)" "park c tool args tier st l w \<noteq> (Continue l1, w1)"
  "park_send c tool args tier st l w \<noteq> (Continue l1, w1)"
  by (auto simp: interrupted_def interrupt_run_def park_def park_send_def park_at_def split: prod.splits sum.splits)

text \<open>How an iteration continues: a node was completed, or a failed tool call is retried.\<close>

lemma drive_step_Continue:
  assumes "drive_step c d l w = (Continue l1, w1)"
  obtains (Completed) nd st known r wd wd' where "next_node (dv_cursor l) (dv_state l) = Some nd"
      "run_node d nd (dv_state l) (dv_routes l) w = (Inr (Some st), known, wd)" "r = 0 \<or> r = dv_retries l" "r = 0 \<longrightarrow> nd = TOOL_CALL \<or> dv_retries l = 0"
      "complete_node c nd st (l\<lparr>dv_routes := known, dv_retries := r\<rparr>) wd' = (Continue l1, w1)"
  | (Retried) st known t wd where "next_node (dv_cursor l) (dv_state l) = Some TOOL_CALL"
      "run_node d TOOL_CALL (dv_state l) (dv_routes l) w = (Inr (Some st), known, wd)" "dv_retries l = 0"
      "l1 = l\<lparr>dv_routes := known, dv_cursor := Some MODEL_TURN, dv_state := retry_state t st, dv_retries := 1\<rparr>"
proof -
  obtain nd where nd: "next_node (dv_cursor l) (dv_state l) = Some nd"
    using assms by (auto simp: drive_step_def split: option.splits)
  then obtain st known wd where run: "run_node d nd (dv_state l) (dv_routes l) w = (Inr (Some st), known, wd)"
    using assms by (auto simp: drive_step_def split: if_splits prod.splits sum.splits option.splits)
  let ?l = "l\<lparr>dv_routes := known\<rparr>"
  have same: "?l = l\<lparr>dv_routes := known, dv_retries := dv_retries l\<rparr>" by simp
  have nxt: "(case nd of TOOL_CALL \<Rightarrow> after_tool c st ?l wd | RESPOND \<Rightarrow> after_respond c d st ?l wd
      | _ \<Rightarrow> complete_node c nd st ?l wd) = (Continue l1, w1)"
    using assms nd run by (simp add: drive_step_def Let_def split: if_splits)
  show thesis
  proof (cases "nd = TOOL_CALL")
    case True
    with nxt have step: "after_tool c st ?l wd = (Continue l1, w1)" by simp
    show thesis
    proof (cases "\<exists>t tier err. as_last_tool st = Some t \<and> lt_output t = ToolError tier (Some err) \<and> fst err \<in> set HARD_FAILURE_CODES")
      case True
      then obtain t tier err where t: "as_last_tool st = Some t" "lt_output t = ToolError tier (Some err)"
        "fst err \<in> set HARD_FAILURE_CODES" by blast
      with step have "hard_failure c t tier err st ?l wd = (Continue l1, w1)" by (simp add: after_tool_def)
      then have "dv_retries l = 0"
        "l1 = l\<lparr>dv_routes := known, dv_cursor := Some MODEL_TURN, dv_state := retry_state t st, dv_retries := 1\<rparr>"
        by (auto simp: hard_failure_def STEP_RETRY_LIMIT_def split: prod.splits if_splits)
      then show thesis using Retried nd run \<open>nd = TOOL_CALL\<close> by blast
    next
      case False
      show thesis
      proof (cases "\<exists>t out. as_last_tool st = Some t \<and> lt_output t = ToolOk out")
        case True
        with step have "complete_node c TOOL_CALL st (l\<lparr>dv_routes := known, dv_retries := 0\<rparr>)
            (fst wd, note_success (ri_instance c) (snd wd)) = (Continue l1, w1)"
          by (auto simp: after_tool_def)
        then show thesis using Completed [of nd st known wd 0] nd run \<open>nd = TOOL_CALL\<close> by blast
      next
        case soft: False
        with False step have "complete_node c TOOL_CALL st ?l wd = (Continue l1, w1)"
          by (auto simp: after_tool_def split: option.splits tool_output.splits if_splits)
        then show thesis using Completed [of nd st known wd "dv_retries l" wd] nd run \<open>nd = TOOL_CALL\<close> same by auto
      qed
    qed
  next
    case False
    have "\<exists>wd'. complete_node c nd st ?l wd' = (Continue l1, w1)"
    proof (cases "nd = RESPOND")
      case True
      with nxt show ?thesis
        by (cases wd) (auto simp: after_respond_def split: option.splits if_splits prod.splits sum.splits tool_output.splits)
    next
      case no: False
      with False nxt show ?thesis by (cases wd; cases nd) auto
    qed
    then show thesis using Completed [of nd st known wd "dv_retries l"] nd run same by auto
  qed
qed

text \<open>Which tool count a node leaves.\<close>

lemma run_node_tools:
  "run_node d nd st known w = (Inr (Some st1), known1, w1) \<Longrightarrow>
   as_tool_calls_made st1 = (if nd = TOOL_CALL then Suc (as_tool_calls_made st) else as_tool_calls_made st)"
  by (cases nd) (auto simp: route_node_def compose_node_def model_turn_node_def tool_call_node_def respond_node_def Let_def
      split: prod.splits option.splits sum.splits if_splits)

lemma next_node_tool:
  "next_node cur st = Some TOOL_CALL \<Longrightarrow> cur = Some MODEL_TURN \<and> as_tool_calls_made st < MAX_TOOL_CALLS"
  by (cases "(cur, st)" rule: next_node.cases) (auto simp: model_turn_branch_def split: if_splits)

lemma next_node_cases:
  "next_node cur st = Some nd \<Longrightarrow> (cur, nd) \<in> {(None, ROUTE), (Some ROUTE, COMPOSE), (Some COMPOSE, MODEL_TURN),
     (Some MODEL_TURN, TOOL_CALL), (Some MODEL_TURN, RESPOND), (Some TOOL_CALL, MODEL_TURN)}"
  by (cases "(cur, st)" rule: next_node.cases) (auto simp: model_turn_branch_def split: if_splits)

lemma drive_step_rank: "drive_step c d l w = (Continue l1, w1) \<Longrightarrow> rank l1 < rank l"
proof (erule drive_step_Continue)
  fix nd st known r wd wd'
  assume nd: "next_node (dv_cursor l) (dv_state l) = Some nd"
    and run: "run_node d nd (dv_state l) (dv_routes l) w = (Inr (Some st), known, wd)"
    and r: "r = 0 \<or> r = dv_retries l" "r = 0 \<longrightarrow> nd = TOOL_CALL \<or> dv_retries l = 0"
    and fin: "complete_node c nd st (l\<lparr>dv_routes := known, dv_retries := r\<rparr>) wd' = (Continue l1, w1)"
  have l1: "dv_cursor l1 = Some nd" "dv_state l1 = st" "dv_retries l1 = r"
    using fin by (simp_all add: complete_node_Continue)
  show "rank l1 < rank l"
    using next_node_cases [OF nd] run_node_tools [OF run] next_node_tool [of "dv_cursor l" "dv_state l"] nd r l1
    by (auto simp: rank_def Let_def split: if_splits)
next
  fix st known t wd
  assume nd: "next_node (dv_cursor l) (dv_state l) = Some TOOL_CALL"
    and run: "run_node d TOOL_CALL (dv_state l) (dv_routes l) w = (Inr (Some st), known, wd)" and "dv_retries l = 0"
    and l1: "l1 = l\<lparr>dv_routes := known, dv_cursor := Some MODEL_TURN, dv_state := retry_state t st, dv_retries := 1\<rparr>"
  show "rank l1 < rank l"
    using next_node_tool [OF nd] run_node_tools [OF run] \<open>dv_retries l = 0\<close>
    by (auto simp: rank_def Let_def l1 retry_state_def)
qed

function drive_loop :: "run_ids \<Rightarrow> 'a aworld deps \<Rightarrow> drive_state \<Rightarrow> 'a aworld \<Rightarrow> (agent_exn + RunOutcome) \<times> 'a aworld" where
  "drive_loop c d l w =
     (case drive_step c d l w of
        (Stop out, w1) \<Rightarrow> (Inr out, w1)
      | (Raise e, w1) \<Rightarrow> (Inl e, w1)
      | (Continue l1, w1) \<Rightarrow> drive_loop c d l1 w1)"
  by pat_completeness auto
termination drive_loop
  by (relation "measure (\<lambda>(c, d, l, w). rank l)") (auto intro: drive_step_rank [OF sym])

declare drive_loop.simps [simp del]

text \<open>The authority check comes first: a run that was started while entitled does not go on after a downgrade.\<close>

definition drive :: "platform \<Rightarrow> run_ids \<Rightarrow> 'a aworld deps \<Rightarrow> drive_state \<Rightarrow> 'a aworld \<Rightarrow> (agent_exn + RunOutcome) \<times> 'a aworld" where
  "drive pf c d l w =
     (case assert_agent_executable (pf_codec pf) (pf_pack_caps pf) (ri_org c) (ri_instance c) None (fst w) of
        (Inl e, s1) \<Rightarrow>
          (case interrupt_run c (dv_steps l) JNull (JObj [(''code'', JStr ''feature_not_in_plan''),
                 (''reason'', JStr (drop (length ''agent not executable: '') (refusal_text e)))]) (s1, snd w) of
             (out, w1) \<Rightarrow> (Inr out, w1))
      | (Inr _, s1) \<Rightarrow> drive_loop c d l (s1, snd w))"

subsection \<open>The dependencies of a run\<close>

record 's agent_engine =
  ag_platform :: platform
  ag_wiring :: wiring
  ag_services :: "string \<Rightarrow> json \<Rightarrow> (string, json, 's) op"
  ag_vendors :: "('s \<times> redis) vendors"
  ag_default_model :: "string \<Rightarrow> jobj \<Rightarrow> ModelResult"

definition entry_tier :: "jobj \<Rightarrow> string \<Rightarrow> int" where
  "entry_tier manifest name =
     (case find (\<lambda>e. jget_null e ''name'' = JStr name) (json_list (map_of manifest ''tools'')) of
        None \<Rightarrow> 1 | Some e \<Rightarrow> if truthy (jget_null e ''requires_tier_eval'') then 2 else 1)"

text \<open>An exception rolls the session back; Redis keeps what it was told.\<close>

definition proxy_tool :: "'a agent_db_scheme agent_engine \<Rightarrow> RunContext \<Rightarrow> string \<Rightarrow> jobj \<Rightarrow> 'a aworld
    \<Rightarrow> (agent_exn + tool_output) \<times> 'a aworld" where
  "proxy_tool en ctx name args w =
     (case call (ag_platform en) (REGISTRY (pf_crypto (ag_platform en)) (ag_wiring en) (ag_services en) ctx) None ctx name
             (JObj args) (set_org_context (rx_org_id ctx) (fst w), snd w) of
        (Inl (RunAborted _ _), s1, rd1) \<Rightarrow> (Inr ToolAborted, fst w, rd1)
      | (Inl e, s1, rd1) \<Rightarrow> (Inl (ToolRaised e), fst w, rd1)
      | (Inr r, w1) \<Rightarrow>
          (Inr (case tr_pending r of
             Some p \<Rightarrow> ToolNeedsApproval args (pn_tier p)
           | None \<Rightarrow> if tr_ok r then ToolOk (tr_output r)
               else ToolError (entry_tier (rx_manifest ctx) name) (map_option (\<lambda>e. (te_code e, te_message e)) (tr_error r))), w1))"

definition compose_run :: "crypto \<Rightarrow> uuid \<Rightarrow> uuid \<Rightarrow> string \<Rightarrow> RunState \<Rightarrow> 'a aworld \<Rightarrow> (string \<times> string) \<times> 'a aworld" where
  "compose_run C org inst persona st w =
     (case map_of (as_input st) ''task'' of
        Some (JStr (t # ts)) \<Rightarrow>
          (case get_active_binding org inst (t # ts) (set_org_context org (fst w)) of
             (None, s1) \<Rightarrow> (compose_prompt C persona st, s1, snd w)
           | (Some b, s1) \<Rightarrow>
               (case render_prompt C org b [] s1 of
                  (Inl _, s2) \<Rightarrow> (compose_prompt C persona st, s2, snd w)
                | (Inr p, s2) \<Rightarrow> ((cp_text p, cp_content_hash p), s2, snd w)))
      | _ \<Rightarrow> (compose_prompt C persona st, w))"

definition run_context :: "platform \<Rightarrow> uuid \<Rightarrow> uuid \<Rightarrow> instance_row \<Rightarrow> string list \<Rightarrow> string \<Rightarrow> RunContext" where
  "run_context pf org run i approved trigger =
     (let manifest = (case ai_permission_manifest i of JObj m \<Rightarrow> m | _ \<Rightarrow> [])
      in \<lparr>rx_org_id = org, rx_run_id = run, rx_instance_id = ai_id i, rx_manifest = manifest,
          rx_manifest_hash = manifest_hash (pf_crypto pf) manifest, rx_untrusted = False, rx_actor_id = None,
          rx_approved = approved, rx_communication_mode = mode_for_trigger (Some trigger)\<rparr>)"

definition agent_deps :: "'a agent_db_scheme agent_engine \<Rightarrow> uuid \<Rightarrow> uuid \<Rightarrow> instance_row \<Rightarrow> string list \<Rightarrow> string
    \<Rightarrow> 'a aworld deps" where
  "agent_deps en org run i approved trigger =
     \<lparr>dp_turn = turn (ag_vendors en) org run ''priya.reason'',
      dp_compose = compose_run (pf_crypto (ag_platform en)) org (ai_id i) (ai_persona_name i),
      dp_execute_tool = proxy_tool en (run_context (ag_platform en) org run i approved trigger)\<rparr>"

text \<open>After a rejection the driver is given the default model and the skeleton prompt.\<close>

definition reject_deps :: "'a agent_db_scheme agent_engine \<Rightarrow> uuid \<Rightarrow> uuid \<Rightarrow> instance_row \<Rightarrow> string \<Rightarrow> 'a aworld deps" where
  "reject_deps en org run i trigger =
     \<lparr>dp_turn = \<lambda>prompt context known w. (Some (ag_default_model en prompt context), known, w),
      dp_compose = \<lambda>st w. (compose_prompt (pf_crypto (ag_platform en)) (ai_persona_name i) st, w),
      dp_execute_tool = proxy_tool en (run_context (ag_platform en) org run i [] trigger)\<rparr>"

definition max_steps_of :: "jobj \<Rightarrow> int option" where
  "max_steps_of caps = (case map_of caps ''max_steps'' of None \<Rightarrow> Some DEFAULT_MAX_STEPS | Some v \<Rightarrow> py_int v)"

text \<open>Continuing a run of an instance from a cursor, with nothing retried and no route looked up.\<close>

definition drive_from :: "'a agent_db_scheme agent_engine \<Rightarrow> uuid \<Rightarrow> agent_run_row \<Rightarrow> instance_row \<Rightarrow> 'a aworld deps \<Rightarrow> checkpoint
    \<Rightarrow> 'a aworld \<Rightarrow> (agent_exn + RunOutcome) \<times> 'a aworld" where
  "drive_from en org r i d k w =
     (case max_steps_of (ai_budget_caps i) of
        None \<Rightarrow> (Inl BadBudget, w)
      | Some cap \<Rightarrow>
          drive (ag_platform en)
            \<lparr>ri_crypto = pf_crypto (ag_platform en), ri_org = org, ri_run = rn_id r, ri_instance = ai_id i,
             ri_conversation = rn_conversation_id r, ri_max_steps = cap\<rparr>
            d
            \<lparr>dv_cursor = ck_cursor k, dv_state = ck_state k, dv_seq = ck_seq k, dv_steps = ck_steps_taken k,
             dv_retries = 0, dv_routes = []\<rparr> w)"

subsection \<open>Starting\<close>

definition own_instance :: "uuid \<Rightarrow> 'a entitlement_db_scheme \<Rightarrow> instance_row option" where
  "own_instance inst s = find (\<lambda>i. rls_visible s (ai_org_id i) \<and> ai_id i = inst) (agent_instances s)"

definition new_run :: "crypto \<Rightarrow> uuid \<Rightarrow> instance_row \<Rightarrow> string \<Rightarrow> jobj \<Rightarrow> uuid option \<Rightarrow> string \<Rightarrow> uuid \<Rightarrow> agent_run_row" where
  "new_run C org i trigger inp conv digest run =
     \<lparr>rn_id = run, rn_org_id = org, rn_agent_instance_id = ai_id i, rn_conversation_id = conv, rn_trigger = trigger,
      rn_trace_id = take 32 (sha256 C (nat_str org @ '':'' @ nat_str (ai_id i) @ '':'' @ trigger)), rn_status = ''running'',
      rn_input = JObj inp, rn_output = JNull, rn_error = JNull, rn_composed_prompt_hash = digest,
      rn_permission_manifest_hash = manifest_hash C (case ai_permission_manifest i of JObj m \<Rightarrow> m | _ \<Rightarrow> []),
      rn_tokens_in = 0, rn_tokens_out = 0, rn_steps_taken = 0, rn_ended_at = None\<rparr>"

definition start_agent_run :: "'a agent_db_scheme agent_engine \<Rightarrow> uuid \<Rightarrow> uuid \<Rightarrow> string \<Rightarrow> jobj \<Rightarrow> uuid option \<Rightarrow> 'a aworld
    \<Rightarrow> (agent_exn + RunOutcome) \<times> 'a aworld" where
  "start_agent_run en org inst trigger inp conv w =
     (let s = set_org_context org (fst w); C = pf_crypto (ag_platform en) in
      case own_instance inst s of
        None \<Rightarrow> (Inl UnknownInstance, s, snd w)
      | Some i \<Rightarrow>
          (case compose_run C org inst (ai_persona_name i) ((initial_state inp)\<lparr>as_route_name := Some ''concierge''\<rparr>) (s, snd w) of
             ((prompt, digest), s1, rd1) \<Rightarrow>
               (let run = fresh s1; r = new_run C org i trigger inp conv digest run;
                    s2 = s1\<lparr>agent_runs := agent_runs s1 @ [r], fresh := run + 1\<rparr>
                in if fst (is_circuit_open org inst s) then
                     (Inr \<lparr>ro_run_id = run, ro_status = ''interrupted'', ro_response = None, ro_steps_taken = 0\<rparr>,
                      finish_run org run ''interrupted'' JNull (error_json ''circuit_open'' ''instance circuit open'') s2, rd1)
                   else drive_from en org r i (agent_deps en org run i [] trigger)
                          \<lparr>ck_cursor = None, ck_state = initial_state inp, ck_seq = 0, ck_steps_taken = 0\<rparr>
                          (s2, rd1))))"

subsection \<open>Resuming\<close>

text \<open>The run joined with its instance, as the session sees them.\<close>

definition joined_run :: "uuid \<Rightarrow> 'a run_db_scheme \<Rightarrow> (agent_run_row \<times> instance_row) option" where
  "joined_run run s =
     (case find (\<lambda>r. rls_visible s (rn_org_id r) \<and> rn_id r = run) (agent_runs s) of
        None \<Rightarrow> None
      | Some r \<Rightarrow> map_option (Pair r) (own_instance (rn_agent_instance_id r) s))"

text \<open>\<open>ORDER BY st.seq DESC LIMIT 1\<close>\<close>

definition newest_step :: "uuid \<Rightarrow> 'a agent_db_scheme \<Rightarrow> agent_step_row option" where
  "newest_step run s = order_first (\<lambda>p. - int (sp_seq p))
     (filter (\<lambda>p. rls_visible s (sp_org_id p) \<and> sp_run_id p = run) (agent_steps s))"

text \<open>From Redis, else from the newest step, else from the top with the run's own input.\<close>

definition recovered :: "agent_run_row \<Rightarrow> 'a agent_db_scheme \<Rightarrow> checkpoint" where
  "recovered r s =
     (case checkpoints s (rn_id r) of
        Some k \<Rightarrow> k
      | None \<Rightarrow>
          (case newest_step (rn_id r) s of
             Some p \<Rightarrow> \<lparr>ck_cursor = Some (sp_node p), ck_state = sp_state p, ck_seq = sp_seq p, ck_steps_taken = sp_seq p\<rparr>
           | None \<Rightarrow> \<lparr>ck_cursor = None, ck_state = initial_state (case rn_input r of JObj inp \<Rightarrow> inp | _ \<Rightarrow> []),
                    ck_seq = 0, ck_steps_taken = 0\<rparr>))"

definition resume_agent_run :: "'a agent_db_scheme agent_engine \<Rightarrow> uuid \<Rightarrow> uuid \<Rightarrow> 'a aworld \<Rightarrow> (agent_exn + RunOutcome) \<times> 'a aworld" where
  "resume_agent_run en run org w =
     (let s = set_org_context org (fst w) in
      case joined_run run s of
        None \<Rightarrow> (Inl UnknownRun, s, snd w)
      | Some (r, i) \<Rightarrow>
          if rn_status r \<in> {''succeeded'', ''failed''} then
            (Inr \<lparr>ro_run_id = run, ro_status = rn_status r, ro_response = None, ro_steps_taken = 0\<rparr>, s, snd w)
          else drive_from en org r i (agent_deps en org run i [] (rn_trigger r)) (recovered r s) (s, snd w))"

definition resolved_state :: "bool \<Rightarrow> RunState \<Rightarrow> RunState" where
  "resolved_state approve st =
     (if approve then st\<lparr>as_awaiting_approval := None\<rparr>
      else st\<lparr>as_awaiting_approval := None, as_decision := Some ''respond'', as_response := Some SAFE_CLOSE_TEXT,
              as_pending_tool := None\<rparr>)"

definition approved_tool :: "RunState \<Rightarrow> string list" where
  "approved_tool st = (case as_awaiting_approval st of None \<Rightarrow> [] | Some (a, tool) \<Rightarrow> [tool])"

definition resume_after_approval :: "'a agent_db_scheme agent_engine \<Rightarrow> uuid \<Rightarrow> uuid \<Rightarrow> bool \<Rightarrow> 'a aworld
    \<Rightarrow> (agent_exn + RunOutcome) \<times> 'a aworld" where
  "resume_after_approval en run org approve w =
     (let s = set_org_context org (fst w); rd = clear_untrusted run (snd w) in
      case joined_run run s of
        None \<Rightarrow> (Inl UnknownRun, s, rd)
      | Some (r, i) \<Rightarrow>
          (case checkpoints s run of
             None \<Rightarrow> (Inr \<lparr>ro_run_id = run, ro_status = rn_status r, ro_response = None, ro_steps_taken = 0\<rparr>, s, rd)
           | Some k \<Rightarrow>
               if rn_status r \<noteq> ''interrupted'' then
                 (Inr \<lparr>ro_run_id = run, ro_status = rn_status r, ro_response = None, ro_steps_taken = 0\<rparr>, s, rd)
               else drive_from en org r i
                      (if approve then agent_deps en org run i (approved_tool (ck_state k)) (rn_trigger r)
                       else reject_deps en org run i (rn_trigger r))
                      (k\<lparr>ck_state := resolved_state approve (ck_state k)\<rparr>) (s, rd)))"

text \<open>The consumer of \<open>approval.resolved.v1\<close>; the envelope's subject is the tenant.\<close>

definition on_run_approval_resolved :: "'a agent_db_scheme agent_engine \<Rightarrow> uuid \<Rightarrow> uuid option \<Rightarrow> string \<Rightarrow> 'a aworld
    \<Rightarrow> (agent_exn + RunOutcome option) \<times> 'a aworld" where
  "on_run_approval_resolved en org approval decision w =
     (case approval of
        None \<Rightarrow> (Inr None, w)
      | Some i \<Rightarrow>
          (let s = set_org_context org (fst w) in
           case find (\<lambda>a. rls_visible s (ar_org_id a) \<and> ar_id a = i) (approvals s) of
             None \<Rightarrow> (Inr None, s, snd w)
           | Some a \<Rightarrow>
               (case ar_run_id a of
                  None \<Rightarrow> (Inr None, s, snd w)
                | Some run \<Rightarrow>
                    (case resume_after_approval en run org (decision = ''approved'') (s, snd w) of
                       (r, w1) \<Rightarrow> (map_sum id Some r, w1)))))"

end
