(* ===== verification/AgentProofs.thy ===== *)
theory AgentProofs
  imports AgentRuns
begin

text \<open>
  What an agent run may do: it follows the declared graph and stops after a bounded number of steps, a
  checkpoint resumes it where it was, the kill switch stops it, and a parked action is made exactly as parked
  after an approval and never after a rejection.
\<close>

subsection \<open>The declared graph\<close>

text \<open>The edges of \<open>build_graph\<close>; the start is \<open>None\<close>.\<close>

definition GRAPH_EDGES :: "(node option \<times> node) list" where
  "GRAPH_EDGES = [(None, ROUTE), (Some ROUTE, COMPOSE), (Some COMPOSE, MODEL_TURN), (Some MODEL_TURN, TOOL_CALL),
     (Some MODEL_TURN, RESPOND), (Some TOOL_CALL, MODEL_TURN)]"

fun graph_path :: "node option \<Rightarrow> node list \<Rightarrow> bool" where
  "graph_path cur [] \<longleftrightarrow> True"
| "graph_path cur (n # ns) \<longleftrightarrow> (cur, n) \<in> set GRAPH_EDGES \<and> graph_path (Some n) ns"

text \<open>The nodes a run completes from a state of the loop.\<close>

function completed :: "run_ids \<Rightarrow> 'a aworld deps \<Rightarrow> drive_state \<Rightarrow> 'a aworld \<Rightarrow> node list" where
  "completed c d l w =
     (case drive_step c d l w of
        (Continue l1, w1) \<Rightarrow>
          (if dv_seq l1 = dv_seq l then completed c d l1 w1
           else (case dv_cursor l1 of None \<Rightarrow> [] | Some nd \<Rightarrow> [nd]) @ completed c d l1 w1)
      | _ \<Rightarrow> [])"
  by pat_completeness auto
termination completed
  by (relation "measure (\<lambda>(c, d, l, w). rank l)") (auto intro: drive_step_rank [OF sym])

declare completed.simps [simp del]

definition steps_left :: "node option \<Rightarrow> nat \<Rightarrow> nat" where
  "steps_left cur made = (let tools = 2 * (MAX_TOOL_CALLS - made) in
     case cur of None \<Rightarrow> tools + 4 | Some ROUTE \<Rightarrow> tools + 3 | Some COMPOSE \<Rightarrow> tools + 2 | Some TOOL_CALL \<Rightarrow> tools + 2
     | Some MODEL_TURN \<Rightarrow> tools + 1 | Some RESPOND \<Rightarrow> 0)"

text \<open>One iteration: a completed node is an edge of the graph and uses up a step; a retry uses up nothing.\<close>

lemma drive_step_moves:
  assumes "drive_step c d l w = (Continue l1, w1)"
  shows "(\<exists>nd. dv_seq l1 = Suc (dv_seq l) \<and> dv_steps l1 = Suc (dv_steps l) \<and> dv_cursor l1 = Some nd \<and>
        (dv_cursor l, nd) \<in> set GRAPH_EDGES \<and>
        steps_left (dv_cursor l1) (as_tool_calls_made (dv_state l1)) < steps_left (dv_cursor l) (as_tool_calls_made (dv_state l)) \<and>
        MAX_TOOL_CALLS - as_tool_calls_made (dv_state l1) + (if nd = TOOL_CALL then 1 else 0) \<le>
          MAX_TOOL_CALLS - as_tool_calls_made (dv_state l)) \<or>
     dv_seq l1 = dv_seq l \<and> dv_steps l1 = dv_steps l \<and> dv_cursor l1 = dv_cursor l \<and>
     as_tool_calls_made (dv_state l1) = as_tool_calls_made (dv_state l)"
  using assms
proof (cases rule: drive_step_Continue)
  case (Completed nd st known r wd wd')
  then have l1: "dv_cursor l1 = Some nd" "dv_state l1 = st" "dv_seq l1 = Suc (dv_seq l)" "dv_steps l1 = Suc (dv_steps l)"
    by (simp_all add: complete_node_Continue)
  show ?thesis
    using next_node_cases [OF Completed(1)] run_node_tools [OF Completed(2)] next_node_tool [of "dv_cursor l" "dv_state l"]
      Completed(1)
    by (intro disjI1 exI [of _ nd]) (auto simp: l1 GRAPH_EDGES_def steps_left_def Let_def)
next
  case (Retried st known t wd)
  then show ?thesis
    using next_node_tool [OF Retried(1)] run_node_tools [OF Retried(2)] by (auto simp: retry_state_def)
qed

lemma completed_follows:
  "graph_path (dv_cursor l) (completed c d l w) \<and>
   length (completed c d l w) \<le> steps_left (dv_cursor l) (as_tool_calls_made (dv_state l)) \<and>
   count_list (completed c d l w) TOOL_CALL \<le> MAX_TOOL_CALLS - as_tool_calls_made (dv_state l) \<and>
   (\<forall>out w1. drive_loop c d l w = (Inr out, w1) \<longrightarrow> ro_steps_taken out = dv_steps l + length (completed c d l w))"
proof (induction "rank l" arbitrary: l w rule: less_induct)
  case less
  obtain nx w1 where step: "drive_step c d l w = (nx, w1)" by (rule prod.exhaust)
  show ?case
  proof (cases nx)
    case (Continue l1)
    with step have go: "drive_step c d l w = (Continue l1, w1)" by simp
    have loop: "drive_loop c d l w = drive_loop c d l1 w1" by (subst drive_loop.simps) (simp add: go)
    note IH = less [OF drive_step_rank [OF go], of w1]
    from drive_step_moves [OF go] show ?thesis
    proof (elim disjE exE conjE)
      fix nd
      assume moved: "dv_seq l1 = Suc (dv_seq l)" "dv_steps l1 = Suc (dv_steps l)" "dv_cursor l1 = Some nd"
        "(dv_cursor l, nd) \<in> set GRAPH_EDGES"
        "steps_left (dv_cursor l1) (as_tool_calls_made (dv_state l1)) < steps_left (dv_cursor l) (as_tool_calls_made (dv_state l))"
        "MAX_TOOL_CALLS - as_tool_calls_made (dv_state l1) + (if nd = TOOL_CALL then 1 else 0) \<le>
           MAX_TOOL_CALLS - as_tool_calls_made (dv_state l)"
      then have "completed c d l w = nd # completed c d l1 w1" by (subst completed.simps) (simp add: go)
      with moved IH loop show ?thesis by (auto split: if_splits)
    next
      assume stay: "dv_seq l1 = dv_seq l" "dv_steps l1 = dv_steps l" "dv_cursor l1 = dv_cursor l"
        "as_tool_calls_made (dv_state l1) = as_tool_calls_made (dv_state l)"
      then have "completed c d l w = completed c d l1 w1" by (subst completed.simps) (simp add: go)
      with stay IH loop show ?thesis by simp
    qed
  next
    case (Stop out)
    have "completed c d l w = []" by (subst completed.simps) (simp add: step Stop)
    moreover have "ro_steps_taken out = dv_steps l"
      using step Stop
      by (auto simp: drive_step_def interrupted_def interrupt_run_def after_tool_def after_respond_def complete_node_def park_def
          park_send_def park_at_def hard_failure_def Let_def
          split: option.splits if_splits prod.splits sum.splits node.splits tool_output.splits)
    moreover have "drive_loop c d l w = (Inr out, w1)" by (subst drive_loop.simps) (simp add: step Stop)
    ultimately show ?thesis by simp
  next
    case (Raise e)
    have "completed c d l w = []" by (subst completed.simps) (simp add: step Raise)
    moreover have "drive_loop c d l w = (Inl e, w1)" by (subst drive_loop.simps) (simp add: step Raise)
    ultimately show ?thesis by simp
  qed
qed

text \<open>
  C9: the durable driver runs the declared graph, and it stops. Whatever the model, the tools and the vendors
  do, the nodes a fresh run completes form a path of the declared graph from its start, with at most twelve
  nodes of which at most four are tool calls, and the outcome reports exactly how many there were.
\<close>

theorem agent_run_follows_graph:
  "graph_path None (completed c d (l\<lparr>dv_cursor := None, dv_state := initial_state inp, dv_steps := 0\<rparr>) w) \<and>
   length (completed c d (l\<lparr>dv_cursor := None, dv_state := initial_state inp, dv_steps := 0\<rparr>) w) \<le> 12 \<and>
   count_list (completed c d (l\<lparr>dv_cursor := None, dv_state := initial_state inp, dv_steps := 0\<rparr>) w) TOOL_CALL \<le> 4 \<and>
   (case fst (drive_loop c d (l\<lparr>dv_cursor := None, dv_state := initial_state inp, dv_steps := 0\<rparr>) w) of
      Inl e \<Rightarrow> True
    | Inr out \<Rightarrow> ro_steps_taken out =
        length (completed c d (l\<lparr>dv_cursor := None, dv_state := initial_state inp, dv_steps := 0\<rparr>) w))"
proof -
  let ?l = "l\<lparr>dv_cursor := None, dv_state := initial_state inp, dv_steps := 0\<rparr>"
  show ?thesis
    using completed_follows [of ?l c d w]
    by (cases "drive_loop c d ?l w")
       (auto simp: steps_left_def MAX_TOOL_CALLS_def initial_state_def split: sum.splits)
qed

subsection \<open>An example run\<close>

definition example_agents :: agent_db where
  "example_agents = model_db.extend example_models (agent_db.fields [] (\<lambda>_. None))"

definition example_ids :: run_ids where
  "example_ids = \<lparr>ri_crypto = example_crypto, ri_org = 7, ri_run = 9, ri_instance = 5, ri_conversation = None, ri_max_steps = 40\<rparr>"

definition example_loop :: drive_state where
  "example_loop = \<lparr>dv_cursor = None, dv_state = initial_state [], dv_seq = 0, dv_steps = 0, dv_retries = 0, dv_routes = []\<rparr>"

definition example_deps :: "unit aworld deps" where
  "example_deps = \<lparr>dp_turn = (\<lambda>prompt context known w. (None, known, w)), dp_compose = (\<lambda>st w. (([], []), w)),
     dp_execute_tool = (\<lambda>name args w. (Inr (ToolOk JNull), w))\<rparr>"

definition example_killed :: agent_db where
  "example_killed = example_agents\<lparr>
     feature_flags := [\<lparr>ff_key = ''runtime.kill'', ff_flag_type = ''boolean'', ff_default_value = JBool True, ff_tier = 1\<rparr>],
     flag_rules := []\<rparr>"

definition example_agent_run :: agent_run_row where
  "example_agent_run = \<lparr>rn_id = 9, rn_org_id = 7, rn_agent_instance_id = 5, rn_conversation_id = None,
     rn_trigger = ''inbound'', rn_trace_id = [], rn_status = ''running'', rn_input = JObj [], rn_output = JNull,
     rn_error = JNull, rn_composed_prompt_hash = [], rn_permission_manifest_hash = [], rn_tokens_in = 0,
     rn_tokens_out = 0, rn_steps_taken = 0, rn_ended_at = None\<rparr>"

lemma example_agents_sel: "agent_steps example_agents = []" "checkpoints example_agents = (\<lambda>_. None)"
  by (simp_all add: example_agents_def agent_db.defs model_db.defs)

subsection \<open>The kill switch\<close>

text \<open>
  The kill switch stops a run before its next node: with the flag on, no model is asked and no tool is
  called; the run ends interrupted, and nothing changes but its row.
\<close>

theorem killed_run_does_nothing:
  assumes "kill_engaged (ri_crypto c) (ri_org c) (set_org_context (ri_org c) (fst w))" and "dv_cursor l \<noteq> Some RESPOND"
  shows "drive_loop c d l w =
    (Inr \<lparr>ro_run_id = ri_run c, ro_status = ''interrupted'', ro_response = None, ro_steps_taken = dv_steps l\<rparr>,
     finish_run (ri_org c) (ri_run c) ''interrupted'' JNull (error_json ''tenant_paused'' ''kill switch'') (fst w), snd w)"
proof -
  obtain nd where "next_node (dv_cursor l) (dv_state l) = Some nd"
    using assms(2) by (cases "(dv_cursor l, dv_state l)" rule: next_node.cases) auto
  with assms(1) show ?thesis
    by (subst drive_loop.simps) (simp add: drive_step_def interrupted_def interrupt_run_def)
qed

theorem killed_run_does_nothing_witness:
  "\<exists>s1. drive_loop example_ids example_deps example_loop (example_killed, redis_empty) =
     (Inr \<lparr>ro_run_id = 9, ro_status = ''interrupted'', ro_response = None, ro_steps_taken = 0\<rparr>, s1, redis_empty)"
proof -
  have "kill_engaged (ri_crypto example_ids) (ri_org example_ids)
      (set_org_context (ri_org example_ids) (fst (example_killed, redis_empty)))"
    by (simp add: kill_engaged_def load_snapshot_def flag_eval_def sorted_rules_def set_org_context_def example_killed_def
        KILL_SWITCH_FLAG_def)
  from killed_run_does_nothing [OF this, of example_loop example_deps] show ?thesis
    by (simp add: example_loop_def example_ids_def)
qed

subsection \<open>Checkpoints\<close>

lemma order_first_newest:
  "(\<And>p. p \<in> set ps \<Longrightarrow> sp_seq p < sp_seq q) \<Longrightarrow> order_first (\<lambda>p. - int (sp_seq p)) (ps @ [q]) = Some q"
proof (induction ps)
  case (Cons p ps)
  then have "order_first (\<lambda>p. - int (sp_seq p)) (ps @ [q]) = Some q" by simp
  moreover have "sp_seq p < sp_seq q" using Cons.prems by simp
  ultimately show ?case by simp
qed simp

lemma persist_step_rows:
  assumes "\<And>p. p \<in> set (agent_steps s) \<Longrightarrow> sp_run_id p = run \<Longrightarrow> sp_seq p < sq"
  shows "agent_steps (persist_step org run sq nd st steps s) = agent_steps s @ [\<lparr>sp_org_id = org, sp_run_id = run, sp_seq = sq,
      sp_node = nd, sp_tool = (if nd = TOOL_CALL then as_last_tool st else None), sp_state = st\<rparr>]"
proof -
  have "\<not> list_ex (\<lambda>p. sp_run_id p = run \<and> sp_seq p = sq) (agent_steps s)"
    using assms by (force simp: list_ex_iff)
  then show ?thesis by (simp add: persist_step_def set_agent_run_def set_org_context_def Let_def)
qed

lemma persist_step_checkpoints [simp]: "checkpoints (persist_step org run sq nd st steps s) = checkpoints s"
  by (simp add: persist_step_def set_agent_run_def set_org_context_def Let_def)



subsection \<open>Parked actions\<close>

lemma emit_approvals_eq: "emit org ty payload src s = (r, s1) \<Longrightarrow> approvals s1 = approvals s"
  using emit_approvals(1) [of org ty payload src s] by simp

lemma create_approval_Inr:
  assumes "create_approval org action_type tier payload run_id by rules audit h s = (Inr a, s1)"
  shows "\<exists>row \<in> set (approvals s1). ar_id row = a \<and> ar_org_id row = org \<and> ar_action_type row = action_type \<and>
    ar_payload row = JObj payload \<and> ar_run_id row = run_id \<and> ar_status row = ''pending''"
  using assms by (auto simp: create_approval_def Let_def dest!: emit_approvals_eq split: prod.splits sum.splits)

text \<open>
  C11: an approved call is the parked call. Parking a tool call records a pending approval of exactly that call,
  and a checkpoint from which an approval lets the run make it: the next node is the tool call, with the same
  tool and arguments, and that tool is the one marked approved.
\<close>

theorem approved_call_is_parked_call:
  assumes "park c tool args tier st l w = (Stop out, w1)" and "dv_cursor l = Some MODEL_TURN"
    and "as_tool_calls_made st \<le> MAX_TOOL_CALLS"
  shows "\<exists>k. checkpoints (fst w1) (ri_run c) = Some k \<and> approved_tool (ck_state k) = [tool] \<and>
    (\<exists>a \<in> set (approvals (fst w1)). ar_run_id a = Some (ri_run c) \<and> ar_action_type a = tool \<and> ar_payload a = JObj args \<and>
       ar_status a = ''pending'' \<and> as_awaiting_approval (ck_state k) = Some (ar_id a, tool)) \<and>
    next_node (ck_cursor k) (resolved_state True (ck_state k)) = Some TOOL_CALL \<and>
    as_pending_tool (resolved_state True (ck_state k)) = Some (tool, args) \<and> ro_status out = ''interrupted''"
proof -
  obtain a s1 where made: "create_approval (ri_org c) tool tier args (Some (ri_run c)) (Some (ri_instance c)) [] None
      DEFAULT_EXPIRES_S (fst w) = (Inr a, s1)"
    using assms(1) by (auto simp: park_def park_at_def split: sum.splits prod.splits)
  let ?st = "st\<lparr>as_awaiting_approval := Some (a, tool), as_pending_tool := Some (tool, args),
        as_decision := Some ''tool'', as_tool_calls_made := as_tool_calls_made st - 1\<rparr>"
  have ends: "checkpoints (fst w1) (ri_run c) = Some \<lparr>ck_cursor = Some MODEL_TURN, ck_state = ?st, ck_seq = dv_seq l,
      ck_steps_taken = dv_steps l\<rparr>" "approvals (fst w1) = approvals s1" "ro_status out = ''interrupted''"
    using assms(1,2) made
    by (auto simp: park_def park_at_def interrupted_def interrupt_run_def write_checkpoint_def finish_run_def
        set_agent_run_def set_org_context_def Let_def)
  have "as_tool_calls_made st - 1 < MAX_TOOL_CALLS" using assms(3) by (auto simp: MAX_TOOL_CALLS_def)
  then have "next_node (Some MODEL_TURN) (resolved_state True ?st) = Some TOOL_CALL"
    by (simp add: model_turn_branch_def resolved_state_def)
  with ends create_approval_Inr [OF made] show ?thesis
    by (auto simp: approved_tool_def resolved_state_def)
qed

theorem approved_call_is_parked_call_witness:
  "\<exists>out w1. park example_ids ''payments.refund'' [(''amount'', JInt 5)] 2 ((initial_state [])\<lparr>as_tool_calls_made := 1\<rparr>)
       (example_loop\<lparr>dv_cursor := Some MODEL_TURN\<rparr>) (example_agents, redis_empty) = (Stop out, w1) \<and>
     ro_status out = ''interrupted''"
proof -
  have "\<exists>out w1. park example_ids ''payments.refund'' [(''amount'', JInt 5)] 2 ((initial_state [])\<lparr>as_tool_calls_made := 1\<rparr>)
       (example_loop\<lparr>dv_cursor := Some MODEL_TURN\<rparr>) (example_agents, redis_empty) = (Stop out, w1)"
    by (simp add: park_def park_at_def interrupted_def interrupt_run_def create_approval_def set_org_context_def emit_def
        ALLOWED_EVENT_TYPES_def validate_payload_def PAYLOAD_SPECS_def check_field_def ends_with_def type_map_accepts_def Let_def)
  then obtain out w1 where park: "park example_ids ''payments.refund'' [(''amount'', JInt 5)] 2
       ((initial_state [])\<lparr>as_tool_calls_made := 1\<rparr>) (example_loop\<lparr>dv_cursor := Some MODEL_TURN\<rparr>)
       (example_agents, redis_empty) = (Stop out, w1)" by blast
  from approved_call_is_parked_call [OF park] park show ?thesis by (auto simp: MAX_TOOL_CALLS_def)
qed

text \<open>A run that goes on after a rejection answers with the safe close, and then it is over.\<close>

lemma rejected_next:
  "model_turn_branch (resolved_state False st) = RESPOND"
  "respond_node (resolved_state False st) = resolved_state False st"
  "run_node d RESPOND (resolved_state False st) known w = (Inr (Some (resolved_state False st)), known, w)"
  "as_response (resolved_state False st) = Some SAFE_CLOSE_TEXT"
  by (simp_all add: resolved_state_def model_turn_branch_def respond_node_def default_respond_def or_else_text_def)

lemma drive_loop_Respond:
  "dv_cursor l = Some RESPOND \<Longrightarrow> drive_loop c d l w = drive_loop c d' l w"
  by (subst (1 2) drive_loop.simps) (simp add: drive_step_def)

definition only_reply :: "run_ids \<Rightarrow> 'w deps \<Rightarrow> 'w deps" where
  "only_reply c d = \<lparr>dp_turn = (\<lambda>prompt context known w. (None, known, w)), dp_compose = (\<lambda>st w. (([], []), w)),
     dp_execute_tool = (\<lambda>name args w.
       if name = ''messages.send'' \<and> map_option (\<lambda>conv. reply_args conv SAFE_CLOSE_TEXT) (ri_conversation c) = Some args
       then dp_execute_tool d name args w else (Inl UnknownRun, w))\<rparr>"

lemma rejected_step:
  assumes "dv_cursor l = Some MODEL_TURN" and "dv_state l = resolved_state False st"
  shows "drive_step c d l w = drive_step c (only_reply c d) l w"
  using assms
  by (simp add: drive_step_def rejected_next after_respond_def only_reply_def or_else_text_def split: option.splits)

text \<open>
  C10: a rejected action is not taken, nor is any other. Whatever the model and the tools would do, a run that
  goes on after a rejection is the run in which no model can be asked, no prompt composed, and every tool call
  fails but one: the send of the safe close to the conversation the run answers.
\<close>

theorem rejected_run_only_replies:
  "drive pf c d (l\<lparr>dv_cursor := Some MODEL_TURN, dv_state := resolved_state False st\<rparr>) w =
   drive pf c (only_reply c d) (l\<lparr>dv_cursor := Some MODEL_TURN, dv_state := resolved_state False st\<rparr>) w"
proof -
  let ?l = "l\<lparr>dv_cursor := Some MODEL_TURN, dv_state := resolved_state False st\<rparr>"
  have "drive_loop c d ?l w = drive_loop c (only_reply c d) ?l w" for w
  proof -
    obtain nx w1 where step: "drive_step c d ?l w = (nx, w1)" by (rule prod.exhaust)
    then have same: "drive_step c (only_reply c d) ?l w = (nx, w1)" using rejected_step [of ?l st c d w] by simp
    show ?thesis
    proof (cases nx)
      case (Continue l1)
      with step have "drive_step c d ?l w = (Continue l1, w1)" by simp
      then have "dv_cursor l1 = Some RESPOND"
        by (cases rule: drive_step_Continue) (auto simp: rejected_next complete_node_Continue)
      from drive_loop_Respond [OF this, of c d w1 "only_reply c d"] show ?thesis
        by (subst (1 2) drive_loop.simps) (simp add: step same Continue)
    qed (subst (1 2) drive_loop.simps, simp add: step same)+
  qed
  then show ?thesis by (auto simp: drive_def split: sum.splits prod.splits)
qed

end
