(* ===== verification/Spec2Isabelle.thy ===== *)
theory Spec2Isabelle
  imports Consumer Scheduler RateLimits Entitlements Failure Manifest Proxy Tools StepAuthority Waits Concurrency Routing
    Rates Presentation AgentProofs
begin

text \<open>
  Growth Operator: a verification library for the core of the platform, \<open>src/core\<close>.

  \<^bold>\<open>The program.\<close> The platform runs AI workers for many tenants. A worker, or a declared workflow,
  proposes a tool call; the mediation proxy decides whether it may run (entitlements, worker
  authority, signed manifest, rate and budget limits, the tier of the approval policy, a human
  decision in the approval queue). A worker is an agent run, a loop over a graph of nodes with a
  checkpoint after each; a declared workflow is compiled to instructions and advanced by events, waits
  and decisions. Prices a message may quote come from formulas of the tenant's pack over stored rates.
  A tool that reaches a customer goes through the send adapter
  (audit capability, single-use execution token, consent, suppression, quoted figures, template
  approval, idempotency). Everything is written to one database under row level security: an
  append-only hash-chained audit log, and an outbox of events that a publisher moves to Redis
  streams, where consumers process each event at most once per handler.

  \<^bold>\<open>State.\<close> The tables a component owns are a record that extends the record of the components it
  uses, so that a handler is a function of the whole session state:
  \<open>base_db\<close> (clock, fresh identifiers, tenant context) -- \<open>audit_db\<close> -- \<open>outbox_db\<close> -- \<open>token_db\<close> --
  \<open>ledger_db\<close> -- \<open>settings_db\<close> -- \<open>policy_db\<close> -- \<open>approval_db\<close> -- \<open>entitlement_db\<close> -- \<open>failure_db\<close> -- \<open>crm_db\<close> --
  \<open>template_db\<close> -- \<open>attempt_db\<close> -- \<open>send_db\<close> -- \<open>run_db\<close> -- \<open>wf_db\<close>, which is extended by \<open>flow_db\<close> (definitions
  and activations of workflows) and by \<open>prompt_db\<close> -- \<open>model_db\<close> -- \<open>agent_db\<close> (the agent runtime); \<open>price_db\<close>
  extends \<open>entitlement_db\<close>. Redis is the separate record of theory Redis; the agents' checkpoints, which the
  source keeps there, are a component of \<open>agent_db\<close>. A
  handler that raises is a value \<open>Inl\<close> of its error type with the state at the raise; a caller that
  rolls back the transaction does so explicitly.

  \<^bold>\<open>Theories and sources.\<close>
  Prelude, Json and Text hold what Python and Postgres give every module (sessions, identifiers,
  JSON values, strings). Once is the contract of an insert that claims a key once; it is interpreted
  on the token burn, the consumer's dedupe row and the dispatch claim of a send. Redis is the part
  of Redis the program uses.
  AuditLog: \<open>core/audit\<close>. Outbox, Consumer, Scheduler: \<open>core/events\<close>. Tokens, Policy, Approvals:
  \<open>core/approvals\<close>. Figures: \<open>core/pricing/extract.py\<close> and \<open>ledger.py\<close>. Settings:
  \<open>core/tenancy/settings.py\<close>, \<open>quiet_hours.py\<close> and \<open>core/customers/consent.py\<close>. Capabilities, Entitlements:
  \<open>core/tenancy/capabilities.py\<close>, \<open>plan_config.py\<close>, \<open>entitlements.py\<close>. RateLimits:
  \<open>core/mediation/limits.py\<close> and \<open>core/landing/ratelimit.py\<close>. Failure: \<open>core/runtime/failure.py\<close>.
  Manifest, Proxy, Tools: \<open>core/mediation\<close>. Leads, Attempts: \<open>core/customers\<close>. Templates, Send:
  \<open>core/channels/whatsapp\<close>.

  Program: the instructions of \<open>core/workflows/program.py\<close>; Frame: what the tools and the send adapter leave
  unchanged. Runs, Workflows, Progress, Concurrency: \<open>executor.py\<close> (rows and journal; advancing, waking,
  resuming and compensating; that it ends; which run of a key is live). StepAuthority: \<open>tool_step.py\<close>
  through the proxy. Waits: \<open>waits.py\<close> and \<open>consumer.py\<close>. Guards, Authoring, OwnerWorkflows: \<open>guards.py\<close>,
  \<open>parser.py\<close>, \<open>schema.py\<close>, \<open>store.py\<close>, \<open>authoring.py\<close>. Triggers, Routing: \<open>triggers.py\<close>, \<open>simulate.py\<close>,
  \<open>activation.py\<close>.

  Decimals, Formula, Pricing, Rewriting: the arithmetic, functions, evaluator and source rewriting of
  \<open>core/pricing/engine.py\<close> and \<open>functions.py\<close>. Quotes, Replay: \<open>service.py\<close> and \<open>registry.py\<close>. Rates:
  \<open>rates.py\<close>. Presentation: \<open>render.py\<close>.

  Flags: \<open>core/tenancy/flags.py\<close>. Prompts: \<open>core/prompts\<close>. Models: \<open>core/runtime/routing.py\<close>,
  \<open>model_registry.py\<close>, \<open>providers.py\<close>, \<open>inference_policy.py\<close>. Agent, AgentRuns, AgentProofs:
  \<open>core/runtime/graph.py\<close>, \<open>executor.py\<close>, \<open>resume.py\<close> (one iteration of the driver; the loop, starting
  and resuming; their properties).

  \<^bold>\<open>What the lemmas show.\<close> Every theory has the preservation lemmas of its invariant and the outcome of
  its operations on every branch; the properties the manifest names state, among others: audit chains
  stay verifiable and are tamper evident; a token is used once and only for the action it was minted
  for; the floors of the policy hold whatever the tenant's rules say; a decision on an approval is
  final except for the ladder's unguarded update, which is exhibited; entitlements are the greatest
  dependency-closed set; a mediated tool runs only past every gate that the state says is open, and a
  message leaves only past those of the send adapter; a keyed send dispatches once; published events
  are those committed, in order, and a consumer handles each once; a workflow advance ends, a wait is
  claimed once, one run of a key is live, and what an owner writes cannot reach suppressed contacts or
  emit events; a quote is replayed to the same figures, with fresh rates and ledgered amounts; an agent
  run follows its graph and stops, recovers the state of its last checkpoint, makes the parked call as
  it was parked after an approval, and after a rejection sends nothing but the safe close.

  \<^bold>\<open>Parameters.\<close> What is not under \<open>src\<close> is an argument: hashing, signatures and encryption, CEL
  compilation and evaluation, Python's expression parser, the vendors of language models, rate fetchers,
  the formatting of dates, JSON-Schema validation, Meta's HTTP API, regular-expression engine details beyond the
  patterns used. Where a property needs a law of such an argument (injective hashing, verification of
  signatures) it is a named hypothesis, and the witness instantiates the argument.

  \<^bold>\<open>Termination and fuel.\<close> All operations are total functions. Polling loops of the source that never
  end are modelled by their body; retry loops recurse on the number of attempts left. The rewriting of a
  formula recurses on the number of its opening parentheses. Advancing a workflow takes fuel: the
  instructions its run has left, and for every run queued behind it the length of the program and one,
  are proved to be enough. The agent's driver needs none: the measure \<open>rank\<close>, of the cursor, the tool
  calls made and the retries, falls with every iteration.

  \<^bold>\<open>Not modelled.\<close> HTTP endpoints and the web client that only format requests and replies, rendering
  of approval cards, the wire formats of model vendors, storage of files and media, campaigns, billing,
  payments, ingestion, landing pages, administration, migrations and scripts; the manifest lists every
  part with its reason. A decimal beyond the exponents and precision of the source's context is a value
  of its own (\<open>Outside\<close>) and not a rounded result; floats are not modelled; of the deadlines of an agent's
  nodes only the model's is.
\<close>

end
